(* ===== verification/Prelude.thy ===== *)
theory Prelude
  imports Main "HOL-Library.AList" "HOL-Library.Word" "HOL-Library.List_Lexorder"
    "HOL-Library.Char_ord" "HOL-Library.Product_Lexorder" "HOL-Library.Multiset"
begin

text \<open>
  Shared vocabulary of the development: results as sums with the error on the left, Go maps as
  association lists with distinct keys, duplicate-free sorted key lists, and the generic lemmas
  that the component theories use. Go strings are byte lists (\<open>string\<close>), ordered
  lexicographically by byte, as Go's \<open><\<close> on strings is.
\<close>

named_theorems res_simps \<open>unfolding of the result combinators\<close>
named_theorems inv_intros \<open>preservation lemmas of component invariants\<close>

section \<open>Results\<close>

text \<open>A fallible Go function returns \<open>(T, error)\<close>: \<open>Inl\<close> is a non-nil error.\<close>

definition res_bind :: "'e + 'a \<Rightarrow> ('a \<Rightarrow> 'e + 'b) \<Rightarrow> 'e + 'b" where
  "res_bind m f = (case m of Inl e \<Rightarrow> Inl e | Inr x \<Rightarrow> f x)"

text \<open>\<open>if cond { return err }\<close>: the guard of an early return.\<close>

definition guard :: "bool \<Rightarrow> 'e \<Rightarrow> 'e + unit" where
  "guard bad e = (if bad then Inl e else Inr ())"

lemma res_bind_simps [simp]:
  "res_bind (Inl e) f = Inl e"
  "res_bind (Inr x) f = f x"
  by (simp_all add: res_bind_def)

lemma res_bind_Inr_iff [res_simps]:
  "res_bind m f = Inr y \<longleftrightarrow> (\<exists>x. m = Inr x \<and> f x = Inr y)"
  by (cases m) auto

lemma res_bind_Inl_iff [res_simps]:
  "res_bind m f = Inl e \<longleftrightarrow> m = Inl e \<or> (\<exists>x. m = Inr x \<and> f x = Inl e)"
  by (cases m) auto

lemma guard_Inr_iff [simp]: "guard b e = Inr u \<longleftrightarrow> \<not> b"
  by (simp add: guard_def)

lemma guard_Inl_iff [simp]: "guard b e = Inl e' \<longleftrightarrow> b \<and> e = e'"
  by (simp add: guard_def)

lemma guard_simps [simp]:
  "guard True e = Inl e"
  "guard False e = Inr ()"
  by (simp_all add: guard_def)

text \<open>Stopping at the first error of a loop over a list.\<close>

fun first_error :: "('a \<Rightarrow> 'e + unit) \<Rightarrow> 'a list \<Rightarrow> 'e + unit" where
  "first_error f [] = Inr ()"
| "first_error f (x # xs) = res_bind (f x) (\<lambda>_. first_error f xs)"

lemma first_error_Inr_iff [simp]:
  "first_error f xs = Inr u \<longleftrightarrow> (\<forall>x \<in> set xs. f x = Inr ())"
  by (induction xs) (auto simp: res_simps)

lemma first_error_InlD:
  "first_error f xs = Inl e \<Longrightarrow> \<exists>x \<in> set xs. f x = Inl e"
  by (induction xs) (auto simp: res_simps)

section \<open>Sorted duplicate-free lists\<close>

text \<open>Collecting the keys of a Go map and sorting them.\<close>

definition sorted_keys :: "'a::linorder list \<Rightarrow> 'a list" where
  "sorted_keys xs = sort (remdups xs)"

lemma set_sorted_keys [simp]: "set (sorted_keys xs) = set xs"
  by (simp add: sorted_keys_def)

lemma distinct_sorted_keys [simp]: "distinct (sorted_keys xs)"
  by (simp add: sorted_keys_def)

lemma sorted_sorted_keys [simp]: "sorted (sorted_keys xs)"
  by (simp add: sorted_keys_def)

lemma sorted_keys_idem [simp]: "sorted_keys (sorted_keys xs) = sorted_keys xs"
  by (simp add: sorted_keys_def sorted_sort_id)

lemma sorted_keys_cong: "set xs = set ys \<Longrightarrow> sorted_keys xs = sorted_keys ys"
  by (metis distinct_sorted_keys set_sorted_keys sorted_distinct_set_unique sorted_sorted_keys)

lemma sorted_keys_id: "sorted xs \<Longrightarrow> distinct xs \<Longrightarrow> sorted_keys xs = xs"
  by (metis distinct_sorted_keys set_sorted_keys sorted_distinct_set_unique sorted_sorted_keys)

section \<open>Lists sorted by a key\<close>

lemma sort_key_unique_keys:
  assumes "mset xs = mset ys" and "inj_on k (set xs)" and "distinct xs"
  shows "sort_key k xs = sort_key k ys"
proof -
  have "distinct (map k (sort_key k xs))"
    using assms by (simp add: distinct_map)
  moreover have "set (map k (sort_key k xs)) = set (map k (sort_key k ys))"
    using assms(1) by (metis list.set_map set_mset_mset set_sort)
  moreover have "distinct (map k (sort_key k ys))"
    using assms by (metis distinct_map distinct_sort mset_eq_imp_distinct_iff set_mset_mset set_sort)
  ultimately have eq: "map k (sort_key k xs) = map k (sort_key k ys)"
    by (intro sorted_distinct_set_unique) auto
  have "set (sort_key k xs) = set xs" "set (sort_key k ys) = set xs"
    using assms(1) by (simp_all, metis set_mset_mset)
  then show ?thesis
    using eq assms(2) by (metis map_inj_on sup.idem)
qed

section \<open>Go maps as association lists\<close>

text \<open>
  \<open>m[k] = v\<close> is \<^const>\<open>AList.update\<close>, \<open>delete(m, k)\<close> is \<^const>\<open>AList.delete\<close>, and
  \<open>v, ok := m[k]\<close> is \<^const>\<open>map_of\<close>. Every map of the model has distinct keys.
\<close>

definition keys :: "('k \<times> 'v) list \<Rightarrow> 'k list" where
  "keys m = map fst m"

definition wf_map :: "('k \<times> 'v) list \<Rightarrow> bool" where
  "wf_map m \<longleftrightarrow> distinct (keys m)"

lemma wf_map_Nil [simp]: "wf_map []"
  by (simp add: wf_map_def keys_def)

lemma wf_map_update [simp, intro]: "wf_map m \<Longrightarrow> wf_map (AList.update k v m)"
  by (simp add: wf_map_def keys_def distinct_update)

lemma wf_map_delete [simp, intro]: "wf_map m \<Longrightarrow> wf_map (AList.delete k m)"
  by (simp add: wf_map_def keys_def distinct_delete)

lemma set_keys_update [simp]: "set (keys (AList.update k v m)) = insert k (set (keys m))"
  by (simp add: keys_def dom_map_of_conv_image_fst [symmetric] update_conv')

lemma map_of_update [simp]: "map_of (AList.update k v m) = (map_of m)(k \<mapsto> v)"
  by (simp add: update_conv')

lemma map_of_delete [simp]: "map_of (AList.delete k m) = (map_of m)(k := None)"
  by (simp add: delete_conv')

lemma set_keys_map_of: "set (keys m) = dom (map_of m)"
  by (simp add: keys_def dom_map_of_conv_image_fst)

lemma map_of_in_keys: "map_of m k = Some v \<Longrightarrow> k \<in> set (keys m)"
  by (auto simp: set_keys_map_of)

lemma map_of_None_keys: "map_of m k = None \<longleftrightarrow> k \<notin> set (keys m)"
  by (auto simp: set_keys_map_of)

lemma wf_map_map_of: "wf_map m \<Longrightarrow> (k, v) \<in> set m \<longleftrightarrow> map_of m k = Some v"
  by (simp add: wf_map_def keys_def)

section \<open>64-bit signed integers\<close>

text \<open>Go's \<open>int\<close> and \<open>int64\<close> are two's complement and wrap around; the order is the signed one.\<close>

type_synonym int64 = "64 word"

definition less64 :: "int64 \<Rightarrow> int64 \<Rightarrow> bool" where
  "less64 a b \<longleftrightarrow> sint a < sint b"

definition le64 :: "int64 \<Rightarrow> int64 \<Rightarrow> bool" where
  "le64 a b \<longleftrightarrow> sint a \<le> sint b"

lemma sint64_range: "- (2 ^ 63) \<le> sint (a :: int64) \<and> sint a < 2 ^ 63"
  using sint_ge [of a] sint_lt [of a] by simp

lemma sint64_add:
  "- (2 ^ 63) \<le> sint a + sint b \<Longrightarrow> sint a + sint b < 2 ^ 63 \<Longrightarrow>
   sint (a + b :: int64) = sint a + sint b"
  by (simp add: sint_word_ariths signed_take_bit_int_eq_self)

end
