(* ===== verification/GoStrings.thy ===== *)
theory GoStrings
  imports Prelude
begin

text \<open>
  The functions of Go's \<open>strings\<close> and \<open>unicode\<close> packages that the modelled code calls, on byte
  strings. \<open>strings.TrimSpace\<close> removes the UTF-8 encodings of the Unicode white space code points
  from both ends; a lone byte above 127 is no white space. The case tables of \<open>unicode.ToLower\<close>
  outside ASCII are a parameter of the definitions that fold case.
\<close>

definition byte :: "nat \<Rightarrow> char" where
  "byte n = char_of n"

abbreviation code :: "char \<Rightarrow> nat" where
  "code c \<equiv> of_char c"

definition ascii_space :: "char \<Rightarrow> bool" where
  "ascii_space c \<longleftrightarrow> code c \<in> {9, 10, 11, 12, 13, 32}"

text \<open>U+0085 and U+00A0.\<close>

definition space2 :: "char \<Rightarrow> char \<Rightarrow> bool" where
  "space2 a b \<longleftrightarrow> code a = 194 \<and> (code b = 133 \<or> code b = 160)"

text \<open>U+1680, U+2000 to U+200A, U+2028, U+2029, U+202F, U+205F and U+3000.\<close>

definition space3 :: "char \<Rightarrow> char \<Rightarrow> char \<Rightarrow> bool" where
  "space3 a b c \<longleftrightarrow>
     (code a = 225 \<and> code b = 154 \<and> code c = 128) \<or>
     (code a = 226 \<and> code b = 128 \<and>
        (128 \<le> code c \<and> code c \<le> 138 \<or> code c = 168 \<or> code c = 169 \<or> code c = 175)) \<or>
     (code a = 226 \<and> code b = 129 \<and> code c = 159) \<or>
     (code a = 227 \<and> code b = 128 \<and> code c = 128)"

fun trim_left :: "string \<Rightarrow> string" where
  "trim_left [] = []"
| "trim_left [a] = (if ascii_space a then [] else [a])"
| "trim_left [a, b] =
     (if ascii_space a then trim_left [b] else if space2 a b then [] else [a, b])"
| "trim_left (a # b # c # s) =
     (if ascii_space a then trim_left (b # c # s)
      else if space2 a b then trim_left (c # s)
      else if space3 a b c then trim_left s
      else a # b # c # s)"

text \<open>The right end, on the reversed string: the bytes of a code point come last byte first.\<close>

fun trim_left_rev :: "string \<Rightarrow> string" where
  "trim_left_rev [] = []"
| "trim_left_rev [a] = (if ascii_space a then [] else [a])"
| "trim_left_rev [a, b] =
     (if ascii_space a then trim_left_rev [b] else if space2 b a then [] else [a, b])"
| "trim_left_rev (a # b # c # s) =
     (if ascii_space a then trim_left_rev (b # c # s)
      else if space2 b a then trim_left_rev (c # s)
      else if space3 c b a then trim_left_rev s
      else a # b # c # s)"

definition trim_right :: "string \<Rightarrow> string" where
  "trim_right s = rev (trim_left_rev (rev s))"

text \<open>\<open>strings.TrimSpace\<close>.\<close>

definition trim_space :: "string \<Rightarrow> string" where
  "trim_space s = trim_right (trim_left s)"

text \<open>\<open>strings.TrimSpace(s) == ""\<close>.\<close>

definition blank :: "string \<Rightarrow> bool" where
  "blank s \<longleftrightarrow> trim_space s = []"

definition is_ascii :: "string \<Rightarrow> bool" where
  "is_ascii s \<longleftrightarrow> (\<forall>c \<in> set s. code c < (128::nat))"

definition ascii_lower :: "char \<Rightarrow> char" where
  "ascii_lower c = (if 65 \<le> code c \<and> code c \<le> (90::nat) then byte (code c + 32) else c)"

text \<open>\<open>strings.ToLower\<close>: \<open>fold_case\<close> maps \<open>unicode.ToLower\<close> over a string that is not ASCII.\<close>

definition to_lower :: "(string \<Rightarrow> string) \<Rightarrow> string \<Rightarrow> string" where
  "to_lower fold_case s = (if is_ascii s then map ascii_lower s else fold_case s)"

text \<open>\<open>strings.HasPrefix\<close> and \<open>strings.TrimPrefix\<close>.\<close>

fun has_prefix :: "string \<Rightarrow> string \<Rightarrow> bool" where
  "has_prefix s [] = True"
| "has_prefix [] (p # ps) = False"
| "has_prefix (c # s) (p # ps) = (c = p \<and> has_prefix s ps)"

definition trim_prefix :: "string \<Rightarrow> string \<Rightarrow> string" where
  "trim_prefix s p = (if has_prefix s p then drop (length p) s else s)"

text \<open>\<open>isLowerHex\<close> of \<open>internal/scheduler/filecache.go\<close>.\<close>

definition lower_hex_char :: "char \<Rightarrow> bool" where
  "lower_hex_char c \<longleftrightarrow> 48 \<le> code c \<and> code c \<le> (57::nat) \<or> 97 \<le> code c \<and> code c \<le> (102::nat)"

definition is_lower_hex :: "string \<Rightarrow> nat \<Rightarrow> bool" where
  "is_lower_hex value n \<longleftrightarrow> length value = n \<and> (\<forall>c \<in> set value. lower_hex_char c)"

text \<open>Decimal rendering, as \<open>%d\<close> prints it.\<close>

fun nat_digits :: "nat \<Rightarrow> string" where
  "nat_digits n = (if n < 10 then [byte (48 + n)] else nat_digits (n div 10) @ [byte (48 + n mod 10)])"

declare nat_digits.simps [simp del]

definition int_digits :: "int \<Rightarrow> string" where
  "int_digits i = (if i < 0 then CHR ''-'' # nat_digits (nat (- i)) else nat_digits (nat i))"

section \<open>Trimming\<close>

lemma trim_left_suffix: "\<exists>p. s = p @ trim_left s"
  by (induction s rule: trim_left.induct) (auto, (metis append_Cons)+)

lemma trim_left_idem [simp]: "trim_left (trim_left s) = trim_left s"
  by (induction s rule: trim_left.induct) auto

lemma trim_left_rev_idem [simp]: "trim_left_rev (trim_left_rev s) = trim_left_rev s"
  by (induction s rule: trim_left_rev.induct) auto

lemma has_prefix_append: "has_prefix s p \<longleftrightarrow> (\<exists>t. s = p @ t)"
  by (induction s p rule: has_prefix.induct) auto

lemma has_prefix_self [simp]: "has_prefix (p @ t) p"
  by (auto simp: has_prefix_append)

lemma trim_prefix_append [simp]: "trim_prefix (p @ t) p = t"
  by (simp add: trim_prefix_def)

lemma is_lower_hex_length: "is_lower_hex v n \<Longrightarrow> length v = n"
  by (simp add: is_lower_hex_def)

lemma not_blank_Nil [simp]: "blank []"
  by (simp add: blank_def trim_space_def trim_right_def)

lemma ascii_lower_idem [simp]: "ascii_lower (ascii_lower c) = ascii_lower c"
  by (auto simp: ascii_lower_def byte_def)

end
