(* ===== verification/StageGraph.thy ===== *)
theory StageGraph
  imports GoStrings
begin

text \<open>
  The depth-first cycle search that \<open>hasCycle\<close> (\<open>internal/scheduler/dag.go\<close>) and
  \<open>journalPlanHasCycle\<close> (\<open>journal.go\<close>) share: the closure \<open>visit\<close> over a map of marks
  (0, 1 and 2 in the source). The recursion of the source is bounded by the number of unvisited
  identifiers; the model passes that bound as fuel and the lemmas show that the fuel suffices and
  that the answer is exactly the existence of a dependency cycle.
\<close>

datatype mark = Unvisited | Active | Done

fun dfs_visit :: "nat \<Rightarrow> ('k \<Rightarrow> 'k list) \<Rightarrow> 'k \<Rightarrow> ('k \<Rightarrow> mark) \<Rightarrow> (bool \<times> ('k \<Rightarrow> mark)) option"
  and dfs_deps :: "nat \<Rightarrow> ('k \<Rightarrow> 'k list) \<Rightarrow> 'k list \<Rightarrow> ('k \<Rightarrow> mark) \<Rightarrow> (bool \<times> ('k \<Rightarrow> mark)) option"
where
  "dfs_visit 0 dep x st = None"
| "dfs_visit (Suc n) dep x st =
     (case st x of
        Active \<Rightarrow> Some (True, st)
      | Done \<Rightarrow> Some (False, st)
      | Unvisited \<Rightarrow>
          (case dfs_deps n dep (dep x) (st(x := Active)) of
             None \<Rightarrow> None
           | Some (True, st') \<Rightarrow> Some (True, st')
           | Some (False, st') \<Rightarrow> Some (False, st'(x := Done))))"
| "dfs_deps n dep [] st = Some (False, st)"
| "dfs_deps n dep (d # ds) st =
     (case dfs_visit n dep d st of
        None \<Rightarrow> None
      | Some (True, st') \<Rightarrow> Some (True, st')
      | Some (False, st') \<Rightarrow> dfs_deps n dep ds st')"

text \<open>The dependency map: a missing key yields the zero stage, which has no dependencies.\<close>

definition dep_of :: "('k \<times> 'k list) list \<Rightarrow> 'k \<Rightarrow> 'k list" where
  "dep_of m x = (case map_of m x of None \<Rightarrow> [] | Some ds \<Rightarrow> ds)"

definition search_fuel :: "('k \<times> 'k list) list \<Rightarrow> 'k list \<Rightarrow> nat" where
  "search_fuel m order = Suc (length order + length (concat (map snd m)))"

definition cycle_search :: "('k \<times> 'k list) list \<Rightarrow> 'k list \<Rightarrow> bool option" where
  "cycle_search m order =
     map_option fst (dfs_deps (search_fuel m order) (dep_of m) order (\<lambda>_. Unvisited))"

definition dep_rel :: "('k \<Rightarrow> 'k list) \<Rightarrow> ('k \<times> 'k) set" where
  "dep_rel dep = {(x, y). y \<in> set (dep x)}"

section \<open>What a visit does to the marks\<close>

lemma visit_False_iff:
  "dfs_visit (Suc n) dep x st = Some (False, st') \<longleftrightarrow>
     (st x = Done \<and> st' = st) \<or>
     (st x = Unvisited \<and>
        (\<exists>s1. dfs_deps n dep (dep x) (st(x := Active)) = Some (False, s1) \<and> st' = s1(x := Done)))"
  by (cases "st x") (auto split: option.splits bool.splits prod.splits)

lemma visit_True_iff:
  "dfs_visit (Suc n) dep x st = Some (True, st') \<longleftrightarrow>
     (st x = Active \<and> st' = st) \<or>
     (st x = Unvisited \<and> dfs_deps n dep (dep x) (st(x := Active)) = Some (True, st'))"
  by (cases "st x") (auto split: option.splits bool.splits prod.splits)

lemma deps_False_iff:
  "dfs_deps n dep (d # ds) st = Some (False, st') \<longleftrightarrow>
     (\<exists>s1. dfs_visit n dep d st = Some (False, s1) \<and> dfs_deps n dep ds s1 = Some (False, st'))"
  by (auto split: option.splits bool.splits prod.splits)

lemma deps_True_iff:
  "dfs_deps n dep (d # ds) st = Some (True, st') \<longleftrightarrow>
     dfs_visit n dep d st = Some (True, st') \<or>
     (\<exists>s1. dfs_visit n dep d st = Some (False, s1) \<and> dfs_deps n dep ds s1 = Some (True, st'))"
  by (auto split: option.splits bool.splits prod.splits)

lemmas dfs_iffs = visit_False_iff visit_True_iff deps_False_iff deps_True_iff

lemma visit_None_iff:
  "dfs_visit (Suc n) dep x st = None \<longleftrightarrow>
     st x = Unvisited \<and> dfs_deps n dep (dep x) (st(x := Active)) = None"
  by (cases "st x") (auto split: option.splits bool.splits)

lemma deps_None_iff:
  "dfs_deps n dep (d # ds) st = None \<longleftrightarrow>
     dfs_visit n dep d st = None \<or>
     (\<exists>s1. dfs_visit n dep d st = Some (False, s1) \<and> dfs_deps n dep ds s1 = None)"
  by (auto split: option.splits bool.splits prod.splits)

text \<open>The recursion, without the step cases that the induction rule spells out.\<close>

lemma dfs_induct [case_names Zero Visit Nil Cons]:
  assumes "\<And>dep x st. P 0 dep x st"
    and "\<And>n dep x st. (st x = Unvisited \<Longrightarrow> Q n dep (dep x) (st(x := Active))) \<Longrightarrow> P (Suc n) dep x st"
    and "\<And>n dep st. Q n dep [] st"
    and "\<And>n dep d ds st. P n dep d st \<Longrightarrow>
           (\<And>s1. dfs_visit n dep d st = Some (False, s1) \<Longrightarrow> Q n dep ds s1) \<Longrightarrow> Q n dep (d # ds) st"
  shows "P n dep x st" and "Q n dep ds st"
proof (induction n dep x st and n dep ds st rule: dfs_visit_dfs_deps.induct)
  case (4 n dep d ds st)
  have "Q n dep ds s1" if "dfs_visit n dep d st = Some (False, s1)" for s1
    using "4.IH"(2) [of "(False, s1)" False s1] that by simp
  then show ?case by (rule assms(4) [OF "4.IH"(1)])
qed (rule assms; assumption)+

lemma dfs_marks:
  "dfs_visit n dep x st = Some (False, st') \<Longrightarrow>
     st' x = Done \<and> (\<forall>y. st' y = Active \<longleftrightarrow> st y = Active) \<and> (\<forall>y. st y = Done \<longrightarrow> st' y = Done)"
  "dfs_deps n dep ds st = Some (False, st') \<Longrightarrow>
     (\<forall>d \<in> set ds. st' d = Done) \<and> (\<forall>y. st' y = Active \<longleftrightarrow> st y = Active) \<and>
     (\<forall>y. st y = Done \<longrightarrow> st' y = Done)"
proof (induction n dep x st and n dep ds st arbitrary: st' and st' rule: dfs_induct)
  case (Visit n dep x st)
  from Visit.prems consider "st x = Done" "st' = st"
    | s1 where "st x = Unvisited" "dfs_deps n dep (dep x) (st(x := Active)) = Some (False, s1)"
        "st' = s1(x := Done)"
    unfolding visit_False_iff by blast
  then show ?case
  proof cases
    case 2
    with Visit.IH [of s1] have m: "\<forall>y. s1 y = Active \<longleftrightarrow> (st(x := Active)) y = Active"
      "\<forall>y. (st(x := Active)) y = Done \<longrightarrow> s1 y = Done"
      by blast+
    show ?thesis using m 2(1,3) by (auto split: if_splits)
  qed simp
next
  case (Cons n dep d ds st)
  then obtain s1 where s1: "dfs_visit n dep d st = Some (False, s1)"
    "dfs_deps n dep ds s1 = Some (False, st')"
    unfolding deps_False_iff by blast
  show ?case using Cons.IH(1) [OF s1(1)] Cons.IH(2) [OF s1] by simp
qed simp_all

text \<open>Finished identifiers are closed under dependencies and lie on no cycle.\<close>

definition done_ok :: "('k \<Rightarrow> 'k list) \<Rightarrow> ('k \<Rightarrow> mark) \<Rightarrow> bool" where
  "done_ok dep st \<longleftrightarrow> (\<forall>x. st x = Done \<longrightarrow>
     (\<forall>y \<in> set (dep x). st y = Done) \<and> (x, x) \<notin> (dep_rel dep)\<^sup>+)"

lemma done_closed:
  assumes "done_ok dep st" and "(x, y) \<in> (dep_rel dep)\<^sup>*" and "st x = Done"
  shows "st y = Done"
  using assms(2,3) by (induction rule: rtrancl_induct) (use assms(1) in \<open>auto simp: done_ok_def dep_rel_def\<close>)

lemma done_ok_finish:
  assumes ok: "done_ok dep st" and deps: "\<forall>d \<in> set (dep x). st d = Done" and act: "st x \<noteq> Done"
  shows "done_ok dep (st(x := Done))"
proof -
  have "(x, x) \<notin> (dep_rel dep)\<^sup>+"
  proof
    assume "(x, x) \<in> (dep_rel dep)\<^sup>+"
    then obtain d where "(x, d) \<in> dep_rel dep" and "(d, x) \<in> (dep_rel dep)\<^sup>*"
      by (meson tranclD)
    then show False
      using done_closed [OF ok] deps act by (auto simp: dep_rel_def)
  qed
  then show ?thesis
    using ok deps by (auto simp: done_ok_def)
qed

lemma dfs_done_ok:
  "dfs_visit n dep x st = Some (False, st') \<Longrightarrow> done_ok dep st \<Longrightarrow> done_ok dep st'"
  "dfs_deps n dep ds st = Some (False, st') \<Longrightarrow> done_ok dep st \<Longrightarrow> done_ok dep st'"
proof (induction n dep x st and n dep ds st arbitrary: st' and st' rule: dfs_induct)
  case (Visit n dep x st)
  show ?case
  proof (cases "st x = Unvisited")
    case True
    with Visit.prems obtain s1 where s1: "dfs_deps n dep (dep x) (st(x := Active)) = Some (False, s1)"
      and st': "st' = s1(x := Done)"
      by (auto simp: visit_False_iff simp del: dfs_visit.simps)
    have "done_ok dep (st(x := Active))"
      using Visit.prems(2) True by (auto simp: done_ok_def)
    then have "done_ok dep s1"
      by (rule Visit.IH [OF True s1])
    moreover have "\<forall>d \<in> set (dep x). s1 d = Done" "s1 x = Active"
      using dfs_marks(2) [OF s1] by auto
    ultimately show ?thesis
      using done_ok_finish st' by (metis mark.distinct(5))
  qed (use Visit.prems in \<open>auto simp: visit_False_iff simp del: dfs_visit.simps\<close>)
next
  case (Cons n dep d ds st)
  then show ?case unfolding deps_False_iff by blast
qed simp_all

section \<open>A reported cycle exists\<close>

lemma dfs_true_cycle:
  "dfs_visit n dep x st = Some (True, st') \<Longrightarrow>
     (\<forall>g. st g = Active \<longrightarrow> (g, x) \<in> (dep_rel dep)\<^sup>+) \<Longrightarrow> \<exists>c. (c, c) \<in> (dep_rel dep)\<^sup>+"
  "dfs_deps n dep ds st = Some (True, st') \<Longrightarrow>
     (\<forall>g. st g = Active \<longrightarrow> (\<forall>d \<in> set ds. (g, d) \<in> (dep_rel dep)\<^sup>+)) \<Longrightarrow> \<exists>c. (c, c) \<in> (dep_rel dep)\<^sup>+"
proof (induction n dep x st and n dep ds st arbitrary: st' and st' rule: dfs_induct)
  case (Visit n dep x st)
  from Visit.prems(1) consider "st x = Active"
    | "st x = Unvisited" "dfs_deps n dep (dep x) (st(x := Active)) = Some (True, st')"
    unfolding visit_True_iff by blast
  then show ?case
  proof cases
    case 2
    have "(g, d) \<in> (dep_rel dep)\<^sup>+" if g: "(st(x := Active)) g = Active" and d: "d \<in> set (dep x)" for g d
    proof -
      have "(x, d) \<in> dep_rel dep" using d by (simp add: dep_rel_def)
      then show ?thesis
        using g Visit.prems(2) by (cases "g = x") (auto intro: trancl_into_trancl)
    qed
    then show ?thesis using Visit.IH [OF 2] by blast
  qed (use Visit.prems(2) in blast)
next
  case (Cons n dep d ds st)
  from Cons.prems(1) consider "dfs_visit n dep d st = Some (True, st')"
    | s1 where "dfs_visit n dep d st = Some (False, s1)" "dfs_deps n dep ds s1 = Some (True, st')"
    unfolding deps_True_iff by blast
  then show ?case
  proof cases
    case 2
    then show ?thesis
      using Cons.IH(2) [OF 2] Cons.prems(2) dfs_marks(1) [OF 2(1)] by simp
  qed (use Cons.IH(1) Cons.prems(2) in simp)
qed simp_all

section \<open>The fuel suffices\<close>

definition unvisited_in :: "'k set \<Rightarrow> ('k \<Rightarrow> mark) \<Rightarrow> 'k set" where
  "unvisited_in U st = {u \<in> U. st u = Unvisited}"

lemma unvisited_mono:
  "\<forall>y. st' y = Active \<longleftrightarrow> st y = Active \<Longrightarrow> \<forall>y. st y = Done \<longrightarrow> st' y = Done \<Longrightarrow>
   unvisited_in U st' \<subseteq> unvisited_in U st"
  by (auto simp: unvisited_in_def) (metis mark.exhaust)

lemma dfs_fuel:
  "finite U \<Longrightarrow> \<forall>u \<in> U. set (dep u) \<subseteq> U \<Longrightarrow> x \<in> U \<Longrightarrow> card (unvisited_in U st) < n \<Longrightarrow>
     dfs_visit n dep x st \<noteq> None"
  "finite U \<Longrightarrow> \<forall>u \<in> U. set (dep u) \<subseteq> U \<Longrightarrow> set ds \<subseteq> U \<Longrightarrow> card (unvisited_in U st) < n \<Longrightarrow>
     dfs_deps n dep ds st \<noteq> None"
proof (induction n dep x st and n dep ds st rule: dfs_induct)
  case (Visit n dep x st)
  have "dfs_deps n dep (dep x) (st(x := Active)) \<noteq> None" if un: "st x = Unvisited"
  proof -
    have "unvisited_in U (st(x := Active)) \<subset> unvisited_in U st"
      using Visit.prems(3) un by (auto simp: unvisited_in_def)
    moreover have "finite (unvisited_in U st)"
      using Visit.prems(1) by (simp add: unvisited_in_def)
    ultimately have "card (unvisited_in U (st(x := Active))) < card (unvisited_in U st)"
      by (rule psubset_card_mono [rotated])
    with Visit.prems(4) have "card (unvisited_in U (st(x := Active))) < n" by simp
    moreover have "set (dep x) \<subseteq> U" using Visit.prems(2,3) by blast
    ultimately show ?thesis
      using Visit.IH [OF un Visit.prems(1,2)] by blast
  qed
  then show ?case unfolding visit_None_iff by blast
next
  case (Cons n dep d ds st)
  have "dfs_deps n dep ds s1 \<noteq> None" if v: "dfs_visit n dep d st = Some (False, s1)" for s1
  proof -
    have "unvisited_in U s1 \<subseteq> unvisited_in U st"
      using dfs_marks(1) [OF v] by (intro unvisited_mono) auto
    then have "card (unvisited_in U s1) \<le> card (unvisited_in U st)"
      using Cons.prems(1) by (intro card_mono) (simp_all add: unvisited_in_def)
    then show ?thesis using Cons.IH(2) [OF v] Cons.prems by simp
  qed
  moreover have "dfs_visit n dep d st \<noteq> None"
    using Cons.IH(1) Cons.prems by simp
  ultimately show ?case unfolding deps_None_iff by blast
qed simp_all

section \<open>The search decides acyclicity\<close>

lemma cycle_search_total: "cycle_search m order \<noteq> None"
proof -
  define U where "U = set order \<union> set (concat (map snd m))"
  have "finite U" by (simp add: U_def)
  moreover have "\<forall>u \<in> U. set (dep_of m u) \<subseteq> U"
  proof
    fix u
    have "set (dep_of m u) \<subseteq> set (concat (map snd m))"
      by (cases "map_of m u") (force simp: dep_of_def dest: map_of_SomeD)+
    then show "set (dep_of m u) \<subseteq> U" by (auto simp: U_def)
  qed
  moreover have "set order \<subseteq> U" by (simp add: U_def)
  moreover have "card (unvisited_in U (\<lambda>_. Unvisited)) < search_fuel m order"
  proof -
    have "card U \<le> length order + length (concat (map snd m))"
      unfolding U_def by (metis card_length length_append set_append)
    then show ?thesis by (simp add: unvisited_in_def search_fuel_def)
  qed
  ultimately show ?thesis
    unfolding cycle_search_def using dfs_fuel(2) [of U "dep_of m" order] by simp
qed

lemma cycle_search_iff:
  assumes "set (keys m) \<subseteq> set order"
  shows "cycle_search m order = Some True \<longleftrightarrow> (\<exists>c. (c, c) \<in> (dep_rel (dep_of m))\<^sup>+)"
proof
  assume "cycle_search m order = Some True"
  then show "\<exists>c. (c, c) \<in> (dep_rel (dep_of m))\<^sup>+"
    by (auto simp: cycle_search_def dest!: dfs_true_cycle(2))
next
  assume "\<exists>c. (c, c) \<in> (dep_rel (dep_of m))\<^sup>+"
  then obtain c where c: "(c, c) \<in> (dep_rel (dep_of m))\<^sup>+" ..
  show "cycle_search m order = Some True"
  proof (rule ccontr)
    assume "\<not> ?thesis"
    then obtain st' where st': "dfs_deps (search_fuel m order) (dep_of m) order (\<lambda>_. Unvisited) = Some (False, st')"
      using cycle_search_total [of m order] by (auto simp: cycle_search_def)
    then have "done_ok (dep_of m) st'" and "\<forall>d \<in> set order. st' d = Done"
      using dfs_done_ok(2) [OF st'] dfs_marks(2) [OF st'] by (auto simp: done_ok_def)
    moreover from c have "dep_of m c \<noteq> []"
      by (auto simp: dep_rel_def dest!: tranclD)
    then have "c \<in> set (keys m)"
      by (auto simp: dep_of_def map_of_in_keys split: option.splits)
    ultimately show False
      using assms c by (auto simp: done_ok_def)
  qed
qed

text \<open>
  C10. The depth-first search over a dependency map always ends with an answer, and it answers yes exactly
  when the dependency relation has a cycle.
\<close>

theorem cycle_search_decides:
  assumes "set (keys m) \<subseteq> set order"
  shows "\<exists>b. cycle_search m order = Some b \<and> (b \<longleftrightarrow> \<not> acyclic (dep_rel (dep_of m)))"
  using cycle_search_total [of m order] cycle_search_iff [OF assms]
  by (cases "cycle_search m order") (auto simp: acyclic_def)

theorem cycle_search_decides_witness:
  "\<exists>b. cycle_search [(1::nat, [2]), (2, [1])] [1, 2] = Some b \<and>
     (b \<longleftrightarrow> \<not> acyclic (dep_rel (dep_of [(1::nat, [2]), (2, [1])])))"
  by (rule cycle_search_decides) (simp add: keys_def)

end
