(* ===== verification/SchedTypes.thy ===== *)
theory SchedTypes
  imports StageGraph
begin

text \<open>
  The declarations of \<open>internal/scheduler/dag.go\<close> that the DAG executor and the journal share:
  errors, stage results, resource requests and budgets, journal records, and the helpers
  \<open>uniqueSorted\<close> and \<open>validateResourceRequest\<close>. Go's \<open>any\<close> is the type variable \<open>'a\<close>; the state of
  everything outside the package (callbacks, cache, journal file, clock, cancellation) is the
  type variable \<open>'w\<close>, which every call takes and returns.
\<close>

section \<open>Errors\<close>

datatype sentinel =
    ErrDuplicateStage | ErrMissingDependency | ErrDependencyCycle | ErrResourceBudget
  | ErrCacheRejected | ContextCanceled | ContextDeadlineExceeded

text \<open>
  \<open>Msg\<close>: \<open>errors.New\<close> or a formatted leaf; \<open>Wrap s e\<close>: \<open>fmt.Errorf("s: %w", e)\<close>;
  \<open>WrapPre e s\<close>: \<open>fmt.Errorf("%w: s", e)\<close>; \<open>Join\<close>: \<open>errors.Join\<close>.
\<close>

datatype sched_error =
    Msg string
  | Sentinel sentinel
  | Wrap string sched_error
  | WrapPre sched_error string
  | Join "sched_error list"

fun sentinel_text :: "sentinel \<Rightarrow> string" where
  "sentinel_text ErrDuplicateStage = ''duplicate stage''"
| "sentinel_text ErrMissingDependency = ''missing stage dependency''"
| "sentinel_text ErrDependencyCycle = ''stage dependency cycle''"
| "sentinel_text ErrResourceBudget = ''stage resource request exceeds scheduler budget''"
| "sentinel_text ErrCacheRejected = ''cached stage result rejected''"
| "sentinel_text ContextCanceled = ''context canceled''"
| "sentinel_text ContextDeadlineExceeded = ''context deadline exceeded''"

fun join_lines :: "string list \<Rightarrow> string" where
  "join_lines [] = []"
| "join_lines [s] = s"
| "join_lines (s # t # ss) = s @ [CHR 0x0A] @ join_lines (t # ss)"

text \<open>\<open>err.Error()\<close>.\<close>

fun error_text :: "sched_error \<Rightarrow> string" where
  "error_text (Msg s) = s"
| "error_text (Sentinel s) = sentinel_text s"
| "error_text (Wrap s e) = s @ '': '' @ error_text e"
| "error_text (WrapPre e s) = error_text e @ '': '' @ s"
| "error_text (Join es) = join_lines (map error_text es)"

text \<open>\<open>errors.Is\<close> against a sentinel.\<close>

fun errors_is :: "sched_error \<Rightarrow> sentinel \<Rightarrow> bool" where
  "errors_is (Msg s) t = False"
| "errors_is (Sentinel s) t = (s = t)"
| "errors_is (Wrap s e) t = errors_is e t"
| "errors_is (WrapPre e s) t = errors_is e t"
| "errors_is (Join es) t = list_ex (\<lambda>e. errors_is e t) es"

text \<open>\<open>errors.Join(acc, err)\<close> with a possibly nil accumulator.\<close>

definition join_error :: "sched_error option \<Rightarrow> sched_error \<Rightarrow> sched_error" where
  "join_error acc e = (case acc of None \<Rightarrow> Join [e] | Some a \<Rightarrow> Join [a, e])"

section \<open>Stage results and resources\<close>

record 'a result =
  r_stage_id :: string
  r_cache_key :: string
  r_object_digest :: string
  r_cache_hit :: bool
  r_do_not_cache :: bool
  r_metadata :: "(string \<times> 'a) list"

definition zero_result :: "'a result" where
  "zero_result = \<lparr>r_stage_id = [], r_cache_key = [], r_object_digest = [], r_cache_hit = False,
     r_do_not_cache = False, r_metadata = []\<rparr>"

record 'a inputs =
  in_results :: "(string \<times> 'a result) list"
  in_values :: "(string \<times> 'a) list"

record resource_request =
  memory_mib :: int64
  cpu :: int64
  processes :: int64
  open_files :: int64
  io_class :: string

record resource_budget =
  b_memory_mib :: int64
  b_cpu :: int64
  b_processes :: int64
  b_open_files :: int64

definition zero_request :: resource_request where
  "zero_request = \<lparr>memory_mib = 0, cpu = 0, processes = 0, open_files = 0, io_class = []\<rparr>"

definition validate_resource_request :: "resource_request \<Rightarrow> sched_error + unit" where
  "validate_resource_request request =
     (if less64 (memory_mib request) 0 \<or> less64 (cpu request) 0 \<or>
         less64 (processes request) 0 \<or> less64 (open_files request) 0
      then Inl (Msg ''resource values must be non-negative'')
      else if io_class request \<in> {[], ''latency'', ''normal'', ''bulk''} then Inr ()
      else Inl (Msg (''unknown I/O class '' @ io_class request)))"

lemma validate_resource_request_nonneg:
  "validate_resource_request r = Inr () \<Longrightarrow>
     0 \<le> sint (memory_mib r) \<and> 0 \<le> sint (cpu r) \<and> 0 \<le> sint (processes r) \<and> 0 \<le> sint (open_files r)"
  by (auto simp: validate_resource_request_def less64_def split: if_splits)

section \<open>Events, reports, journal records\<close>

record event =
  ev_stage_id :: string
  ev_state :: string
  ev_started_at :: int
  ev_duration :: int
  ev_error :: string

record 'a report =
  rep_results :: "(string \<times> 'a result) list"
  rep_events :: "event list"
  rep_duration :: int

definition zero_report :: "'a report" where
  "zero_report = \<lparr>rep_results = [], rep_events = [], rep_duration = 0\<rparr>"

record journal_stage =
  js_id :: string
  js_version :: string
  js_dependencies :: "string list"
  js_resources :: resource_request

text \<open>
  \<open>JournalKind\<close> and \<open>JournalState\<close> are strings with a closed vocabulary; a decoded record can hold
  any other text, which is the last constructor of each type.
\<close>

datatype journal_kind = KindRun | KindStage | KindOther string

datatype journal_state =
    StatePlanned | StateQueued | StateRunning | StateCached | StateSucceeded | StateFailed
  | StateCancelled | StateOther string

record journal_record =
  jr_schema_version :: string
  jr_run_id :: string
  jr_sequence :: "64 word"
  jr_kind :: journal_kind
  jr_state :: journal_state
  jr_attempt :: "32 word"
  jr_stage_id :: string
  jr_stage_version :: string
  jr_cache_key :: string
  jr_output_digest :: string
  jr_resources :: resource_request
  jr_plan :: "journal_stage list"
  jr_plan_digest :: string
  jr_previous_record_digest :: string
  jr_record_digest :: string
  jr_occurred_at :: int
  jr_duration :: int
  jr_error :: string

text \<open>The zero value of \<open>JournalRecord\<close>, which composite literals in the source start from.\<close>

definition zero_record :: journal_record where
  "zero_record = \<lparr>jr_schema_version = [], jr_run_id = [], jr_sequence = 0, jr_kind = KindOther [],
     jr_state = StateOther [], jr_attempt = 0, jr_stage_id = [], jr_stage_version = [],
     jr_cache_key = [], jr_output_digest = [], jr_resources = zero_request, jr_plan = [],
     jr_plan_digest = [], jr_previous_record_digest = [], jr_record_digest = [],
     jr_occurred_at = 0, jr_duration = 0, jr_error = []\<rparr>"

section \<open>uniqueSorted\<close>

definition unique_sorted :: "string list \<Rightarrow> string list" where
  "unique_sorted values = sorted_keys (filter (\<lambda>v. v \<noteq> []) values)"

lemma set_unique_sorted [simp]: "set (unique_sorted vs) = set vs - {[]}"
  by (auto simp: unique_sorted_def)

lemma sorted_unique_sorted [simp]: "sorted (unique_sorted vs)"
  by (simp add: unique_sorted_def)

lemma distinct_unique_sorted [simp]: "distinct (unique_sorted vs)"
  by (simp add: unique_sorted_def)

lemma unique_sorted_idem [simp]: "unique_sorted (unique_sorted vs) = unique_sorted vs"
proof -
  have "filter (\<lambda>v. v \<noteq> []) (unique_sorted vs) = unique_sorted vs"
    by (rule filter_True) auto
  then show ?thesis
    unfolding unique_sorted_def by (simp add: unique_sorted_def)
qed

lemma unique_sorted_cong: "set xs - {[]} = set ys - {[]} \<Longrightarrow> unique_sorted xs = unique_sorted ys"
  unfolding unique_sorted_def by (rule sorted_keys_cong) auto

end
