(* ===== verification/Journal.thy ===== *)
theory Journal
  imports SchedTypes
begin

text \<open>
  The run journal of \<open>internal/scheduler/journal.go\<close>: record and plan validation, the lifecycle
  automaton that accepts a record sequence, \<open>Append\<close> with its latched failures, and the replay
  loop of \<open>ReadFileJournal\<close>. SHA-256 over the JSON encoding is the parameter \<open>plan_sha\<close> /
  \<open>rec_sha\<close>; \<open>reparse\<close> is what decoding the encoded line of a record yields. Operating system
  calls are given by their outcomes (\<open>append_io\<close>).
\<close>

section \<open>Digests and plan validation\<close>

record journal_env =
  plan_sha :: "journal_stage list \<Rightarrow> string option"
  rec_sha :: "journal_record \<Rightarrow> string option"
  encoded_len :: "journal_record \<Rightarrow> nat option"
  reparse :: "journal_record \<Rightarrow> sched_error + journal_record"

definition journal_schema_version :: string where
  "journal_schema_version = ''rkc.scheduler-journal.v1''"

definition maximum_journal_record_bytes :: nat where
  "maximum_journal_record_bytes = 1048576"

definition maximum_journal_file_bytes :: nat where
  "maximum_journal_file_bytes = 67108864"

definition zero_journal_digest :: string where
  "zero_journal_digest = replicate 64 CHR ''0''"

definition validate_run_id :: "string \<Rightarrow> sched_error + unit" where
  "validate_run_id run_id =
     guard (\<not> is_lower_hex run_id 32)
       (Msg ''scheduler run ID must be 32 lowercase hexadecimal characters'')"

text \<open>The loop over the plan that checks names, order, resources and dependency lists.\<close>

fun plan_shape :: "string \<Rightarrow> journal_stage list \<Rightarrow> sched_error + unit" where
  "plan_shape previous [] = Inr ()"
| "plan_shape previous (stage # rest) =
     (if js_id stage = [] \<or> js_id stage \<noteq> trim_space (js_id stage) \<or>
         js_version stage = [] \<or> js_version stage \<noteq> trim_space (js_version stage)
      then Inl (Msg ''scheduler journal plan requires stage IDs and versions'')
      else if previous \<noteq> [] \<and> js_id stage \<le> previous
      then Inl (Msg ''scheduler journal plan stages must be unique and sorted'')
      else case validate_resource_request (js_resources stage) of
        Inl e \<Rightarrow> Inl (Wrap (''scheduler journal stage '' @ js_id stage @ '' resources'') e)
      | Inr _ \<Rightarrow>
          if js_dependencies stage \<noteq> unique_sorted (js_dependencies stage)
          then Inl (Msg (''scheduler journal stage '' @ js_id stage @
                 '' dependencies are not unique and sorted''))
          else plan_shape (js_id stage) rest)"

definition plan_dependency_check :: "string list \<Rightarrow> journal_stage \<Rightarrow> sched_error + unit" where
  "plan_dependency_check known stage =
     first_error (\<lambda>dependency.
       if dependency = js_id stage
       then Inl (Msg (''scheduler journal stage '' @ js_id stage @ '' depends on itself''))
       else guard (dependency \<notin> set known)
         (Msg (''scheduler journal stage '' @ js_id stage @ '' has unknown dependency '' @ dependency)))
       (js_dependencies stage)"

definition plan_deps :: "journal_stage list \<Rightarrow> (string \<times> string list) list" where
  "plan_deps plan = fold (\<lambda>stage m. AList.update (js_id stage) (js_dependencies stage) m) plan []"

definition journal_plan_has_cycle :: "journal_stage list \<Rightarrow> bool" where
  "journal_plan_has_cycle plan \<longleftrightarrow> cycle_search (plan_deps plan) (map js_id plan) = Some True"

definition validate_journal_plan :: "journal_stage list \<Rightarrow> sched_error + unit" where
  "validate_journal_plan plan =
     res_bind (plan_shape [] plan) (\<lambda>_.
     res_bind (first_error (plan_dependency_check (map js_id plan)) plan) (\<lambda>_.
     guard (journal_plan_has_cycle plan)
       (Msg ''scheduler journal plan contains a dependency cycle'')))"

definition journal_plan_digest :: "journal_env \<Rightarrow> journal_stage list \<Rightarrow> sched_error + string" where
  "journal_plan_digest env plan =
     res_bind (validate_journal_plan plan) (\<lambda>_.
       case plan_sha env plan of
         None \<Rightarrow> Inl (Msg ''json: marshal plan'')
       | Some d \<Rightarrow> Inr d)"

definition journal_record_digest :: "journal_env \<Rightarrow> journal_record \<Rightarrow> sched_error + string" where
  "journal_record_digest env record =
     (case rec_sha env (record\<lparr>jr_record_digest := []\<rparr>) of
        None \<Rightarrow> Inl (Msg ''json: marshal record'')
      | Some d \<Rightarrow> Inr d)"

section \<open>Record validation\<close>

definition validate_journal_cache_key :: "string \<Rightarrow> sched_error + unit" where
  "validate_journal_cache_key key =
     guard (\<not> has_prefix key ''stage:'' \<or> \<not> is_lower_hex (trim_prefix key ''stage:'') 64)
       (Msg ''successful scheduler stage journal record has an invalid cache key'')"

definition validate_journal_output_digest :: "string \<Rightarrow> sched_error + unit" where
  "validate_journal_output_digest digest =
     guard (\<not> is_lower_hex (trim_prefix digest ''sha256:'') 64)
       (Msg ''successful scheduler stage journal record has an invalid output digest'')"

definition validate_run_record :: "journal_record \<Rightarrow> sched_error + unit" where
  "validate_run_record record =
     (if jr_attempt record \<noteq> 0 \<or> jr_resources record \<noteq> zero_request
      then Inl (Msg ''scheduler run journal record cannot contain attempt or resources'')
      else if jr_stage_id record \<noteq> [] \<or> jr_stage_version record \<noteq> [] \<or>
              jr_cache_key record \<noteq> [] \<or> jr_output_digest record \<noteq> []
      then Inl (Msg ''scheduler run journal record cannot contain stage fields'')
      else case jr_state record of
        StateRunning \<Rightarrow>
          if jr_duration record \<noteq> 0 \<or> jr_error record \<noteq> []
          then Inl (Msg ''running scheduler journal record cannot contain duration or error'')
          else validate_journal_plan (jr_plan record)
      | StateSucceeded \<Rightarrow>
          guard (jr_plan record \<noteq> [] \<or> jr_error record \<noteq> [])
            (Msg ''successful scheduler journal record cannot contain a plan or error'')
      | StateFailed \<Rightarrow>
          guard (jr_plan record \<noteq> [] \<or> blank (jr_error record))
            (Msg ''failed scheduler journal record requires an error and cannot contain a plan'')
      | StateCancelled \<Rightarrow>
          guard (jr_plan record \<noteq> [] \<or> blank (jr_error record))
            (Msg ''failed scheduler journal record requires an error and cannot contain a plan'')
      | _ \<Rightarrow> Inl (Msg ''invalid scheduler run state''))"

definition validate_stage_record :: "journal_record \<Rightarrow> sched_error + unit" where
  "validate_stage_record record =
     (if jr_plan record \<noteq> []
      then Inl (Msg ''scheduler stage journal record cannot contain a run plan'')
      else if jr_attempt record = 0
      then Inl (Msg ''scheduler stage journal record requires a positive attempt'')
      else if jr_stage_id record = [] \<or> jr_stage_id record \<noteq> trim_space (jr_stage_id record) \<or>
              jr_stage_version record = [] \<or> jr_stage_version record \<noteq> trim_space (jr_stage_version record)
      then Inl (Msg ''scheduler stage journal record requires stage ID and version'')
      else case validate_resource_request (jr_resources record) of
        Inl e \<Rightarrow> Inl (Wrap ''scheduler stage journal resources'' e)
      | Inr _ \<Rightarrow>
          if jr_state record \<in> {StatePlanned, StateQueued, StateRunning}
          then guard (jr_duration record \<noteq> 0 \<or> jr_error record \<noteq> [] \<or>
                      jr_cache_key record \<noteq> [] \<or> jr_output_digest record \<noteq> [])
                 (Msg ''non-terminal stage journal record cannot contain result fields'')
          else if jr_state record \<in> {StateSucceeded, StateCached}
          then if jr_error record \<noteq> []
               then Inl (Msg ''successful stage journal record cannot contain an error'')
               else res_bind (validate_journal_cache_key (jr_cache_key record)) (\<lambda>_.
                    validate_journal_output_digest (jr_output_digest record))
          else if jr_state record \<in> {StateFailed, StateCancelled}
          then if blank (jr_error record)
               then Inl (Msg ''failed stage journal record requires an error'')
               else guard (jr_cache_key record \<noteq> [] \<or> jr_output_digest record \<noteq> [])
                 (Msg ''failed stage journal record cannot contain successful result fields'')
          else Inl (Msg ''invalid scheduler stage state''))"

definition validate_journal_record :: "journal_record \<Rightarrow> sched_error + unit" where
  "validate_journal_record record =
     (if jr_schema_version record \<noteq> journal_schema_version
      then Inl (Msg (''unsupported scheduler journal schema '' @ jr_schema_version record))
      else case validate_run_id (jr_run_id record) of Inl e \<Rightarrow> Inl e | Inr _ \<Rightarrow>
      if jr_sequence record = 0 \<or> jr_occurred_at record = 0
      then Inl (Msg ''scheduler journal sequence and occurrence time are required'')
      else if \<not> is_lower_hex (jr_plan_digest record) 64
      then Inl (Msg ''scheduler journal plan digest is invalid'')
      else if \<not> is_lower_hex (jr_previous_record_digest record) 64
      then Inl (Msg ''scheduler journal previous record digest is invalid'')
      else if \<not> is_lower_hex (jr_record_digest record) 64
      then Inl (Msg ''scheduler journal record digest is invalid'')
      else if jr_duration record < 0
      then Inl (Msg ''scheduler journal duration cannot be negative'')
      else if 65536 < length (jr_error record)
      then Inl (Msg ''scheduler journal error exceeds 65536 bytes'')
      else case jr_kind record of
        KindRun \<Rightarrow> validate_run_record record
      | KindStage \<Rightarrow> validate_stage_record record
      | KindOther k \<Rightarrow> Inl (Msg (''invalid scheduler journal kind '' @ k)))"

section \<open>The lifecycle automaton\<close>

record stage_progress =
  p_attempt :: "32 word"
  p_last_attempt :: "32 word"
  p_state :: journal_state
  p_final :: bool

definition zero_progress :: stage_progress where
  "zero_progress = \<lparr>p_attempt = 0, p_last_attempt = 0, p_state = StateOther [], p_final = False\<rparr>"

record journal_lifecycle =
  lc_initialized :: bool
  lc_terminal :: bool
  lc_last_sequence :: "64 word"
  lc_last_occurred :: int
  lc_plan_digest :: string
  lc_plan :: "(string \<times> journal_stage) list"
  lc_stages :: "(string \<times> stage_progress) list"

definition zero_lifecycle :: journal_lifecycle where
  "zero_lifecycle = \<lparr>lc_initialized = False, lc_terminal = False, lc_last_sequence = 0,
     lc_last_occurred = 0, lc_plan_digest = [], lc_plan = [], lc_stages = []\<rparr>"

text \<open>\<open>lifecycle.stages[id]\<close>, the zero progress for a missing key.\<close>

definition progress_of :: "journal_lifecycle \<Rightarrow> string \<Rightarrow> stage_progress" where
  "progress_of lc sid = (case map_of (lc_stages lc) sid of None \<Rightarrow> zero_progress | Some p \<Rightarrow> p)"

definition is_terminal_run_state :: "journal_state \<Rightarrow> bool" where
  "is_terminal_run_state s \<longleftrightarrow> s = StateSucceeded \<or> s = StateFailed \<or> s = StateCancelled"

text \<open>\<open>progress.final \<and> (state = succeeded \<or> state = cached)\<close>, negated in the source.\<close>

definition stage_succeeded :: "journal_lifecycle \<Rightarrow> string \<Rightarrow> bool" where
  "stage_succeeded lc sid \<longleftrightarrow> p_final (progress_of lc sid) \<and>
     (p_state (progress_of lc sid) = StateSucceeded \<or> p_state (progress_of lc sid) = StateCached)"

definition require_dependencies :: "journal_lifecycle \<Rightarrow> string \<Rightarrow> string list \<Rightarrow> sched_error + unit" where
  "require_dependencies lc sid deps =
     first_error (\<lambda>dependency. guard (\<not> stage_succeeded lc dependency)
       (Msg (''scheduler journal stage '' @ sid @ '' started before dependency '' @ dependency @ '' succeeded'')))
       deps"

definition active_state :: "journal_state \<Rightarrow> bool" where
  "active_state s \<longleftrightarrow> s = StatePlanned \<or> s = StateQueued \<or> s = StateRunning"

definition expected_attempt :: "stage_progress \<Rightarrow> 32 word" where
  "expected_attempt p = (if active_state (p_state p) then p_attempt p else p_last_attempt p + 1)"

text \<open>The switch on \<open>record.State\<close> of \<open>acceptStage\<close>: the new progress before the common tail.\<close>

definition stage_transition ::
  "journal_lifecycle \<Rightarrow> journal_stage \<Rightarrow> journal_record \<Rightarrow> stage_progress \<Rightarrow> sched_error + stage_progress" where
  "stage_transition lc stage record progress =
     (case jr_state record of
        StatePlanned \<Rightarrow>
          if active_state (p_state progress)
          then Inl (Msg ''scheduler journal stage is already active'') else Inr progress
      | StateQueued \<Rightarrow>
          if p_state progress = StateQueued \<or> p_state progress = StateRunning
          then Inl (Msg ''scheduler journal stage has already been queued'')
          else res_bind (require_dependencies lc (jr_stage_id record) (js_dependencies stage)) (\<lambda>_. Inr progress)
      | StateRunning \<Rightarrow>
          if p_state progress = StateRunning
          then Inl (Msg ''scheduler journal stage is already running'')
          else res_bind (require_dependencies lc (jr_stage_id record) (js_dependencies stage)) (\<lambda>_. Inr progress)
      | StateOther _ \<Rightarrow> Inl (Msg ''scheduler journal stage has invalid state'')
      | s \<Rightarrow>
          if p_state progress \<noteq> StateRunning \<or> p_attempt progress \<noteq> jr_attempt record
          then Inl (Msg ''scheduler journal stage reached a terminal state before running'')
          else Inr (progress\<lparr>p_last_attempt := jr_attempt record,
                      p_final := (s = StateSucceeded \<or> s = StateCached)\<rparr>))"

definition accept_stage :: "journal_record \<Rightarrow> journal_lifecycle \<Rightarrow> sched_error + journal_lifecycle" where
  "accept_stage record lc =
     (case map_of (lc_plan lc) (jr_stage_id record) of
        None \<Rightarrow> Inl (Msg (''scheduler journal references unknown stage '' @ jr_stage_id record))
      | Some stage \<Rightarrow>
          if jr_stage_version record \<noteq> js_version stage
          then Inl (Msg ''scheduler journal stage version does not match plan'')
          else if jr_resources record \<noteq> js_resources stage
          then Inl (Msg ''scheduler journal stage resources do not match plan'')
          else let progress = progress_of lc (jr_stage_id record) in
          if p_final progress then Inl (Msg ''scheduler journal stage is already complete'')
          else if jr_attempt record \<noteq> expected_attempt progress
          then Inl (Msg ''scheduler journal stage attempt is unexpected'')
          else res_bind (stage_transition lc stage record progress) (\<lambda>p.
            Inr (lc\<lparr>lc_stages := AList.update (jr_stage_id record)
                     (p\<lparr>p_attempt := jr_attempt record, p_state := jr_state record\<rparr>)
                     (lc_stages lc)\<rparr>)))"

definition accept_first :: "journal_env \<Rightarrow> journal_record \<Rightarrow> journal_lifecycle \<Rightarrow> sched_error + journal_lifecycle" where
  "accept_first env record lc =
     (if jr_sequence record \<noteq> 1 \<or> jr_kind record \<noteq> KindRun \<or> jr_state record \<noteq> StateRunning
      then Inl (Msg ''scheduler journal does not begin with a running run record'')
      else if jr_previous_record_digest record \<noteq> zero_journal_digest
      then Inl (Msg ''scheduler journal genesis record has a non-zero previous digest'')
      else res_bind (journal_plan_digest env (jr_plan record)) (\<lambda>digest.
        if jr_plan_digest record \<noteq> digest
        then Inl (Msg ''scheduler journal run plan digest does not match its plan'')
        else Inr (lc\<lparr>lc_initialized := True, lc_last_sequence := jr_sequence record,
               lc_last_occurred := jr_occurred_at record, lc_plan_digest := digest,
               lc_plan := fold (\<lambda>stage m. AList.update (js_id stage) stage m) (jr_plan record) [],
               lc_stages := []\<rparr>)))"

definition accept_next :: "journal_record \<Rightarrow> journal_lifecycle \<Rightarrow> sched_error + journal_lifecycle" where
  "accept_next record lc =
     (if lc_terminal lc
      then Inl (Msg ''scheduler journal contains a record after run termination'')
      else if jr_sequence record \<noteq> lc_last_sequence lc + 1
      then Inl (Msg ''scheduler journal lifecycle sequence is not contiguous'')
      else if jr_occurred_at record < lc_last_occurred lc
      then Inl (Msg ''scheduler journal occurrence time moved backwards'')
      else if jr_plan_digest record \<noteq> lc_plan_digest lc
      then Inl (Msg ''scheduler journal plan digest changed'')
      else res_bind
        (case jr_kind record of
           KindRun \<Rightarrow>
             if jr_state record = StateRunning
             then Inl (Msg ''scheduler journal contains multiple run-start records'')
             else if \<not> is_terminal_run_state (jr_state record)
             then Inl (Msg ''scheduler journal contains a non-terminal follow-up run record'')
             else if jr_state record = StateSucceeded \<and>
                     \<not> list_all (stage_succeeded lc) (keys (lc_plan lc))
             then Inl (Msg ''scheduler run succeeded before stage completed successfully'')
             else Inr (lc\<lparr>lc_terminal := True\<rparr>)
         | KindStage \<Rightarrow> accept_stage record lc
         | KindOther _ \<Rightarrow> Inl (Msg ''scheduler journal lifecycle has an unknown record kind''))
        (\<lambda>lc'. Inr (lc'\<lparr>lc_last_sequence := jr_sequence record,
                        lc_last_occurred := jr_occurred_at record\<rparr>)))"

definition accept :: "journal_env \<Rightarrow> journal_record \<Rightarrow> journal_lifecycle \<Rightarrow> sched_error + journal_lifecycle" where
  "accept env record lc = (if \<not> lc_initialized lc then accept_first env record lc else accept_next record lc)"

fun accept_all :: "journal_env \<Rightarrow> journal_record list \<Rightarrow> journal_lifecycle \<Rightarrow> sched_error + journal_lifecycle" where
  "accept_all env [] lc = Inr lc"
| "accept_all env (r # rs) lc = res_bind (accept env r lc) (accept_all env rs)"

section \<open>Append\<close>

text \<open>A line of the file: what decoding it yields and its length without the newline, or a torn tail.\<close>

datatype journal_line = Line "sched_error + journal_record" nat | Torn nat

record file_journal =
  fj_run_id :: string
  fj_sequence :: "64 word"
  fj_plan_digest :: string
  fj_last_digest :: string
  fj_lifecycle :: journal_lifecycle
  fj_failed :: "sched_error option"
  fj_closed :: bool
  fj_file :: "journal_line list"

text \<open>The outcomes of the operating system during one \<open>Append\<close>.\<close>

datatype write_outcome = WriteOk | WriteFailed sched_error nat

record append_io =
  io_context :: "sched_error option"
  io_identity :: "sched_error option"
  io_now :: int
  io_stat :: "sched_error option"
  io_write :: write_outcome
  io_sync :: "sched_error option"
  io_identity_after :: "sched_error option"

definition io_ok :: "int \<Rightarrow> append_io" where
  "io_ok now = \<lparr>io_context = None, io_identity = None, io_now = now, io_stat = None,
     io_write = WriteOk, io_sync = None, io_identity_after = None\<rparr>"

definition open_journal :: "string \<Rightarrow> file_journal" where
  "open_journal run_id = \<lparr>fj_run_id = run_id, fj_sequence = 0, fj_plan_digest = [],
     fj_last_digest = zero_journal_digest, fj_lifecycle = zero_lifecycle, fj_failed = None,
     fj_closed = False, fj_file = []\<rparr>"

fun line_bytes :: "journal_line \<Rightarrow> nat" where
  "line_bytes (Line d n) = Suc n"
| "line_bytes (Torn n) = n"

definition file_bytes :: "journal_line list \<Rightarrow> nat" where
  "file_bytes ls = sum_list (map line_bytes ls)"

text \<open>The fields that \<open>Append\<close> fills in before it validates the record.\<close>

definition complete_plan_digest :: "journal_env \<Rightarrow> file_journal \<Rightarrow> journal_record \<Rightarrow> sched_error + journal_record" where
  "complete_plan_digest env j record =
     (if jr_sequence record = 1
      then (case journal_plan_digest env (jr_plan record) of
              Inl e \<Rightarrow> Inl (Wrap ''digest scheduler journal plan'' e)
            | Inr digest \<Rightarrow>
                if jr_plan_digest record \<noteq> [] \<and> jr_plan_digest record \<noteq> digest
                then Inl (Msg ''scheduler journal plan digest does not match plan'')
                else Inr (record\<lparr>jr_plan_digest := digest\<rparr>))
      else let record' = (if jr_plan_digest record = [] then record\<lparr>jr_plan_digest := fj_plan_digest j\<rparr> else record)
           in if jr_plan_digest record' \<noteq> fj_plan_digest j
              then Inl (Msg ''scheduler journal plan digest changed'')
              else Inr record')"

definition complete_record ::
  "journal_env \<Rightarrow> append_io \<Rightarrow> file_journal \<Rightarrow> journal_record \<Rightarrow> sched_error + journal_record" where
  "complete_record env io j record0 =
     (let record = record0\<lparr>jr_schema_version := journal_schema_version,
                           jr_sequence := fj_sequence j + 1, jr_occurred_at := io_now io\<rparr> in
      res_bind (complete_plan_digest env j record) (\<lambda>record.
      let record = (if jr_previous_record_digest record = []
                    then record\<lparr>jr_previous_record_digest := fj_last_digest j\<rparr> else record) in
      if jr_previous_record_digest record \<noteq> fj_last_digest j
      then Inl (Msg ''scheduler journal previous record digest does not match'')
      else if jr_record_digest record \<noteq> []
      then Inl (Msg ''scheduler journal record digest is assigned by the journal'')
      else case journal_record_digest env record of
        Inl e \<Rightarrow> Inl (Wrap ''digest scheduler journal record'' e)
      | Inr digest \<Rightarrow> Inr (record\<lparr>jr_record_digest := digest\<rparr>)))"

text \<open>The write, the sync and the final identity check; any failure latches in \<open>failed\<close>.\<close>

definition persist_record ::
  "journal_env \<Rightarrow> append_io \<Rightarrow> journal_record \<Rightarrow> nat \<Rightarrow> journal_lifecycle \<Rightarrow> file_journal \<Rightarrow>
     sched_error option \<times> file_journal" where
  "persist_record env io record len lifecycle j =
     (case io_stat io of
        Some e \<Rightarrow> (Some (Wrap ''stat scheduler journal'' e), j\<lparr>fj_failed := Some e\<rparr>)
      | None \<Rightarrow>
      if maximum_journal_file_bytes < file_bytes (fj_file j) + Suc len
      then (Some (Msg ''scheduler journal exceeds 67108864 bytes''), j)
      else case io_write io of
        WriteFailed e n \<Rightarrow>
          (Some (Wrap ''append scheduler journal'' e),
           j\<lparr>fj_failed := Some e,
             fj_file := fj_file j @ (if n = 0 then [] else [Torn (min n len)])\<rparr>)
      | WriteOk \<Rightarrow>
          let written = j\<lparr>fj_file := fj_file j @ [Line (reparse env record) len]\<rparr> in
          case io_sync io of
            Some e \<Rightarrow> (Some (Wrap ''sync scheduler journal'' e), written\<lparr>fj_failed := Some e\<rparr>)
          | None \<Rightarrow>
          case io_identity_after io of
            Some e \<Rightarrow> (Some e, written\<lparr>fj_failed := Some e\<rparr>)
          | None \<Rightarrow>
              (None, written\<lparr>fj_sequence := jr_sequence record, fj_plan_digest := jr_plan_digest record,
                 fj_last_digest := jr_record_digest record, fj_lifecycle := lifecycle\<rparr>))"

definition append_record ::
  "journal_env \<Rightarrow> append_io \<Rightarrow> journal_record \<Rightarrow> file_journal \<Rightarrow> sched_error option \<times> file_journal" where
  "append_record env io record j =
     (case io_context io of Some e \<Rightarrow> (Some e, j) | None \<Rightarrow>
      if fj_closed j then (Some (Msg ''scheduler journal is closed''), j)
      else case fj_failed j of
        Some e \<Rightarrow> (Some (Wrap ''scheduler journal previously failed'' e), j)
      | None \<Rightarrow>
      case io_identity io of Some e \<Rightarrow> (Some e, j\<lparr>fj_failed := Some e\<rparr>) | None \<Rightarrow>
      if jr_run_id record \<noteq> fj_run_id j
      then (Some (Msg ''scheduler journal record run ID does not match journal''), j)
      else case complete_record env io j record of
        Inl e \<Rightarrow> (Some e, j)
      | Inr record \<Rightarrow>
      case validate_journal_record record of
        Inl e \<Rightarrow> (Some e, j)
      | Inr _ \<Rightarrow>
      case accept env record (fj_lifecycle j) of
        Inl e \<Rightarrow> (Some e, j)
      | Inr lifecycle \<Rightarrow>
      case encoded_len env record of
        None \<Rightarrow> (Some (Msg ''encode scheduler journal record''), j)
      | Some len \<Rightarrow>
          if maximum_journal_record_bytes < Suc len
          then (Some (Msg ''scheduler journal record exceeds 1048576 bytes''), j)
          else persist_record env io record len lifecycle j)"

section \<open>Replay\<close>

record journal_report =
  rp_state :: journal_state
  rp_terminal :: bool
  rp_interrupted :: bool
  rp_discarded_tail_bytes :: nat
  rp_last_sequence :: "64 word"
  rp_records :: "journal_record list"

record replay_state =
  rs_report :: journal_report
  rs_lifecycle :: journal_lifecycle
  rs_last_digest :: string

definition start_replay :: replay_state where
  "start_replay = \<lparr>rs_report = \<lparr>rp_state = StateOther [], rp_terminal = False, rp_interrupted = False,
       rp_discarded_tail_bytes = 0, rp_last_sequence = 0, rp_records = []\<rparr>,
     rs_lifecycle = zero_lifecycle, rs_last_digest = zero_journal_digest\<rparr>"

definition decode_journal_record :: "sched_error + journal_record \<Rightarrow> sched_error + journal_record" where
  "decode_journal_record line = res_bind line (\<lambda>record.
     res_bind (validate_journal_record record) (\<lambda>_. Inr record))"

text \<open>One newline-terminated line of the loop of \<open>ReadFileJournal\<close>.\<close>

definition replay_line ::
  "journal_env \<Rightarrow> string \<Rightarrow> sched_error + journal_record \<Rightarrow> nat \<Rightarrow> replay_state \<Rightarrow> sched_error + replay_state" where
  "replay_line env run_id line len st =
     (if maximum_journal_record_bytes < Suc len
      then Inl (Msg ''scheduler journal record exceeds 1048576 bytes'')
      else case decode_journal_record line of
        Inl e \<Rightarrow> Inl (Wrap ''decode scheduler journal sequence'' e)
      | Inr record \<Rightarrow>
      let report = rs_report st in
      if jr_run_id record \<noteq> run_id
      then Inl (Msg ''scheduler journal run ID does not match its filename'')
      else if jr_sequence record \<noteq> of_nat (length (rp_records report)) + 1
      then Inl (Msg ''scheduler journal sequence is out of order'')
      else if rp_terminal report
      then Inl (Msg ''scheduler journal contains records after its terminal run record'')
      else if jr_previous_record_digest record \<noteq> rs_last_digest st
      then Inl (Msg ''scheduler journal record hash chain is broken'')
      else case journal_record_digest env record of
        Inl e \<Rightarrow> Inl (Wrap ''digest scheduler journal record'' e)
      | Inr digest \<Rightarrow>
      if jr_record_digest record \<noteq> digest
      then Inl (Msg ''scheduler journal record digest does not match its content'')
      else case accept env record (rs_lifecycle st) of
        Inl e \<Rightarrow> Inl (Wrap ''validate scheduler journal sequence'' e)
      | Inr lifecycle \<Rightarrow>
          let report' = report\<lparr>rp_records := rp_records report @ [record],
                               rp_last_sequence := jr_sequence record\<rparr>;
              report'' = (if jr_kind record = KindRun
                          then report'\<lparr>rp_state := jr_state record,
                                       rp_terminal := is_terminal_run_state (jr_state record)\<rparr>
                          else report')
          in Inr (st\<lparr>rs_report := report'', rs_lifecycle := lifecycle,
                     rs_last_digest := jr_record_digest record\<rparr>))"

fun replay_lines :: "journal_env \<Rightarrow> string \<Rightarrow> journal_line list \<Rightarrow> replay_state \<Rightarrow> sched_error + replay_state" where
  "replay_lines env run_id [] st = Inr st"
| "replay_lines env run_id (Line d n # ls) st =
     res_bind (replay_line env run_id d n st) (replay_lines env run_id ls)"
| "replay_lines env run_id (Torn n # ls) st =
     (if rp_terminal (rs_report st)
      then Inl (Msg ''scheduler journal contains a truncated record after termination'')
      else if maximum_journal_record_bytes < n
      then Inl (Msg ''scheduler journal truncated record exceeds 1048576 bytes'')
      else Inr (st\<lparr>rs_report := (rs_report st)\<lparr>rp_interrupted := True, rp_discarded_tail_bytes := n\<rparr>\<rparr>))"

definition read_file_journal ::
  "journal_env \<Rightarrow> string \<Rightarrow> journal_line list \<Rightarrow> sched_error + journal_report" where
  "read_file_journal env run_id ls =
     (if maximum_journal_file_bytes < file_bytes ls
      then Inl (Msg ''scheduler journal exceeds 67108864 bytes'')
      else case validate_run_id run_id of Inl e \<Rightarrow> Inl e | Inr _ \<Rightarrow>
      res_bind (replay_lines env run_id ls start_replay) (\<lambda>st.
        let report = rs_report st in
        if rp_records report = []
        then if rp_interrupted report
             then Inl (Msg ''scheduler journal has no complete run-plan record'')
             else Inl (Msg ''scheduler journal is empty'')
        else Inr report))"

end
