(* ===== verification/Dag.thy ===== *)
theory Dag
  imports SchedTypes Journal
begin

text \<open>
  The executor of \<open>internal/scheduler/dag.go\<close>. Callbacks of a stage, the cache, the journal and
  the event callback act on the outside world \<open>'w\<close>. The goroutines of one batch share nothing but
  that world and the results of earlier batches, which no goroutine of the batch writes; this
  theory runs the stages of a batch one after the other in batch order, and theory DagRuns treats
  their interleavings.
\<close>

section \<open>Stages and options\<close>

record ('a, 'w) stage =
  st_id :: string
  st_version :: string
  st_dependencies :: "string list"
  st_configuration :: 'a
  st_input_digests :: "string list"
  st_dynamic_input_digests :: "('a inputs \<Rightarrow> 'w \<Rightarrow> (sched_error + string list) \<times> 'w) option"
  st_ignore_dependency_digests :: bool
  st_disable_cache :: bool
  st_restore :: "('a inputs \<Rightarrow> 'a result \<Rightarrow> 'w \<Rightarrow> sched_error option \<times> 'w) option"
  st_resources :: resource_request
  st_run :: "('a inputs \<Rightarrow> 'w \<Rightarrow> (sched_error + 'a result) \<times> 'w) option"

record ('a, 'w) cache_ops =
  cache_load :: "string \<Rightarrow> 'w \<Rightarrow> (sched_error + 'a result option) \<times> 'w"
  cache_store :: "string \<Rightarrow> 'a result \<Rightarrow> 'w \<Rightarrow> sched_error option \<times> 'w"
  cache_invalidate :: "(string \<Rightarrow> 'w \<Rightarrow> sched_error option \<times> 'w) option"

record 'w journal_ops =
  jo_run_id :: string
  jo_append :: "journal_record \<Rightarrow> 'w \<Rightarrow> sched_error option \<times> 'w"

record ('a, 'w) options =
  o_workers :: int
  o_budget :: resource_budget
  o_cache :: "('a, 'w) cache_ops option"
  o_run_id :: string
  o_journal :: "'w journal_ops option"
  o_defer_journal_completion :: bool
  o_values :: "(string \<times> 'a) list"
  o_on_event :: "(event \<Rightarrow> 'w \<Rightarrow> 'w) option"

text \<open>
  What the executor reads of its surroundings: \<open>ctx.Err()\<close>, the clock, the digest of the encoded
  cache-key payload (absent when the configuration is not JSON), and the digests of the journal.
\<close>

record ('a, 'w) sched_env =
  ctx_err :: "'w \<Rightarrow> sentinel option"
  now :: "'w \<Rightarrow> int"
  key_sha :: "string \<Rightarrow> string \<Rightarrow> string list \<Rightarrow> 'a \<Rightarrow> string option"
  jenv :: journal_env

section \<open>Validation of the declared stages\<close>

text \<open>
  \<open>byID\<close> is kept in declaration order. Go iterates over the map in an unspecified order, which
  decides only which of several missing dependencies the error names.
\<close>

fun normalize_stages :: "('a, 'w) stage list \<Rightarrow> ('a, 'w) stage list \<Rightarrow> sched_error + ('a, 'w) stage list" where
  "normalize_stages [] by_id = Inr by_id"
| "normalize_stages (stage # rest) by_id =
     (if st_id stage = [] then Inl (Msg ''stage id is required'')
      else if st_id stage \<in> set (map st_id by_id)
      then Inl (WrapPre (Sentinel ErrDuplicateStage) (st_id stage))
      else case validate_resource_request (st_resources stage) of
        Inl e \<Rightarrow> Inl (Wrap (''stage '' @ st_id stage @ '' resources'') e)
      | Inr _ \<Rightarrow> normalize_stages rest
          (by_id @ [stage\<lparr>st_dependencies := unique_sorted (st_dependencies stage),
                          st_input_digests := unique_sorted (st_input_digests stage)\<rparr>]))"

definition missing_dependency :: "('a, 'w) stage list \<Rightarrow> sched_error + unit" where
  "missing_dependency by_id = first_error (\<lambda>stage.
     first_error (\<lambda>dependency. guard (dependency \<notin> set (map st_id by_id))
       (WrapPre (Sentinel ErrMissingDependency) (st_id stage @ '' depends on '' @ dependency)))
       (st_dependencies stage)) by_id"

definition stage_deps :: "('a, 'w) stage list \<Rightarrow> (string \<times> string list) list" where
  "stage_deps stages = map (\<lambda>s. (st_id s, st_dependencies s)) stages"

definition has_cycle :: "('a, 'w) stage list \<Rightarrow> bool" where
  "has_cycle by_id \<longleftrightarrow> cycle_search (stage_deps by_id) (sort (map st_id by_id)) = Some True"

definition validate_and_normalize :: "('a, 'w) stage list \<Rightarrow> sched_error + ('a, 'w) stage list" where
  "validate_and_normalize stages =
     res_bind (normalize_stages stages []) (\<lambda>by_id.
     res_bind (missing_dependency by_id) (\<lambda>_.
     if has_cycle by_id then Inl (Sentinel ErrDependencyCycle)
     else Inr (sort_key st_id by_id)))"

section \<open>Admission\<close>

definition exceeds_budget :: "resource_request \<Rightarrow> resource_budget \<Rightarrow> bool" where
  "exceeds_budget request budget \<longleftrightarrow>
     (less64 0 (b_memory_mib budget) \<and> less64 (b_memory_mib budget) (memory_mib request)) \<or>
     (less64 0 (b_cpu budget) \<and> less64 (b_cpu budget) (cpu request)) \<or>
     (less64 0 (b_processes budget) \<and> less64 (b_processes budget) (processes request)) \<or>
     (less64 0 (b_open_files budget) \<and> less64 (b_open_files budget) (open_files request))"

definition fits_alongside :: "resource_request \<Rightarrow> resource_request \<Rightarrow> resource_budget \<Rightarrow> bool" where
  "fits_alongside used request budget \<longleftrightarrow>
     (le64 (b_memory_mib budget) 0 \<or> le64 (memory_mib used + memory_mib request) (b_memory_mib budget)) \<and>
     (le64 (b_cpu budget) 0 \<or> le64 (cpu used + cpu request) (b_cpu budget)) \<and>
     (le64 (b_processes budget) 0 \<or> le64 (processes used + processes request) (b_processes budget)) \<and>
     (le64 (b_open_files budget) 0 \<or> le64 (open_files used + open_files request) (b_open_files budget))"

definition add_request :: "resource_request \<Rightarrow> resource_request \<Rightarrow> resource_request" where
  "add_request used request = used\<lparr>memory_mib := memory_mib used + memory_mib request,
     cpu := cpu used + cpu request, processes := processes used + processes request,
     open_files := open_files used + open_files request\<rparr>"

definition budget_error :: "('a, 'w) stage \<Rightarrow> sched_error" where
  "budget_error stage = WrapPre (Sentinel ErrResourceBudget)
     (st_id stage @ '' requests memory='' @ int_digits (sint (memory_mib (st_resources stage))) @
      ''MiB cpu='' @ int_digits (sint (cpu (st_resources stage))) @
      '' processes='' @ int_digits (sint (processes (st_resources stage))) @
      '' open_files='' @ int_digits (sint (open_files (st_resources stage))))"

fun admit_loop ::
  "int \<Rightarrow> resource_budget \<Rightarrow> ('a, 'w) stage list \<Rightarrow> ('a, 'w) stage list \<Rightarrow> ('a, 'w) stage list \<Rightarrow>
     resource_request \<Rightarrow> sched_error + ('a, 'w) stage list \<times> ('a, 'w) stage list" where
  "admit_loop workers budget [] batch deferred used = Inr (batch, deferred)"
| "admit_loop workers budget (stage # pending) batch deferred used =
     (if exceeds_budget (st_resources stage) budget then Inl (budget_error stage)
      else if workers \<le> int (length batch) \<or> \<not> fits_alongside used (st_resources stage) budget
      then admit_loop workers budget pending batch (deferred @ [stage]) used
      else admit_loop workers budget pending (batch @ [stage]) deferred
             (add_request used (st_resources stage)))"

definition admit_stages ::
  "('a, 'w) stage list \<Rightarrow> int \<Rightarrow> resource_budget \<Rightarrow> sched_error + ('a, 'w) stage list \<times> ('a, 'w) stage list" where
  "admit_stages pending workers budget =
     res_bind (admit_loop (if workers \<le> 0 then 1 else workers) budget pending [] [] zero_request)
       (\<lambda>(batch, deferred). if batch = [] then Inl (Sentinel ErrResourceBudget) else Inr (batch, deferred))"

definition ready_stages :: "('a, 'w) stage list \<Rightarrow> string list \<Rightarrow> ('a, 'w) stage list" where
  "ready_stages stages completed =
     filter (\<lambda>stage. st_id stage \<notin> set completed \<and>
       list_all (\<lambda>dependency. dependency \<in> set completed) (st_dependencies stage)) stages"

section \<open>One stage\<close>

definition cache_key :: "('a, 'w) sched_env \<Rightarrow> string \<Rightarrow> string \<Rightarrow> string list \<Rightarrow> 'a \<Rightarrow> sched_error + string" where
  "cache_key env stage_id version input_digests configuration =
     (case key_sha env stage_id version (sort input_digests) configuration of
        None \<Rightarrow> Inl (Wrap ''encode stage cache-key inputs'' (Msg ''json: unsupported value''))
      | Some hex \<Rightarrow> Inr (''stage:'' @ hex))"

definition prior_result :: "(string \<times> 'a result) list \<Rightarrow> string \<Rightarrow> 'a result" where
  "prior_result prior dependency = (case map_of prior dependency of None \<Rightarrow> zero_result | Some r \<Rightarrow> r)"

definition stage_inputs :: "('a, 'w) stage \<Rightarrow> (string \<times> 'a result) list \<Rightarrow> ('a, 'w) options \<Rightarrow> 'a inputs" where
  "stage_inputs stage prior options = \<lparr>in_results =
     fold (\<lambda>d m. AList.update d (prior_result prior d) m) (st_dependencies stage) [],
     in_values = o_values options\<rparr>"

definition static_digests :: "('a, 'w) stage \<Rightarrow> (string \<times> 'a result) list \<Rightarrow> string list" where
  "static_digests stage prior = st_input_digests stage @
     (if st_ignore_dependency_digests stage then []
      else map (\<lambda>d. r_object_digest (prior_result prior d)) (st_dependencies stage))"

definition resolve_digests ::
  "('a, 'w) stage \<Rightarrow> 'a inputs \<Rightarrow> string list \<Rightarrow> 'w \<Rightarrow> (sched_error + string list) \<times> 'w" where
  "resolve_digests stage inputs digests w =
     (case st_dynamic_input_digests stage of
        None \<Rightarrow> (Inr digests, w)
      | Some f \<Rightarrow> (case f inputs w of
          (Inl e, w') \<Rightarrow> (Inl (Wrap ''resolve dynamic input digests'' e), w')
        | (Inr ds, w') \<Rightarrow> (Inr (digests @ ds), w')))"

text \<open>The runner and the store at the end of \<open>executeStage\<close>.\<close>

definition compute_stage ::
  "('a, 'w) stage \<Rightarrow> ('a, 'w) options \<Rightarrow> 'a inputs \<Rightarrow> string \<Rightarrow> 'w \<Rightarrow> (sched_error + 'a result) \<times> 'w" where
  "compute_stage stage options inputs key w =
     (case st_run stage of
        None \<Rightarrow> (Inl (Msg ''stage has no runner''), w)
      | Some run \<Rightarrow>
      (case run inputs w of
         (Inl e, w1) \<Rightarrow> (Inl e, w1)
       | (Inr r, w1) \<Rightarrow>
           let result = r\<lparr>r_stage_id := st_id stage, r_cache_key := key\<rparr> in
           (case o_cache options of
              Some c \<Rightarrow>
                if st_disable_cache stage \<or> r_do_not_cache result then (Inr result, w1)
                else (case cache_store c key result w1 of
                        (Some e, w2) \<Rightarrow> (Inl (Wrap ''store cache'' e), w2)
                      | (None, w2) \<Rightarrow> (Inr result, w2))
            | None \<Rightarrow> (Inr result, w1))))"

text \<open>The cache lookup: \<open>Inr None\<close> falls through to the runner.\<close>

definition consult_cache ::
  "('a, 'w) stage \<Rightarrow> ('a, 'w) options \<Rightarrow> 'a inputs \<Rightarrow> string \<Rightarrow> 'w \<Rightarrow> (sched_error + 'a result option) \<times> 'w" where
  "consult_cache stage options inputs key w =
     (case o_cache options of None \<Rightarrow> (Inr None, w) | Some c \<Rightarrow>
      if st_disable_cache stage then (Inr None, w)
      else (case cache_load c key w of
        (Inl e, w1) \<Rightarrow> (Inl (Wrap ''load cache'' e), w1)
      | (Inr None, w1) \<Rightarrow> (Inr None, w1)
      | (Inr (Some hit), w1) \<Rightarrow>
          let cached = hit\<lparr>r_stage_id := st_id stage, r_cache_key := key, r_cache_hit := True\<rparr> in
          (case st_restore stage of
             None \<Rightarrow> (Inr (Some cached), w1)
           | Some restore \<Rightarrow>
           (case restore inputs cached w1 of
              (None, w2) \<Rightarrow> (Inr (Some cached), w2)
            | (Some e, w2) \<Rightarrow>
                if errors_is e ErrCacheRejected
                then (case cache_invalidate c of
                        None \<Rightarrow> (Inr None, w2)
                      | Some inval \<Rightarrow>
                      (case inval key w2 of
                         (None, w3) \<Rightarrow> (Inr None, w3)
                       | (Some ie, w3) \<Rightarrow>
                           (Inl (Wrap ''invalidate rejected cached result'' (Join [e, ie])), w3)))
                else (Inl (Wrap ''restore cached result'' e), w2)))))"

definition execute_stage ::
  "('a, 'w) sched_env \<Rightarrow> ('a, 'w) stage \<Rightarrow> (string \<times> 'a result) list \<Rightarrow> ('a, 'w) options \<Rightarrow> 'w \<Rightarrow>
     (sched_error + 'a result) \<times> 'w" where
  "execute_stage env stage prior options w =
     (let inputs = stage_inputs stage prior options in
      case resolve_digests stage inputs (static_digests stage prior) w of
        (Inl e, w1) \<Rightarrow> (Inl e, w1)
      | (Inr digests, w1) \<Rightarrow>
      case cache_key env (st_id stage) (st_version stage) digests (st_configuration stage) of
        Inl e \<Rightarrow> (Inl (Wrap ''compute cache key'' e), w1)
      | Inr key \<Rightarrow>
      case consult_cache stage options inputs key w1 of
        (Inl e, w2) \<Rightarrow> (Inl e, w2)
      | (Inr (Some cached), w2) \<Rightarrow> (Inr cached, w2)
      | (Inr None, w2) \<Rightarrow> compute_stage stage options inputs key w2)"

section \<open>One goroutine\<close>

record 'a outcome =
  oc_id :: string
  oc_result :: "'a result"
  oc_event :: event
  oc_err :: "sched_error option"

definition emit :: "('a, 'w) options \<Rightarrow> event \<Rightarrow> 'w \<Rightarrow> 'w" where
  "emit options ev w = (case o_on_event options of None \<Rightarrow> w | Some f \<Rightarrow> f ev w)"

definition append_journal_record :: "('a, 'w) options \<Rightarrow> journal_record \<Rightarrow> 'w \<Rightarrow> sched_error option \<times> 'w" where
  "append_journal_record options record w =
     (case o_journal options of None \<Rightarrow> (None, w) | Some j \<Rightarrow> jo_append j record w)"

definition begin_stage_record :: "('a, 'w) options \<Rightarrow> string \<Rightarrow> ('a, 'w) stage \<Rightarrow> journal_record" where
  "begin_stage_record options plan_digest stage = zero_record\<lparr>jr_run_id := o_run_id options,
     jr_kind := KindStage, jr_state := StateRunning, jr_attempt := 1, jr_stage_id := st_id stage,
     jr_stage_version := st_version stage, jr_resources := st_resources stage,
     jr_plan_digest := plan_digest\<rparr>"

definition finish_state :: "sched_error + 'a result \<Rightarrow> journal_state" where
  "finish_state r = (case r of
     Inl e \<Rightarrow> if errors_is e ContextCanceled \<or> errors_is e ContextDeadlineExceeded
             then StateCancelled else StateFailed
   | Inr result \<Rightarrow> if r_cache_hit result then StateCached else StateSucceeded)"

definition finish_event_state :: "sched_error + 'a result \<Rightarrow> string" where
  "finish_event_state r = (case r of Inl e \<Rightarrow> ''failed''
     | Inr result \<Rightarrow> if r_cache_hit result then ''cached'' else ''complete'')"

definition outcome_result :: "sched_error + 'a result \<Rightarrow> 'a result" where
  "outcome_result r = (case r of Inl e \<Rightarrow> zero_result | Inr result \<Rightarrow> result)"

definition finish_stage_record ::
  "('a, 'w) options \<Rightarrow> string \<Rightarrow> ('a, 'w) stage \<Rightarrow> sched_error + 'a result \<Rightarrow> event \<Rightarrow> journal_record" where
  "finish_stage_record options plan_digest stage r ev = zero_record\<lparr>jr_run_id := o_run_id options,
     jr_kind := KindStage, jr_state := finish_state r, jr_attempt := 1, jr_stage_id := st_id stage,
     jr_stage_version := st_version stage, jr_cache_key := r_cache_key (outcome_result r),
     jr_output_digest := r_object_digest (outcome_result r), jr_resources := st_resources stage,
     jr_plan_digest := plan_digest, jr_duration := ev_duration ev, jr_error := ev_error ev\<rparr>"

definition run_stage ::
  "('a, 'w) sched_env \<Rightarrow> ('a, 'w) options \<Rightarrow> string \<Rightarrow> (string \<times> 'a result) list \<Rightarrow> ('a, 'w) stage \<Rightarrow> 'w \<Rightarrow>
     'a outcome \<times> 'w" where
  "run_stage env options plan_digest results stage w =
     (let started = now env w in
      case append_journal_record options (begin_stage_record options plan_digest stage) w of
        (Some je, w1) \<Rightarrow>
          let err = Wrap ''begin stage journal'' je;
              ev = \<lparr>ev_stage_id = st_id stage, ev_state = ''failed'', ev_started_at = started,
                    ev_duration = now env w1 - started, ev_error = error_text err\<rparr>
          in (\<lparr>oc_id = st_id stage, oc_result = zero_result, oc_event = ev, oc_err = Some err\<rparr>,
              emit options ev w1)
      | (None, w1) \<Rightarrow>
          let w2 = emit options \<lparr>ev_stage_id = st_id stage, ev_state = ''running'',
                     ev_started_at = started, ev_duration = 0, ev_error = []\<rparr> w1;
              (r, w3) = execute_stage env stage results options w2;
              run_err = (case r of Inl e \<Rightarrow> Some e | Inr _ \<Rightarrow> None);
              ev = \<lparr>ev_stage_id = st_id stage, ev_state = finish_event_state r, ev_started_at = started,
                    ev_duration = now env w3 - started,
                    ev_error = (case run_err of None \<Rightarrow> [] | Some e \<Rightarrow> error_text e)\<rparr>
          in (case append_journal_record options (finish_stage_record options plan_digest stage r ev) w3 of
                (None, w4) \<Rightarrow>
                  (\<lparr>oc_id = st_id stage, oc_result = outcome_result r, oc_event = ev, oc_err = run_err\<rparr>,
                   emit options ev w4)
              | (Some je, w4) \<Rightarrow>
                  let finish_err = Wrap ''finish stage journal'' je;
                      err = (case run_err of None \<Rightarrow> finish_err | Some e \<Rightarrow> Join [e, finish_err]);
                      ev' = ev\<lparr>ev_state := ''failed'', ev_error := error_text err\<rparr>
                  in (\<lparr>oc_id = st_id stage, oc_result = outcome_result r, oc_event = ev', oc_err = Some err\<rparr>,
                      emit options ev' w4)))"

section \<open>Batches and rounds\<close>

record 'a exec_state =
  x_results :: "(string \<times> 'a result) list"
  x_completed :: "string list"
  x_events :: "event list"

fun run_batch ::
  "('a, 'w) sched_env \<Rightarrow> ('a, 'w) options \<Rightarrow> string \<Rightarrow> (string \<times> 'a result) list \<Rightarrow> ('a, 'w) stage list \<Rightarrow> 'w \<Rightarrow>
     'a outcome list \<times> 'w" where
  "run_batch env options plan_digest results [] w = ([], w)"
| "run_batch env options plan_digest results (stage # batch) w =
     (let (oc, w1) = run_stage env options plan_digest results stage w;
          (ocs, w2) = run_batch env options plan_digest results batch w1
      in (oc # ocs, w2))"

text \<open>The loop over the outcomes sorted by stage identifier.\<close>

fun collect :: "'a outcome list \<Rightarrow> sched_error option \<Rightarrow> 'a exec_state \<Rightarrow> sched_error option \<times> 'a exec_state" where
  "collect [] batch_err st = (batch_err, st)"
| "collect (item # items) batch_err st =
     (let st1 = st\<lparr>x_events := x_events st @ [oc_event item]\<rparr> in
      case oc_err item of
        Some e \<Rightarrow> collect items (Some (join_error batch_err (Wrap (''stage '' @ oc_id item) e))) st1
      | None \<Rightarrow> collect items batch_err
          (st1\<lparr>x_results := AList.update (oc_id item) (oc_result item) (x_results st1),
               x_completed := List.insert (oc_id item) (x_completed st1)\<rparr>))"

lemma admit_loop_length:
  "admit_loop workers budget pending batch deferred used = Inr (b, d) \<Longrightarrow>
     length b + length d = length pending + length batch + length deferred"
  by (induction workers budget pending batch deferred used rule: admit_loop.induct)
     (auto split: if_splits)

lemma admit_stages_shrinks:
  "admit_stages pending workers budget = Inr (b, d) \<Longrightarrow> length d < length pending"
  by (auto simp: admit_stages_def res_simps split: if_splits dest!: admit_loop_length)
     (metis length_greater_0_conv add.commute less_add_same_cancel1)+

function run_pending ::
  "('a, 'w) sched_env \<Rightarrow> ('a, 'w) options \<Rightarrow> string \<Rightarrow> ('a, 'w) stage list \<Rightarrow> 'a exec_state \<Rightarrow> 'w \<Rightarrow>
     sched_error option \<times> 'a exec_state \<times> 'w" where
  "run_pending env options plan_digest pending st w =
     (if pending = [] then (None, st, w)
      else case admit_stages pending (o_workers options) (o_budget options) of
        Inl e \<Rightarrow> (Some e, st, w)
      | Inr (batch, deferred) \<Rightarrow>
          let (ocs, w1) = run_batch env options plan_digest (x_results st) batch w;
              (batch_err, st1) = collect (sort_key oc_id ocs) None st
          in (case batch_err of
                Some e \<Rightarrow> (Some e, st1, w1)
              | None \<Rightarrow> run_pending env options plan_digest deferred st1 w1))"
  by pat_completeness auto
termination
  by (relation "measure (\<lambda>(_, _, _, pending, _, _). length pending)") (auto dest: admit_stages_shrinks)

declare run_pending.simps [simp del]

lemma collect_None:
  "collect ocs err st = (None, st') \<Longrightarrow> err = None \<and> list_all (\<lambda>oc. oc_err oc = None) ocs \<and>
     set (x_completed st') = set (x_completed st) \<union> oc_id ` set ocs"
  by (induction ocs err st rule: collect.induct) (fastforce simp: Let_def split: option.splits)+

lemma run_stage_id: "run_stage env options pd results stage w = (oc, w') \<Longrightarrow> oc_id oc = st_id stage"
  by (auto simp: run_stage_def Let_def split: option.splits prod.splits)

lemma run_batch_ids:
  "run_batch env options pd results batch w = (ocs, w') \<Longrightarrow> map oc_id ocs = map st_id batch"
  by (induction batch arbitrary: w ocs) (auto simp: Let_def split: prod.splits dest: run_stage_id)

lemma admit_loop_set:
  "admit_loop workers budget pending batch deferred used = Inr (b, d) \<Longrightarrow>
     mset b + mset d = mset pending + mset batch + mset deferred"
  by (induction workers budget pending batch deferred used rule: admit_loop.induct)
     (auto split: if_splits)

lemma admit_stages_mset:
  "admit_stages pending workers budget = Inr (b, d) \<Longrightarrow> b \<noteq> [] \<and> mset b + mset d = mset pending"
  by (auto simp: admit_stages_def res_simps split: if_splits dest!: admit_loop_set)

lemma admit_stages_set:
  "admit_stages pending workers budget = Inr (b, d) \<Longrightarrow> set b \<union> set d = set pending"
  by (drule admit_stages_mset) (metis set_mset_mset set_mset_union)

text \<open>A successful pass over the pending stages, unfolded by one batch.\<close>

lemma run_pending_NoneE:
  assumes "run_pending env options pd pending st w = (None, st', w')"
  obtains (Empty) "pending = []" "st' = st" "w' = w"
  | (Batch) batch deferred ocs w1 st1 where "pending \<noteq> []"
      "admit_stages pending (o_workers options) (o_budget options) = Inr (batch, deferred)"
      "run_batch env options pd (x_results st) batch w = (ocs, w1)"
      "collect (sort_key oc_id ocs) None st = (None, st1)"
      "run_pending env options pd deferred st1 w1 = (None, st', w')"
  using assms
  by (subst (asm) run_pending.simps)
     (auto simp: Let_def split: sum.splits option.splits prod.splits if_splits)

lemma run_pending_completed:
  "run_pending env options pd pending st w = (None, st', w') \<Longrightarrow>
     set (x_completed st') = set (x_completed st) \<union> st_id ` set pending"
proof (induction pending arbitrary: st w rule: length_induct)
  case (1 pending)
  from "1.prems" show ?case
  proof (cases rule: run_pending_NoneE)
    case (Batch batch deferred ocs w1 st1)
    have "set (x_completed st') = set (x_completed st1) \<union> st_id ` set deferred"
      using "1.IH" admit_stages_shrinks [OF Batch(2)] Batch(5) by blast
    moreover have "set (x_completed st1) = set (x_completed st) \<union> oc_id ` set ocs"
      using collect_None [OF Batch(4)] by simp
    moreover have "oc_id ` set ocs = st_id ` set batch"
      using run_batch_ids [OF Batch(3)] by (metis list.set_map)
    ultimately show ?thesis using admit_stages_set [OF Batch(2)] by auto
  qed simp
qed

function run_rounds ::
  "('a, 'w) sched_env \<Rightarrow> ('a, 'w) options \<Rightarrow> string \<Rightarrow> ('a, 'w) stage list \<Rightarrow> 'a exec_state \<Rightarrow> 'w \<Rightarrow>
     sched_error option \<times> 'a exec_state \<times> 'w" where
  "run_rounds env options plan_digest normalized st w =
     (if length (x_completed st) < length normalized
      then (case ctx_err env w of
              Some e \<Rightarrow> (Some (Sentinel e), st, w)
            | None \<Rightarrow>
                let ready = ready_stages normalized (x_completed st) in
                if ready = [] then (Some (Sentinel ErrDependencyCycle), st, w)
                else (case run_pending env options plan_digest ready st w of
                        (Some e, st1, w1) \<Rightarrow> (Some e, st1, w1)
                      | (None, st1, w1) \<Rightarrow> run_rounds env options plan_digest normalized st1 w1))
      else (None, st, w))"
  by pat_completeness auto

definition uncompleted :: "('a, 'w) stage list \<Rightarrow> string list \<Rightarrow> nat" where
  "uncompleted stages completed = length (filter (\<lambda>s. st_id s \<notin> set completed) stages)"

lemma uncompleted_decreases:
  assumes "ready_stages stages completed \<noteq> []"
    and "set completed' = set completed \<union> st_id ` set (ready_stages stages completed)"
  shows "uncompleted stages completed' < uncompleted stages completed"
proof -
  from assms(1) obtain s where s: "s \<in> set (ready_stages stages completed)"
    by (meson list.set_sel(1))
  then have "s \<in> set stages" "st_id s \<notin> set completed" "st_id s \<in> set completed'"
    using assms(2) by (auto simp: ready_stages_def)
  then have "length (filter (\<lambda>s. st_id s \<notin> set completed') (filter (\<lambda>s. st_id s \<notin> set completed) stages))
      < length (filter (\<lambda>s. st_id s \<notin> set completed) stages)"
    by (intro length_filter_less [of s]) auto
  moreover have "filter (\<lambda>s. st_id s \<notin> set completed') (filter (\<lambda>s. st_id s \<notin> set completed) stages) =
      filter (\<lambda>s. st_id s \<notin> set completed') stages"
    using assms(2) by (auto intro!: filter_cong)
  ultimately show ?thesis unfolding uncompleted_def by simp
qed

termination run_rounds
  by (relation "measure (\<lambda>(_, _, _, normalized, st, _). uncompleted normalized (x_completed st))")
     (auto intro!: uncompleted_decreases dest!: run_pending_completed [OF sym])

declare run_rounds.simps [simp del]

section \<open>Execute\<close>

definition plan_of :: "('a, 'w) stage list \<Rightarrow> journal_stage list" where
  "plan_of normalized = map (\<lambda>s. \<lparr>js_id = st_id s, js_version = st_version s,
     js_dependencies = st_dependencies s, js_resources = st_resources s\<rparr>) normalized"

definition begin_run_record :: "('a, 'w) options \<Rightarrow> journal_stage list \<Rightarrow> string \<Rightarrow> journal_record" where
  "begin_run_record options plan digest = zero_record\<lparr>jr_run_id := o_run_id options,
     jr_kind := KindRun, jr_state := StateRunning, jr_plan := plan, jr_plan_digest := digest\<rparr>"

text \<open>The journal preamble: the plan digest that every later record carries.\<close>

definition begin_run ::
  "('a, 'w) sched_env \<Rightarrow> ('a, 'w) options \<Rightarrow> ('a, 'w) stage list \<Rightarrow> 'w \<Rightarrow> (sched_error + string) \<times> 'w" where
  "begin_run env options normalized w =
     (case o_journal options of
        None \<Rightarrow> (Inr [], w)
      | Some journal \<Rightarrow>
      case validate_run_id (o_run_id options) of
        Inl e \<Rightarrow> (Inl (Wrap ''validate scheduler journal run ID'' e), w)
      | Inr _ \<Rightarrow>
      if jo_run_id journal \<noteq> o_run_id options
      then (Inl (Msg ''scheduler journal run ID does not match execution run ID''), w)
      else if list_ex (\<lambda>s. blank (st_version s)) normalized
      then (Inl (Msg ''validate scheduler journal plan: stage has no version''), w)
      else case journal_plan_digest (jenv env) (plan_of normalized) of
        Inl e \<Rightarrow> (Inl (Wrap ''digest scheduler journal plan'' e), w)
      | Inr digest \<Rightarrow>
      case jo_append journal (begin_run_record options (plan_of normalized) digest) w of
        (Some e, w1) \<Rightarrow> (Inl (Wrap ''begin scheduler journal'' e), w1)
      | (None, w1) \<Rightarrow> (Inr digest, w1))"

definition run_state :: "sched_error option \<Rightarrow> sentinel option \<Rightarrow> journal_state" where
  "run_state run_err ctx = (case run_err of None \<Rightarrow> StateSucceeded
     | Some _ \<Rightarrow> if ctx = Some ContextCanceled \<or> ctx = Some ContextDeadlineExceeded
                then StateCancelled else StateFailed)"

definition end_run_record ::
  "('a, 'w) options \<Rightarrow> string \<Rightarrow> sched_error option \<Rightarrow> sentinel option \<Rightarrow> int \<Rightarrow> journal_record" where
  "end_run_record options plan_digest run_err ctx duration = zero_record\<lparr>jr_run_id := o_run_id options,
     jr_kind := KindRun, jr_state := run_state run_err ctx, jr_plan_digest := plan_digest,
     jr_duration := duration, jr_error := (case run_err of None \<Rightarrow> [] | Some e \<Rightarrow> error_text e)\<rparr>"

text \<open>The closure \<open>finish\<close>.\<close>

definition finish ::
  "('a, 'w) sched_env \<Rightarrow> ('a, 'w) options \<Rightarrow> string \<Rightarrow> int \<Rightarrow> sched_error option \<Rightarrow> 'a exec_state \<Rightarrow> 'w \<Rightarrow>
     ('a report \<times> sched_error option) \<times> 'w" where
  "finish env options plan_digest started run_err st w =
     (let report = \<lparr>rep_results = x_results st, rep_events = x_events st, rep_duration = now env w - started\<rparr> in
      case o_journal options of
        None \<Rightarrow> ((report, run_err), w)
      | Some journal \<Rightarrow>
      if o_defer_journal_completion options then ((report, run_err), w)
      else (case jo_append journal
                   (end_run_record options plan_digest run_err (ctx_err env w) (rep_duration report)) w of
              (None, w1) \<Rightarrow> ((report, run_err), w1)
            | (Some je, w1) \<Rightarrow>
                let journal_err = Wrap ''finish scheduler journal'' je
                in ((report, Some (case run_err of None \<Rightarrow> journal_err | Some e \<Rightarrow> Join [e, journal_err])), w1)))"

definition execute ::
  "('a, 'w) sched_env \<Rightarrow> ('a, 'w) stage list \<Rightarrow> ('a, 'w) options \<Rightarrow> 'w \<Rightarrow>
     ('a report \<times> sched_error option) \<times> 'w" where
  "execute env stages options0 w =
     (let started = now env w in
      case validate_and_normalize stages of
        Inl e \<Rightarrow> ((zero_report, Some e), w)
      | Inr normalized \<Rightarrow>
      case begin_run env options0 normalized w of
        (Inl e, w1) \<Rightarrow> ((zero_report, Some e), w1)
      | (Inr plan_digest, w1) \<Rightarrow>
          let options = (if o_workers options0 \<le> 0 then options0\<lparr>o_workers := 1\<rparr> else options0);
              (err, st, w2) = run_rounds env options plan_digest normalized
                \<lparr>x_results = [], x_completed = [], x_events = []\<rparr> w1
          in (case err of
                Some e \<Rightarrow> finish env options plan_digest started (Some e) st w2
              | None \<Rightarrow> finish env options plan_digest started None
                  (st\<lparr>x_events := sort_key (\<lambda>e. (ev_stage_id e, ev_state e)) (x_events st)\<rparr>) w2))"

end
