(* ===== verification/DagPlan.thy ===== *)
theory DagPlan
  imports Dag
begin

text \<open>
  Properties of plan validation and of admission: which plans are accepted, that acceptance does
  not depend on the declaration order, that some stage is always ready, and that a batch respects
  the worker count and the budget as long as the budget leaves room for one 64-bit addition.
\<close>

section \<open>Accepted plans\<close>

definition norm_stage :: "('a, 'w) stage \<Rightarrow> ('a, 'w) stage" where
  "norm_stage s = s\<lparr>st_dependencies := unique_sorted (st_dependencies s),
                    st_input_digests := unique_sorted (st_input_digests s)\<rparr>"

lemma norm_stage_simps [simp]:
  "st_id (norm_stage s) = st_id s"
  "st_resources (norm_stage s) = st_resources s"
  "st_version (norm_stage s) = st_version s"
  "st_run (norm_stage s) = st_run s"
  "st_restore (norm_stage s) = st_restore s"
  "st_dynamic_input_digests (norm_stage s) = st_dynamic_input_digests s"
  "set (st_dependencies (norm_stage s)) = set (st_dependencies s) - {[]}"
  by (simp_all add: norm_stage_def)

lemma map_id_norm [simp]: "map st_id (map norm_stage ss) = map st_id ss"
  by simp

lemma normalize_stages_iff:
  "normalize_stages stages acc = Inr out \<longleftrightarrow>
     (\<forall>s \<in> set stages. st_id s \<noteq> [] \<and> validate_resource_request (st_resources s) = Inr ()) \<and>
     distinct (map st_id stages) \<and> st_id ` set stages \<inter> st_id ` set acc = {} \<and>
     out = acc @ map norm_stage stages"
proof (induction stages arbitrary: acc)
  case (Cons stage rest)
  have fold: "normalize_stages (stage # rest) acc =
    (if st_id stage = [] then Inl (Msg ''stage id is required'')
     else if st_id stage \<in> set (map st_id acc)
     then Inl (WrapPre (Sentinel ErrDuplicateStage) (st_id stage))
     else case validate_resource_request (st_resources stage) of
       Inl e \<Rightarrow> Inl (Wrap (''stage '' @ st_id stage @ '' resources'') e)
     | Inr _ \<Rightarrow> normalize_stages rest (acc @ [norm_stage stage]))"
    by (simp only: normalize_stages.simps norm_stage_def)
  show ?case
    unfolding fold using Cons.IH [of "acc @ [norm_stage stage]"]
    by (cases "validate_resource_request (st_resources stage)") auto
qed auto

text \<open>The dependency relation of the declared stages; empty dependency names are dropped.\<close>

definition depends :: "('a, 'w) stage list \<Rightarrow> (string \<times> string) set" where
  "depends stages = {(x, y). \<exists>s \<in> set stages. st_id s = x \<and> y \<in> set (st_dependencies s) \<and> y \<noteq> []}"

definition valid_plan :: "('a, 'w) stage list \<Rightarrow> bool" where
  "valid_plan stages \<longleftrightarrow>
     (\<forall>s \<in> set stages. st_id s \<noteq> [] \<and> validate_resource_request (st_resources s) = Inr ()) \<and>
     distinct (map st_id stages) \<and> depends stages \<subseteq> UNIV \<times> st_id ` set stages \<and> acyclic (depends stages)"

lemma depends_norm [simp]: "depends (map norm_stage stages) = depends stages"
  by (auto simp: depends_def)

lemma dep_rel_stage_deps:
  assumes "distinct (map st_id stages)" and "\<forall>s \<in> set stages. [] \<notin> set (st_dependencies s)"
  shows "dep_rel (dep_of (stage_deps stages)) = depends stages"
proof -
  have d: "distinct (map fst (stage_deps stages))" using assms(1) by (simp add: stage_deps_def comp_def)
  have "y \<in> set (dep_of (stage_deps stages) x) \<longleftrightarrow> (\<exists>s \<in> set stages. st_id s = x \<and> y \<in> set (st_dependencies s))" for x y
  proof
    assume "y \<in> set (dep_of (stage_deps stages) x)"
    then obtain ds where ds: "map_of (stage_deps stages) x = Some ds" "y \<in> set ds"
      by (cases "map_of (stage_deps stages) x") (auto simp: dep_of_def)
    from map_of_SomeD [OF ds(1)] show "\<exists>s \<in> set stages. st_id s = x \<and> y \<in> set (st_dependencies s)"
      using ds(2) by (auto simp: stage_deps_def)
  next
    assume "\<exists>s \<in> set stages. st_id s = x \<and> y \<in> set (st_dependencies s)"
    then obtain s where s: "s \<in> set stages" "st_id s = x" "y \<in> set (st_dependencies s)" by blast
    then have "(x, st_dependencies s) \<in> set (stage_deps stages)" by (auto simp: stage_deps_def)
    then have "map_of (stage_deps stages) x = Some (st_dependencies s)" using d by simp
    then show "y \<in> set (dep_of (stage_deps stages) x)" using s(3) by (simp add: dep_of_def)
  qed
  then show ?thesis using assms(2) by (auto simp: dep_rel_def depends_def)
qed

lemma has_cycle_iff:
  assumes "distinct (map st_id stages)" and "\<forall>s \<in> set stages. [] \<notin> set (st_dependencies s)"
  shows "has_cycle stages \<longleftrightarrow> \<not> acyclic (depends stages)"
proof -
  have "set (keys (stage_deps stages)) \<subseteq> set (sort (map st_id stages))"
    by (auto simp: keys_def stage_deps_def)
  then show ?thesis
    unfolding has_cycle_def acyclic_def
    by (simp add: cycle_search_iff dep_rel_stage_deps [OF assms])
qed

lemma missing_dependency_iff:
  "missing_dependency by_id = Inr u \<longleftrightarrow>
     (\<forall>s \<in> set by_id. \<forall>d \<in> set (st_dependencies s). d \<in> st_id ` set by_id)"
  by (auto simp: missing_dependency_def)

lemma validate_iff:
  "validate_and_normalize stages = Inr out \<longleftrightarrow>
     valid_plan stages \<and> out = sort_key st_id (map norm_stage stages)"
proof (cases "(\<forall>s \<in> set stages. st_id s \<noteq> [] \<and> validate_resource_request (st_resources s) = Inr ()) \<and>
    distinct (map st_id stages)")
  case True
  let ?by = "map norm_stage stages"
  have n: "normalize_stages stages [] = Inr ?by"
    using True by (simp add: normalize_stages_iff)
  have "missing_dependency ?by = Inr () \<longleftrightarrow> depends stages \<subseteq> UNIV \<times> st_id ` set stages"
  proof
    assume "missing_dependency ?by = Inr ()"
    then show "depends stages \<subseteq> UNIV \<times> st_id ` set stages"
      by (force simp: missing_dependency_iff depends_def)
  next
    assume d: "depends stages \<subseteq> UNIV \<times> st_id ` set stages"
    have "y \<in> st_id ` set stages" if "s \<in> set stages" "y \<in> set (st_dependencies s)" "y \<noteq> []" for s y
      using d that by (auto simp: depends_def)
    then show "missing_dependency ?by = Inr ()"
      by (auto simp: missing_dependency_iff image_image)
  qed
  moreover have "has_cycle ?by \<longleftrightarrow> \<not> acyclic (depends stages)"
    using has_cycle_iff [of ?by] True by (auto simp: comp_def)
  moreover have "\<exists>u. missing_dependency ?by = Inr u \<longleftrightarrow> missing_dependency ?by = Inr ()" by simp
  ultimately show ?thesis
    using True n by (auto simp: validate_and_normalize_def valid_plan_def res_simps)
next
  case False
  then show ?thesis
    by (auto simp: validate_and_normalize_def valid_plan_def res_simps normalize_stages_iff)
qed

text \<open>
  C9. A plan is accepted exactly when its stages are named, unique, within the request rules, refer only to
  declared stages and have no dependency cycle; the accepted plan is its stages in identifier order.
\<close>

theorem validate_accepts_valid_plans:
  "validate_and_normalize stages = Inr out \<longleftrightarrow>
     valid_plan stages \<and> out = sort_key st_id (map norm_stage stages)"
  by (rule validate_iff)

text \<open>
  The order in which stages are declared does not matter: two plans with the same stages normalise
  to the same stage list.
\<close>

theorem validate_order_irrelevant:
  assumes "mset stages = mset stages'" and "validate_and_normalize stages = Inr out"
  shows "validate_and_normalize stages' = Inr out"
proof -
  from assms(2) have v: "valid_plan stages" and out: "out = sort_key st_id (map norm_stage stages)"
    by (simp_all add: validate_iff)
  have s: "set stages' = set stages" using assms(1) by (metis set_mset_mset)
  have "mset (map st_id stages') = mset (map st_id stages)" using assms(1) by simp
  then have "distinct (map st_id stages')"
    using v by (metis mset_eq_imp_distinct_iff valid_plan_def)
  then have "valid_plan stages'" using v s by (simp add: valid_plan_def depends_def)
  moreover have "sort_key st_id (map norm_stage stages) = sort_key st_id (map norm_stage stages')"
  proof (rule sort_key_unique_keys)
    show "mset (map norm_stage stages) = mset (map norm_stage stages')" using assms(1) by simp
    have d: "distinct (map st_id (map norm_stage stages))" using v by (simp add: valid_plan_def comp_def)
    then show "inj_on st_id (set (map norm_stage stages))" "distinct (map norm_stage stages)"
      unfolding distinct_map by auto
  qed
  ultimately show ?thesis using out by (simp add: validate_iff)
qed

section \<open>Some stage is ready\<close>

lemma depends_finite: "finite (depends stages)"
proof -
  have "depends stages \<subseteq> st_id ` set stages \<times> (\<Union>s \<in> set stages. set (st_dependencies s))"
    by (auto simp: depends_def)
  then show ?thesis by (rule finite_subset) auto
qed

definition normalized_plan :: "('a, 'w) stage list \<Rightarrow> bool" where
  "normalized_plan ss \<longleftrightarrow> distinct (map st_id ss) \<and> sorted (map st_id ss) \<and>
     (\<forall>s \<in> set ss. [] \<notin> set (st_dependencies s) \<and> set (st_dependencies s) \<subseteq> st_id ` set ss \<and>
        validate_resource_request (st_resources s) = Inr ()) \<and>
     acyclic (depends ss)"

lemma validate_normalized:
  assumes "validate_and_normalize stages = Inr out"
  shows "normalized_plan out \<and> set out = norm_stage ` set stages \<and> length out = length stages"
proof -
  from assms have v: "valid_plan stages" and out: "out = sort_key st_id (map norm_stage stages)"
    by (simp_all add: validate_iff)
  have d: "distinct (map st_id out)"
    using v unfolding out valid_plan_def
    by (metis distinct_map distinct_sort map_id_norm set_sort)
  have "depends out = depends stages" unfolding out by (auto simp: depends_def)
  moreover have "\<forall>s \<in> set out. set (st_dependencies s) \<subseteq> st_id ` set out"
    using v unfolding out valid_plan_def by (fastforce simp: depends_def image_iff)
  ultimately show ?thesis
    using v d by (auto simp: normalized_plan_def valid_plan_def out)
qed

lemma ready_exists:
  assumes n: "normalized_plan ss" and s: "s \<in> set ss" "st_id s \<notin> set completed"
  shows "ready_stages ss completed \<noteq> []"
proof -
  let ?U = "st_id ` set ss - set completed"
  have "wf ((depends ss)\<inverse>)"
    using n depends_finite by (intro finite_acyclic_wf_converse) (auto simp: normalized_plan_def)
  moreover have "st_id s \<in> ?U" using s by simp
  ultimately obtain x where x: "x \<in> ?U" and min: "\<And>y. (y, x) \<in> (depends ss)\<inverse> \<Longrightarrow> y \<notin> ?U"
    by (meson wfE_min)
  from x obtain t where t: "t \<in> set ss" "st_id t = x" "x \<notin> set completed" by auto
  have "d \<in> set completed" if d: "d \<in> set (st_dependencies t)" for d
  proof -
    have "(x, d) \<in> depends ss" "d \<in> st_id ` set ss"
      using n t d by (auto simp: depends_def normalized_plan_def)
    then show ?thesis using min by blast
  qed
  then have "t \<in> set (ready_stages ss completed)"
    using t by (simp add: ready_stages_def list_all_iff)
  then show ?thesis by (metis list.distinct(1) list.set_cases)
qed

lemma ready_stages_subset: "set (ready_stages ss completed) \<subseteq> set ss"
  by (auto simp: ready_stages_def)

section \<open>Admission within the budget\<close>

text \<open>The four modelled dimensions as pairs of a request field and a budget field.\<close>

definition dims :: "((resource_request \<Rightarrow> int64) \<times> (resource_budget \<Rightarrow> int64)) list" where
  "dims = [(memory_mib, b_memory_mib), (cpu, b_cpu), (processes, b_processes), (open_files, b_open_files)]"

lemma exceeds_budget_dims:
  "exceeds_budget r b \<longleftrightarrow> (\<exists>(f, g) \<in> set dims. 0 < sint (g b) \<and> sint (g b) < sint (f r))"
  by (auto simp: exceeds_budget_def dims_def less64_def)

lemma fits_alongside_dims:
  "fits_alongside u r b \<longleftrightarrow> (\<forall>(f, g) \<in> set dims. sint (g b) \<le> 0 \<or> sint (f u + f r) \<le> sint (g b))"
  by (auto simp: fits_alongside_def dims_def le64_def)

lemma add_request_dims: "(f, g) \<in> set dims \<Longrightarrow> f (add_request u r) = f u + f r"
  by (auto simp: add_request_def dims_def)

lemma zero_request_dims: "(f, g) \<in> set dims \<Longrightarrow> f zero_request = 0"
  by (auto simp: zero_request_def dims_def)

lemma valid_request_dims: "(f, g) \<in> set dims \<Longrightarrow> validate_resource_request r = Inr () \<Longrightarrow> 0 \<le> sint (f r)"
  using validate_resource_request_nonneg [of r] by (auto simp: dims_def)

definition demand :: "(resource_request \<Rightarrow> int64) \<Rightarrow> ('a, 'w) stage list \<Rightarrow> int" where
  "demand f batch = sum_list (map (\<lambda>s. sint (f (st_resources s))) batch)"

lemma demand_simps [simp]:
  "demand f [] = 0" "demand f (xs @ ys) = demand f xs + demand f ys"
  "demand f (s # xs) = sint (f (st_resources s)) + demand f xs"
  by (simp_all add: demand_def)

text \<open>Below half the range of \<open>int64\<close>, the sum compared with the budget cannot wrap.\<close>

lemma admit_loop_budget:
  assumes fg: "(f, g) \<in> set dims" and b: "0 < sint (g budget)" "sint (g budget) < 2 ^ 62"
  shows "admit_loop workers budget pending batch deferred used = Inr (b', d') \<Longrightarrow>
    \<forall>s \<in> set pending. validate_resource_request (st_resources s) = Inr () \<Longrightarrow>
    sint (f used) = demand f batch \<Longrightarrow> 0 \<le> demand f batch \<Longrightarrow> demand f batch \<le> sint (g budget) \<Longrightarrow>
    demand f b' \<le> sint (g budget)"
proof (induction pending arbitrary: batch deferred used)
  case (Cons stage pending)
  let ?r = "st_resources stage"
  have ne: "\<not> exceeds_budget ?r budget" using Cons.prems(1) by auto
  show ?case
  proof (cases "workers \<le> int (length batch) \<or> \<not> fits_alongside used ?r budget")
    case True
    then show ?thesis using Cons.IH Cons.prems ne by auto
  next
    case False
    have r0: "0 \<le> sint (f ?r)" using valid_request_dims [OF fg, of ?r] Cons.prems(2) by simp
    have "\<not> (0 < sint (g budget) \<and> sint (g budget) < sint (f ?r))"
      using ne fg unfolding exceeds_budget_dims by blast
    then have r: "0 \<le> sint (f ?r)" "sint (f ?r) \<le> sint (g budget)" using r0 b by auto
    have "fits_alongside used ?r budget" using False by simp
    then have "sint (g budget) \<le> 0 \<or> sint (f used + f ?r) \<le> sint (g budget)"
      using fg unfolding fits_alongside_dims by blast
    then have "sint (f used + f ?r) \<le> sint (g budget)" using b by simp
    moreover have "sint (f used + f ?r) = sint (f used) + sint (f ?r)"
      using r b Cons.prems(3-5) by (intro sint64_add) auto
    ultimately show ?thesis
      using Cons.IH Cons.prems ne False r add_request_dims [OF fg] by auto
  qed
qed auto

lemma admit_loop_workers:
  "admit_loop workers budget pending batch deferred used = Inr (b, d) \<Longrightarrow>
     int (length batch) \<le> workers \<Longrightarrow> int (length b) \<le> workers"
  by (induction workers budget pending batch deferred used rule: admit_loop.induct)
     (auto split: if_splits)

end
