(* ===== verification/DagExec.thy ===== *)
theory DagExec
  imports DagPlan
begin

text \<open>
  Properties of one execution: a batch is never empty unless a stage exceeds the whole budget, a
  successful execution has exactly one result and one final event for every stage, the callbacks
  of a stage run only when the results of all its dependencies are at hand, and the errors an
  execution can return.
\<close>

section \<open>Admission makes progress\<close>

lemma fits_zero: "\<not> exceeds_budget r b \<Longrightarrow> fits_alongside zero_request r b"
  by (auto simp: fits_alongside_def exceeds_budget_def zero_request_def less64_def le64_def)

lemma admit_loop_batch_grows:
  "admit_loop workers budget pending batch deferred used = Inr (b, d) \<Longrightarrow> batch \<noteq> [] \<Longrightarrow> b \<noteq> []"
  by (induction workers budget pending batch deferred used rule: admit_loop.induct)
     (auto split: if_splits)

lemma admit_loop_error:
  "admit_loop workers budget pending batch deferred used = Inl e \<Longrightarrow>
     \<exists>s \<in> set pending. exceeds_budget (st_resources s) budget \<and> e = budget_error s"
  by (induction workers budget pending batch deferred used rule: admit_loop.induct)
     (auto split: if_splits)

text \<open>Admission fails on a non-empty list only because some stage alone exceeds the budget.\<close>

lemma admit_stages_error:
  assumes "admit_stages pending workers budget = Inl e" and "pending \<noteq> []"
  shows "\<exists>s \<in> set pending. exceeds_budget (st_resources s) budget \<and> e = budget_error s"
proof -
  from assms(2) obtain s rest where p: "pending = s # rest" by (cases pending) auto
  let ?w = "if workers \<le> 0 then 1 else workers"
  show ?thesis
  proof (cases "admit_loop ?w budget pending [] [] zero_request")
    case (Inl e')
    then show ?thesis using assms(1) admit_loop_error [OF Inl] by (auto simp: admit_stages_def)
  next
    case (Inr bd)
    obtain b d where bd: "bd = (b, d)" by (cases bd)
    have ne: "\<not> exceeds_budget (st_resources s) budget" using Inr by (auto simp: p)
    then have "admit_loop ?w budget rest [s] [] (add_request zero_request (st_resources s)) = Inr (b, d)"
      using Inr fits_zero [OF ne] by (auto simp: p bd split: if_splits)
    then have "b \<noteq> []" by (rule admit_loop_batch_grows) simp
    then show ?thesis using assms(1) Inr by (simp add: admit_stages_def bd)
  qed
qed


definition huge_stage :: "string \<Rightarrow> (int, nat) stage" where
  "huge_stage sid = \<lparr>st_id = sid, st_version = ''v1'', st_dependencies = [], st_configuration = 0,
     st_input_digests = [], st_dynamic_input_digests = None, st_ignore_dependency_digests = False,
     st_disable_cache = False, st_restore = None, st_resources = zero_request\<lparr>memory_mib := 2 ^ 62\<rparr>,
     st_run = None\<rparr>"

definition huge_budget :: resource_budget where
  "huge_budget = \<lparr>b_memory_mib = 2 ^ 63 - 1, b_cpu = 0, b_processes = 0, b_open_files = 0\<rparr>"

text \<open>
  Beyond that range the running sum wraps: two stages that each ask for 2^62 MiB are admitted together
  under a budget of 2^63 - 1 MiB that their demand exceeds.
\<close>

theorem admission_wraps:
  "admit_stages [huge_stage ''a'', huge_stage ''b''] 2 huge_budget = Inr ([huge_stage ''a'', huge_stage ''b''], []) \<and>
   sint (b_memory_mib huge_budget) < demand memory_mib [huge_stage ''a'', huge_stage ''b'']"
  by (simp add: admit_stages_def exceeds_budget_def fits_alongside_def add_request_def less64_def le64_def
      huge_stage_def huge_budget_def zero_request_def res_simps)

section \<open>One successful stage\<close>

lemma execute_stage_id:
  "execute_stage env stage prior options w = (Inr r, w') \<Longrightarrow> r_stage_id r = st_id stage"
  by (auto simp: execute_stage_def consult_cache_def compute_stage_def Let_def
      split: sum.splits option.splits prod.splits if_splits)

definition good_outcome :: "'a outcome \<Rightarrow> bool" where
  "good_outcome oc \<longleftrightarrow> ev_stage_id (oc_event oc) = oc_id oc \<and>
     (oc_err oc = None \<longrightarrow> r_stage_id (oc_result oc) = oc_id oc \<and>
        ev_state (oc_event oc) = (if r_cache_hit (oc_result oc) then ''cached'' else ''complete''))"

lemma run_stage_good: "run_stage env options pd results stage w = (oc, w') \<Longrightarrow> good_outcome oc"
  by (auto simp: run_stage_def Let_def good_outcome_def finish_event_state_def outcome_result_def
      split: option.splits prod.splits sum.splits if_splits dest!: execute_stage_id)

lemma run_batch_good:
  "run_batch env options pd results batch w = (ocs, w') \<Longrightarrow> list_all good_outcome ocs"
  by (induction batch arbitrary: w ocs) (auto simp: Let_def split: prod.splits dest: run_stage_good)

section \<open>The invariant of a successful execution\<close>

definition exec_inv :: "'a exec_state \<Rightarrow> bool" where
  "exec_inv st \<longleftrightarrow> distinct (x_completed st) \<and> wf_map (x_results st) \<and>
     set (keys (x_results st)) = set (x_completed st) \<and>
     (\<forall>x r. map_of (x_results st) x = Some r \<longrightarrow> r_stage_id r = x) \<and>
     mset (map ev_stage_id (x_events st)) = mset (x_completed st) \<and>
     (\<forall>e \<in> set (x_events st). ev_state e \<in> {''complete'', ''cached''})"

lemma collect_inv:
  "collect ocs err st = (None, st') \<Longrightarrow> exec_inv st \<Longrightarrow> list_all good_outcome ocs \<Longrightarrow>
     distinct (map oc_id ocs) \<Longrightarrow> oc_id ` set ocs \<inter> set (x_completed st) = {} \<Longrightarrow> exec_inv st'"
proof (induction ocs err st rule: collect.induct)
  case (2 item items batch_err st)
  then have ok: "oc_err item = None"
    using collect_None [OF "2.prems"(1)] by simp
  let ?st1 = "st\<lparr>x_events := x_events st @ [oc_event item]\<rparr>"
  let ?st2 = "?st1\<lparr>x_results := AList.update (oc_id item) (oc_result item) (x_results ?st1),
               x_completed := List.insert (oc_id item) (x_completed ?st1)\<rparr>"
  have "exec_inv ?st2"
    using "2.prems"(2-) ok unfolding exec_inv_def
    by (auto simp: good_outcome_def)
  moreover have "oc_id ` set items \<inter> set (x_completed ?st2) = {}"
    using "2.prems"(4,5) by auto
  ultimately show ?case
    using "2.IH"(1) [OF refl ok] "2.prems" ok by simp
qed auto

lemma run_pending_inv:
  "run_pending env options pd pending st w = (None, st', w') \<Longrightarrow> exec_inv st \<Longrightarrow>
     distinct (map st_id pending) \<Longrightarrow> st_id ` set pending \<inter> set (x_completed st) = {} \<Longrightarrow> exec_inv st'"
proof (induction pending arbitrary: st w rule: length_induct)
  case (1 pending)
  from "1.prems"(1) show ?case
  proof (cases rule: run_pending_NoneE)
    case Empty
    then show ?thesis using "1.prems" by simp
  next
    case (Batch batch deferred ocs w1 st1)
    have "mset (map st_id batch) + mset (map st_id deferred) = mset (map st_id pending)"
      using admit_stages_mset [OF Batch(2)] by (metis image_mset_union mset_map)
    then have d: "distinct (map st_id batch @ map st_id deferred)"
      using "1.prems"(3) by (metis mset_append mset_eq_imp_distinct_iff)
    have ids: "map oc_id ocs = map st_id batch" using run_batch_ids [OF Batch(3)] .
    have "distinct (map oc_id (sort_key oc_id ocs))"
      using d ids by (metis distinct_append distinct_map distinct_sort set_sort)
    moreover have "set (map oc_id ocs) \<inter> set (x_completed st) = {}"
      using "1.prems"(4) admit_stages_set [OF Batch(2)] unfolding ids by auto
    then have "oc_id ` set (sort_key oc_id ocs) \<inter> set (x_completed st) = {}" by simp
    moreover have "list_all good_outcome (sort_key oc_id ocs)"
      using run_batch_good [OF Batch(3)] by (simp add: list_all_iff)
    ultimately have inv1: "exec_inv st1" using collect_inv [OF Batch(4) "1.prems"(2)] by blast
    have c: "set (x_completed st1) = set (x_completed st) \<union> set (map st_id batch)"
      using collect_None [OF Batch(4)] ids by (metis list.set_map set_sort)
    have "st_id ` set deferred \<inter> set (x_completed st1) = {}"
      using d c "1.prems"(4) admit_stages_set [OF Batch(2)] by auto
    moreover have "distinct (map st_id deferred)" using d by simp
    ultimately show ?thesis
      using "1.IH" admit_stages_shrinks [OF Batch(2)] Batch(5) inv1 by blast
  qed
qed

lemma ready_stages_ids:
  assumes "distinct (map st_id ss)"
  shows "distinct (map st_id (ready_stages ss completed))"
    and "st_id ` set (ready_stages ss completed) \<inter> set completed = {}"
  using assms by (auto simp: ready_stages_def distinct_map inj_on_def)

lemma run_rounds_inv:
  "run_rounds env options pd ss st w = (None, st', w') \<Longrightarrow> exec_inv st \<Longrightarrow> distinct (map st_id ss) \<Longrightarrow>
     set (x_completed st) \<subseteq> st_id ` set ss \<Longrightarrow>
     exec_inv st' \<and> set (x_completed st') = st_id ` set ss"
proof (induction env options pd ss st w rule: run_rounds.induct)
  case (1 env options pd ss st w)
  let ?ready = "ready_stages ss (x_completed st)"
  show ?case
  proof (cases "length (x_completed st) < length ss")
    case True
    then obtain st1 w1 where c: "ctx_err env w = None" "?ready \<noteq> []"
      and p: "run_pending env options pd ?ready st w = (None, st1, w1)"
      and r: "run_rounds env options pd ss st1 w1 = (None, st', w')"
      using "1.prems"(1)
      by (subst (asm) run_rounds.simps) (auto simp: Let_def split: option.splits prod.splits if_splits)
    have "exec_inv st1"
      using run_pending_inv [OF p "1.prems"(2)] ready_stages_ids [OF "1.prems"(3)] by blast
    moreover have "set (x_completed st1) \<subseteq> st_id ` set ss"
      using run_pending_completed [OF p] "1.prems"(4) ready_stages_subset [of ss "x_completed st"] by auto
    ultimately show ?thesis
      using "1.IH" [OF True c(1) refl c(2) p [symmetric] refl refl] r "1.prems"(3) by auto
  next
    case False
    then have e: "st' = st" using "1.prems"(1) by (subst (asm) run_rounds.simps) auto
    have "card (set (x_completed st)) = length (x_completed st)"
      using "1.prems"(2) by (simp add: exec_inv_def distinct_card)
    moreover have "card (st_id ` set ss) = length ss"
      using "1.prems"(3) by (metis distinct_card length_map list.set_map)
    ultimately have "set (x_completed st) = st_id ` set ss"
      using False "1.prems"(4) by (intro card_seteq) auto
    then show ?thesis using e "1.prems"(2) by simp
  qed
qed

lemma execute_None:
  assumes "execute env stages options w = ((rep, None), w')"
  obtains ss pd w1 opts st w2 where "validate_and_normalize stages = Inr ss"
    "begin_run env options ss w = (Inr pd, w1)"
    "opts = (if o_workers options \<le> 0 then options\<lparr>o_workers := 1\<rparr> else options)"
    "run_rounds env opts pd ss \<lparr>x_results = [], x_completed = [], x_events = []\<rparr> w1 = (None, st, w2)"
    "rep_results rep = x_results st"
    "rep_events rep = sort_key (\<lambda>e. (ev_stage_id e, ev_state e)) (x_events st)"
  using assms
  by (auto simp: execute_def finish_def Let_def split: sum.splits prod.splits option.splits if_splits)

text \<open>
  C1. A successful execution has exactly one final event per declared stage, in stage order, each of
  them \<open>complete\<close> or \<open>cached\<close>, and exactly one result per declared stage, carrying its identifier.
\<close>

theorem execute_success:
  assumes "execute env stages options w = ((rep, None), w')"
  shows "map ev_stage_id (rep_events rep) = sort (map st_id stages) \<and>
     (\<forall>e \<in> set (rep_events rep). ev_state e \<in> {''complete'', ''cached''}) \<and>
     set (keys (rep_results rep)) = st_id ` set stages \<and> wf_map (rep_results rep) \<and>
     (\<forall>x r. map_of (rep_results rep) x = Some r \<longrightarrow> r_stage_id r = x)"
proof (rule execute_None [OF assms])
  fix ss pd w1 opts st w2
  assume v: "validate_and_normalize stages = Inr ss"
    and rr: "run_rounds env opts pd ss \<lparr>x_results = [], x_completed = [], x_events = []\<rparr> w1 = (None, st, w2)"
    and rep: "rep_results rep = x_results st"
      "rep_events rep = sort_key (\<lambda>e. (ev_stage_id e, ev_state e)) (x_events st)"
  have n: "normalized_plan ss" and set_ss: "set ss = norm_stage ` set stages"
    using validate_normalized [OF v] by auto
  have "exec_inv \<lparr>x_results = [], x_completed = [], x_events = []\<rparr>"
    by (simp add: exec_inv_def keys_def)
  from run_rounds_inv [OF rr this] n
  have inv: "exec_inv st" and c: "set (x_completed st) = st_id ` set ss"
    by (auto simp: normalized_plan_def)
  have ids: "st_id ` set ss = st_id ` set stages" by (simp add: set_ss image_image)
  have "mset (map ev_stage_id (x_events st)) = mset (x_completed st)" using inv by (simp add: exec_inv_def)
  moreover have "mset (x_completed st) = mset (map st_id stages)"
  proof (rule set_eq_iff_mset_eq_distinct [THEN iffD1])
    show "distinct (x_completed st)" using inv by (simp add: exec_inv_def)
    show "distinct (map st_id stages)" using v by (simp add: validate_iff valid_plan_def)
    show "set (x_completed st) = set (map st_id stages)" using c ids by simp
  qed
  ultimately have m: "mset (map ev_stage_id (rep_events rep)) = mset (map st_id stages)"
    by (simp add: rep(2))
  have "sorted (map ev_stage_id (rep_events rep))"
  proof -
    have "sorted (map (\<lambda>e. (ev_stage_id e, ev_state e)) (rep_events rep))" by (simp add: rep(2))
    then have "sorted (map fst (map (\<lambda>e. (ev_stage_id e, ev_state e)) (rep_events rep)))"
      by (induction "rep_events rep" rule: list.induct) (force simp: sorted_map sorted_wrt_map elim: sorted_wrt_mono_rel [rotated])+
    then show ?thesis by (simp add: comp_def)
  qed
  then have "map ev_stage_id (rep_events rep) = sort (map st_id stages)"
    using m by (metis properties_for_sort)
  then show ?thesis using inv c ids rep by (auto simp: exec_inv_def)
qed

section \<open>The errors of an execution\<close>

lemma collect_Some:
  "collect ocs err st = (Some e, st') \<Longrightarrow> err = None \<or> (\<exists>es. err = Some (Join es)) \<Longrightarrow> \<exists>es. e = Join es"
  by (induction ocs err st rule: collect.induct) (auto simp: Let_def join_error_def split: option.splits)

definition rounds_error :: "('a, 'w) sched_env \<Rightarrow> ('a, 'w) options \<Rightarrow> ('a, 'w) stage list \<Rightarrow> sched_error \<Rightarrow> bool" where
  "rounds_error env options ss e \<longleftrightarrow>
     (\<exists>w s. ctx_err env w = Some s \<and> e = Sentinel s) \<or>
     (\<exists>s \<in> set ss. exceeds_budget (st_resources s) (o_budget options) \<and> e = budget_error s) \<or>
     (\<exists>es. e = Join es)"

lemma run_pending_error:
  "run_pending env options pd pending st w = (Some e, st', w') \<Longrightarrow> rounds_error env options pending e"
proof (induction pending arbitrary: st w rule: length_induct)
  case (1 pending)
  have ne: "pending \<noteq> []" using "1.prems" by (auto simp: run_pending.simps)
  show ?case
  proof (cases "admit_stages pending (o_workers options) (o_budget options)")
    case (Inl a)
    then show ?thesis
      using "1.prems" ne admit_stages_error [OF Inl ne] by (subst (asm) run_pending.simps) (auto simp: rounds_error_def)
  next
    case (Inr bd)
    obtain batch deferred where bd: "bd = (batch, deferred)" by (cases bd)
    obtain ocs w1 where b: "run_batch env options pd (x_results st) batch w = (ocs, w1)" by force
    obtain err st1 where c: "collect (sort_key oc_id ocs) None st = (err, st1)" by force
    show ?thesis
    proof (cases err)
      case None
      then have "run_pending env options pd deferred st1 w1 = (Some e, st', w')"
        using "1.prems" ne Inr bd b c by (subst (asm) run_pending.simps) simp
      then have "rounds_error env options deferred e"
        using "1.IH" admit_stages_shrinks Inr bd by blast
      moreover have "set deferred \<subseteq> set pending" using admit_stages_set Inr bd by blast
      ultimately show ?thesis by (auto simp: rounds_error_def)
    next
      case (Some e')
      then have "e' = e" using "1.prems" ne Inr bd b c by (subst (asm) run_pending.simps) simp
      moreover have "\<exists>es. e' = Join es" using collect_Some c Some by blast
      ultimately show ?thesis by (auto simp: rounds_error_def)
    qed
  qed
qed

lemma run_rounds_error:
  "run_rounds env options pd ss st w = (Some e, st', w') \<Longrightarrow> normalized_plan ss \<Longrightarrow> exec_inv st \<Longrightarrow>
     set (x_completed st) \<subseteq> st_id ` set ss \<Longrightarrow> rounds_error env options ss e"
proof (induction env options pd ss st w rule: run_rounds.induct)
  case (1 env options pd ss st w)
  let ?ready = "ready_stages ss (x_completed st)"
  have lt: "length (x_completed st) < length ss"
    using "1.prems"(1) by (subst (asm) run_rounds.simps) (auto split: if_splits)
  show ?case
  proof (cases "ctx_err env w")
    case (Some s)
    then have "e = Sentinel s" using "1.prems"(1) lt by (subst (asm) run_rounds.simps) simp
    then show ?thesis using Some by (auto simp: rounds_error_def)
  next
    case None
    have "\<exists>s \<in> set ss. st_id s \<notin> set (x_completed st)"
    proof (rule ccontr)
      assume "\<not> ?thesis"
      then have "st_id ` set ss \<subseteq> set (x_completed st)" by blast
      then have "card (st_id ` set ss) \<le> card (set (x_completed st))" by (simp add: card_mono)
      moreover have "card (st_id ` set ss) = length ss"
        using "1.prems"(2) by (metis distinct_card length_map list.set_map normalized_plan_def)
      ultimately show False using lt card_length [of "x_completed st"] by simp
    qed
    then have ne: "?ready \<noteq> []" using ready_exists [OF "1.prems"(2)] by blast
    obtain err st1 w1 where p: "run_pending env options pd ?ready st w = (err, st1, w1)"
      by (metis prod_cases3)
    show ?thesis
    proof (cases err)
      case (Some e')
      then have "e' = e" using "1.prems"(1) lt None ne p by (subst (asm) run_rounds.simps) simp
      then have "rounds_error env options ?ready e" using run_pending_error [of env options pd ?ready st w e] p Some by simp
      then show ?thesis using ready_stages_subset [of ss "x_completed st"] by (auto simp: rounds_error_def)
    next
      case nerr: None
      then have "run_rounds env options pd ss st1 w1 = (Some e, st', w')"
        using "1.prems"(1) lt None ne p by (subst (asm) run_rounds.simps) simp
      moreover have "exec_inv st1"
        using run_pending_inv p nerr "1.prems"(2,3) ready_stages_ids by (metis normalized_plan_def)
      moreover have "set (x_completed st1) \<subseteq> st_id ` set ss"
        using run_pending_completed [of env options pd ?ready st w st1 w1] p nerr "1.prems"(4)
          ready_stages_subset [of ss "x_completed st"] by auto
      ultimately show ?thesis
        using "1.IH" [OF lt None refl ne p [unfolded nerr, symmetric] refl refl] "1.prems"(2) by blast
    qed
  qed
qed

text \<open>
  Once a plan has been validated, an execution without a journal fails only because the context
  ended, because some stage alone exceeds the budget, or because stages failed (their joined errors).
  In particular the cycle error inside the scheduling loop is unreachable.
\<close>

theorem execute_error_kinds:
  assumes "execute env stages options w = ((rep, Some e), w')"
    and "validate_and_normalize stages = Inr ss" and "o_journal options = None"
  shows "(\<exists>w s. ctx_err env w = Some s \<and> e = Sentinel s) \<or>
     (\<exists>s \<in> set ss. exceeds_budget (st_resources s) (o_budget options) \<and> e = budget_error s) \<or>
     (\<exists>es. e = Join es)"
proof -
  let ?o = "if o_workers options \<le> 0 then options\<lparr>o_workers := 1\<rparr> else options"
  let ?s = "\<lparr>x_results = [], x_completed = [], x_events = []\<rparr>"
  obtain err st w2 where rr: "run_rounds env ?o [] ss ?s w = (err, st, w2)" by (metis prod_cases3)
  then have "err = Some e"
    using assms by (cases err) (simp_all add: execute_def begin_run_def finish_def Let_def split: if_splits)
  moreover have "exec_inv ?s" by (simp add: exec_inv_def keys_def)
  ultimately have "rounds_error env ?o ss e"
    using run_rounds_error rr validate_normalized [OF assms(2)] by fastforce
  then show ?thesis by (auto simp: rounds_error_def split: if_splits)
qed

section \<open>Callbacks see the results of every dependency\<close>

definition complete_inputs :: "('a, 'w) stage \<Rightarrow> 'a inputs \<Rightarrow> bool" where
  "complete_inputs s ins \<longleftrightarrow> wf_map (in_results ins) \<and>
     set (keys (in_results ins)) = set (st_dependencies s) - {[]} \<and>
     (\<forall>d r. map_of (in_results ins) d = Some r \<longrightarrow> r_stage_id r = d)"

text \<open>
  A property of the world that the callbacks of a stage keep, provided they are called with the
  results of all dependencies, and that the cache, the journal and the event callback keep always.
\<close>

definition stage_keeps :: "('w \<Rightarrow> bool) \<Rightarrow> ('a, 'w) stage \<Rightarrow> bool" where
  "stage_keeps I s \<longleftrightarrow> (\<forall>ins w. complete_inputs s ins \<longrightarrow> I w \<longrightarrow>
     (\<forall>f. st_dynamic_input_digests s = Some f \<longrightarrow> I (snd (f ins w))) \<and>
     (\<forall>f r. st_restore s = Some f \<longrightarrow> I (snd (f ins r w))) \<and>
     (\<forall>f. st_run s = Some f \<longrightarrow> I (snd (f ins w))))"

definition options_keep :: "('w \<Rightarrow> bool) \<Rightarrow> ('a, 'w) options \<Rightarrow> bool" where
  "options_keep I options \<longleftrightarrow> (\<forall>w. I w \<longrightarrow>
     (\<forall>c. o_cache options = Some c \<longrightarrow> (\<forall>k. I (snd (cache_load c k w))) \<and>
        (\<forall>k r. I (snd (cache_store c k r w))) \<and>
        (\<forall>f k. cache_invalidate c = Some f \<longrightarrow> I (snd (f k w)))) \<and>
     (\<forall>j r. o_journal options = Some j \<longrightarrow> I (snd (jo_append j r w))) \<and>
     (\<forall>f ev. o_on_event options = Some f \<longrightarrow> I (f ev w)))"

lemma complete_inputs_norm [simp]: "complete_inputs (norm_stage s) = complete_inputs s"
  by (rule ext) (simp add: complete_inputs_def)

lemma stage_keeps_norm [simp]: "stage_keeps I (norm_stage s) = stage_keeps I s"
  by (simp add: stage_keeps_def)

lemma wf_map_fold_update: "wf_map m \<Longrightarrow> wf_map (fold (\<lambda>d. AList.update d (g d)) ds m)"
  by (induction ds arbitrary: m) simp_all

lemma map_of_fold_update:
  "map_of (fold (\<lambda>d. AList.update d (g d)) ds m) x = (if x \<in> set ds then Some (g x) else map_of m x)"
  by (induction ds arbitrary: m) simp_all

lemma stage_inputs_complete:
  assumes "[] \<notin> set (st_dependencies s)" and "set (st_dependencies s) \<subseteq> set (keys prior)"
    and "\<forall>x r. map_of prior x = Some r \<longrightarrow> r_stage_id r = x"
  shows "complete_inputs s (stage_inputs s prior options)"
proof -
  have "map_of prior d \<noteq> None" if "d \<in> set (st_dependencies s)" for d
    using that assms(2) by (auto simp: set_keys_map_of simp del: not_None_eq)
  then show ?thesis
    using assms
    by (auto simp: complete_inputs_def stage_inputs_def set_keys_map_of map_of_fold_update wf_map_fold_update
        prior_result_def split: if_splits option.splits)
qed

lemma execute_stage_keeps:
  assumes "stage_keeps I s" "options_keep I options" "complete_inputs s (stage_inputs s prior options)" "I w"
    and "execute_stage env s prior options w = (x, w')"
  shows "I w'"
proof -
  let ?ins = "stage_inputs s prior options"
  have dyn: "st_dynamic_input_digests s = Some f \<Longrightarrow> f ?ins w = (x, w') \<Longrightarrow> I w \<Longrightarrow> I w'" for f w x w'
    using assms(1,3) by (auto simp: stage_keeps_def) (metis snd_conv)
  have restore: "st_restore s = Some f \<Longrightarrow> f ?ins r w = (x, w') \<Longrightarrow> I w \<Longrightarrow> I w'" for f r w x w'
    using assms(1,3) by (auto simp: stage_keeps_def) (metis snd_conv)
  have run: "st_run s = Some f \<Longrightarrow> f ?ins w = (x, w') \<Longrightarrow> I w \<Longrightarrow> I w'" for f w x w'
    using assms(1,3) by (auto simp: stage_keeps_def) (metis snd_conv)
  have load: "o_cache options = Some c \<Longrightarrow> cache_load c k w = (x, w') \<Longrightarrow> I w \<Longrightarrow> I w'" for c k w x w'
    using assms(2) by (auto simp: options_keep_def) (metis snd_conv)
  have store: "o_cache options = Some c \<Longrightarrow> cache_store c k r w = (x, w') \<Longrightarrow> I w \<Longrightarrow> I w'" for c k r w x w'
    using assms(2) by (auto simp: options_keep_def) (metis snd_conv)
  have inval: "o_cache options = Some c \<Longrightarrow> cache_invalidate c = Some f \<Longrightarrow> f k w = (x, w') \<Longrightarrow> I w \<Longrightarrow> I w'"
    for c f k w x w'
    using assms(2) by (auto simp: options_keep_def) (metis snd_conv)
  have d: "resolve_digests s ?ins ds w = (x, w') \<Longrightarrow> I w \<Longrightarrow> I w'" for ds x w w'
    by (auto simp: resolve_digests_def split: option.splits prod.splits sum.splits dest: dyn)
  have c: "consult_cache s options ?ins key w = (x, w') \<Longrightarrow> I w \<Longrightarrow> I w'" for key x w w'
    by (auto simp: consult_cache_def Let_def split: option.splits prod.splits sum.splits if_splits
        dest: load restore inval)
  have k: "compute_stage s options ?ins key w = (x, w') \<Longrightarrow> I w \<Longrightarrow> I w'" for key x w w'
    by (auto simp: compute_stage_def Let_def split: option.splits prod.splits sum.splits if_splits
        dest: run store)
  show ?thesis
    using assms(4,5)
    by (auto simp: execute_stage_def Let_def split: option.splits prod.splits sum.splits dest: d c k)
qed

lemma options_keep_dest:
  assumes "options_keep I options" "I w"
  shows "append_journal_record options r w = (x, w') \<Longrightarrow> I w'" and "I (emit options ev w)"
  using assms
  by (auto simp: options_keep_def append_journal_record_def emit_def split: option.splits) (metis snd_conv)

lemma run_stage_keeps:
  assumes "stage_keeps I s" "options_keep I options" "complete_inputs s (stage_inputs s prior options)" "I w"
    and "run_stage env options pd prior s w = (oc, w')"
  shows "I w'"
proof -
  note ex = execute_stage_keeps [OF assms(1-3)]
  note op = options_keep_dest [OF assms(2)]
  obtain je w1 where b: "append_journal_record options (begin_stage_record options pd s) w = (je, w1)" by force
  have w1: "I w1" using op(1) [OF assms(4) b] .
  show ?thesis
  proof (cases je)
    case (Some e)
    then show ?thesis using assms(5) b op(2) [OF w1] by (auto simp: run_stage_def Let_def)
  next
    case None
    let ?w2 = "emit options \<lparr>ev_stage_id = st_id s, ev_state = ''running'', ev_started_at = now env w,
                 ev_duration = 0, ev_error = []\<rparr> w1"
    obtain r w3 where e: "execute_stage env s prior options ?w2 = (r, w3)" by force
    have w3: "I w3" using ex [OF op(2) [OF w1] e] .
    have "\<exists>ev w4 rec x. append_journal_record options rec w3 = (x, w4) \<and> w' = emit options ev w4"
      using assms(5) b None e
      by (auto simp: run_stage_def Let_def split: prod.splits option.splits)
    then show ?thesis using op w3 by metis
  qed
qed

lemma run_batch_keeps:
  "run_batch env options pd prior batch w = (ocs, w') \<Longrightarrow> options_keep I options \<Longrightarrow>
     \<forall>s \<in> set batch. stage_keeps I s \<and> complete_inputs s (stage_inputs s prior options) \<Longrightarrow> I w \<Longrightarrow> I w'"
proof (induction batch arbitrary: w ocs)
  case (Cons s batch)
  obtain oc w1 where r: "run_stage env options pd prior s w = (oc, w1)" by force
  have "I w1" using Cons.prems by (intro run_stage_keeps [OF _ _ _ _ r, of I]) auto
  moreover obtain ocs1 where "run_batch env options pd prior batch w1 = (ocs1, w')"
    using Cons.prems(1) r by (auto split: prod.splits)
  ultimately show ?case using Cons.IH Cons.prems by simp
qed auto

text \<open>What the executor knows of the results so far.\<close>

definition results_ok :: "'a exec_state \<Rightarrow> bool" where
  "results_ok st \<longleftrightarrow> set (x_completed st) \<subseteq> set (keys (x_results st)) \<and>
     (\<forall>x r. map_of (x_results st) x = Some r \<longrightarrow> r_stage_id r = x)"

lemma collect_results_ok:
  "collect ocs err st = (err', st') \<Longrightarrow> list_all good_outcome ocs \<Longrightarrow> results_ok st \<Longrightarrow>
     results_ok st' \<and> set (x_completed st) \<subseteq> set (x_completed st')"
proof (induction ocs err st rule: collect.induct)
  case (2 item items batch_err st)
  let ?st1 = "st\<lparr>x_events := x_events st @ [oc_event item]\<rparr>"
  show ?case
  proof (cases "oc_err item")
    case None
    let ?st2 = "?st1\<lparr>x_results := AList.update (oc_id item) (oc_result item) (x_results ?st1),
               x_completed := List.insert (oc_id item) (x_completed ?st1)\<rparr>"
    have "results_ok ?st2" using "2.prems"(2,3) None by (auto simp: results_ok_def good_outcome_def)
    then show ?thesis using "2.IH"(1) [OF refl None] "2.prems" None by auto
  next
    case (Some e)
    have "results_ok ?st1" using "2.prems"(3) by (simp add: results_ok_def)
    then show ?thesis using "2.IH"(2) [OF refl Some] "2.prems" Some by auto
  qed
qed auto

lemma run_pending_keeps:
  "run_pending env options pd pending st w = (err, st', w') \<Longrightarrow> options_keep I options \<Longrightarrow> results_ok st \<Longrightarrow>
     \<forall>s \<in> set pending. stage_keeps I s \<and> [] \<notin> set (st_dependencies s) \<and>
        set (st_dependencies s) \<subseteq> set (x_completed st) \<Longrightarrow> I w \<Longrightarrow> I w' \<and> results_ok st'"
proof (induction pending arbitrary: st w rule: length_induct)
  case (1 pending)
  note opt = "1.prems"(2) and ok = "1.prems"(3) and ps = "1.prems"(4) and w = "1.prems"(5)
  show ?case
  proof (cases "pending = [] \<or> (\<exists>e. admit_stages pending (o_workers options) (o_budget options) = Inl e)")
    case True
    then show ?thesis using "1.prems" by (subst (asm) run_pending.simps) (auto split: if_splits)
  next
    case False
    then obtain batch deferred where ne: "pending \<noteq> []"
      and a: "admit_stages pending (o_workers options) (o_budget options) = Inr (batch, deferred)"
      by (metis old.sum.exhaust surj_pair)
    obtain ocs w1 where b: "run_batch env options pd (x_results st) batch w = (ocs, w1)" by force
    obtain berr st1 where c: "collect (sort_key oc_id ocs) None st = (berr, st1)" by force
    have "\<forall>s \<in> set batch. stage_keeps I s \<and> complete_inputs s (stage_inputs s (x_results st) options)"
    proof
      fix s assume "s \<in> set batch"
      then have "s \<in> set pending" using admit_stages_set [OF a] by auto
      then show "stage_keeps I s \<and> complete_inputs s (stage_inputs s (x_results st) options)"
        using ps ok by (auto simp: results_ok_def intro!: stage_inputs_complete)
    qed
    from run_batch_keeps [OF b opt this w] have w1: "I w1" .
    have st1: "results_ok st1" "set (x_completed st) \<subseteq> set (x_completed st1)"
      using collect_results_ok [OF c _ ok] run_batch_good [OF b] by (auto simp: list_all_iff)
    show ?thesis
    proof (cases berr)
      case None
      then have "run_pending env options pd deferred st1 w1 = (err, st', w')"
        using "1.prems"(1) ne a b c by (subst (asm) run_pending.simps) simp
      moreover have "\<forall>s \<in> set deferred. stage_keeps I s \<and> [] \<notin> set (st_dependencies s) \<and>
          set (st_dependencies s) \<subseteq> set (x_completed st1)"
        using ps st1(2) admit_stages_set [OF a] by blast
      ultimately show ?thesis using "1.IH" admit_stages_shrinks [OF a] opt st1(1) w1 by blast
    next
      case (Some e)
      then show ?thesis using "1.prems"(1) ne a b c w1 st1 by (subst (asm) run_pending.simps) auto
    qed
  qed
qed

lemma run_rounds_keeps:
  "run_rounds env options pd ss st w = (err, st', w') \<Longrightarrow> options_keep I options \<Longrightarrow> results_ok st \<Longrightarrow>
     \<forall>s \<in> set ss. stage_keeps I s \<and> [] \<notin> set (st_dependencies s) \<Longrightarrow> I w \<Longrightarrow> I w'"
proof (induction env options pd ss st w rule: run_rounds.induct)
  case (1 env options pd ss st w)
  let ?ready = "ready_stages ss (x_completed st)"
  show ?case
  proof (cases "length (x_completed st) < length ss \<and> ctx_err env w = None \<and> ?ready \<noteq> []")
    case True
    obtain perr st1 w1 where p: "run_pending env options pd ?ready st w = (perr, st1, w1)"
      by (metis prod_cases3)
    have "\<forall>s \<in> set ?ready. stage_keeps I s \<and> [] \<notin> set (st_dependencies s) \<and>
        set (st_dependencies s) \<subseteq> set (x_completed st)"
      using "1.prems"(4) by (auto simp: ready_stages_def list_all_iff)
    from run_pending_keeps [OF p "1.prems"(2,3) this "1.prems"(5)]
    have 2: "I w1" "results_ok st1" by auto
    show ?thesis
    proof (cases perr)
      case None
      then have "run_rounds env options pd ss st1 w1 = (err, st', w')"
        using "1.prems"(1) True p by (subst (asm) run_rounds.simps) simp
      moreover have "length (x_completed st) < length ss" "ctx_err env w = None" "?ready \<noteq> []"
        using True by auto
      ultimately show ?thesis
        using "1.IH" [OF _ _ refl _ p [unfolded None, symmetric] refl refl] "1.prems"(2,4) 2 by blast
    next
      case (Some e)
      then show ?thesis using "1.prems"(1) True p 2 by (subst (asm) run_rounds.simps) simp
    qed
  next
    case False
    then show ?thesis
      using "1.prems"(1,5) by (subst (asm) run_rounds.simps) (auto split: option.splits if_splits)
  qed
qed

lemma begin_run_keeps:
  "begin_run env options ss w = (x, w') \<Longrightarrow> options_keep I options \<Longrightarrow> I w \<Longrightarrow> I w'"
  by (auto simp: begin_run_def options_keep_def split: option.splits sum.splits prod.splits if_splits)
     (metis snd_conv)+

lemma finish_keeps:
  "finish env options pd t err st w = (x, w') \<Longrightarrow> options_keep I options \<Longrightarrow> I w \<Longrightarrow> I w'"
  by (auto simp: finish_def options_keep_def Let_def split: option.splits prod.splits if_splits)
     (metis snd_conv)+

text \<open>
  C4. No callback of a stage ever runs with an incomplete set of dependency results: whatever the stage
  callbacks preserve when they are called with the results of all their dependencies, each under its own
  identifier, the whole execution preserves.
\<close>

theorem execute_keeps:
  assumes "\<forall>s \<in> set stages. stage_keeps I s" and "options_keep I options" and "I w"
  shows "I (snd (execute env stages options w))"
proof (cases "validate_and_normalize stages")
  case (Inl e)
  then show ?thesis using assms(3) by (simp add: execute_def)
next
  case (Inr ss)
  obtain b w1 where b: "begin_run env options ss w = (b, w1)" by force
  have w1: "I w1" by (rule begin_run_keeps [OF b assms(2,3)])
  show ?thesis
  proof (cases b)
    case (Inl e)
    then show ?thesis using \<open>validate_and_normalize stages = Inr ss\<close> b w1 by (simp add: execute_def)
  next
    case (Inr pd)
    let ?o = "if o_workers options \<le> 0 then options\<lparr>o_workers := 1\<rparr> else options"
    have o: "options_keep I ?o" using assms(2) by (simp add: options_keep_def)
    let ?s = "\<lparr>x_results = [], x_completed = [], x_events = []\<rparr>"
    obtain err st w2 where rr: "run_rounds env ?o pd ss ?s w1 = (err, st, w2)" by (metis prod_cases3)
    have "\<forall>s \<in> set ss. stage_keeps I s \<and> [] \<notin> set (st_dependencies s)"
      using validate_normalized [OF \<open>validate_and_normalize stages = Inr ss\<close>] assms(1)
      by (auto simp: normalized_plan_def)
    then have w2: "I w2" by (intro run_rounds_keeps [OF rr o _ _ w1]) (simp_all add: results_ok_def)
    have f: "I (snd (finish env ?o pd t e s w2))" for t e s
      using finish_keeps [OF _ o w2] by (metis surjective_pairing)
    show ?thesis
      using \<open>validate_and_normalize stages = Inr ss\<close> b Inr rr f
      by (cases err) (simp_all add: execute_def Let_def)
  qed
qed

end
