(* ===== verification/JournalLifecycle.thy ===== *)
theory JournalLifecycle
  imports Journal
begin

text \<open>
  Properties of the lifecycle automaton of \<open>journal.go\<close>: its invariant, what an accepted record
  sequence says about the order of stages, and the end of a run.
\<close>

section \<open>The invariant\<close>

text \<open>
  Only planned stages have progress; a stage is final exactly when its last record reports
  success; and a stage whose last record is more than \<open>planned\<close> had all its dependencies succeed.
\<close>

definition progress_ok :: "journal_lifecycle \<Rightarrow> string \<Rightarrow> stage_progress \<Rightarrow> bool" where
  "progress_ok lc sid p \<longleftrightarrow>
     (p_final p \<longleftrightarrow> p_state p = StateSucceeded \<or> p_state p = StateCached) \<and>
     (\<exists>stage. map_of (lc_plan lc) sid = Some stage \<and>
        (p_state p \<noteq> StatePlanned \<longrightarrow> (\<forall>d \<in> set (js_dependencies stage). stage_succeeded lc d)))"

definition lc_inv :: "journal_lifecycle \<Rightarrow> bool" where
  "lc_inv lc \<longleftrightarrow> (\<forall>sid p. map_of (lc_stages lc) sid = Some p \<longrightarrow> progress_ok lc sid p)"

lemma lc_inv_zero [simp]: "lc_inv zero_lifecycle"
  by (simp add: lc_inv_def zero_lifecycle_def)

lemma progress_of_update:
  "progress_of (lc\<lparr>lc_stages := AList.update sid p (lc_stages lc)\<rparr>) x =
     (if x = sid then p else progress_of lc x)"
  by (simp add: progress_of_def)

lemma zero_progress_not_final [simp]: "\<not> p_final zero_progress"
  by (simp add: zero_progress_def)

text \<open>What an accepted stage record does, in one elimination rule.\<close>

lemma accept_stageE:
  assumes "accept_stage r lc = Inr lc'"
  obtains stage p where
    "map_of (lc_plan lc) (jr_stage_id r) = Some stage"
    "jr_stage_version r = js_version stage" "jr_resources r = js_resources stage"
    "\<not> p_final (progress_of lc (jr_stage_id r))"
    "jr_attempt r = expected_attempt (progress_of lc (jr_stage_id r))"
    "stage_transition lc stage r (progress_of lc (jr_stage_id r)) = Inr p"
    "lc' = lc\<lparr>lc_stages := AList.update (jr_stage_id r)
             (p\<lparr>p_attempt := jr_attempt r, p_state := jr_state r\<rparr>) (lc_stages lc)\<rparr>"
  using assms unfolding accept_stage_def
  by (auto simp: Let_def res_simps split: option.splits if_splits)

lemma accept_nextE:
  assumes "accept_next r lc = Inr lc'"
  obtains (Run) "\<not> lc_terminal lc" "jr_sequence r = lc_last_sequence lc + 1"
      "lc_last_occurred lc \<le> jr_occurred_at r" "jr_plan_digest r = lc_plan_digest lc"
      "jr_kind r = KindRun" "is_terminal_run_state (jr_state r)"
      "jr_state r = StateSucceeded \<Longrightarrow> list_all (stage_succeeded lc) (keys (lc_plan lc))"
      "lc' = lc\<lparr>lc_terminal := True, lc_last_sequence := jr_sequence r, lc_last_occurred := jr_occurred_at r\<rparr>"
  | (Stage) lc1 where "\<not> lc_terminal lc" "jr_sequence r = lc_last_sequence lc + 1"
      "lc_last_occurred lc \<le> jr_occurred_at r" "jr_plan_digest r = lc_plan_digest lc"
      "jr_kind r = KindStage" "accept_stage r lc = Inr lc1"
      "lc' = lc1\<lparr>lc_last_sequence := jr_sequence r, lc_last_occurred := jr_occurred_at r\<rparr>"
  using assms unfolding accept_next_def
  by (cases "jr_kind r") (fastforce simp: res_simps split: if_splits)+

lemma accept_firstE:
  assumes "accept_first env r lc = Inr lc'"
  obtains digest where "jr_sequence r = 1" "jr_kind r = KindRun" "jr_state r = StateRunning"
    "jr_previous_record_digest r = zero_journal_digest"
    "journal_plan_digest env (jr_plan r) = Inr digest" "jr_plan_digest r = digest"
    "lc' = lc\<lparr>lc_initialized := True, lc_last_sequence := jr_sequence r,
               lc_last_occurred := jr_occurred_at r, lc_plan_digest := digest,
               lc_plan := fold (\<lambda>stage m. AList.update (js_id stage) stage m) (jr_plan r) [],
               lc_stages := []\<rparr>"
  using assms unfolding accept_first_def by (auto simp: res_simps split: if_splits)

lemma stage_transition_state:
  "stage_transition lc stage r p = Inr q \<Longrightarrow>
     p_final p = False \<Longrightarrow>
     (p_final q \<longleftrightarrow> jr_state r = StateSucceeded \<or> jr_state r = StateCached)"
  by (cases "jr_state r") (auto simp: stage_transition_def res_simps split: if_splits)

lemma stage_transition_deps:
  "stage_transition lc stage r p = Inr q \<Longrightarrow> jr_state r = StateQueued \<or> jr_state r = StateRunning \<Longrightarrow>
     \<forall>d \<in> set (js_dependencies stage). stage_succeeded lc d"
  by (auto simp: stage_transition_def require_dependencies_def res_simps split: if_splits)

lemma stage_transition_finish:
  "stage_transition lc stage r p = Inr q \<Longrightarrow>
     jr_state r \<notin> {StatePlanned, StateQueued, StateRunning} \<Longrightarrow> p_state p = StateRunning"
  by (cases "jr_state r") (auto simp: stage_transition_def split: if_splits)

text \<open>Success of a stage is stable: a final stage accepts no further record.\<close>

lemma accept_stage_succeeded_stable:
  assumes "accept_stage r lc = Inr lc'" and "stage_succeeded lc d"
  shows "stage_succeeded lc' d"
  using assms by (elim accept_stageE) (auto simp: stage_succeeded_def progress_of_update)

lemma accept_stage_lc_inv:
  assumes acc: "accept_stage r lc = Inr lc'" and inv: "lc_inv lc"
  shows "lc_inv lc'"
proof -
  let ?sid = "jr_stage_id r"
  let ?p0 = "progress_of lc ?sid"
  from acc obtain stage p where plan: "map_of (lc_plan lc) ?sid = Some stage"
    and fin: "\<not> p_final ?p0"
    and tr: "stage_transition lc stage r ?p0 = Inr p"
    and lc': "lc' = lc\<lparr>lc_stages := AList.update ?sid (p\<lparr>p_attempt := jr_attempt r, p_state := jr_state r\<rparr>) (lc_stages lc)\<rparr>"
    by (elim accept_stageE)
  have "stage_succeeded lc d" if d: "d \<in> set (js_dependencies stage)" and st: "jr_state r \<noteq> StatePlanned" for d
  proof (cases "jr_state r = StateQueued \<or> jr_state r = StateRunning")
    case True
    then show ?thesis using stage_transition_deps [OF tr] d by blast
  next
    case False
    then have "p_state ?p0 = StateRunning"
      using stage_transition_finish [OF tr] st by auto
    then have "map_of (lc_stages lc) ?sid = Some ?p0"
      by (auto simp: progress_of_def zero_progress_def split: option.splits)
    then have "progress_ok lc ?sid ?p0" using inv by (simp add: lc_inv_def)
    then show ?thesis
      using plan d \<open>p_state ?p0 = StateRunning\<close> by (auto simp: progress_ok_def)
  qed
  then have "progress_ok lc' ?sid (p\<lparr>p_attempt := jr_attempt r, p_state := jr_state r\<rparr>)"
    using accept_stage_succeeded_stable [OF acc] stage_transition_state [OF tr] fin plan
    by (auto simp: progress_ok_def lc')
  moreover have "progress_ok lc' sid q" if "map_of (lc_stages lc) sid = Some q" for sid q
    using that inv accept_stage_succeeded_stable [OF acc]
    by (fastforce simp: lc_inv_def progress_ok_def lc')
  ultimately show ?thesis
    by (auto simp: lc_inv_def lc' split: if_splits)
qed

lemma stage_succeeded_cong [simp]:
  "stage_succeeded (lc\<lparr>lc_last_sequence := a\<rparr>) d = stage_succeeded lc d"
  "stage_succeeded (lc\<lparr>lc_last_occurred := b\<rparr>) d = stage_succeeded lc d"
  "stage_succeeded (lc\<lparr>lc_terminal := t\<rparr>) d = stage_succeeded lc d"
  by (simp_all add: stage_succeeded_def progress_of_def)

lemma lc_inv_cong [simp]:
  "lc_inv (lc\<lparr>lc_last_sequence := a\<rparr>) = lc_inv lc"
  "lc_inv (lc\<lparr>lc_last_occurred := b\<rparr>) = lc_inv lc"
  "lc_inv (lc\<lparr>lc_terminal := t\<rparr>) = lc_inv lc"
  by (simp_all add: lc_inv_def progress_ok_def)

lemma accept_next_lc_inv: "accept_next r lc = Inr lc' \<Longrightarrow> lc_inv lc \<Longrightarrow> lc_inv lc'"
  by (elim accept_nextE) (auto intro: accept_stage_lc_inv)

lemma accept_lc_inv [inv_intros]: "accept env r lc = Inr lc' \<Longrightarrow> lc_inv lc \<Longrightarrow> lc_inv lc'"
proof (cases "lc_initialized lc")
  case False
  assume "accept env r lc = Inr lc'"
  with False have "accept_first env r lc = Inr lc'" by (simp add: accept_def)
  then show ?thesis by (elim accept_firstE) (simp add: lc_inv_def)
qed (simp add: accept_def accept_next_lc_inv)

lemma accept_all_append:
  "accept_all env (xs @ ys) lc = res_bind (accept_all env xs lc) (accept_all env ys)"
proof (induction xs arbitrary: lc)
  case (Cons x xs)
  then show ?case by (cases "accept env x lc") auto
qed simp

lemma accept_all_snoc:
  "accept_all env (xs @ [r]) lc = Inr lc' \<longleftrightarrow>
     (\<exists>lc1. accept_all env xs lc = Inr lc1 \<and> accept env r lc1 = Inr lc')"
  by (auto simp: accept_all_append res_simps)

lemma accept_all_lc_inv: "accept_all env rs lc = Inr lc' \<Longrightarrow> lc_inv lc \<Longrightarrow> lc_inv lc'"
  by (induction rs arbitrary: lc) (auto simp: res_simps intro: accept_lc_inv)

section \<open>What the accepted prefix fixes\<close>

lemma accept_stage_frame:
  "accept_stage r lc = Inr lc' \<Longrightarrow> lc_plan lc' = lc_plan lc \<and> lc_initialized lc' = lc_initialized lc \<and>
     lc_terminal lc' = lc_terminal lc \<and> lc_plan_digest lc' = lc_plan_digest lc"
  by (elim accept_stageE) simp

lemma accept_frame:
  "accept env r lc = Inr lc' \<Longrightarrow> lc_initialized lc \<Longrightarrow>
     lc_plan lc' = lc_plan lc \<and> lc_initialized lc' \<and> lc_plan_digest lc' = lc_plan_digest lc"
  by (auto simp: accept_def dest!: accept_stage_frame elim!: accept_nextE)

lemma accept_initialized: "accept env r lc = Inr lc' \<Longrightarrow> lc_initialized lc'"
  by (cases "lc_initialized lc") (simp add: accept_frame, auto simp: accept_def elim!: accept_firstE)

lemma accept_all_frame:
  "accept_all env rs lc = Inr lc' \<Longrightarrow> lc_initialized lc \<Longrightarrow> lc_plan lc' = lc_plan lc \<and> lc_initialized lc'"
  by (induction rs arbitrary: lc) (auto simp: res_simps dest: accept_frame)

definition plan_map :: "journal_stage list \<Rightarrow> (string \<times> journal_stage) list" where
  "plan_map plan = fold (\<lambda>stage m. AList.update (js_id stage) stage m) plan []"

lemma plan_map_values:
  "map_of (fold (\<lambda>stage m. AList.update (js_id stage) stage m) plan m) sid = Some stage \<Longrightarrow>
     stage \<in> set plan \<and> js_id stage = sid \<or> map_of m sid = Some stage"
  by (induction plan arbitrary: m) (fastforce split: if_splits)+

lemma plan_map_keys:
  "set (keys (fold (\<lambda>stage m. AList.update (js_id stage) stage m) plan m)) = js_id ` set plan \<union> set (keys m)"
  by (induction plan arbitrary: m) auto

lemma accept_all_plan:
  assumes "accept_all env (r # rs) zero_lifecycle = Inr lc"
  shows "lc_plan lc = plan_map (jr_plan r) \<and> lc_initialized lc \<and> jr_kind r = KindRun \<and>
    jr_state r = StateRunning"
proof -
  from assms obtain lc1 where "accept env r zero_lifecycle = Inr lc1" and rest: "accept_all env rs lc1 = Inr lc"
    by (auto simp: res_simps)
  then have "accept_first env r zero_lifecycle = Inr lc1"
    by (simp add: accept_def zero_lifecycle_def)
  then show ?thesis
    using accept_all_frame [OF rest] by (auto elim!: accept_firstE simp: plan_map_def)
qed

section \<open>Success is recorded\<close>

definition success_record :: "string \<Rightarrow> journal_record \<Rightarrow> bool" where
  "success_record sid r \<longleftrightarrow> jr_kind r = KindStage \<and> jr_stage_id r = sid \<and>
     (jr_state r = StateSucceeded \<or> jr_state r = StateCached)"

definition successes :: "string \<Rightarrow> journal_record list \<Rightarrow> nat" where
  "successes sid rs = length (filter (success_record sid) rs)"

lemma successes_append [simp]: "successes sid (xs @ ys) = successes sid xs + successes sid ys"
  by (simp add: successes_def)

lemma successes_single [simp]: "successes sid [r] = (if success_record sid r then 1 else 0)"
  by (simp add: successes_def)

lemma accept_stage_successes:
  assumes "accept_stage r lc = Inr lc'" and "jr_kind r = KindStage"
    and "n = (if stage_succeeded lc sid then 1 else 0)"
  shows "n + (if success_record sid r then 1 else 0) = (if stage_succeeded lc' sid then 1 else (0::nat))"
proof -
  from assms(1) obtain stage p where fin: "\<not> p_final (progress_of lc (jr_stage_id r))"
    and tr: "stage_transition lc stage r (progress_of lc (jr_stage_id r)) = Inr p"
    and lc': "lc' = lc\<lparr>lc_stages := AList.update (jr_stage_id r)
             (p\<lparr>p_attempt := jr_attempt r, p_state := jr_state r\<rparr>) (lc_stages lc)\<rparr>"
    by (elim accept_stageE)
  show ?thesis
    using assms(2,3) fin stage_transition_state [OF tr]
    by (auto simp: success_record_def stage_succeeded_def lc' progress_of_update)
qed

text \<open>Each stage has one success record when it is final, none before.\<close>

lemma accept_successes:
  assumes "accept env r lc = Inr lc'" and "lc_initialized lc"
    and "n = (if stage_succeeded lc sid then 1 else 0)"
  shows "n + (if success_record sid r then 1 else 0) = (if stage_succeeded lc' sid then 1 else (0::nat))"
proof -
  from assms(1,2) have "accept_next r lc = Inr lc'" by (simp add: accept_def)
  then show ?thesis
  proof (cases rule: accept_nextE)
    case Run
    then show ?thesis using assms(3) by (simp add: success_record_def)
  next
    case (Stage lc1)
    then show ?thesis using accept_stage_successes [OF Stage(6,5) assms(3)] by simp
  qed
qed

lemma accept_all_successes:
  "accept_all env rs zero_lifecycle = Inr lc \<Longrightarrow>
     successes sid rs = (if stage_succeeded lc sid then 1 else 0)"
proof (induction rs arbitrary: lc rule: rev_induct)
  case Nil
  then show ?case
    by (auto simp: successes_def stage_succeeded_def progress_of_def zero_lifecycle_def)
next
  case (snoc r rs)
  from snoc.prems obtain lc1 where pre: "accept_all env rs zero_lifecycle = Inr lc1"
    and acc: "accept env r lc1 = Inr lc"
    by (auto simp: accept_all_snoc)
  show ?case
  proof (cases "rs = []")
    case True
    with pre acc have "accept_first env r zero_lifecycle = Inr lc"
      by (auto simp: accept_def zero_lifecycle_def)
    then show ?thesis
      using True by (auto elim!: accept_firstE simp: success_record_def stage_succeeded_def progress_of_def)
  next
    case False
    with pre have "lc_initialized lc1"
      by (metis accept_all_plan list.exhaust)
    then show ?thesis
      using accept_successes [OF acc _ snoc.IH [OF pre]] by simp
  qed
qed

section \<open>Order of an accepted journal\<close>

text \<open>
  C5. In every accepted record sequence, a stage is queued or started only after each of its dependencies
  has exactly one success record.
\<close>

theorem accepted_start_dependencies:
  assumes acc: "accept_all env (first # rs @ [r]) zero_lifecycle = Inr lc"
    and r: "jr_kind r = KindStage" "jr_state r = StateQueued \<or> jr_state r = StateRunning"
  shows "\<exists>stage \<in> set (jr_plan first). js_id stage = jr_stage_id r \<and>
    (\<forall>d \<in> set (js_dependencies stage). successes d (first # rs) = 1)"
proof -
  from acc obtain lc1 where pre: "accept_all env (first # rs) zero_lifecycle = Inr lc1"
    and last: "accept env r lc1 = Inr lc"
    using accept_all_snoc [of env "first # rs" r] by auto
  note plan = accept_all_plan [OF pre]
  then have "accept_next r lc1 = Inr lc" using last by (simp add: accept_def)
  then obtain lc2 where "accept_stage r lc1 = Inr lc2"
    using r by (cases rule: accept_nextE) auto
  then obtain stage p where st: "map_of (lc_plan lc1) (jr_stage_id r) = Some stage"
    and tr: "stage_transition lc1 stage r (progress_of lc1 (jr_stage_id r)) = Inr p"
    by (elim accept_stageE)
  have "stage \<in> set (jr_plan first)" "js_id stage = jr_stage_id r"
    using st plan plan_map_values [of "jr_plan first" "[]" "jr_stage_id r" stage]
    by (auto simp: plan_map_def)
  then show ?thesis
    using stage_transition_deps [OF tr r(2)] accept_all_successes [OF pre] by auto
qed

text \<open>
  C6. A run record after the first one is terminal and last, and it reports success only when every planned
  stage has exactly one success record.
\<close>

theorem accepted_run_end:
  assumes acc: "accept_all env (first # rs @ r # post) zero_lifecycle = Inr lc" and r: "jr_kind r = KindRun"
  shows "post = [] \<and> is_terminal_run_state (jr_state r) \<and>
    (jr_state r = StateSucceeded \<longrightarrow> (\<forall>stage \<in> set (jr_plan first). successes (js_id stage) (first # rs) = 1))"
proof -
  have "res_bind (accept_all env (first # rs) zero_lifecycle) (accept_all env (r # post)) = Inr lc"
    using acc accept_all_append [of env "first # rs" "r # post" zero_lifecycle] by (metis append_Cons)
  then obtain lc1 where pre: "accept_all env (first # rs) zero_lifecycle = Inr lc1"
    and "accept_all env (r # post) lc1 = Inr lc"
    by (meson res_bind_Inr_iff)
  then obtain lc2 where acc_r: "accept env r lc1 = Inr lc2" and post: "accept_all env post lc2 = Inr lc"
    by (auto simp: res_simps)
  note plan = accept_all_plan [OF pre]
  then have "accept_next r lc1 = Inr lc2" using acc_r by (simp add: accept_def)
  then show ?thesis
  proof (cases rule: accept_nextE)
    case Run
    have "post = []"
    proof (cases post)
      case (Cons q qs)
      then show ?thesis
        using post Run(8) plan by (auto simp: accept_def accept_next_def res_simps)
    qed
    moreover have "stage_succeeded lc1 (js_id stage)"
      if "jr_state r = StateSucceeded" "stage \<in> set (jr_plan first)" for stage
      using Run(7) that plan plan_map_keys [of "jr_plan first" "[]"]
      by (auto simp: list_all_iff plan_map_def)
    ultimately show ?thesis
      using Run(6) accept_all_successes [OF pre] by auto
  qed (use r in simp)
qed

end
