(* ===== verification/DagRuns.thy ===== *)
theory DagRuns
  imports DagExec JournalLifecycle
begin

text \<open>
  The journal records of one execution under every interleaving of its goroutines. A goroutine of
  \<open>Execute\<close> appends one record before and one after it executes its stage; the journal serialises
  the appends, and nothing else orders the goroutines of a batch. The relation \<open>run_trace\<close> has one
  step per append, and the theorem is that the lifecycle automaton of the journal accepts every
  trace of the executor.
\<close>

section \<open>Traces of the executor\<close>

text \<open>
  \<open>run_trace options pd ss completed active broken records\<close>: the stages \<open>completed\<close> have succeeded,
  \<open>active\<close> are being executed, \<open>broken\<close> have failed, and \<open>records\<close> have been handed to the journal.
\<close>

inductive run_trace ::
  "('a, 'w) options \<Rightarrow> string \<Rightarrow> ('a, 'w) stage list \<Rightarrow> string list \<Rightarrow> string list \<Rightarrow> string list \<Rightarrow>
     journal_record list \<Rightarrow> bool"
  for options pd ss where
  start: "run_trace options pd ss [] [] [] [begin_run_record options (plan_of ss) pd]"
| launch: "run_trace options pd ss completed active broken records \<Longrightarrow>
     s \<in> set (ready_stages ss completed) \<Longrightarrow> st_id s \<notin> set active \<Longrightarrow> st_id s \<notin> set broken \<Longrightarrow>
     run_trace options pd ss completed (st_id s # active) broken
       (records @ [begin_stage_record options pd s])"
| complete: "run_trace options pd ss completed active broken records \<Longrightarrow>
     s \<in> set ss \<Longrightarrow> st_id s \<in> set active \<Longrightarrow>
     run_trace options pd ss (st_id s # completed) (removeAll (st_id s) active) broken
       (records @ [finish_stage_record options pd s (Inr result) ev])"
| break: "run_trace options pd ss completed active broken records \<Longrightarrow>
     s \<in> set ss \<Longrightarrow> st_id s \<in> set active \<Longrightarrow>
     run_trace options pd ss completed (removeAll (st_id s) active) (st_id s # broken)
       (records @ [finish_stage_record options pd s (Inl err) ev])"

inductive_simps run_trace_Nil [simp]: "run_trace options pd ss completed active broken []"

text \<open>\<open>Execute\<close> ends a run when no goroutine is active, and with success only when all stages succeeded.\<close>

definition run_ends :: "('a, 'w) stage list \<Rightarrow> string list \<Rightarrow> string list \<Rightarrow> sched_error option \<Rightarrow> bool" where
  "run_ends ss completed active err \<longleftrightarrow> active = [] \<and> (err = None \<longrightarrow> st_id ` set ss \<subseteq> set completed)"

text \<open>The fields the journal fills in: the number of the record, its time and the digest before it.\<close>

fun stamp :: "nat \<Rightarrow> (nat \<Rightarrow> string) \<Rightarrow> journal_record list \<Rightarrow> int list \<Rightarrow> journal_record list" where
  "stamp n prev (r # rs) (t # ts) =
     r\<lparr>jr_sequence := of_nat (Suc n), jr_occurred_at := t, jr_previous_record_digest := prev n\<rparr> # stamp (Suc n) prev rs ts"
| "stamp n prev rs ts = []"

lemma stamp_append:
  "length rs = length ts \<Longrightarrow> stamp n prev (rs @ [r]) (ts @ [t]) =
     stamp n prev rs ts @ [r\<lparr>jr_sequence := of_nat (Suc (n + length rs)), jr_occurred_at := t,
       jr_previous_record_digest := prev (n + length rs)\<rparr>]"
  by (induction n prev rs ts rule: stamp.induct) auto

section \<open>The lifecycle state behind a trace\<close>

definition in_step ::
  "string \<Rightarrow> ('a, 'w) stage list \<Rightarrow> string list \<Rightarrow> string list \<Rightarrow> string list \<Rightarrow> journal_lifecycle \<Rightarrow> bool" where
  "in_step pd ss completed active broken lc \<longleftrightarrow>
     lc_initialized lc \<and> \<not> lc_terminal lc \<and> lc_plan_digest lc = pd \<and>
     map_of (lc_plan lc) = map_of (map (\<lambda>p. (js_id p, p)) (plan_of ss)) \<and>
     set (keys (lc_plan lc)) = st_id ` set ss \<and>
     (\<forall>x \<in> set completed. stage_succeeded lc x) \<and>
     (\<forall>x \<in> set active. p_state (progress_of lc x) = StateRunning \<and> p_attempt (progress_of lc x) = 1 \<and>
        \<not> p_final (progress_of lc x)) \<and>
     (\<forall>x. x \<notin> set completed \<union> set active \<union> set broken \<longrightarrow> progress_of lc x = zero_progress)"

lemma plan_of_map_of:
  assumes "distinct (map st_id ss)" and "s \<in> set ss"
  shows "map_of (map (\<lambda>p. (js_id p, p)) (plan_of ss)) (st_id s) =
    Some \<lparr>js_id = st_id s, js_version = st_version s, js_dependencies = st_dependencies s,
      js_resources = st_resources s\<rparr>"
proof (rule map_of_is_SomeI)
  show "distinct (map fst (map (\<lambda>p. (js_id p, p)) (plan_of ss)))"
    using assms(1) by (simp add: plan_of_def comp_def)
qed (use assms(2) in \<open>auto simp: plan_of_def\<close>)

lemma fold_update_plan:
  "distinct (map js_id plan) \<Longrightarrow> map_of (fold (\<lambda>stage. AList.update (js_id stage) stage) plan m) =
     map_of m ++ map_of (map (\<lambda>p. (js_id p, p)) plan)"
proof (induction plan arbitrary: m)
  case (Cons p plan)
  then have "js_id p \<notin> dom (map_of (map (\<lambda>p. (js_id p, p)) plan))"
    by (simp add: dom_map_of_conv_image_fst image_image)
  then show ?case using Cons by (auto simp: fun_eq_iff map_add_def split: option.splits)
qed simp

lemma keys_fold_update:
  "set (keys (fold (\<lambda>stage. AList.update (js_id stage) stage) plan m)) = set (keys m) \<union> js_id ` set plan"
  by (induction plan arbitrary: m) auto

lemma start_in_step:
  assumes "distinct (map st_id ss)" and "journal_plan_digest env (plan_of ss) = Inr pd"
    and r: "r = (begin_run_record options (plan_of ss) pd)\<lparr>jr_sequence := 1, jr_occurred_at := t,
      jr_previous_record_digest := zero_journal_digest\<rparr>"
  shows "\<exists>lc. accept env r zero_lifecycle = Inr lc \<and> in_step pd ss [] [] [] lc \<and>
    lc_last_sequence lc = 1 \<and> lc_last_occurred lc = t"
proof -
  have d: "distinct (map js_id (plan_of ss))" using assms(1) by (simp add: plan_of_def comp_def)
  have k: "js_id ` set (plan_of ss) = st_id ` set ss" by (simp add: plan_of_def image_image)
  have "jr_kind r = KindRun" "jr_state r = StateRunning" "jr_plan r = plan_of ss" "jr_plan_digest r = pd"
    by (simp_all add: r begin_run_record_def)
  then show ?thesis
    using assms(2) fold_update_plan [OF d, of "[]"] keys_fold_update [of "plan_of ss" "[]"] k
    by (simp add: accept_def accept_first_def r res_simps zero_lifecycle_def in_step_def
        progress_of_def map_add_def keys_def)
qed

section \<open>Every step of the executor is accepted\<close>

text \<open>A record of stage \<open>s\<close> as the executor builds it, whatever the journal stamped on it.\<close>

definition stage_record :: "('a, 'w) stage \<Rightarrow> string \<Rightarrow> journal_record \<Rightarrow> bool" where
  "stage_record s pd r \<longleftrightarrow> jr_kind r = KindStage \<and> jr_stage_id r = st_id s \<and> jr_attempt r = 1 \<and>
     jr_stage_version r = st_version s \<and> jr_resources r = st_resources s \<and> jr_plan_digest r = pd"

lemma accept_next_stage:
  assumes "jr_kind r = KindStage" "\<not> lc_terminal lc" "lc_initialized lc" "jr_plan_digest r = lc_plan_digest lc"
    and "jr_sequence r = lc_last_sequence lc + 1" "lc_last_occurred lc \<le> jr_occurred_at r"
  shows "accept env r lc = res_bind (accept_stage r lc) (\<lambda>lc'.
    Inr (lc'\<lparr>lc_last_sequence := jr_sequence r, lc_last_occurred := jr_occurred_at r\<rparr>))"
  using assms by (simp add: accept_def accept_next_def res_simps)

lemma accept_stage_record:
  assumes "in_step pd ss completed active broken lc" "distinct (map st_id ss)" "s \<in> set ss" "stage_record s pd r"
    and "\<not> p_final (progress_of lc (st_id s))" "expected_attempt (progress_of lc (st_id s)) = 1"
    and "stage_transition lc \<lparr>js_id = st_id s, js_version = st_version s,
      js_dependencies = st_dependencies s, js_resources = st_resources s\<rparr> r (progress_of lc (st_id s)) = Inr p"
  shows "accept_stage r lc = Inr (lc\<lparr>lc_stages := AList.update (st_id s)
    (p\<lparr>p_attempt := 1, p_state := jr_state r\<rparr>) (lc_stages lc)\<rparr>)"
  using assms plan_of_map_of [OF assms(2,3)]
  by (simp add: accept_stage_def in_step_def stage_record_def Let_def res_simps)

lemma launch_in_step:
  assumes inv: "in_step pd ss completed active broken lc" and n: "normalized_plan ss"
    and s: "s \<in> set (ready_stages ss completed)" "st_id s \<notin> set active" "st_id s \<notin> set broken"
    and r: "stage_record s pd r" "jr_state r = StateRunning"
  shows "\<exists>lc'. accept_stage r lc = Inr lc' \<and> in_step pd ss completed (st_id s # active) broken lc'"
proof -
  have ss: "s \<in> set ss" "st_id s \<notin> set completed" and deps: "set (st_dependencies s) \<subseteq> set completed"
    using s(1) by (auto simp: ready_stages_def list_all_iff)
  have z: "progress_of lc (st_id s) = zero_progress" using inv ss s by (auto simp: in_step_def)
  have "require_dependencies lc (jr_stage_id r) (st_dependencies s) = Inr ()"
    using inv deps by (auto simp: require_dependencies_def res_simps in_step_def)
  then have tr: "stage_transition lc \<lparr>js_id = st_id s, js_version = st_version s,
      js_dependencies = st_dependencies s, js_resources = st_resources s\<rparr> r (progress_of lc (st_id s)) = Inr zero_progress"
    using r by (simp add: stage_transition_def z res_simps) (simp add: zero_progress_def)
  have acc: "accept_stage r lc = Inr (lc\<lparr>lc_stages := AList.update (st_id s)
    (zero_progress\<lparr>p_attempt := 1, p_state := StateRunning\<rparr>) (lc_stages lc)\<rparr>)"
    using accept_stage_record [OF inv _ ss(1) r(1) _ _ tr] n r(2)
    by (simp add: z normalized_plan_def expected_attempt_def zero_progress_def active_state_def)
  show ?thesis
    using inv ss(2) unfolding acc in_step_def
    by (auto simp: progress_of_update stage_succeeded_def zero_progress_def)
qed

lemma finish_in_step:
  assumes inv: "in_step pd ss completed active broken lc" and n: "normalized_plan ss"
    and s: "s \<in> set ss" "st_id s \<in> set active" and dj: "set active \<inter> set completed = {}"
    and r: "stage_record s pd r" "jr_state r \<in> {StateSucceeded, StateCached, StateFailed, StateCancelled}"
  shows "\<exists>lc'. accept_stage r lc = Inr lc' \<and>
    (jr_state r \<in> {StateSucceeded, StateCached} \<longrightarrow>
       in_step pd ss (st_id s # completed) (removeAll (st_id s) active) broken lc') \<and>
    in_step pd ss completed (removeAll (st_id s) active) (st_id s # broken) lc'"
proof -
  let ?p = "progress_of lc (st_id s)"
  let ?q = "?p\<lparr>p_last_attempt := 1, p_final := (jr_state r = StateSucceeded \<or> jr_state r = StateCached)\<rparr>"
  have p: "p_state ?p = StateRunning" "p_attempt ?p = 1" "\<not> p_final ?p"
    using inv s(2) by (auto simp: in_step_def)
  have tr: "stage_transition lc \<lparr>js_id = st_id s, js_version = st_version s,
      js_dependencies = st_dependencies s, js_resources = st_resources s\<rparr> r ?p = Inr ?q"
    using r p by (auto simp: stage_transition_def stage_record_def)
  have acc: "accept_stage r lc = Inr (lc\<lparr>lc_stages := AList.update (st_id s)
    (?q\<lparr>p_attempt := 1, p_state := jr_state r\<rparr>) (lc_stages lc)\<rparr>)"
    using accept_stage_record [OF inv _ s(1) r(1) p(3) _ tr] n p
    by (simp add: normalized_plan_def expected_attempt_def active_state_def)
  show ?thesis
    using inv s(2) dj unfolding acc in_step_def
    by (auto simp: progress_of_update stage_succeeded_def)
qed

section \<open>Traces are accepted\<close>

lemma run_trace_sets:
  "run_trace options pd ss completed active broken recs \<Longrightarrow>
     set active \<inter> set completed = {} \<and> set completed \<union> set active \<union> set broken \<subseteq> st_id ` set ss \<and> recs \<noteq> []"
  by (induction rule: run_trace.induct) (auto simp: ready_stages_def)

lemma run_trace_step_accepted:
  assumes inv: "in_step pd ss completed active broken lc" and r: "stage_record s pd r"
    and seq: "jr_sequence r = lc_last_sequence lc + 1" "lc_last_occurred lc \<le> jr_occurred_at r"
    and acc: "accept_stage r lc = Inr lc1" and inv1: "in_step pd ss completed1 active1 broken1 lc1"
  shows "\<exists>lc'. accept env r lc = Inr lc' \<and> in_step pd ss completed1 active1 broken1 lc' \<and>
    lc_last_sequence lc' = jr_sequence r \<and> lc_last_occurred lc' = jr_occurred_at r"
proof -
  let ?lc' = "lc1\<lparr>lc_last_sequence := jr_sequence r, lc_last_occurred := jr_occurred_at r\<rparr>"
  have "accept env r lc = Inr ?lc'"
    using accept_next_stage [of r lc env] inv r seq acc
    by (simp add: in_step_def stage_record_def res_simps)
  moreover have "in_step pd ss completed1 active1 broken1 ?lc'"
    using inv1 by (simp add: in_step_def progress_of_def)
  ultimately show ?thesis by simp
qed

definition tracked ::
  "journal_env \<Rightarrow> (nat \<Rightarrow> string) \<Rightarrow> string \<Rightarrow> ('a, 'w) stage list \<Rightarrow> string list \<Rightarrow> string list \<Rightarrow> string list \<Rightarrow>
     journal_record list \<Rightarrow> int list \<Rightarrow> journal_lifecycle \<Rightarrow> bool" where
  "tracked env prev pd ss completed active broken recs ts lc \<longleftrightarrow>
     accept_all env (stamp 0 prev recs ts) zero_lifecycle = Inr lc \<and> in_step pd ss completed active broken lc \<and>
     lc_last_sequence lc = of_nat (length recs) \<and> lc_last_occurred lc = last ts"

lemma accept_all_single: "accept_all env [r] lc = accept env r lc"
  by (cases "accept env r lc") simp_all

lemma accept_all_stamp_snoc:
  assumes "length recs = length ts" "accept_all env (stamp 0 prev recs ts) zero_lifecycle = Inr lc"
  shows "accept_all env (stamp 0 prev (recs @ [r]) (ts @ [t])) zero_lifecycle =
    accept env (r\<lparr>jr_sequence := of_nat (Suc (length recs)), jr_occurred_at := t,
      jr_previous_record_digest := prev (length recs)\<rparr>) lc"
  using assms accept_all_single by (simp add: stamp_append accept_all_append res_simps del: accept_all.simps)

lemma tracked_step:
  assumes t: "tracked env prev pd ss completed active broken recs ts lc" "length recs = length ts" "recs \<noteq> []"
    and le: "last ts \<le> t" and r: "\<And>q. q = r\<lparr>jr_sequence := of_nat (Suc (length recs)), jr_occurred_at := t,
      jr_previous_record_digest := prev (length recs)\<rparr> \<Longrightarrow> stage_record s pd q \<and>
      (\<exists>lc1. accept_stage q lc = Inr lc1 \<and> in_step pd ss completed1 active1 broken1 lc1)"
  shows "\<exists>lc'. tracked env prev pd ss completed1 active1 broken1 (recs @ [r]) (ts @ [t]) lc'"
proof -
  let ?q = "r\<lparr>jr_sequence := of_nat (Suc (length recs)), jr_occurred_at := t,
      jr_previous_record_digest := prev (length recs)\<rparr>"
  obtain lc1 where q: "stage_record s pd ?q" "accept_stage ?q lc = Inr lc1"
      "in_step pd ss completed1 active1 broken1 lc1"
    using r by blast
  have "\<exists>lc'. accept env ?q lc = Inr lc' \<and> in_step pd ss completed1 active1 broken1 lc' \<and>
    lc_last_sequence lc' = jr_sequence ?q \<and> lc_last_occurred lc' = jr_occurred_at ?q"
    by (rule run_trace_step_accepted [of pd ss completed active broken, OF _ q(1) _ _ q(2,3)]) (use t le in \<open>simp_all add: tracked_def\<close>)
  then show ?thesis
    using accept_all_stamp_snoc [OF t(2)] t(1) by (auto simp: tracked_def)
qed

lemma snoc_times:
  assumes "length (recs @ [r]) = length ts" "sorted ts" "recs \<noteq> []"
  obtains ts' t where "ts = ts' @ [t]" "length recs = length ts'" "sorted ts'" "last ts' \<le> t"
proof -
  from assms(1) obtain ts' t where ts: "ts = ts' @ [t]" by (cases ts rule: rev_cases) auto
  moreover have "ts' \<noteq> []" using assms ts by auto
  ultimately show thesis using assms by (intro that [of ts' t]) (auto simp: sorted_append)
qed

lemma run_trace_tracked:
  assumes n: "normalized_plan ss" and pd: "journal_plan_digest env (plan_of ss) = Inr pd"
    and prev: "prev 0 = zero_journal_digest"
  shows "run_trace options pd ss completed active broken recs \<Longrightarrow> length recs = length ts \<Longrightarrow> sorted ts \<Longrightarrow>
    \<exists>lc. tracked env prev pd ss completed active broken recs ts lc"
proof (induction arbitrary: ts rule: run_trace.induct)
  case start
  then obtain t where ts: "ts = [t]" by (cases ts) auto
  have "distinct (map st_id ss)" using n by (simp add: normalized_plan_def)
  from start_in_step [OF this pd refl] show ?case
    by (auto simp: ts tracked_def prev res_simps)
next
  case (launch completed active broken recs s)
  have ne: "recs \<noteq> []" using run_trace_sets [OF launch.hyps(1)] by blast
  obtain ts' t where ts: "ts = ts' @ [t]" "length recs = length ts'" "sorted ts'" "last ts' \<le> t"
    using snoc_times [OF launch.prems ne] .
  obtain lc where lc: "tracked env prev pd ss completed active broken recs ts' lc"
    using launch.IH ts by blast
  have "\<exists>lc1. accept_stage q lc = Inr lc1 \<and> in_step pd ss completed (st_id s # active) broken lc1"
    if "stage_record s pd q" "jr_state q = StateRunning" for q
    using launch_in_step [OF _ n launch.hyps(2-4) that] lc by (simp add: tracked_def)
  then show ?case
    unfolding ts(1) by (intro tracked_step [OF lc ts(2) ne ts(4)]) (simp add: stage_record_def begin_stage_record_def)
next
  case (complete completed active broken recs s result ev)
  have ne: "recs \<noteq> []" and dj: "set active \<inter> set completed = {}"
    using run_trace_sets [OF complete.hyps(1)] by blast+
  obtain ts' t where ts: "ts = ts' @ [t]" "length recs = length ts'" "sorted ts'" "last ts' \<le> t"
    using snoc_times [OF complete.prems ne] .
  obtain lc where lc: "tracked env prev pd ss completed active broken recs ts' lc"
    using complete.IH ts by blast
  have "\<exists>lc1. accept_stage q lc = Inr lc1 \<and>
      in_step pd ss (st_id s # completed) (removeAll (st_id s) active) broken lc1"
    if "stage_record s pd q" "jr_state q \<in> {StateSucceeded, StateCached}" for q
    using finish_in_step [OF _ n complete.hyps(2,3) dj that(1), of broken lc] that(2) lc
    by (auto simp: tracked_def)
  then show ?case
    unfolding ts(1) by (intro tracked_step [OF lc ts(2) ne ts(4)])
      (simp add: stage_record_def finish_stage_record_def finish_state_def)
next
  case (break completed active broken recs s err ev)
  have ne: "recs \<noteq> []" and dj: "set active \<inter> set completed = {}"
    using run_trace_sets [OF break.hyps(1)] by blast+
  obtain ts' t where ts: "ts = ts' @ [t]" "length recs = length ts'" "sorted ts'" "last ts' \<le> t"
    using snoc_times [OF break.prems ne] .
  obtain lc where lc: "tracked env prev pd ss completed active broken recs ts' lc"
    using break.IH ts by blast
  have "\<exists>lc1. accept_stage q lc = Inr lc1 \<and>
      in_step pd ss completed (removeAll (st_id s) active) (st_id s # broken) lc1"
    if "stage_record s pd q" "jr_state q \<in> {StateFailed, StateCancelled}" for q
    using finish_in_step [OF _ n break.hyps(2,3) dj that(1), of broken lc] that(2) lc
    by (auto simp: tracked_def)
  then show ?case
    unfolding ts(1) by (intro tracked_step [OF lc ts(2) ne ts(4)])
      (simp add: stage_record_def finish_stage_record_def finish_state_def)
qed

lemma run_end_accepted:
  assumes inv: "in_step pd ss completed active broken lc" and ends: "run_ends ss completed active err"
    and r: "r = (end_run_record options pd err ctx d)\<lparr>jr_sequence := lc_last_sequence lc + 1,
      jr_occurred_at := t, jr_previous_record_digest := p\<rparr>" and le: "lc_last_occurred lc \<le> t"
  shows "\<exists>lc'. accept env r lc = Inr lc' \<and> lc_terminal lc'"
proof -
  have st: "jr_kind r = KindRun" "jr_plan_digest r = pd" "is_terminal_run_state (jr_state r)"
      "jr_state r \<noteq> StateRunning" "jr_state r = StateSucceeded \<longrightarrow> err = None"
    by (auto simp: r end_run_record_def run_state_def is_terminal_run_state_def split: option.splits)
  have "list_all (stage_succeeded lc) (keys (lc_plan lc))" if "err = None"
    using that ends inv by (auto simp: run_ends_def in_step_def list_all_iff)
  then show ?thesis
    using inv st le by (auto simp: accept_def accept_next_def in_step_def r res_simps)
qed


end
