(* ===== verification/JournalFile.thy ===== *)
theory JournalFile
  imports JournalLifecycle "HOL-Library.Sublist"
begin

text \<open>
  Properties of \<open>FileJournal.Append\<close> and \<open>ReadFileJournal\<close>: whatever sequence of appends and
  operating system failures produced a file, replaying it yields its complete records; and the
  digest of the last record of a replayable journal determines the whole journal.
\<close>

section \<open>The completed record\<close>

text \<open>Two records that differ only in the fields the journal assigns.\<close>

definition same_payload :: "journal_record \<Rightarrow> journal_record \<Rightarrow> bool" where
  "same_payload r q \<longleftrightarrow> jr_run_id r = jr_run_id q \<and> jr_kind r = jr_kind q \<and> jr_state r = jr_state q \<and>
     jr_attempt r = jr_attempt q \<and> jr_stage_id r = jr_stage_id q \<and> jr_stage_version r = jr_stage_version q \<and>
     jr_cache_key r = jr_cache_key q \<and> jr_output_digest r = jr_output_digest q \<and>
     jr_resources r = jr_resources q \<and> jr_plan r = jr_plan q \<and> jr_duration r = jr_duration q \<and>
     jr_error r = jr_error q"

text \<open>
  The line written for a record, decoded again, is the record; the file journal relies on this of the
  JSON encoder (a text that is not valid UTF-8 does not have it).
\<close>

definition readable :: "journal_env \<Rightarrow> journal_record \<Rightarrow> bool" where
  "readable env r \<longleftrightarrow> (\<forall>q. same_payload q r \<longrightarrow> reparse env q = Inr q)"

lemma complete_plan_digestD:
  "complete_plan_digest env j r = Inr q \<Longrightarrow> \<exists>d. q = r\<lparr>jr_plan_digest := d\<rparr>"
proof -
  assume a: "complete_plan_digest env j r = Inr q"
  have r: "r = r\<lparr>jr_plan_digest := jr_plan_digest r\<rparr>" by simp
  from a show ?thesis
    unfolding complete_plan_digest_def
    by (auto simp: Let_def split: if_splits sum.splits) (metis r)
qed

lemma complete_recordD:
  assumes "complete_record env io j r0 = Inr r"
  shows "same_payload r r0 \<and> jr_sequence r = fj_sequence j + 1 \<and> jr_occurred_at r = io_now io \<and>
    jr_previous_record_digest r = fj_last_digest j \<and>
    journal_record_digest env r = Inr (jr_record_digest r)"
proof -
  let ?r1 = "r0\<lparr>jr_schema_version := journal_schema_version,
               jr_sequence := fj_sequence j + 1, jr_occurred_at := io_now io\<rparr>"
  from assms obtain d where d: "complete_plan_digest env j ?r1 = Inr (?r1\<lparr>jr_plan_digest := d\<rparr>)"
    by (auto simp: complete_record_def res_simps dest: complete_plan_digestD)
  from assms d obtain r2 dg where "journal_record_digest env r2 = Inr dg" "r = r2\<lparr>jr_record_digest := dg\<rparr>"
    "jr_record_digest r2 = []" "same_payload r2 r0" "jr_sequence r2 = fj_sequence j + 1"
    "jr_occurred_at r2 = io_now io" "jr_previous_record_digest r2 = fj_last_digest j"
    unfolding complete_record_def
    by (cases "jr_previous_record_digest r0 = []")
       (auto simp: Let_def same_payload_def split: if_splits sum.splits)
  then show ?thesis
    by (auto simp: same_payload_def journal_record_digest_def split: option.splits)
qed

section \<open>Replaying what was appended\<close>

lemma replay_lines_append:
  "\<forall>l \<in> set xs. \<exists>d n. l = Line d n \<Longrightarrow>
     replay_lines env rid (xs @ ys) st = res_bind (replay_lines env rid xs st) (replay_lines env rid ys)"
proof (induction xs arbitrary: st)
  case (Cons x xs)
  then obtain d n where "x = Line d n" by auto
  with Cons show ?case by (cases "replay_line env rid d n st") auto
qed simp

definition accepted_report :: "journal_record \<Rightarrow> journal_report \<Rightarrow> journal_report" where
  "accepted_report r rep =
     (let rep' = rep\<lparr>rp_records := rp_records rep @ [r], rp_last_sequence := jr_sequence r\<rparr>
      in if jr_kind r = KindRun
         then rep'\<lparr>rp_state := jr_state r, rp_terminal := is_terminal_run_state (jr_state r)\<rparr> else rep')"

lemma replay_line_iff:
  "replay_line env rid line len st = Inr st' \<longleftrightarrow>
     (\<exists>r lc. line = Inr r \<and> Suc len \<le> maximum_journal_record_bytes \<and> validate_journal_record r = Inr () \<and>
        jr_run_id r = rid \<and> jr_sequence r = of_nat (length (rp_records (rs_report st))) + 1 \<and>
        \<not> rp_terminal (rs_report st) \<and> jr_previous_record_digest r = rs_last_digest st \<and>
        journal_record_digest env r = Inr (jr_record_digest r) \<and>
        accept env r (rs_lifecycle st) = Inr lc \<and>
        st' = \<lparr>rs_report = accepted_report r (rs_report st), rs_lifecycle = lc,
               rs_last_digest = jr_record_digest r\<rparr>)"
  by (cases line)
     (auto simp: replay_line_def decode_journal_record_def accepted_report_def Let_def res_simps
        split: if_splits sum.splits)

definition clean :: "file_journal \<Rightarrow> replay_state \<Rightarrow> bool" where
  "clean j st \<longleftrightarrow> rs_lifecycle st = fj_lifecycle j \<and> rs_last_digest st = fj_last_digest j \<and>
     fj_sequence j = of_nat (length (rp_records (rs_report st))) \<and>
     rp_terminal (rs_report st) = lc_terminal (fj_lifecycle j) \<and>
     (lc_terminal (fj_lifecycle j) \<longrightarrow> lc_initialized (fj_lifecycle j)) \<and>
     (\<forall>l \<in> set (fj_file j). \<exists>d n. l = Line d n)"

definition fj_inv :: "journal_env \<Rightarrow> file_journal \<Rightarrow> bool" where
  "fj_inv env j \<longleftrightarrow> file_bytes (fj_file j) \<le> maximum_journal_file_bytes \<and>
     (\<exists>st. replay_lines env (fj_run_id j) (fj_file j) start_replay = Inr st \<and>
        (fj_failed j = None \<longrightarrow> clean j st))"

lemma file_bytes_simps [simp]:
  "file_bytes [] = 0" "file_bytes (l # ls) = line_bytes l + file_bytes ls"
  "file_bytes (xs @ ys) = file_bytes xs + file_bytes ys"
  by (simp_all add: file_bytes_def)

lemma fj_inv_open [simp]: "fj_inv env (open_journal rid)"
  by (simp add: fj_inv_def open_journal_def clean_def start_replay_def zero_lifecycle_def)

lemma accept_terminal:
  "accept env r lc = Inr lc' \<Longrightarrow> lc_terminal lc \<longrightarrow> lc_initialized lc \<Longrightarrow>
     \<not> lc_terminal lc \<and>
     lc_terminal lc' = (jr_kind r = KindRun \<and> is_terminal_run_state (jr_state r))"
  by (cases "lc_initialized lc")
     (auto simp: accept_def is_terminal_run_state_def dest!: accept_stage_frame elim!: accept_nextE accept_firstE)

text \<open>The outcomes of one append: the file is unchanged, or it gains a torn tail or one line.\<close>

lemma append_cases:
  assumes "append_record env io r0 j = (res, j')"
  obtains (Rejected) e where "res = Some e"
      "j' = j \<or> fj_failed j = None \<and> (\<exists>f. j' = j\<lparr>fj_failed := Some f\<rparr>)"
  | (Torn) e r len lc n f where "res = Some e" "fj_failed j = None" "f \<noteq> None"
      "complete_record env io j r0 = Inr r" "accept env r (fj_lifecycle j) = Inr lc"
      "encoded_len env r = Some len" "Suc len \<le> maximum_journal_record_bytes"
      "file_bytes (fj_file j) + Suc len \<le> maximum_journal_file_bytes"
      "j' = j\<lparr>fj_failed := f, fj_file := fj_file j @ [Torn (min n len)]\<rparr>"
  | (Written) r len lc where "fj_failed j = None" "jr_run_id r0 = fj_run_id j"
      "complete_record env io j r0 = Inr r" "validate_journal_record r = Inr ()"
      "accept env r (fj_lifecycle j) = Inr lc"
      "encoded_len env r = Some len" "Suc len \<le> maximum_journal_record_bytes"
      "file_bytes (fj_file j) + Suc len \<le> maximum_journal_file_bytes"
      "fj_file j' = fj_file j @ [Line (reparse env r) len]" "fj_run_id j' = fj_run_id j"
      "res \<noteq> None \<Longrightarrow> fj_failed j' \<noteq> None"
      "res = None \<Longrightarrow> fj_failed j' = None \<and> fj_sequence j' = jr_sequence r \<and>
         fj_last_digest j' = jr_record_digest r \<and> fj_lifecycle j' = lc"
proof -
  note io_splits = option.splits sum.splits if_splits write_outcome.splits
  show thesis
  proof (cases "\<exists>r len lc. io_context io = None \<and> \<not> fj_closed j \<and> fj_failed j = None \<and>
      io_identity io = None \<and> jr_run_id r0 = fj_run_id j \<and> complete_record env io j r0 = Inr r \<and>
      validate_journal_record r = Inr () \<and> accept env r (fj_lifecycle j) = Inr lc \<and>
      encoded_len env r = Some len \<and> Suc len \<le> maximum_journal_record_bytes")
    case False
    then have "res \<noteq> None \<and> (j' = j \<or> fj_failed j = None \<and> (\<exists>f. j' = j\<lparr>fj_failed := Some f\<rparr>))"
      using assms unfolding append_record_def
      by (auto split: io_splits simp del: not_None_eq not_Some_eq) (metis option.distinct(1))+
    then show thesis using Rejected by blast
  next
    case True
    then obtain r len lc where ok: "io_context io = None" "\<not> fj_closed j" "fj_failed j = None"
      "io_identity io = None" "jr_run_id r0 = fj_run_id j" "complete_record env io j r0 = Inr r"
      "validate_journal_record r = Inr ()" "accept env r (fj_lifecycle j) = Inr lc"
      "encoded_len env r = Some len" "Suc len \<le> maximum_journal_record_bytes"
      by blast
    then have p: "persist_record env io r len lc j = (res, j')"
      using assms by (simp add: append_record_def)
    show thesis
    proof (cases "io_stat io = None \<and> file_bytes (fj_file j) + Suc len \<le> maximum_journal_file_bytes")
      case False
      then have "res \<noteq> None \<and> (j' = j \<or> (\<exists>f. j' = j\<lparr>fj_failed := Some f\<rparr>))"
        using p unfolding persist_record_def by (auto split: io_splits)
      then show thesis using Rejected ok(3) by blast
    next
      case stat: True
      show thesis
      proof (cases "io_write io")
        case (WriteFailed e n)
        then have res: "res = Some (Wrap ''append scheduler journal'' e)"
          and j': "j' = j\<lparr>fj_failed := Some e, fj_file := fj_file j @ (if n = 0 then [] else [Torn (min n len)])\<rparr>"
          using p stat by (auto simp: persist_record_def)
        show thesis
        proof (cases "n = 0")
          case True
          then show thesis using Rejected [OF res] j' ok(3) by auto
        next
          case False
          then show thesis
            using Torn [of _ "Some e" r lc len n, OF res ok(3) _ ok(6,8,9,10)] stat j' by simp
        qed
      next
        case WriteOk
        then have "fj_file j' = fj_file j @ [Line (reparse env r) len] \<and> fj_run_id j' = fj_run_id j \<and>
            (res \<noteq> None \<longrightarrow> fj_failed j' \<noteq> None) \<and>
            (res = None \<longrightarrow> fj_failed j' = None \<and> fj_sequence j' = jr_sequence r \<and>
               fj_last_digest j' = jr_record_digest r \<and> fj_lifecycle j' = lc)"
          using p stat ok(3) by (auto simp: persist_record_def Let_def split: option.splits)
        then show thesis using Written [OF ok(3,5-10)] stat by blast
      qed
    qed
  qed
qed

lemma append_fj_inv [inv_intros]:
  assumes inv: "fj_inv env j" and re: "readable env r0"
    and app: "append_record env io r0 j = (res, j')"
  shows "fj_inv env j'"
proof -
  from inv obtain st where st: "replay_lines env (fj_run_id j) (fj_file j) start_replay = Inr st"
    and bytes: "file_bytes (fj_file j) \<le> maximum_journal_file_bytes"
    and cl: "fj_failed j = None \<Longrightarrow> clean j st"
    by (auto simp: fj_inv_def)
  from app show ?thesis
  proof (cases rule: append_cases)
    case (Rejected e)
    then show ?thesis using st bytes inv by (auto simp: fj_inv_def)
  next
    case (Torn e r len lc n f)
    have "clean j st" using cl Torn(2) .
    then have "\<not> rp_terminal (rs_report st)"
      using accept_terminal [OF Torn(5)] by (auto simp: clean_def)
    then have "\<exists>st'. replay_lines env (fj_run_id j) (fj_file j @ [journal_line.Torn (min n len)]) start_replay = Inr st'"
      using replay_lines_append [of "fj_file j" env "fj_run_id j" "[journal_line.Torn (min n len)]" start_replay]
        \<open>clean j st\<close> Torn(7) st by (simp add: clean_def)
    then show ?thesis using Torn by (auto simp: fj_inv_def)
  next
    case (Written r len lc)
    have c: "clean j st" using cl Written(1) .
    note cr = complete_recordD [OF Written(3)]
    have rr: "reparse env r = Inr r" using re cr by (simp add: readable_def)
    have trm: "\<not> lc_terminal (fj_lifecycle j)"
      "lc_terminal lc = (jr_kind r = KindRun \<and> is_terminal_run_state (jr_state r))"
      using accept_terminal [OF Written(5)] c by (auto simp: clean_def)
    let ?st = "\<lparr>rs_report = accepted_report r (rs_report st), rs_lifecycle = lc, rs_last_digest = jr_record_digest r\<rparr>"
    have "replay_line env (fj_run_id j) (reparse env r) len st = Inr ?st"
      using cr c trm Written(2,4,5,7) rr
      by (auto simp: replay_line_iff clean_def same_payload_def)
    then have "replay_lines env (fj_run_id j) (fj_file j @ [Line (reparse env r) len]) start_replay = Inr ?st"
      using replay_lines_append [of "fj_file j" env "fj_run_id j" "[Line (reparse env r) len]" start_replay] c st
      by (simp add: clean_def)
    moreover have "clean j' ?st" if "fj_failed j' = None"
      using that Written(9,11,12) cr c trm accept_initialized [OF Written(5)]
      by (cases res) (auto simp: clean_def accepted_report_def Let_def)
    ultimately show ?thesis using Written(8-10) by (auto simp: fj_inv_def)
  qed
qed

section \<open>Sequences of appends\<close>

fun complete_records :: "journal_line list \<Rightarrow> journal_record list" where
  "complete_records [] = []"
| "complete_records (Line (Inr r) n # ls) = r # complete_records ls"
| "complete_records (l # ls) = complete_records ls"

fun torn_free :: "journal_line list \<Rightarrow> bool" where
  "torn_free [] = True"
| "torn_free (Line d n # ls) = torn_free ls"
| "torn_free [Torn n] = True"
| "torn_free (Torn n # ls) = False"

lemma accepted_report_records [simp]: "rp_records (accepted_report r rep) = rp_records rep @ [r]"
  by (simp add: accepted_report_def Let_def)

lemma replay_lines_records:
  "replay_lines env rid ls st = Inr st' \<Longrightarrow> torn_free ls \<Longrightarrow>
     rp_records (rs_report st') = rp_records (rs_report st) @ complete_records ls"
  by (induction ls arbitrary: st rule: torn_free.induct)
     (fastforce simp: res_simps replay_line_iff split: if_splits)+

lemma torn_free_lines: "\<forall>l \<in> set ls. \<exists>d n. l = Line d n \<Longrightarrow> torn_free ls"
  by (induction ls) auto

lemma torn_free_append: "\<forall>l \<in> set ls. \<exists>d n. l = Line d n \<Longrightarrow> torn_free (ls @ [l])"
  by (induction ls) (auto, cases l, auto)

lemma append_torn_free:
  assumes "fj_inv env j" and "torn_free (fj_file j)" and "append_record env io r j = (res, j')"
  shows "torn_free (fj_file j')"
  using assms(3)
  by (cases rule: append_cases)
     (use assms(1,2) in \<open>auto simp: fj_inv_def clean_def intro: torn_free_append\<close>)

lemma complete_records_append [simp]: "complete_records (xs @ ys) = complete_records xs @ complete_records ys"
  by (induction xs rule: complete_records.induct) auto

lemma append_run_id: "append_record env io r j = (res, j') \<Longrightarrow> fj_run_id j' = fj_run_id j"
  by (erule append_cases) auto

text \<open>The executor's view of its journal: what a sink of records promises for one append.\<close>

locale journal_sink =
  fixes append :: "'io \<Rightarrow> journal_record \<Rightarrow> 'j \<Rightarrow> sched_error option \<times> 'j"
    and stored :: "'j \<Rightarrow> journal_record list"
    and good :: "'j \<Rightarrow> bool"
    and encodable :: "journal_record \<Rightarrow> bool"
  assumes append_good: "good j \<Longrightarrow> encodable r \<Longrightarrow> append io r j = (res, j') \<Longrightarrow> good j'"
    and append_stored: "good j \<Longrightarrow> encodable r \<Longrightarrow> append io r j = (res, j') \<Longrightarrow>
      (\<exists>q. same_payload q r \<and> stored j' = stored j @ [q]) \<or> res \<noteq> None \<and> stored j' = stored j"

fun append_seq :: "('io \<Rightarrow> journal_record \<Rightarrow> 'j \<Rightarrow> sched_error option \<times> 'j) \<Rightarrow> ('io \<times> journal_record) list \<Rightarrow> 'j \<Rightarrow> 'j" where
  "append_seq app [] j = j"
| "append_seq app ((io, r) # ops) j = append_seq app ops (snd (app io r j))"

text \<open>The records whose append returned no error.\<close>

fun acknowledged ::
  "('io \<Rightarrow> journal_record \<Rightarrow> 'j \<Rightarrow> sched_error option \<times> 'j) \<Rightarrow> ('io \<times> journal_record) list \<Rightarrow> 'j \<Rightarrow> journal_record list" where
  "acknowledged app [] j = []"
| "acknowledged app ((io, r) # ops) j =
     (if fst (app io r j) = None then [r] else []) @ acknowledged app ops (snd (app io r j))"

context journal_sink
begin

lemma append_seq_good: "good j \<Longrightarrow> \<forall>(io, r) \<in> set ops. encodable r \<Longrightarrow> good (append_seq append ops j)"
proof (induction ops arbitrary: j)
  case (Cons op ops)
  obtain io r where op: "op = (io, r)" by force
  obtain res j' where "append io r j = (res, j')" by force
  then show ?case using Cons append_good by (auto simp: op)
qed simp

lemma append_seq_stored:
  "good j \<Longrightarrow> \<forall>(io, r) \<in> set ops. encodable r \<Longrightarrow>
     \<exists>more qs. stored (append_seq append ops j) = stored j @ more \<and> subseq qs more \<and>
       list_all2 same_payload qs (acknowledged append ops j)"
proof (induction ops arbitrary: j)
  case (Cons op ops)
  obtain io r where op: "op = (io, r)" by force
  obtain res j' where a: "append io r j = (res, j')" by force
  have g: "good j'" using append_good a Cons.prems op by auto
  obtain more qs where m: "stored (append_seq append ops j') = stored j' @ more" "subseq qs more"
      "list_all2 same_payload qs (acknowledged append ops j')"
    using Cons.IH [OF g] Cons.prems by auto
  consider q where "same_payload q r" "stored j' = stored j @ [q]" | "res \<noteq> None" "stored j' = stored j"
    using append_stored a Cons.prems op by fastforce
  then show ?case
  proof cases
    case 1
    show ?thesis
      using m 1 by (intro exI [of _ "q # more"] exI [of _ "if res = None then q # qs else qs"]) (auto simp: op a)
  next
    case 2
    then show ?thesis using m by (auto simp: op a)
  qed
qed auto

end

interpretation file_sink: journal_sink "append_record env" "\<lambda>j. complete_records (fj_file j)"
    "\<lambda>j. fj_inv env j \<and> torn_free (fj_file j) \<and> fj_run_id j = rid" "readable env" for env rid
proof
  fix j r io res j'
  assume g: "fj_inv env j \<and> torn_free (fj_file j) \<and> fj_run_id j = rid" and r: "readable env r"
    and a: "append_record env io r j = (res, j')"
  show "fj_inv env j' \<and> torn_free (fj_file j') \<and> fj_run_id j' = rid"
    using append_fj_inv [OF _ r a] append_torn_free [OF _ _ a] append_run_id [OF a] g by simp
  from a show "(\<exists>q. same_payload q r \<and> complete_records (fj_file j') = complete_records (fj_file j) @ [q]) \<or>
      res \<noteq> None \<and> complete_records (fj_file j') = complete_records (fj_file j)"
  proof (cases rule: append_cases)
    case (Written q len lc)
    have "same_payload q r" using complete_recordD [OF Written(3)] by simp
    then show ?thesis using Written(9) r by (auto simp: readable_def)
  qed auto
qed


section \<open>The hash chain\<close>

fun chained :: "journal_env \<Rightarrow> string \<Rightarrow> journal_record list \<Rightarrow> bool" where
  "chained env prev [] = True"
| "chained env prev (r # rs) \<longleftrightarrow> jr_previous_record_digest r = prev \<and>
     journal_record_digest env r = Inr (jr_record_digest r) \<and> chained env (jr_record_digest r) rs"

fun numbered :: "nat \<Rightarrow> journal_record list \<Rightarrow> bool" where
  "numbered n [] = True"
| "numbered n (r # rs) \<longleftrightarrow> jr_sequence r = of_nat n + 1 \<and> numbered (Suc n) rs"

lemma replay_chain:
  "replay_lines env rid ls st = Inr st' \<Longrightarrow> \<exists>rs. rp_records (rs_report st') = rp_records (rs_report st) @ rs \<and>
     chained env (rs_last_digest st) rs \<and> numbered (length (rp_records (rs_report st))) rs \<and> length rs \<le> file_bytes ls"
proof (induction env rid ls st rule: replay_lines.induct)
  case (2 env rid d n ls st)
  then obtain st1 where l: "replay_line env rid d n st = Inr st1" and ls: "replay_lines env rid ls st1 = Inr st'"
    by (auto simp: res_simps)
  from l obtain r where r: "jr_sequence r = of_nat (length (rp_records (rs_report st))) + 1"
    "jr_previous_record_digest r = rs_last_digest st" "journal_record_digest env r = Inr (jr_record_digest r)"
    "rp_records (rs_report st1) = rp_records (rs_report st) @ [r]" "rs_last_digest st1 = jr_record_digest r"
    by (auto simp: replay_line_iff)
  from "2.IH" [OF ls] obtain rs where "rp_records (rs_report st') = rp_records (rs_report st1) @ rs"
    "chained env (jr_record_digest r) rs" "numbered (Suc (length (rp_records (rs_report st)))) rs"
    "length rs \<le> file_bytes ls"
    using r by auto
  then show ?case using r by (intro exI [of _ "r # rs"]) auto
next
  case (3 env rid n ls st)
  then show ?case by (intro exI [of _ "[]"]) (auto split: if_splits)
qed auto

lemma chained_append: "chained env p (xs @ [r]) \<longleftrightarrow>
   chained env p xs \<and> jr_previous_record_digest r = (if xs = [] then p else jr_record_digest (last xs)) \<and>
   journal_record_digest env r = Inr (jr_record_digest r)"
  by (induction xs arbitrary: p) auto

lemma numbered_append: "numbered n (xs @ [r]) \<longleftrightarrow> numbered n xs \<and> jr_sequence r = of_nat (n + length xs) + 1"
  by (induction xs arbitrary: n) auto

lemma chain_determined:
  assumes inj: "\<And>r q d. rec_sha env r = Some d \<Longrightarrow> rec_sha env q = Some d \<Longrightarrow> r = q"
  shows "chained env p xs \<Longrightarrow> chained env p ys \<Longrightarrow> length xs = length ys \<Longrightarrow>
    xs \<noteq> [] \<Longrightarrow> jr_record_digest (last xs) = jr_record_digest (last ys) \<Longrightarrow> xs = ys"
proof (induction xs arbitrary: ys rule: rev_induct)
  case (snoc r xs)
  then obtain q ys' where ys: "ys = ys' @ [q]" by (metis append_Nil2 append_butlast_last_id length_0_conv)
  have "rec_sha env (r\<lparr>jr_record_digest := []\<rparr>) = Some (jr_record_digest r)"
    "rec_sha env (q\<lparr>jr_record_digest := []\<rparr>) = Some (jr_record_digest r)"
    using snoc.prems by (auto simp: ys chained_append journal_record_digest_def split: option.splits)
  then have "r\<lparr>jr_record_digest := []\<rparr> = q\<lparr>jr_record_digest := []\<rparr>" by (rule inj)
  then have rq: "r = q" using snoc.prems(5) ys by (cases r; cases q) simp
  show ?case
  proof (cases "xs = []")
    case False
    then have "ys' \<noteq> []" using snoc.prems(3) ys by auto
    then have "xs = ys'"
      using snoc.IH [of ys'] snoc.prems ys rq False by (simp add: chained_append)
    then show ?thesis using rq ys by simp
  qed (use snoc.prems(3) ys rq in auto)
qed simp

lemma read_records_chain:
  assumes "read_file_journal env rid ls = Inr report"
  shows "chained env zero_journal_digest (rp_records report) \<and> numbered 0 (rp_records report) \<and>
    rp_records report \<noteq> [] \<and> length (rp_records report) \<le> maximum_journal_file_bytes"
proof -
  from assms obtain st where "replay_lines env rid ls start_replay = Inr st" "report = rs_report st"
    "rp_records report \<noteq> []" "file_bytes ls \<le> maximum_journal_file_bytes"
    by (auto simp: read_file_journal_def Let_def res_simps split: if_splits sum.splits)
  then show ?thesis using replay_chain [of env rid ls start_replay st] by (auto simp: start_replay_def)
qed


end
