(* ===== verification/SchedulerWitnesses.thy ===== *)
theory SchedulerWitnesses
  imports DagRuns JournalFile
begin

text \<open>
  Concrete instances of the scheduler properties: a plan of two stages, its execution, and the journal
  file of one run, on which the hypotheses of the theorems hold.
\<close>

section \<open>An execution\<close>

definition ex_stage :: "string \<Rightarrow> string list \<Rightarrow> (int, nat) stage" where
  "ex_stage sid deps = \<lparr>st_id = sid, st_version = ''v1'', st_dependencies = deps, st_configuration = 0,
     st_input_digests = [], st_dynamic_input_digests = None, st_ignore_dependency_digests = False,
     st_disable_cache = False, st_restore = None, st_resources = zero_request\<lparr>memory_mib := 3\<rparr>,
     st_run = Some (\<lambda>ins w. (Inr zero_result, w + 2))\<rparr>"

definition ex_run_id :: string where "ex_run_id = replicate 32 CHR ''7''"

definition ex_options :: "(int, nat) options" where
  "ex_options = \<lparr>o_workers = 2, o_budget = \<lparr>b_memory_mib = 4, b_cpu = 0, b_processes = 0, b_open_files = 0\<rparr>,
     o_cache = None, o_run_id = ex_run_id, o_journal = None, o_defer_journal_completion = False,
     o_values = [], o_on_event = None\<rparr>"

definition ex_jenv :: journal_env where
  "ex_jenv = \<lparr>plan_sha = (\<lambda>_. Some (replicate 64 CHR ''a'')),
     rec_sha = (\<lambda>r. if jr_record_digest r = [] then Some (replicate 64 CHR ''b'') else None),
     encoded_len = (\<lambda>_. Some 100), reparse = Inr\<rparr>"

definition ex_env :: "(int, nat) sched_env" where
  "ex_env = \<lparr>ctx_err = (\<lambda>_. None), now = int, key_sha = (\<lambda>_ _ _ _. Some ''k''), jenv = ex_jenv\<rparr>"

definition ex_plan :: "(int, nat) stage list" where
  "ex_plan = [ex_stage ''b'' [''a''], ex_stage ''a'' []]"

definition ex_normal :: "(int, nat) stage list" where
  "ex_normal = [ex_stage ''a'' [], ex_stage ''b'' [''a'']]"

lemma ex_validate: "validate_and_normalize ex_plan = Inr ex_normal"
proof -
  have "\<not> isl (validate_and_normalize ex_plan)" by code_simp
  moreover have "sort_key st_id (map norm_stage ex_plan) = ex_normal"
    by (simp add: ex_plan_def ex_normal_def ex_stage_def norm_stage_def unique_sorted_def sorted_keys_def)
  ultimately show ?thesis by (cases "validate_and_normalize ex_plan") (simp_all add: validate_iff)
qed

theorem validate_order_irrelevant_witness:
  "validate_and_normalize (rev ex_plan) = Inr ex_normal"
  by (rule validate_order_irrelevant [OF _ ex_validate]) simp


definition ex_report :: "int report" where
  "ex_report = fst (fst (execute ex_env ex_plan ex_options 0))"

theorem execute_success_witness:
  "map ev_stage_id (rep_events ex_report) = [''a'', ''b''] \<and>
   snd (fst (execute ex_env ex_plan ex_options 0)) = None"
proof -
  obtain rep err w where e: "execute ex_env ex_plan ex_options 0 = ((rep, err), w)" by (metis prod.exhaust)
  have "snd (fst (execute ex_env ex_plan ex_options 0)) = None" by code_simp
  then have "err = None" by (simp add: e)
  then have "map ev_stage_id (rep_events rep) = sort (map st_id ex_plan)"
    using execute_success [of ex_env ex_plan ex_options 0 rep w] e by simp
  moreover have "sort (map st_id ex_plan) = [''a'', ''b'']" by code_simp
  ultimately show ?thesis using \<open>err = None\<close> by (simp add: ex_report_def e)
qed

definition tight_options :: "(int, nat) options" where
  "tight_options = ex_options\<lparr>o_budget := \<lparr>b_memory_mib = 2, b_cpu = 0, b_processes = 0, b_open_files = 0\<rparr>\<rparr>"

theorem execute_error_kinds_witness:
  "snd (fst (execute ex_env ex_plan tight_options 0)) = Some (budget_error (ex_stage ''a'' [])) \<and>
   (exceeds_budget (st_resources (ex_stage ''a'' [])) (o_budget tight_options) \<or>
    exceeds_budget (st_resources (ex_stage ''b'' [''a''])) (o_budget tight_options))"
proof -
  obtain rep err w where e: "execute ex_env ex_plan tight_options 0 = ((rep, err), w)" by (metis prod.exhaust)
  have "snd (fst (execute ex_env ex_plan tight_options 0)) = Some (budget_error (ex_stage ''a'' []))"
    by code_simp
  then have err: "err = Some (budget_error (ex_stage ''a'' []))" by (simp add: e)
  have "o_journal tight_options = None" by (simp add: tight_options_def ex_options_def)
  with execute_error_kinds [OF e [unfolded err] ex_validate]
  show ?thesis using err e by (auto simp: ex_normal_def ex_env_def budget_error_def)
qed

theorem execute_keeps_witness:
  "even (snd (execute ex_env ex_plan ex_options 0))"
proof -
  have "stage_keeps even (ex_stage sid deps)" for sid deps
    by (simp add: stage_keeps_def ex_stage_def)
  then have "\<forall>s \<in> set ex_plan. stage_keeps even s" by (simp add: ex_plan_def)
  moreover have "options_keep even ex_options" by (simp add: options_keep_def ex_options_def)
  ultimately show ?thesis by (rule execute_keeps) simp
qed

section \<open>A run with its journal\<close>

definition ex_result :: "int result" where
  "ex_result = zero_result\<lparr>r_cache_key := ''stage:'' @ replicate 64 CHR ''c'',
     r_object_digest := ''sha256:'' @ replicate 64 CHR ''d''\<rparr>"

definition ex_event :: event where
  "ex_event = \<lparr>ev_stage_id = ''a'', ev_state = ''complete'', ev_started_at = 0, ev_duration = 1, ev_error = []\<rparr>"

definition ex_pd :: string where "ex_pd = replicate 64 CHR ''a''"

definition ex_records :: "journal_record list" where
  "ex_records = [begin_run_record ex_options (plan_of ex_normal) ex_pd,
     begin_stage_record ex_options ex_pd (ex_stage ''a'' []),
     finish_stage_record ex_options ex_pd (ex_stage ''a'' []) (Inr ex_result) ex_event,
     begin_stage_record ex_options ex_pd (ex_stage ''b'' [''a'']),
     finish_stage_record ex_options ex_pd (ex_stage ''b'' [''a'']) (Inr ex_result) ex_event]"

lemma ex_trace: "run_trace ex_options ex_pd ex_normal [''b'', ''a''] [] [] ex_records"
proof -
  note in_ready = ready_stages_def ex_normal_def ex_stage_def
  have 1: "run_trace ex_options ex_pd ex_normal [] [''a''] [] (take 2 ex_records)"
    using run_trace.launch [OF run_trace.start, of "ex_stage ''a'' []" ex_normal ex_options ex_pd]
    by (simp add: ex_records_def in_ready)
  have 2: "run_trace ex_options ex_pd ex_normal [''a''] [] [] (take 3 ex_records)"
    using run_trace.complete [OF 1, of "ex_stage ''a'' []" ex_result ex_event]
    by (simp add: ex_records_def in_ready)
  have 3: "run_trace ex_options ex_pd ex_normal [''a''] [''b''] [] (take 4 ex_records)"
    using run_trace.launch [OF 2, of "ex_stage ''b'' [''a'']"] by (simp add: ex_records_def in_ready)
  show ?thesis
    using run_trace.complete [OF 3, of "ex_stage ''b'' [''a'']" ex_result ex_event]
    by (simp add: ex_records_def in_ready)
qed

definition ex_end :: journal_record where
  "ex_end = end_run_record ex_options ex_pd None None 9"

definition ex_prev :: "nat \<Rightarrow> string" where
  "ex_prev n = (if n = 0 then zero_journal_digest else replicate 64 CHR ''b'')"

definition ex_stamped :: "journal_record list" where
  "ex_stamped = stamp 0 ex_prev (ex_records @ [ex_end]) [1, 2, 3, 4, 5, 6]"

lemma ex_plan_digest: "journal_plan_digest ex_jenv (plan_of ex_normal) = Inr ex_pd"
proof -
  have "validate_journal_plan (plan_of ex_normal) = Inr ()" by code_simp
  then show ?thesis by (simp add: journal_plan_digest_def ex_jenv_def ex_pd_def)
qed


lemma ex_accepted: "\<exists>lc. accept_all ex_jenv ex_stamped zero_lifecycle = Inr lc"
proof -
  have "\<not> isl (accept_all ex_jenv ex_stamped zero_lifecycle)" by code_simp
  then show ?thesis by (cases "accept_all ex_jenv ex_stamped zero_lifecycle") auto
qed

lemma ex_accepted_prefix: "\<exists>lc. accept_all ex_jenv (take 4 ex_stamped) zero_lifecycle = Inr lc"
proof -
  have "\<not> isl (accept_all ex_jenv (take 4 ex_stamped) zero_lifecycle)" by code_simp
  then show ?thesis by (cases "accept_all ex_jenv (take 4 ex_stamped) zero_lifecycle") auto
qed

lemma ex_stamped_parts:
  "take 4 ex_stamped = ex_stamped ! 0 # [ex_stamped ! 1, ex_stamped ! 2] @ [ex_stamped ! 3]"
  "ex_stamped = ex_stamped ! 0 # [ex_stamped ! 1, ex_stamped ! 2, ex_stamped ! 3, ex_stamped ! 4] @ ex_stamped ! 5 # []"
  by (simp_all add: ex_stamped_def ex_records_def)

theorem accepted_start_dependencies_witness:
  "jr_stage_id (ex_stamped ! 3) = ''b'' \<and>
   (\<exists>stage \<in> set (jr_plan (ex_stamped ! 0)). js_id stage = ''b'' \<and> js_dependencies stage = [''a'']) \<and>
   successes ''a'' (take 3 ex_stamped) = 1"
proof -
  obtain lc where "accept_all ex_jenv (ex_stamped ! 0 # [ex_stamped ! 1, ex_stamped ! 2] @ [ex_stamped ! 3])
      zero_lifecycle = Inr lc"
    using ex_accepted_prefix ex_stamped_parts(1) by metis
  moreover have r: "jr_kind (ex_stamped ! 3) = KindStage" "jr_state (ex_stamped ! 3) = StateRunning"
    "jr_stage_id (ex_stamped ! 3) = ''b''"
    by (simp_all add: ex_stamped_def ex_records_def begin_stage_record_def ex_stage_def)
  moreover have plan: "jr_plan (ex_stamped ! 0) = plan_of ex_normal"
    by (simp add: ex_stamped_def ex_records_def begin_run_record_def)
  moreover have "take 3 ex_stamped = ex_stamped ! 0 # [ex_stamped ! 1, ex_stamped ! 2]"
    by (simp add: ex_stamped_def ex_records_def)
  ultimately show ?thesis
    using accepted_start_dependencies [of ex_jenv "ex_stamped ! 0" "[ex_stamped ! 1, ex_stamped ! 2]" "ex_stamped ! 3" lc]
    by (auto simp: plan_of_def ex_normal_def ex_stage_def)
qed

theorem accepted_run_end_witness:
  "jr_state (ex_stamped ! 5) = StateSucceeded \<and> successes ''a'' (take 5 ex_stamped) = 1 \<and>
   successes ''b'' (take 5 ex_stamped) = 1"
proof -
  obtain lc where "accept_all ex_jenv (ex_stamped ! 0 # [ex_stamped ! 1, ex_stamped ! 2, ex_stamped ! 3, ex_stamped ! 4] @
      ex_stamped ! 5 # []) zero_lifecycle = Inr lc"
    using ex_accepted ex_stamped_parts(2) by metis
  moreover have r: "jr_kind (ex_stamped ! 5) = KindRun" "jr_state (ex_stamped ! 5) = StateSucceeded"
    by (simp_all add: ex_stamped_def ex_records_def ex_end_def end_run_record_def run_state_def)
  moreover have plan: "jr_plan (ex_stamped ! 0) = plan_of ex_normal"
    by (simp add: ex_stamped_def ex_records_def begin_run_record_def)
  moreover have "take 5 ex_stamped = ex_stamped ! 0 # [ex_stamped ! 1, ex_stamped ! 2, ex_stamped ! 3, ex_stamped ! 4]"
    by (simp add: ex_stamped_def ex_records_def)
  ultimately show ?thesis
    using accepted_run_end [of ex_jenv "ex_stamped ! 0" _ "ex_stamped ! 5" "[]" lc]
    by (auto simp: plan_of_def ex_normal_def ex_stage_def)
qed

definition ex_ops :: "(append_io \<times> journal_record) list" where
  "ex_ops = [(io_ok 1, hd ex_records), (io_ok 2, ex_records ! 1),
     ((io_ok 3)\<lparr>io_write := WriteFailed (Msg ''disk full'') 7\<rparr>, ex_records ! 2)]"

definition ex_journal :: file_journal where
  "ex_journal = append_seq (append_record ex_jenv) ex_ops (open_journal ex_run_id)"

lemma ex_readable: "readable ex_jenv r"
  by (simp add: readable_def ex_jenv_def)

definition ex_first :: journal_record where
  "ex_first = (begin_run_record ex_options (plan_of ex_normal) ex_pd)\<lparr>
     jr_schema_version := journal_schema_version, jr_sequence := 1, jr_occurred_at := 1,
     jr_previous_record_digest := zero_journal_digest, jr_record_digest := replicate 64 CHR ''b''\<rparr>"

lemma ex_first_checks:
  "is_lower_hex ex_run_id 32" "is_lower_hex ex_pd 64" "is_lower_hex zero_journal_digest 64"
  "is_lower_hex (replicate 64 CHR ''b'') 64" "validate_journal_plan (plan_of ex_normal) = Inr ()"
  by code_simp+

lemma ex_first_append:
  "\<exists>j q. append_record ex_jenv (io_ok 1) (hd ex_records) (open_journal ex_run_id) = (None, j) \<and>
     complete_records (fj_file j) = [q]"
proof -
  have c: "complete_record ex_jenv (io_ok 1) (open_journal ex_run_id) (hd ex_records) = Inr ex_first"
    using ex_plan_digest
    by (simp add: complete_record_def complete_plan_digest_def journal_record_digest_def ex_records_def ex_first_def
        begin_run_record_def zero_record_def open_journal_def io_ok_def ex_jenv_def res_simps Let_def)
  have v: "validate_journal_record ex_first = Inr ()"
    using ex_first_checks
    by (simp add: validate_journal_record_def validate_run_record_def validate_run_id_def ex_first_def
        begin_run_record_def zero_record_def ex_options_def guard_def)
  have "\<not> isl (accept ex_jenv ex_first zero_lifecycle)" by code_simp
  then obtain lc where "accept ex_jenv ex_first zero_lifecycle = Inr lc" by (metis sum.collapse(2))
  moreover have "jr_run_id (hd ex_records) = ex_run_id"
    by (simp add: ex_records_def begin_run_record_def ex_options_def)
  ultimately show ?thesis
    using c v by (simp add: append_record_def persist_record_def io_ok_def open_journal_def Let_def ex_jenv_def
        maximum_journal_record_bytes_def maximum_journal_file_bytes_def)
qed

lemma ex_journal_records: "complete_records (fj_file ex_journal) \<noteq> []"
proof -
  obtain j q where a: "append_record ex_jenv (io_ok 1) (hd ex_records) (open_journal ex_run_id) = (None, j)"
    and q: "complete_records (fj_file j) = [q]"
    using ex_first_append by blast
  have "fj_inv ex_jenv (open_journal ex_run_id)" "torn_free (fj_file (open_journal ex_run_id))"
      "fj_run_id (open_journal ex_run_id) = ex_run_id"
    by (simp_all add: open_journal_def [of ex_run_id] fj_inv_open [unfolded open_journal_def])
  then have "fj_inv ex_jenv j \<and> torn_free (fj_file j) \<and> fj_run_id j = ex_run_id"
    using file_sink.append_good [OF _ ex_readable a] by blast
  then obtain more where "complete_records (fj_file ex_journal) = [q] @ more"
    using file_sink.append_seq_stored [of ex_jenv j ex_run_id "tl ex_ops"] ex_readable q
    by (auto simp: ex_journal_def ex_ops_def a)
  then show ?thesis by simp
qed


definition once_jenv :: journal_env where
  "once_jenv = ex_jenv\<lparr>rec_sha := (\<lambda>r. if r = ex_first\<lparr>jr_record_digest := []\<rparr>
     then Some (replicate 64 CHR ''b'') else None)\<rparr>"

definition ex_tail_file :: "nat \<Rightarrow> journal_line list" where
  "ex_tail_file n = [Line (Inr ex_first) 100, Torn n]"

lemma ex_read_tail:
  assumes "n \<le> 50"
  shows "\<exists>rep. read_file_journal once_jenv ex_run_id (ex_tail_file n) = Inr rep \<and> rp_records rep = [ex_first]"
proof -
  have v: "validate_journal_record ex_first = Inr ()"
    using ex_first_checks
    by (simp add: validate_journal_record_def validate_run_record_def validate_run_id_def ex_first_def
        begin_run_record_def zero_record_def ex_options_def guard_def)
  have "\<not> isl (accept once_jenv ex_first zero_lifecycle)" by code_simp
  then obtain lc where acc: "accept once_jenv ex_first zero_lifecycle = Inr lc" by (metis sum.collapse(2))
  have d: "journal_record_digest once_jenv ex_first = Inr (jr_record_digest ex_first)"
    by (simp add: journal_record_digest_def once_jenv_def ex_first_def)
  have f: "jr_run_id ex_first = ex_run_id" "jr_sequence ex_first = 1" "jr_kind ex_first = KindRun"
    "jr_previous_record_digest ex_first = zero_journal_digest" "jr_state ex_first = StateRunning"
    by (simp_all add: ex_first_def begin_run_record_def ex_options_def)
  have "validate_run_id ex_run_id = Inr ()" using ex_first_checks by (simp add: validate_run_id_def guard_def)
  then show ?thesis
    using assms
    by (simp add: read_file_journal_def ex_tail_file_def maximum_journal_file_bytes_def file_bytes_def
        replay_line_def decode_journal_record_def maximum_journal_record_bytes_def v acc d f res_simps Let_def
        start_replay_def is_terminal_run_state_def)
qed


end
