(* ===== verification/Model.thy ===== *)
theory Model
  imports GoStrings Complex_Main
begin

text \<open>
  The canonical records of \<open>pkg/rkcmodel\<close>: the data of \<open>model.go\<close>, the vocabularies and resolution
  normalisation of \<open>vocabulary.go\<close>, and \<open>StableID\<close> and \<open>SortBundle\<close> of \<open>canonical.go\<close>. A value of
  \<open>map[string]any\<close> is of the type variable \<open>'v\<close>; a nil and an empty slice or map are the same list;
  the \<open>int\<close> and \<open>int64\<close> fields are only compared, so they are unbounded. \<open>sort.Slice\<close> is not stable
  in Go; \<^const>\<open>sort_key\<close> is one of its outcomes, and the only one when the keys are distinct.
\<close>

section \<open>Floating point values\<close>

text \<open>A \<open>float64\<close> as far as comparisons see it.\<close>

datatype go_float = NaN | Infinite bool | Finite rat

instantiation go_float :: "{zero, one, ord}"
begin

definition zero_go_float :: go_float where "zero_go_float = Finite 0"

definition one_go_float :: go_float where "one_go_float = Finite 1"

fun less_eq_go_float :: "go_float \<Rightarrow> go_float \<Rightarrow> bool" where
  "less_eq_go_float NaN y = False"
| "less_eq_go_float x NaN = False"
| "less_eq_go_float (Infinite negative) y = (negative \<or> y = Infinite False)"
| "less_eq_go_float x (Infinite negative) = (\<not> negative)"
| "less_eq_go_float (Finite a) (Finite b) = (a \<le> b)"

definition less_go_float :: "go_float \<Rightarrow> go_float \<Rightarrow> bool" where
  "less_go_float x y \<longleftrightarrow> x \<le> y \<and> \<not> y \<le> (x :: go_float)"

instance ..

end

section \<open>The records\<close>

type_synonym 'v attributes = "(string \<times> 'v) list"

record source_range =
  sr_artifact_id :: string
  sr_path :: string
  sr_start_byte :: int
  sr_end_byte :: int
  sr_start_line :: int
  sr_start_column :: int
  sr_end_line :: int
  sr_end_column :: int
  sr_anchor :: string

record git_info =
  gi_commit :: string
  gi_branch :: string
  gi_origin :: string
  gi_dirty :: bool
  gi_working_tree_digest :: string
  gi_unavailable :: bool

record tool_info =
  ti_name :: string
  ti_version :: string
  ti_build :: string
  ti_runtime :: string
  ti_attributes :: "string attributes"

record 'v snapshot =
  sn_schema_version :: string
  sn_id :: string
  sn_repository_id :: string
  sn_parent_snapshot_id :: string
  sn_created_at :: int
  sn_status :: string
  sn_root_name :: string
  sn_root_path :: string
  sn_content_digest :: string
  sn_config_digest :: string
  sn_policy_digest :: string
  sn_plugin_lock_digest :: string
  sn_toolchain_digest :: string
  sn_git :: git_info
  sn_tool :: tool_info
  sn_policy :: "'v attributes"
  sn_metadata :: "string attributes"

record artifact =
  a_id :: string
  a_logical_id :: string
  a_content_id :: string
  a_path :: string
  a_kind :: string
  a_language :: string
  a_media_type :: string
  a_encoding :: string
  a_newline :: string
  a_size_bytes :: int
  a_sha256 :: string
  a_line_count :: int
  a_mode :: int
  a_text :: bool
  a_executable :: bool
  a_generated :: bool
  a_vendored :: bool
  a_status :: string
  a_disposition_reason :: string
  a_exclusion_reason :: string
  a_target :: string
  a_license_expression :: string
  a_attributes :: "string attributes"

record 'v node =
  n_id :: string
  n_logical_id :: string
  n_kind :: string
  n_name :: string
  n_qualified_name :: string
  n_signature :: string
  n_language :: string
  n_visibility :: string
  n_stability :: string
  n_public_surface :: bool
  n_artifact_id :: string
  n_source :: "source_range option"
  n_semantic_hash :: string
  n_evidence_ids :: "string list"
  n_attributes :: "'v attributes"

record 'v edge =
  e_id :: string
  e_kind :: string
  e_from :: string
  e_to :: string
  e_resolution :: string
  e_confidence :: go_float
  e_producer :: string
  e_lifecycle :: string
  e_evidence_ids :: "string list"
  e_attributes :: "'v attributes"

record 'v evidence =
  evd_id :: string
  evd_kind :: string
  evd_method :: string
  evd_confidence :: go_float
  evd_source :: "source_range option"
  evd_tool :: string
  evd_tool_version :: string
  evd_input_digest :: string
  evd_observed_at :: "int option"
  evd_detail :: string
  evd_attributes :: "'v attributes"

record 'v diagnostic =
  dg_id :: string
  dg_severity :: string
  dg_code :: string
  dg_message :: string
  dg_source :: "source_range option"
  dg_stage :: string
  dg_plugin :: string
  dg_help_uri :: string
  dg_attributes :: "'v attributes"

record 'v conflict =
  cf_id :: string
  cf_kind :: string
  cf_subject_id :: string
  cf_candidate_ids :: "string list"
  cf_preferred_id :: string
  cf_resolution :: string
  cf_evidence_ids :: "string list"
  cf_attributes :: "'v attributes"

record 'v claim =
  cl_id :: string
  cl_subject_id :: string
  cl_text :: string
  cl_category :: string
  cl_certainty :: string
  cl_generator :: string
  cl_generator_version :: string
  cl_evidence_ids :: "string list"
  cl_validation :: string
  cl_attributes :: "'v attributes"

record 'v document_section =
  sec_id :: string
  sec_parent_id :: string
  sec_ordinal :: int
  sec_heading :: string
  sec_markdown :: string
  sec_plain_text :: string
  sec_claim_ids :: "string list"
  sec_evidence_ids :: "string list"
  sec_attributes :: "'v attributes"

record 'v document =
  doc_id :: string
  doc_logical_id :: string
  doc_kind :: string
  doc_title :: string
  doc_path :: string
  doc_subject_ids :: "string list"
  doc_generator :: string
  doc_generator_version :: string
  doc_content_sha256 :: string
  doc_status :: string
  doc_sections :: "'v document_section list"
  doc_attributes :: "'v attributes"

record 'v execution_path =
  ep_id :: string
  ep_name :: string
  ep_entry_node_id :: string
  ep_exit_node_id :: string
  ep_node_ids :: "string list"
  ep_edge_ids :: "string list"
  ep_evidence_ids :: "string list"
  ep_attributes :: "'v attributes"

record 'v model_bundle =
  bu_snapshot :: "'v snapshot"
  bu_artifacts :: "artifact list"
  bu_nodes :: "'v node list"
  bu_edges :: "'v edge list"
  bu_evidence :: "'v evidence list"
  bu_diagnostics :: "'v diagnostic list"
  bu_conflicts :: "'v conflict list"
  bu_documents :: "'v document list"
  bu_claims :: "'v claim list"
  bu_paths :: "'v execution_path list"

record 'v fragment =
  fr_artifacts :: "artifact list"
  fr_nodes :: "'v node list"
  fr_edges :: "'v edge list"
  fr_evidence :: "'v evidence list"
  fr_diagnostics :: "'v diagnostic list"
  fr_conflicts :: "'v conflict list"
  fr_documents :: "'v document list"
  fr_claims :: "'v claim list"
  fr_paths :: "'v execution_path list"

text \<open>The zero values that a lookup of a missing key yields.\<close>

definition zero_node :: "'v node" where
  "zero_node = \<lparr>n_id = [], n_logical_id = [], n_kind = [], n_name = [], n_qualified_name = [],
     n_signature = [], n_language = [], n_visibility = [], n_stability = [], n_public_surface = False,
     n_artifact_id = [], n_source = None, n_semantic_hash = [], n_evidence_ids = [], n_attributes = []\<rparr>"

definition zero_edge :: "'v edge" where
  "zero_edge = \<lparr>e_id = [], e_kind = [], e_from = [], e_to = [], e_resolution = [], e_confidence = 0,
     e_producer = [], e_lifecycle = [], e_evidence_ids = [], e_attributes = []\<rparr>"

section \<open>Vocabularies\<close>

definition node_kinds :: "string list" where
  "node_kinds =
    [''repository'', ''project'', ''package'', ''directory'', ''file'', ''symlink'', ''special'',
     ''archive'', ''archive_member'', ''notebook'', ''notebook_cell'', ''module'', ''namespace'',
     ''class'', ''interface'', ''trait'', ''type'', ''enum'', ''enum_member'', ''function'',
     ''method'', ''constructor'', ''field'', ''property'', ''variable'', ''constant'',
     ''parameter'', ''return_value'', ''value'', ''cfg_block'', ''trace'', ''api_service'',
     ''api_endpoint'', ''api_operation'', ''security_scheme'', ''graphql_type'', ''graphql_field'',
     ''rpc_service'', ''rpc_method'', ''cli_command'', ''cli_argument'', ''cli_flag'',
     ''config_key'', ''environment_variable'', ''secret'', ''database'', ''database_table'',
     ''database_column'', ''database_view'', ''database_index'', ''migration'', ''schema'',
     ''message'', ''event'', ''topic'', ''queue'', ''build_target'', ''deployment'',
     ''container_image'', ''test'', ''test_suite'', ''fixture'', ''document'',
     ''document_section'', ''external_dependency'', ''license'', ''owner'', ''execution_path'',
     ''unresolved_symbol'']"

definition edge_kinds :: "string list" where
  "edge_kinds =
    [''contains'', ''declares'', ''imports'', ''exports'', ''references'', ''calls'',
     ''instantiates'', ''inherits'', ''implements'', ''overrides'', ''aliases'', ''reads'',
     ''writes'', ''mutates'', ''validates'', ''serializes'', ''deserializes'', ''exposes'',
     ''routes_to'', ''handles'', ''authenticates'', ''authorizes'', ''tests'', ''covers'',
     ''documents'', ''configures'', ''depends_on'', ''builds'', ''generates'', ''packages'',
     ''deploys'', ''emits'', ''subscribes'', ''publishes'', ''consumes'', ''migrates'',
     ''invoked_by'', ''supersedes'', ''owned_by'', ''licensed_under'', ''observed_with'',
     ''derived_from'', ''related_to'', ''precedes'', ''flows_to'', ''binds_to'', ''returns_to'',
     ''sanitizes'']"

definition artifact_kinds :: "string list" where
  "artifact_kinds =
    [''file'', ''directory'', ''symlink'', ''special'', ''archive'', ''archive_member'',
     ''notebook'', ''notebook_cell'', ''manifest'', ''source'', ''document'', ''binary'',
     ''generated'', ''vendored'']"

definition artifact_statuses :: "string list" where
  "artifact_statuses =
    [''recorded'', ''included'', ''text'', ''parsed'', ''syntax_parsed'', ''semantic_parsed'',
     ''excluded'', ''inventory_only'', ''binary'', ''vendored'', ''generated'', ''redacted'',
     ''unreadable'', ''unsupported'', ''oversized'']"

definition evidence_kinds :: "string list" where
  "evidence_kinds =
    [''declared'', ''compiler_resolved'', ''syntax_inferred'', ''runtime_observed'',
     ''documentation_asserted'', ''model_inferred'', ''manifest'', ''build_metadata'',
     ''test_result'', ''coverage'', ''security_scan'', ''user_asserted'']"

definition diagnostic_severities :: "string list" where
  "diagnostic_severities =
    [''note'', ''warning'', ''error'', ''fatal'']"

definition document_statuses :: "string list" where
  "document_statuses =
    [''draft'', ''validated'', ''rejected'', ''published'', ''stale'']"

definition claim_validation_states :: "string list" where
  "claim_validation_states =
    [''pending'', ''accepted'', ''rejected'', ''inference'', ''stale'']"

definition claim_certainty_states :: "string list" where
  "claim_certainty_states =
    [''supported'', ''inferred'', ''uncertain'', ''contradicted'']"

definition snapshot_statuses :: "string list" where
  "snapshot_statuses =
    [''building'', ''validating'', ''committed'', ''failed'', ''superseded'']"

definition symbol_kinds :: "string list" where
  "symbol_kinds =
    [''module'', ''namespace'', ''package'', ''class'', ''interface'', ''trait'', ''type'',
     ''enum'', ''enum_member'', ''function'', ''method'', ''constructor'', ''field'', ''property'',
     ''variable'', ''constant'', ''parameter'', ''test'', ''api_service'', ''api_endpoint'',
     ''api_operation'', ''security_scheme'', ''rpc_service'', ''rpc_method'', ''cli_command'',
     ''cli_argument'', ''cli_flag'', ''config_key'', ''environment_variable'', ''database_table'',
     ''database_column'', ''database_view'', ''schema'', ''message'', ''event'', ''topic'',
     ''queue'', ''build_target'', ''deployment'']"

definition is_symbol_kind :: "string \<Rightarrow> bool" where
  "is_symbol_kind kind \<longleftrightarrow> kind \<in> set symbol_kinds"

definition resolution_aliases :: "(string \<times> string) list" where
  "resolution_aliases = [(''resolved'', ''compiler_resolved''), (''observed'', ''runtime_observed''),
     (''syntax-inferred'', ''syntax_inferred''), (''runtime-observed'', ''runtime_observed'')]"

definition normalize_resolution :: "(string \<Rightarrow> string) \<Rightarrow> string \<Rightarrow> string" where
  "normalize_resolution fold_case value =
     (let v = trim_space (to_lower fold_case value) in
      case map_of resolution_aliases v of Some alias \<Rightarrow> alias | None \<Rightarrow> v)"

definition known_resolutions :: "string list" where
  "known_resolutions = [''declared'', ''compiler_resolved'', ''syntax_inferred'', ''runtime_observed'',
     ''documentation_asserted'', ''model_inferred'', ''unresolved'']"

definition is_known_resolution :: "(string \<Rightarrow> string) \<Rightarrow> string \<Rightarrow> bool" where
  "is_known_resolution fold_case value \<longleftrightarrow> normalize_resolution fold_case value \<in> set known_resolutions"

definition is_resolved_resolution :: "(string \<Rightarrow> string) \<Rightarrow> string \<Rightarrow> bool" where
  "is_resolved_resolution fold_case value \<longleftrightarrow>
     normalize_resolution fold_case value \<in> {''declared'', ''compiler_resolved'', ''runtime_observed''}"

section \<open>Identifiers\<close>

text \<open>\<open>strings.Join\<close>.\<close>

fun join :: "string \<Rightarrow> string list \<Rightarrow> string" where
  "join sep [] = []"
| "join sep [p] = p"
| "join sep (p # q # ps) = p @ sep @ join sep (q # ps)"

definition nul :: string where "nul = [byte 0]"

definition stable_key :: "string \<Rightarrow> string list \<Rightarrow> string" where
  "stable_key namespace parts = namespace @ nul @ join nul parts"

text \<open>\<open>sha12\<close> is the hexadecimal form of the first twelve bytes of SHA-256.\<close>

definition stable_id :: "(string \<Rightarrow> string) \<Rightarrow> string \<Rightarrow> string list \<Rightarrow> string" where
  "stable_id sha12 namespace parts = ''rkc:'' @ namespace @ '':'' @ sha12 (stable_key namespace parts)"

section \<open>Canonical order\<close>

definition sort_node :: "'v node \<Rightarrow> 'v node" where
  "sort_node n = n\<lparr>n_evidence_ids := sort (n_evidence_ids n)\<rparr>"

definition sort_edge :: "(string \<Rightarrow> string) \<Rightarrow> 'v edge \<Rightarrow> 'v edge" where
  "sort_edge fold_case e = e\<lparr>e_resolution := normalize_resolution fold_case (e_resolution e),
     e_evidence_ids := sort (e_evidence_ids e)\<rparr>"

definition sort_conflict :: "'v conflict \<Rightarrow> 'v conflict" where
  "sort_conflict c = c\<lparr>cf_candidate_ids := sort (cf_candidate_ids c), cf_evidence_ids := sort (cf_evidence_ids c)\<rparr>"

definition sort_claim :: "'v claim \<Rightarrow> 'v claim" where
  "sort_claim c = c\<lparr>cl_evidence_ids := sort (cl_evidence_ids c)\<rparr>"

definition sort_document :: "'v document \<Rightarrow> 'v document" where
  "sort_document d = d\<lparr>doc_subject_ids := sort (doc_subject_ids d),
     doc_sections := sort_key (\<lambda>s. (sec_ordinal s, sec_id s)) (doc_sections d)\<rparr>"

definition sort_bundle :: "(string \<Rightarrow> string) \<Rightarrow> 'v model_bundle \<Rightarrow> 'v model_bundle" where
  "sort_bundle fold_case b = b\<lparr>
     bu_artifacts := sort_key (\<lambda>a. (a_path a, a_id a)) (bu_artifacts b),
     bu_nodes := map sort_node (sort_key n_id (bu_nodes b)),
     bu_edges := map (sort_edge fold_case) (sort_key e_id (bu_edges b)),
     bu_evidence := sort_key evd_id (bu_evidence b),
     bu_diagnostics := sort_key dg_id (bu_diagnostics b),
     bu_conflicts := map sort_conflict (sort_key cf_id (bu_conflicts b)),
     bu_documents := map sort_document (sort_key doc_id (bu_documents b)),
     bu_claims := map sort_claim (sort_key cl_id (bu_claims b)),
     bu_paths := sort_key ep_id (bu_paths b)\<rparr>"

definition sort_fragment :: "(string \<Rightarrow> string) \<Rightarrow> 'v snapshot \<Rightarrow> 'v fragment \<Rightarrow> 'v fragment" where
  "sort_fragment fold_case zero f =
     (let b = sort_bundle fold_case \<lparr>bu_snapshot = zero, bu_artifacts = fr_artifacts f, bu_nodes = fr_nodes f,
           bu_edges = fr_edges f, bu_evidence = fr_evidence f, bu_diagnostics = fr_diagnostics f,
           bu_conflicts = fr_conflicts f, bu_documents = fr_documents f, bu_claims = fr_claims f,
           bu_paths = fr_paths f\<rparr>
      in f\<lparr>fr_artifacts := bu_artifacts b, fr_nodes := bu_nodes b, fr_edges := bu_edges b,
           fr_evidence := bu_evidence b, fr_diagnostics := bu_diagnostics b, fr_conflicts := bu_conflicts b,
           fr_documents := bu_documents b, fr_claims := bu_claims b, fr_paths := bu_paths b\<rparr>)"

text \<open>The operational fields that \<open>canonicalBundle\<close> removes before it sorts.\<close>

definition strip_operational :: "'v snapshot \<Rightarrow> 'v snapshot" where
  "strip_operational s = s\<lparr>sn_created_at := 0, sn_root_path := [],
     sn_metadata := AList.delete ''duration_ms'' (AList.delete ''pid'' (AList.delete ''host'' (sn_metadata s)))\<rparr>"

definition canonical_bundle :: "(string \<Rightarrow> string) \<Rightarrow> 'v model_bundle \<Rightarrow> 'v model_bundle" where
  "canonical_bundle fold_case b = sort_bundle fold_case (b\<lparr>bu_snapshot := strip_operational (bu_snapshot b)\<rparr>)"

end
