(* ===== verification/Validate.thy ===== *)
theory Validate
  imports Model
begin

text \<open>
  \<open>ValidateBundle\<close> of \<open>pkg/rkcmodel/validate.go\<close>: one function per family of records, each returning the
  diagnostics in the order in which the source appends them. The sets of identifiers that the source
  fills while it loops are the lists \<open>seen\<close>; the later families look up the identifiers of the earlier
  ones in the complete lists. The environment holds what the checks call elsewhere: case folding, SHA-256
  (for \<open>StableID\<close>), \<open>isCanonicalRepositoryOrigin\<close> (package \<open>sourceorigin\<close>) and the type assertion to
  \<open>string\<close> on an attribute value.
\<close>

record 'v validation_env =
  ve_fold_case :: "string \<Rightarrow> string"
  ve_sha12 :: "string \<Rightarrow> string"
  ve_canonical_origin :: "string \<Rightarrow> bool"
  ve_as_string :: "'v \<Rightarrow> string option"

record validation_options =
  vo_strict_vocabulary :: bool
  vo_require_evidence :: bool

record 'v validation_report =
  vr_diagnostics :: "'v diagnostic list"

definition has_errors :: "'v validation_report \<Rightarrow> bool" where
  "has_errors report \<longleftrightarrow> list_ex (\<lambda>d. dg_severity d = ''error'' \<or> dg_severity d = ''fatal'') (vr_diagnostics report)"

section \<open>Vocabulary tests\<close>

definition is_known_node_kind :: "string \<Rightarrow> bool" where "is_known_node_kind v \<longleftrightarrow> v \<in> set node_kinds"

definition is_known_edge_kind :: "string \<Rightarrow> bool" where "is_known_edge_kind v \<longleftrightarrow> v \<in> set edge_kinds"

definition is_known_artifact_kind :: "string \<Rightarrow> bool" where "is_known_artifact_kind v \<longleftrightarrow> v \<in> set artifact_kinds"

definition is_known_artifact_status :: "string \<Rightarrow> bool" where "is_known_artifact_status v \<longleftrightarrow> v \<in> set artifact_statuses"

definition is_known_evidence_kind :: "string \<Rightarrow> bool" where "is_known_evidence_kind v \<longleftrightarrow> v \<in> set evidence_kinds"

definition is_known_severity :: "string \<Rightarrow> bool" where "is_known_severity v \<longleftrightarrow> v \<in> set diagnostic_severities"

definition is_known_document_status :: "string \<Rightarrow> bool" where "is_known_document_status v \<longleftrightarrow> v \<in> set document_statuses"

definition is_known_claim_validation :: "string \<Rightarrow> bool" where "is_known_claim_validation v \<longleftrightarrow> v \<in> set claim_validation_states"

definition is_known_claim_certainty :: "string \<Rightarrow> bool" where "is_known_claim_certainty v \<longleftrightarrow> v \<in> set claim_certainty_states"

definition is_known_snapshot_status :: "string \<Rightarrow> bool" where "is_known_snapshot_status v \<longleftrightarrow> v \<in> set snapshot_statuses"

section \<open>Small checks\<close>

definition validation_diagnostic :: "'v validation_env \<Rightarrow> string \<Rightarrow> string \<Rightarrow> string \<Rightarrow> string \<Rightarrow> 'v diagnostic" where
  "validation_diagnostic env severity rule message subject = \<lparr>
     dg_id = stable_id (ve_sha12 env) ''diagnostic'' [rule, subject], dg_severity = severity, dg_code = rule,
     dg_message = message @ '': '' @ subject, dg_source = None, dg_stage = ''model_validate'', dg_plugin = [],
     dg_help_uri = [], dg_attributes = []\<rparr>"

text \<open>\<open>if b { diagnostics = append(diagnostics, validationDiagnostic("error", ...)) }\<close>, and for a warning.\<close>

definition issue :: "'v validation_env \<Rightarrow> bool \<Rightarrow> string \<Rightarrow> string \<Rightarrow> string \<Rightarrow> 'v diagnostic list" where
  "issue env b rule message subject = (if b then [validation_diagnostic env ''error'' rule message subject] else [])"

definition warning :: "'v validation_env \<Rightarrow> bool \<Rightarrow> string \<Rightarrow> string \<Rightarrow> string \<Rightarrow> 'v diagnostic list" where
  "warning env b rule message subject = (if b then [validation_diagnostic env ''warning'' rule message subject] else [])"

definition finite_probability :: "go_float \<Rightarrow> bool" where
  "finite_probability v \<longleftrightarrow> v \<noteq> NaN \<and> (\<forall>s. v \<noteq> Infinite s) \<and> 0 \<le> v \<and> v \<le> 1"

lemma finite_probability_code [code]:
  "finite_probability v = (case v of NaN \<Rightarrow> False | Infinite s \<Rightarrow> False | Finite q \<Rightarrow> 0 \<le> q \<and> q \<le> 1)"
  by (cases v) (auto simp: finite_probability_def zero_go_float_def one_go_float_def)

definition hex_char :: "char \<Rightarrow> bool" where
  "hex_char c \<longleftrightarrow> lower_hex_char c \<or> 65 \<le> code c \<and> code c \<le> (70::nat)"

definition valid_hex_digest :: "string \<Rightarrow> bool" where
  "valid_hex_digest v \<longleftrightarrow> length v = 64 \<and> list_all hex_char v"

definition known_subject :: "string \<Rightarrow> string list list \<Rightarrow> bool" where
  "known_subject k sets \<longleftrightarrow> k \<noteq> [] \<and> list_ex (\<lambda>s. k \<in> set s) sets"

definition evidence_reference_issues ::
  "'v validation_env \<Rightarrow> string list \<Rightarrow> string list \<Rightarrow> string \<Rightarrow> string \<Rightarrow> 'v diagnostic list" where
  "evidence_reference_issues env ids known rule family =
     concat (map (\<lambda>k. issue env (k \<notin> set known) rule (family @ '' references missing evidence'') k) ids)"

definition artifact_by_id :: "artifact list \<Rightarrow> string \<Rightarrow> artifact option" where
  "artifact_by_id artifacts k =
     map_of (fold (\<lambda>a. AList.update (a_id a) a) (filter (\<lambda>a. a_id a \<noteq> []) artifacts) []) k"

definition source_range_issues ::
  "'v validation_env \<Rightarrow> artifact list \<Rightarrow> source_range option \<Rightarrow> string \<Rightarrow> string \<Rightarrow> 'v diagnostic list" where
  "source_range_issues env artifacts source rule subject =
     (case source of None \<Rightarrow> [] | Some s \<Rightarrow>
        issue env (blank (sr_path s)) rule ''source path is required'' (subject @ '':path'') @
        issue env (sr_start_byte s < 0 \<or> sr_end_byte s < 0 \<or> sr_end_byte s \<noteq> 0 \<and> sr_end_byte s < sr_start_byte s)
          rule ''source byte range is invalid'' (subject @ '':bytes'') @
        issue env (sr_start_line s < 0 \<or> sr_end_line s < 0 \<or> sr_start_column s < 0 \<or> sr_end_column s < 0 \<or>
             sr_end_line s \<noteq> 0 \<and> sr_start_line s \<noteq> 0 \<and> sr_end_line s < sr_start_line s)
          rule ''source line range is invalid'' (subject @ '':lines'') @
        issue env (sr_start_line s \<noteq> 0 \<and> sr_end_line s = sr_start_line s \<and> sr_end_column s < sr_start_column s)
          rule ''source column range is invalid'' (subject @ '':columns'') @
        (if sr_artifact_id s = [] then []
         else case artifact_by_id artifacts (sr_artifact_id s) of
           None \<Rightarrow> issue env True rule ''source references missing artifact'' (subject @ '':artifact'')
         | Some a \<Rightarrow> issue env (sr_path s \<noteq> [] \<and> a_path a \<noteq> [] \<and> sr_path s \<noteq> a_path a)
             rule ''source path disagrees with artifact path'' (subject @ '':artifact-path'')))"

section \<open>The snapshot and its provenance\<close>

definition snapshot_issues :: "'v validation_env \<Rightarrow> 'v snapshot \<Rightarrow> 'v diagnostic list" where
  "snapshot_issues env s =
     issue env (sn_schema_version s \<noteq> ''0.2.0'') ''RKC-MOD-050'' ''snapshot schema version is unsupported'' (sn_schema_version s) @
     issue env (blank (sn_id s)) ''RKC-MOD-051'' ''snapshot id is required'' (sn_root_name s) @
     issue env (blank (sn_root_name s)) ''RKC-MOD-052'' ''snapshot root name is required'' (sn_id s) @
     issue env (\<not> valid_hex_digest (sn_content_digest s)) ''RKC-MOD-053'' ''snapshot content digest is invalid'' (sn_id s) @
     issue env (\<not> is_known_snapshot_status (sn_status s)) ''RKC-MOD-054'' ''unknown snapshot status'' (sn_status s) @
     issue env (blank (ti_name (sn_tool s)) \<or> blank (ti_version (sn_tool s)))
       ''RKC-MOD-055'' ''snapshot tool name and version are required'' (sn_id s)"

definition git_origin :: "'v validation_env \<Rightarrow> 'v node \<Rightarrow> string option" where
  "git_origin env n = (case map_of (n_attributes n) ''git_origin'' of None \<Rightarrow> None | Some v \<Rightarrow> ve_as_string env v)"

definition repository_node_issues :: "'v validation_env \<Rightarrow> string \<Rightarrow> string \<Rightarrow> 'v node \<Rightarrow> 'v diagnostic list" where
  "repository_node_issues env origin repository n =
     issue env (n_logical_id n \<noteq> repository) ''RKC-MOD-057''
       ''repository node identity disagrees with snapshot'' ''repository_node.logical_id'' @
     issue env (n_qualified_name n \<noteq> origin) ''RKC-MOD-057''
       ''repository node provenance disagrees with snapshot'' ''repository_node.qualified_name'' @
     issue env (git_origin env n \<noteq> Some origin) ''RKC-MOD-057''
       ''repository node provenance disagrees with snapshot'' ''repository_node.attributes.git_origin''"

definition provenance_issues :: "'v validation_env \<Rightarrow> 'v model_bundle \<Rightarrow> 'v diagnostic list" where
  "provenance_issues env b =
     (let s = bu_snapshot b; origin = gi_origin (sn_git s);
          canonical = (origin = [] \<or> ve_canonical_origin env origin);
          repository_nodes = filter (\<lambda>n. n_kind n = ''repository'' \<and> n_id n = sn_repository_id s) (bu_nodes b)
      in issue env (\<not> canonical) ''RKC-MOD-056'' ''repository origin is not canonical'' ''snapshot.git.origin'' @
         (case map_of (sn_metadata s) ''source_reference'' of
            None \<Rightarrow> []
          | Some reference \<Rightarrow>
              if reference = [] then []
              else issue env (\<not> ve_canonical_origin env reference) ''RKC-MOD-056''
                     ''repository source reference is not canonical'' ''snapshot.metadata.source_reference'' @
                   issue env (reference \<noteq> origin) ''RKC-MOD-057''
                     ''repository provenance fields disagree'' ''snapshot.metadata.source_reference'') @
         (if origin = [] then []
          else issue env (canonical \<and> sn_repository_id s \<noteq> stable_id (ve_sha12 env) ''repository'' [origin])
                 ''RKC-MOD-058'' ''repository identifier does not match canonical origin'' ''snapshot.repository_id'' @
               concat (map (repository_node_issues env origin (sn_repository_id s)) repository_nodes) @
               issue env (repository_nodes = []) ''RKC-MOD-057''
                 ''repository provenance node is missing'' ''snapshot.repository_id''))"

section \<open>Artifacts, evidence, nodes and edges\<close>

fun artifact_issues ::
  "'v validation_env \<Rightarrow> validation_options \<Rightarrow> string list \<Rightarrow> artifact list \<Rightarrow> 'v diagnostic list" where
  "artifact_issues env opts seen [] = []"
| "artifact_issues env opts seen (a # as) =
     (if a_id a = [] then issue env True ''RKC-MOD-001'' ''artifact has empty id'' (a_path a) @ artifact_issues env opts seen as
      else issue env (a_id a \<in> set seen) ''RKC-MOD-002'' ''duplicate artifact id'' (a_id a) @
           issue env (vo_strict_vocabulary opts \<and> \<not> is_known_artifact_status (a_status a))
             ''RKC-MOD-003'' ''unknown artifact status'' (a_status a) @
           issue env (blank (a_path a)) ''RKC-MOD-004'' ''artifact path is required'' (a_id a) @
           issue env (blank (a_kind a) \<or> vo_strict_vocabulary opts \<and> \<not> is_known_artifact_kind (a_kind a))
             ''RKC-MOD-005'' ''unknown or empty artifact kind'' (a_kind a) @
           issue env (a_size_bytes a < 0 \<or> a_line_count a < 0)
             ''RKC-MOD-006'' ''artifact size and line count must be non-negative'' (a_id a) @
           issue env (a_sha256 a \<noteq> [] \<and> \<not> valid_hex_digest (a_sha256 a))
             ''RKC-MOD-007'' ''artifact sha256 is invalid'' (a_id a) @
           artifact_issues env opts (a_id a # seen) as)"

definition artifact_ids :: "'v model_bundle \<Rightarrow> string list" where
  "artifact_ids b = filter (\<lambda>k. k \<noteq> []) (map a_id (bu_artifacts b))"

fun evidence_issues ::
  "'v validation_env \<Rightarrow> validation_options \<Rightarrow> 'v model_bundle \<Rightarrow> string list \<Rightarrow> 'v evidence list \<Rightarrow> 'v diagnostic list" where
  "evidence_issues env opts b seen [] = []"
| "evidence_issues env opts b seen (e # es) =
     (if evd_id e = [] then issue env True ''RKC-MOD-010'' ''evidence has empty id'' (evd_method e) @ evidence_issues env opts b seen es
      else issue env (evd_id e \<in> set seen) ''RKC-MOD-011'' ''duplicate evidence id'' (evd_id e) @
           issue env (\<not> finite_probability (evd_confidence e)) ''RKC-MOD-012'' ''evidence confidence outside [0,1]'' (evd_id e) @
           (case evd_source e of None \<Rightarrow> [] | Some s \<Rightarrow>
              issue env (sr_artifact_id s \<noteq> [] \<and> sr_artifact_id s \<notin> set (artifact_ids b))
                ''RKC-MOD-013'' ''evidence references missing artifact'' (sr_artifact_id s)) @
           issue env (blank (evd_kind e) \<or> vo_strict_vocabulary opts \<and> \<not> is_known_evidence_kind (evd_kind e))
             ''RKC-MOD-014'' ''unknown or empty evidence kind'' (evd_kind e) @
           issue env (blank (evd_method e)) ''RKC-MOD-015'' ''evidence method is required'' (evd_id e) @
           source_range_issues env (bu_artifacts b) (evd_source e) ''RKC-MOD-016'' (evd_id e) @
           evidence_issues env opts b (evd_id e # seen) es)"

definition evidence_ids :: "'v model_bundle \<Rightarrow> string list" where
  "evidence_ids b = filter (\<lambda>k. k \<noteq> []) (map evd_id (bu_evidence b))"

fun node_issues ::
  "'v validation_env \<Rightarrow> validation_options \<Rightarrow> 'v model_bundle \<Rightarrow> string list \<Rightarrow> 'v node list \<Rightarrow> 'v diagnostic list" where
  "node_issues env opts b seen [] = []"
| "node_issues env opts b seen (n # ns) =
     (if n_id n = [] then issue env True ''RKC-MOD-020'' ''node has empty id'' (n_qualified_name n) @ node_issues env opts b seen ns
      else issue env (n_id n \<in> set seen) ''RKC-MOD-021'' ''duplicate node id'' (n_id n) @
           issue env (blank (n_kind n) \<or> vo_strict_vocabulary opts \<and> \<not> is_known_node_kind (n_kind n))
             ''RKC-MOD-022'' ''unknown or empty node kind'' (n_kind n) @
           issue env (n_artifact_id n \<noteq> [] \<and> n_artifact_id n \<notin> set (artifact_ids b))
             ''RKC-MOD-023'' ''node references missing artifact'' (n_artifact_id n) @
           concat (map (\<lambda>k. issue env (k \<notin> set (evidence_ids b)) ''RKC-MOD-024'' ''node references missing evidence'' k) (n_evidence_ids n)) @
           warning env (vo_require_evidence opts \<and> is_symbol_kind (n_kind n) \<and> n_evidence_ids n = [])
             ''RKC-MOD-025'' ''symbol has no evidence'' (n_id n) @
           issue env (blank (n_name n)) ''RKC-MOD-026'' ''node name is required'' (n_id n) @
           (case n_source n of None \<Rightarrow> [] | Some s \<Rightarrow>
              issue env (n_artifact_id n \<noteq> [] \<and> sr_artifact_id s \<noteq> [] \<and> sr_artifact_id s \<noteq> n_artifact_id n)
                ''RKC-MOD-027'' ''node source artifact disagrees with node artifact'' (n_id n)) @
           source_range_issues env (bu_artifacts b) (n_source n) ''RKC-MOD-028'' (n_id n) @
           node_issues env opts b (n_id n # seen) ns)"

definition node_ids :: "'v model_bundle \<Rightarrow> string list" where
  "node_ids b = filter (\<lambda>k. k \<noteq> []) (map n_id (bu_nodes b))"

fun edge_issues ::
  "'v validation_env \<Rightarrow> validation_options \<Rightarrow> 'v model_bundle \<Rightarrow> string list \<Rightarrow> 'v edge list \<Rightarrow> 'v diagnostic list" where
  "edge_issues env opts b seen [] = []"
| "edge_issues env opts b seen (e # es) =
     (if e_id e = [] then issue env True ''RKC-MOD-030'' ''edge has empty id'' (e_kind e) @ edge_issues env opts b seen es
      else issue env (e_id e \<in> set seen) ''RKC-MOD-031'' ''duplicate edge id'' (e_id e) @
           issue env (e_from e \<notin> set (node_ids b)) ''RKC-MOD-032'' ''edge source missing'' (e_from e) @
           issue env (e_to e \<notin> set (node_ids b)) ''RKC-MOD-033'' ''edge target missing'' (e_to e) @
           issue env (blank (e_kind e) \<or> vo_strict_vocabulary opts \<and> \<not> is_known_edge_kind (e_kind e))
             ''RKC-MOD-034'' ''unknown or empty edge kind'' (e_kind e) @
           issue env (\<not> is_known_resolution (ve_fold_case env) (e_resolution e))
             ''RKC-MOD-035'' ''unknown edge resolution'' (e_resolution e) @
           concat (map (\<lambda>k. issue env (k \<notin> set (evidence_ids b)) ''RKC-MOD-036'' ''edge references missing evidence'' k) (e_evidence_ids e)) @
           issue env (\<not> finite_probability (e_confidence e)) ''RKC-MOD-037'' ''edge confidence outside [0,1]'' (e_id e) @
           edge_issues env opts b (e_id e # seen) es)"

section \<open>Claims, diagnostics and conflicts\<close>

fun claim_issues ::
  "'v validation_env \<Rightarrow> validation_options \<Rightarrow> 'v model_bundle \<Rightarrow> string list \<Rightarrow> 'v claim list \<Rightarrow> 'v diagnostic list" where
  "claim_issues env opts b seen [] = []"
| "claim_issues env opts b seen (c # cs) =
     (if blank (cl_id c) then issue env True ''RKC-MOD-040'' ''claim id is required'' (cl_subject_id c) @ claim_issues env opts b seen cs
      else issue env (cl_id c \<in> set seen) ''RKC-MOD-040'' ''duplicate claim id'' (cl_id c) @
           issue env (cl_subject_id c \<notin> set (node_ids b)) ''RKC-MOD-041'' ''claim subject missing'' (cl_subject_id c) @
           concat (map (\<lambda>k. issue env (k \<notin> set (evidence_ids b)) ''RKC-MOD-042'' ''claim references missing evidence'' k) (cl_evidence_ids c)) @
           issue env (blank (cl_text c)) ''RKC-MOD-043'' ''claim text is required'' (cl_id c) @
           issue env (blank (cl_generator c)) ''RKC-MOD-044'' ''claim generator is required'' (cl_id c) @
           issue env (\<not> is_known_claim_certainty (cl_certainty c)) ''RKC-MOD-045'' ''unknown claim certainty'' (cl_certainty c) @
           issue env (\<not> is_known_claim_validation (cl_validation c)) ''RKC-MOD-046'' ''unknown claim validation'' (cl_validation c) @
           warning env (vo_require_evidence opts \<and> cl_evidence_ids c = []) ''RKC-MOD-047'' ''claim has no evidence'' (cl_id c) @
           claim_issues env opts b (cl_id c # seen) cs)"

definition claim_ids :: "'v model_bundle \<Rightarrow> string list" where
  "claim_ids b = filter (\<lambda>k. \<not> blank k) (map cl_id (bu_claims b))"

fun diagnostic_issues :: "'v validation_env \<Rightarrow> 'v model_bundle \<Rightarrow> string list \<Rightarrow> 'v diagnostic list \<Rightarrow> 'v diagnostic list" where
  "diagnostic_issues env b seen [] = []"
| "diagnostic_issues env b seen (d # ds) =
     (if blank (dg_id d) then issue env True ''RKC-MOD-060'' ''diagnostic id is required'' (dg_code d) @ diagnostic_issues env b seen ds
      else issue env (dg_id d \<in> set seen) ''RKC-MOD-061'' ''duplicate diagnostic id'' (dg_id d) @
           issue env (\<not> is_known_severity (dg_severity d)) ''RKC-MOD-062'' ''unknown diagnostic severity'' (dg_severity d) @
           issue env (blank (dg_code d) \<or> blank (dg_message d)) ''RKC-MOD-063'' ''diagnostic code and message are required'' (dg_id d) @
           source_range_issues env (bu_artifacts b) (dg_source d) ''RKC-MOD-064'' (dg_id d) @
           diagnostic_issues env b (dg_id d # seen) ds)"

definition subject_sets :: "'v model_bundle \<Rightarrow> string list list" where
  "subject_sets b = [node_ids b, artifact_ids b, claim_ids b]"

fun conflict_issues :: "'v validation_env \<Rightarrow> 'v model_bundle \<Rightarrow> string list \<Rightarrow> 'v conflict list \<Rightarrow> 'v diagnostic list" where
  "conflict_issues env b seen [] = []"
| "conflict_issues env b seen (c # cs) =
     (if blank (cf_id c) then issue env True ''RKC-MOD-070'' ''conflict id is required'' (cf_subject_id c) @ conflict_issues env b seen cs
      else issue env (cf_id c \<in> set seen) ''RKC-MOD-071'' ''duplicate conflict id'' (cf_id c) @
           issue env (blank (cf_kind c)) ''RKC-MOD-072'' ''conflict kind is required'' (cf_id c) @
           issue env (\<not> known_subject (cf_subject_id c) (subject_sets b)) ''RKC-MOD-073'' ''conflict subject is missing'' (cf_subject_id c) @
           issue env (length (cf_candidate_ids c) < 2) ''RKC-MOD-074'' ''conflict requires at least two candidates'' (cf_id c) @
           concat (map (\<lambda>k. issue env (\<not> known_subject k (subject_sets b)) ''RKC-MOD-075'' ''conflict candidate is missing'' k) (cf_candidate_ids c)) @
           issue env (cf_preferred_id c \<noteq> [] \<and> cf_preferred_id c \<notin> set (cf_candidate_ids c))
             ''RKC-MOD-076'' ''preferred conflict candidate is not in candidates'' (cf_id c) @
           evidence_reference_issues env (cf_evidence_ids c) (evidence_ids b) ''RKC-MOD-077'' ''conflict'' @
           conflict_issues env b (cf_id c # seen) cs)"

section \<open>Documents\<close>

fun section_issues ::
  "'v validation_env \<Rightarrow> 'v model_bundle \<Rightarrow> string \<Rightarrow> string list \<Rightarrow> 'v document_section list \<Rightarrow> 'v diagnostic list" where
  "section_issues env b document seen [] = []"
| "section_issues env b document seen (s # ss) =
     (if blank (sec_id s) then issue env True ''RKC-MOD-086'' ''document section id is required'' document @ section_issues env b document seen ss
      else issue env (sec_id s \<in> set seen) ''RKC-MOD-087'' ''duplicate document section id'' (sec_id s) @
           issue env (sec_ordinal s < 0 \<or> blank (sec_markdown s) \<and> blank (sec_plain_text s))
             ''RKC-MOD-088'' ''document section content or ordinal is invalid'' (sec_id s) @
           evidence_reference_issues env (sec_evidence_ids s) (evidence_ids b) ''RKC-MOD-089'' ''document section'' @
           concat (map (\<lambda>k. issue env (k \<notin> set (claim_ids b)) ''RKC-MOD-090'' ''document section claim is missing'' k) (sec_claim_ids s)) @
           section_issues env b document (sec_id s # seen) ss)"

definition section_ids :: "'v document \<Rightarrow> string list" where
  "section_ids d = filter (\<lambda>k. \<not> blank k) (map sec_id (doc_sections d))"

definition section_parent_issues :: "'v validation_env \<Rightarrow> 'v model_bundle \<Rightarrow> 'v document \<Rightarrow> 'v diagnostic list" where
  "section_parent_issues env b d = concat (map (\<lambda>s.
     issue env (sec_parent_id s \<noteq> [] \<and> sec_parent_id s \<notin> set (section_ids d) \<and> sec_parent_id s \<notin> set (node_ids b))
       ''RKC-MOD-091'' ''document section parent is missing'' (sec_parent_id s)) (doc_sections d))"

fun document_issues :: "'v validation_env \<Rightarrow> 'v model_bundle \<Rightarrow> string list \<Rightarrow> 'v document list \<Rightarrow> 'v diagnostic list" where
  "document_issues env b seen [] = []"
| "document_issues env b seen (d # ds) =
     (if blank (doc_id d) then issue env True ''RKC-MOD-080'' ''document id is required'' (doc_path d) @ document_issues env b seen ds
      else issue env (doc_id d \<in> set seen) ''RKC-MOD-081'' ''duplicate document id'' (doc_id d) @
           issue env (blank (doc_kind d) \<or> blank (doc_title d) \<or> blank (doc_generator d))
             ''RKC-MOD-082'' ''document kind, title, and generator are required'' (doc_id d) @
           issue env (\<not> is_known_document_status (doc_status d)) ''RKC-MOD-083'' ''unknown document status'' (doc_status d) @
           issue env (doc_content_sha256 d \<noteq> [] \<and> \<not> valid_hex_digest (doc_content_sha256 d))
             ''RKC-MOD-084'' ''document content sha256 is invalid'' (doc_id d) @
           concat (map (\<lambda>k. issue env (\<not> known_subject k (subject_sets b)) ''RKC-MOD-085'' ''document subject is missing'' k) (doc_subject_ids d)) @
           section_issues env b (doc_id d) [] (doc_sections d) @
           section_parent_issues env b d @
           document_issues env b (doc_id d # seen) ds)"

section \<open>Execution paths\<close>

definition find_edge :: "'v edge list \<Rightarrow> string \<Rightarrow> 'v edge option" where
  "find_edge edges k = find (\<lambda>e. e_id e = k) edges"

text \<open>The loop over \<open>path.EdgeIDs\<close>; \<open>i\<close> is the index of the head of the list.\<close>

fun path_edge_issues ::
  "'v validation_env \<Rightarrow> 'v model_bundle \<Rightarrow> string list \<Rightarrow> nat \<Rightarrow> string list \<Rightarrow> 'v diagnostic list" where
  "path_edge_issues env b nodes i [] = []"
| "path_edge_issues env b nodes i (k # ks) =
     (case find_edge (bu_edges b) k of
        None \<Rightarrow> issue env True ''RKC-MOD-107'' ''execution path edge is missing'' k
      | Some e \<Rightarrow> issue env (i + 1 < length nodes \<and> (e_from e \<noteq> nodes ! i \<or> e_to e \<noteq> nodes ! (i + 1)))
          ''RKC-MOD-108'' ''execution path edge does not connect consecutive nodes'' k) @
     path_edge_issues env b nodes (i + 1) ks"

fun path_issues :: "'v validation_env \<Rightarrow> 'v model_bundle \<Rightarrow> string list \<Rightarrow> 'v execution_path list \<Rightarrow> 'v diagnostic list" where
  "path_issues env b seen [] = []"
| "path_issues env b seen (p # ps) =
     (if blank (ep_id p) then issue env True ''RKC-MOD-100'' ''execution path id is required'' (ep_name p) @ path_issues env b seen ps
      else issue env (ep_id p \<in> set seen) ''RKC-MOD-101'' ''duplicate execution path id'' (ep_id p) @
           issue env (blank (ep_name p) \<or> ep_node_ids p = [] \<or> ep_entry_node_id p = [])
             ''RKC-MOD-102'' ''execution path name, entry, and nodes are required'' (ep_id p) @
           concat (map (\<lambda>k. issue env (k \<notin> set (node_ids b)) ''RKC-MOD-103'' ''execution path node is missing'' k) (ep_node_ids p)) @
           issue env (ep_node_ids p \<noteq> [] \<and> ep_entry_node_id p \<noteq> hd (ep_node_ids p))
             ''RKC-MOD-104'' ''execution path entry must be the first node'' (ep_id p) @
           issue env (ep_exit_node_id p \<noteq> [] \<and> ep_node_ids p \<noteq> [] \<and> ep_exit_node_id p \<noteq> last (ep_node_ids p))
             ''RKC-MOD-105'' ''execution path exit must be the last node'' (ep_id p) @
           issue env (ep_node_ids p \<noteq> [] \<and> length (ep_edge_ids p) + 1 \<noteq> length (ep_node_ids p))
             ''RKC-MOD-106'' ''execution path edge count must connect consecutive nodes'' (ep_id p) @
           path_edge_issues env b (ep_node_ids p) 0 (ep_edge_ids p) @
           evidence_reference_issues env (ep_evidence_ids p) (evidence_ids b) ''RKC-MOD-109'' ''execution path'' @
           path_issues env b (ep_id p # seen) ps)"

section \<open>The whole bundle\<close>

definition bundle_issues :: "'v validation_env \<Rightarrow> validation_options \<Rightarrow> 'v model_bundle \<Rightarrow> 'v diagnostic list" where
  "bundle_issues env opts b =
     snapshot_issues env (bu_snapshot b) @ provenance_issues env b @
     artifact_issues env opts [] (bu_artifacts b) @ evidence_issues env opts b [] (bu_evidence b) @
     node_issues env opts b [] (bu_nodes b) @ edge_issues env opts b [] (bu_edges b) @
     claim_issues env opts b [] (bu_claims b) @ diagnostic_issues env b [] (bu_diagnostics b) @
     conflict_issues env b [] (bu_conflicts b) @ document_issues env b [] (bu_documents b) @
     path_issues env b [] (bu_paths b)"

definition validate_bundle :: "'v validation_env \<Rightarrow> 'v model_bundle \<Rightarrow> validation_options \<Rightarrow> 'v validation_report" where
  "validate_bundle env b opts =
     \<lparr>vr_diagnostics = sort_key (\<lambda>d. (dg_id d, dg_message d)) (bundle_issues env opts b)\<rparr>"

end
