(* ===== verification/ValidateSpec.thy ===== *)
theory ValidateSpec
  imports Validate
begin

text \<open>
  What a valid bundle is, without reference to the loops of \<open>ValidateBundle\<close>: every family of records has
  unique identifiers, every record satisfies its own conditions, and every reference leads to a record.
  The locale \<open>record_family\<close> captures the shape the loops of \<open>validate.go\<close> share; each loop is an
  interpretation of it, and the validator is proved to report no error exactly on the valid bundles.
\<close>

section \<open>Reports without errors\<close>

definition no_errors :: "'v diagnostic list \<Rightarrow> bool" where
  "no_errors ds \<longleftrightarrow> \<not> has_errors \<lparr>vr_diagnostics = ds\<rparr>"

lemma no_errors_set: "no_errors ds \<longleftrightarrow> (\<forall>d \<in> set ds. dg_severity d \<noteq> ''error'' \<and> dg_severity d \<noteq> ''fatal'')"
  by (auto simp: no_errors_def has_errors_def list_ex_iff)

lemma no_errors_simps [simp]:
  "no_errors []"
  "no_errors (ds @ es) \<longleftrightarrow> no_errors ds \<and> no_errors es"
  "no_errors (issue env b rule message subject) \<longleftrightarrow> \<not> b"
  "no_errors (warning env b rule message subject)"
  "no_errors (concat dss) \<longleftrightarrow> (\<forall>ds \<in> set dss. no_errors ds)"
  "no_errors (sort_key k ds) \<longleftrightarrow> no_errors ds"
  by (auto simp: no_errors_set issue_def warning_def validation_diagnostic_def)

lemma no_errors_report: "\<not> has_errors (validate_bundle env b opts) \<longleftrightarrow> no_errors (bundle_issues env opts b)"
  by (simp add: validate_bundle_def flip: no_errors_def)

section \<open>The shape of a family\<close>

text \<open>Unique identifiers, none of them \<open>missing\<close>.\<close>

definition identified :: "(string \<Rightarrow> bool) \<Rightarrow> ('r \<Rightarrow> string) \<Rightarrow> 'r list \<Rightarrow> bool" where
  "identified missing ident rs \<longleftrightarrow> distinct (map ident rs) \<and> (\<forall>r \<in> set rs. \<not> missing (ident r))"

lemma identified_ids:
  "identified missing ident rs \<Longrightarrow> set (filter (\<lambda>k. \<not> missing k) (map ident rs)) = ident ` set rs"
  by (auto simp: identified_def)

locale record_family =
  fixes issues :: "string list \<Rightarrow> 'r list \<Rightarrow> 'v diagnostic list"
    and missing :: "string \<Rightarrow> bool"
    and ident :: "'r \<Rightarrow> string"
    and own :: "'r \<Rightarrow> bool"
  assumes issues_Nil: "no_errors (issues seen [])"
    and issues_Cons: "no_errors (issues seen (r # rs)) \<longleftrightarrow>
      \<not> missing (ident r) \<and> ident r \<notin> set seen \<and> own r \<and> no_errors (issues (ident r # seen) rs)"
begin

lemma issues_seen:
  "no_errors (issues seen rs) \<longleftrightarrow>
     identified missing ident rs \<and> (\<forall>r \<in> set rs. ident r \<notin> set seen) \<and> (\<forall>r \<in> set rs. own r)"
proof (induction rs arbitrary: seen)
  case Nil
  show ?case by (simp add: issues_Nil identified_def)
next
  case (Cons r rs)
  show ?case by (auto simp: issues_Cons Cons.IH identified_def image_iff)
qed

lemma no_issues: "no_errors (issues [] rs) \<longleftrightarrow> identified missing ident rs \<and> (\<forall>r \<in> set rs. own r)"
  by (simp add: issues_seen)

end

section \<open>Conditions on single records\<close>

text \<open>
  \<open>at_path k p\<close> says that artifact \<open>k\<close> exists and lies at the path \<open>p\<close>, and \<open>between k x y\<close> that edge \<open>k\<close>
  exists and leads from \<open>x\<close> to \<open>y\<close>; the conditions below are stated over them.
\<close>

definition source_ok :: "(string \<Rightarrow> string \<Rightarrow> bool) \<Rightarrow> source_range option \<Rightarrow> bool" where
  "source_ok at_path source \<longleftrightarrow> (\<forall>s. source = Some s \<longrightarrow>
     \<not> blank (sr_path s) \<and>
     0 \<le> sr_start_byte s \<and> 0 \<le> sr_end_byte s \<and> (sr_end_byte s = 0 \<or> sr_start_byte s \<le> sr_end_byte s) \<and>
     0 \<le> sr_start_line s \<and> 0 \<le> sr_end_line s \<and> 0 \<le> sr_start_column s \<and> 0 \<le> sr_end_column s \<and>
     (sr_end_line s = 0 \<or> sr_start_line s = 0 \<or> sr_start_line s \<le> sr_end_line s) \<and>
     (sr_start_line s \<noteq> 0 \<and> sr_end_line s = sr_start_line s \<longrightarrow> sr_start_column s \<le> sr_end_column s) \<and>
     (sr_artifact_id s \<noteq> [] \<longrightarrow> at_path (sr_artifact_id s) (sr_path s)))"

definition snapshot_ok :: "'v snapshot \<Rightarrow> bool" where
  "snapshot_ok s \<longleftrightarrow> sn_schema_version s = ''0.2.0'' \<and> \<not> blank (sn_id s) \<and> \<not> blank (sn_root_name s) \<and>
     valid_hex_digest (sn_content_digest s) \<and> is_known_snapshot_status (sn_status s) \<and>
     \<not> blank (ti_name (sn_tool s)) \<and> \<not> blank (ti_version (sn_tool s))"

text \<open>With an origin, the repository identifier and every repository node are determined by it.\<close>

definition provenance_ok :: "'v validation_env \<Rightarrow> 'v model_bundle \<Rightarrow> bool" where
  "provenance_ok env b \<longleftrightarrow>
     (\<forall>r. map_of (sn_metadata (bu_snapshot b)) ''source_reference'' = Some r \<and> r \<noteq> [] \<longrightarrow> r = gi_origin (sn_git (bu_snapshot b))) \<and>
     (gi_origin (sn_git (bu_snapshot b)) \<noteq> [] \<longrightarrow>
        ve_canonical_origin env (gi_origin (sn_git (bu_snapshot b))) \<and>
        sn_repository_id (bu_snapshot b) = stable_id (ve_sha12 env) ''repository'' [gi_origin (sn_git (bu_snapshot b))] \<and>
        (\<exists>n \<in> set (bu_nodes b). n_kind n = ''repository'' \<and> n_id n = sn_repository_id (bu_snapshot b)) \<and>
        (\<forall>n \<in> set (bu_nodes b). n_kind n = ''repository'' \<and> n_id n = sn_repository_id (bu_snapshot b) \<longrightarrow>
           n_logical_id n = sn_repository_id (bu_snapshot b) \<and> n_qualified_name n = gi_origin (sn_git (bu_snapshot b)) \<and>
           git_origin env n = Some (gi_origin (sn_git (bu_snapshot b)))))"

definition artifact_ok :: "bool \<Rightarrow> artifact \<Rightarrow> bool" where
  "artifact_ok strict a \<longleftrightarrow> \<not> blank (a_path a) \<and> \<not> blank (a_kind a) \<and> 0 \<le> a_size_bytes a \<and> 0 \<le> a_line_count a \<and>
     (a_sha256 a = [] \<or> valid_hex_digest (a_sha256 a)) \<and>
     (strict \<longrightarrow> is_known_artifact_status (a_status a) \<and> is_known_artifact_kind (a_kind a))"

definition evidence_ok :: "bool \<Rightarrow> (string \<Rightarrow> string \<Rightarrow> bool) \<Rightarrow> 'v evidence \<Rightarrow> bool" where
  "evidence_ok strict at_path e \<longleftrightarrow> finite_probability (evd_confidence e) \<and> \<not> blank (evd_kind e) \<and>
     \<not> blank (evd_method e) \<and> source_ok at_path (evd_source e) \<and> (strict \<longrightarrow> is_known_evidence_kind (evd_kind e))"

definition node_ok ::
  "bool \<Rightarrow> (string \<Rightarrow> string \<Rightarrow> bool) \<Rightarrow> string set \<Rightarrow> string set \<Rightarrow> 'v node \<Rightarrow> bool" where
  "node_ok strict at_path artifacts evidence n \<longleftrightarrow> \<not> blank (n_kind n) \<and> \<not> blank (n_name n) \<and>
     (n_artifact_id n = [] \<or> n_artifact_id n \<in> artifacts) \<and> set (n_evidence_ids n) \<subseteq> evidence \<and>
     (\<forall>s. n_source n = Some s \<longrightarrow> n_artifact_id n = [] \<or> sr_artifact_id s = [] \<or> sr_artifact_id s = n_artifact_id n) \<and>
     source_ok at_path (n_source n) \<and> (strict \<longrightarrow> is_known_node_kind (n_kind n))"

definition edge_ok :: "(string \<Rightarrow> string) \<Rightarrow> bool \<Rightarrow> string set \<Rightarrow> string set \<Rightarrow> 'v edge \<Rightarrow> bool" where
  "edge_ok fold_case strict nodes evidence e \<longleftrightarrow> e_from e \<in> nodes \<and> e_to e \<in> nodes \<and> \<not> blank (e_kind e) \<and>
     is_known_resolution fold_case (e_resolution e) \<and> set (e_evidence_ids e) \<subseteq> evidence \<and>
     finite_probability (e_confidence e) \<and> (strict \<longrightarrow> is_known_edge_kind (e_kind e))"

definition claim_ok :: "string set \<Rightarrow> string set \<Rightarrow> 'v claim \<Rightarrow> bool" where
  "claim_ok nodes evidence c \<longleftrightarrow> cl_subject_id c \<in> nodes \<and> set (cl_evidence_ids c) \<subseteq> evidence \<and> \<not> blank (cl_text c) \<and>
     \<not> blank (cl_generator c) \<and> is_known_claim_certainty (cl_certainty c) \<and> is_known_claim_validation (cl_validation c)"

definition diagnostic_ok :: "(string \<Rightarrow> string \<Rightarrow> bool) \<Rightarrow> 'v diagnostic \<Rightarrow> bool" where
  "diagnostic_ok at_path d \<longleftrightarrow> is_known_severity (dg_severity d) \<and> \<not> blank (dg_code d) \<and> \<not> blank (dg_message d) \<and>
     source_ok at_path (dg_source d)"

definition conflict_ok :: "string set \<Rightarrow> string set \<Rightarrow> 'v conflict \<Rightarrow> bool" where
  "conflict_ok subjects evidence c \<longleftrightarrow> \<not> blank (cf_kind c) \<and> cf_subject_id c \<in> subjects \<and> 2 \<le> length (cf_candidate_ids c) \<and>
     set (cf_candidate_ids c) \<subseteq> subjects \<and> (cf_preferred_id c = [] \<or> cf_preferred_id c \<in> set (cf_candidate_ids c)) \<and>
     set (cf_evidence_ids c) \<subseteq> evidence"

definition section_ok :: "string set \<Rightarrow> string set \<Rightarrow> 'v document_section \<Rightarrow> bool" where
  "section_ok claims evidence s \<longleftrightarrow> 0 \<le> sec_ordinal s \<and> (\<not> blank (sec_markdown s) \<or> \<not> blank (sec_plain_text s)) \<and>
     set (sec_evidence_ids s) \<subseteq> evidence \<and> set (sec_claim_ids s) \<subseteq> claims"

definition document_ok ::
  "string set \<Rightarrow> string set \<Rightarrow> string set \<Rightarrow> string set \<Rightarrow> 'v document \<Rightarrow> bool" where
  "document_ok nodes subjects claims evidence d \<longleftrightarrow> \<not> blank (doc_kind d) \<and> \<not> blank (doc_title d) \<and> \<not> blank (doc_generator d) \<and>
     is_known_document_status (doc_status d) \<and> (doc_content_sha256 d = [] \<or> valid_hex_digest (doc_content_sha256 d)) \<and>
     set (doc_subject_ids d) \<subseteq> subjects \<and> identified blank sec_id (doc_sections d) \<and>
     (\<forall>s \<in> set (doc_sections d). section_ok claims evidence s \<and>
        (sec_parent_id s = [] \<or> sec_parent_id s \<in> sec_id ` set (doc_sections d) \<or> sec_parent_id s \<in> nodes))"

text \<open>The nodes of an execution path are a walk along its edges.\<close>

definition path_ok ::
  "string set \<Rightarrow> (string \<Rightarrow> string \<Rightarrow> string \<Rightarrow> bool) \<Rightarrow> string set \<Rightarrow> 'v execution_path \<Rightarrow> bool" where
  "path_ok nodes between evidence p \<longleftrightarrow> \<not> blank (ep_name p) \<and> ep_node_ids p \<noteq> [] \<and> set (ep_node_ids p) \<subseteq> nodes \<and>
     ep_entry_node_id p = hd (ep_node_ids p) \<and> (ep_exit_node_id p = [] \<or> ep_exit_node_id p = last (ep_node_ids p)) \<and>
     length (ep_node_ids p) = length (ep_edge_ids p) + 1 \<and>
     (\<forall>i < length (ep_edge_ids p). between (ep_edge_ids p ! i) (ep_node_ids p ! i) (ep_node_ids p ! (i + 1))) \<and>
     set (ep_evidence_ids p) \<subseteq> evidence"

section \<open>Valid bundles\<close>

definition artifact_at :: "'v model_bundle \<Rightarrow> string \<Rightarrow> string \<Rightarrow> bool" where
  "artifact_at b k path \<longleftrightarrow> (\<exists>a \<in> set (bu_artifacts b). a_id a = k \<and> a_path a = path)"

definition edge_between :: "'v model_bundle \<Rightarrow> string \<Rightarrow> string \<Rightarrow> string \<Rightarrow> bool" where
  "edge_between b k x y \<longleftrightarrow> (\<exists>e \<in> set (bu_edges b). e_id e = k \<and> e_from e = x \<and> e_to e = y)"

definition all_artifacts :: "'v model_bundle \<Rightarrow> string set" where "all_artifacts b = a_id ` set (bu_artifacts b)"
definition all_nodes :: "'v model_bundle \<Rightarrow> string set" where "all_nodes b = n_id ` set (bu_nodes b)"
definition all_evidence :: "'v model_bundle \<Rightarrow> string set" where "all_evidence b = evd_id ` set (bu_evidence b)"
definition all_claims :: "'v model_bundle \<Rightarrow> string set" where "all_claims b = cl_id ` set (bu_claims b)"
definition all_subjects :: "'v model_bundle \<Rightarrow> string set" where
  "all_subjects b = all_nodes b \<union> all_artifacts b \<union> all_claims b"

lemmas all_ids_defs = all_artifacts_def all_nodes_def all_evidence_def all_claims_def all_subjects_def

definition ids_ok :: "'v model_bundle \<Rightarrow> bool" where
  "ids_ok b \<longleftrightarrow> identified (\<lambda>k. k = []) a_id (bu_artifacts b) \<and> identified (\<lambda>k. k = []) evd_id (bu_evidence b) \<and>
     identified (\<lambda>k. k = []) n_id (bu_nodes b) \<and> identified (\<lambda>k. k = []) e_id (bu_edges b) \<and>
     identified blank cl_id (bu_claims b) \<and> identified blank dg_id (bu_diagnostics b) \<and>
     identified blank cf_id (bu_conflicts b) \<and> identified blank doc_id (bu_documents b) \<and>
     identified blank ep_id (bu_paths b)"

definition records_ok :: "'v validation_env \<Rightarrow> bool \<Rightarrow> 'v model_bundle \<Rightarrow> bool" where
  "records_ok env strict b \<longleftrightarrow>
     (\<forall>a \<in> set (bu_artifacts b). artifact_ok strict a) \<and>
     (\<forall>e \<in> set (bu_evidence b). evidence_ok strict (artifact_at b) e) \<and>
     (\<forall>n \<in> set (bu_nodes b). node_ok strict (artifact_at b) (all_artifacts b) (all_evidence b) n) \<and>
     (\<forall>e \<in> set (bu_edges b). edge_ok (ve_fold_case env) strict (all_nodes b) (all_evidence b) e) \<and>
     (\<forall>c \<in> set (bu_claims b). claim_ok (all_nodes b) (all_evidence b) c) \<and>
     (\<forall>d \<in> set (bu_diagnostics b). diagnostic_ok (artifact_at b) d) \<and>
     (\<forall>c \<in> set (bu_conflicts b). conflict_ok (all_subjects b) (all_evidence b) c) \<and>
     (\<forall>d \<in> set (bu_documents b). document_ok (all_nodes b) (all_subjects b) (all_claims b) (all_evidence b) d) \<and>
     (\<forall>p \<in> set (bu_paths b). path_ok (all_nodes b) (edge_between b) (all_evidence b) p)"

definition valid_bundle :: "'v validation_env \<Rightarrow> bool \<Rightarrow> 'v model_bundle \<Rightarrow> bool" where
  "valid_bundle env strict b \<longleftrightarrow>
     snapshot_ok (bu_snapshot b) \<and> provenance_ok env b \<and> ids_ok b \<and> records_ok env strict b"

end
