(* ===== verification/Canonical.thy ===== *)
theory Canonical
  imports Model
begin

text \<open>
  Properties of the canonical form of a bundle (\<open>canonical.go\<close>): it does not depend on the order in
  which the records were collected, canonicalising twice changes nothing, machine-local fields do not
  reach it, and what \<open>StableID\<close> hashes.
\<close>

section \<open>Trimming and resolutions\<close>

lemma trim_left_fixed: "trim_left (x @ y) = x @ y \<Longrightarrow> trim_left x = x"
proof -
  assume a: "trim_left (x @ y) = x @ y"
  have len: "length (trim_left s) \<le> length s" for s
    by (metis trim_left_suffix le_add2 length_append)
  have no: "trim_left s \<noteq> t" if "length s < length t" for s t
    using len [of s] that by auto
  show ?thesis
    using a by (cases x rule: trim_left.cases; cases y rule: trim_left.cases) (auto simp: no split: if_splits)
qed

lemma trim_left_rev_suffix: "\<exists>p. s = p @ trim_left_rev s"
  by (induction s rule: trim_left_rev.induct) (auto, (metis append_Cons)+)

lemma trim_right_prefix: "\<exists>q. s = trim_right s @ q"
proof -
  obtain p where "rev s = p @ trim_left_rev (rev s)" using trim_left_rev_suffix by blast
  then have "s = rev (trim_left_rev (rev s)) @ rev p" by (metis rev_append rev_rev_ident)
  then show ?thesis by (auto simp: trim_right_def)
qed

lemma trim_space_idem [simp]: "trim_space (trim_space s) = trim_space s"
proof -
  obtain q where "trim_left s = trim_right (trim_left s) @ q" using trim_right_prefix by blast
  then have "trim_left (trim_right (trim_left s)) = trim_right (trim_left s)"
    by (metis trim_left_fixed trim_left_idem)
  then show ?thesis by (simp add: trim_space_def trim_right_def)
qed

lemma set_trim_space: "set (trim_space s) \<subseteq> set s"
proof -
  obtain q where "trim_left s = trim_space s @ q" using trim_right_prefix by (auto simp: trim_space_def)
  moreover obtain p where "s = p @ trim_left s" using trim_left_suffix by blast
  ultimately show ?thesis by (metis Un_iff set_append subsetI)
qed

text \<open>
  What the normalisation of resolutions relies on of \<open>strings.ToLower\<close>: lower-casing a trimmed
  lower-case string changes nothing.
\<close>

definition lower_stable :: "(string \<Rightarrow> string) \<Rightarrow> bool" where
  "lower_stable fold_case \<longleftrightarrow>
     (\<forall>s. to_lower fold_case (trim_space (to_lower fold_case s)) = trim_space (to_lower fold_case s))"

lemma lower_stable_ascii: "lower_stable (map ascii_lower)"
proof -
  have l: "to_lower (map ascii_lower) s = map ascii_lower s" for s by (simp add: to_lower_def)
  have "map ascii_lower (trim_space (map ascii_lower s)) = trim_space (map ascii_lower s)" for s
  proof (rule map_idI)
    fix c assume "c \<in> set (trim_space (map ascii_lower s))"
    then obtain d where "c = ascii_lower d" using set_trim_space by fastforce
    then show "ascii_lower c = c" by simp
  qed
  then show ?thesis by (simp add: lower_stable_def l)
qed

lemma alias_target:
  "map_of resolution_aliases v = Some a \<Longrightarrow>
     normalize_resolution fold_case a = a \<and> map_of resolution_aliases a = None"
proof -
  assume "map_of resolution_aliases v = Some a"
  then have "a \<in> {''compiler_resolved'', ''runtime_observed'', ''syntax_inferred''}"
    by (auto simp: resolution_aliases_def split: if_splits)
  moreover have "normalize_resolution fold_case ''compiler_resolved'' = ''compiler_resolved''"
      "normalize_resolution fold_case ''runtime_observed'' = ''runtime_observed''"
      "normalize_resolution fold_case ''syntax_inferred'' = ''syntax_inferred''"
    by code_simp+
  ultimately show ?thesis by (auto simp: resolution_aliases_def)
qed

lemma normalize_resolution_idem:
  assumes "lower_stable fold_case"
  shows "normalize_resolution fold_case (normalize_resolution fold_case v) = normalize_resolution fold_case v"
proof (cases "map_of resolution_aliases (trim_space (to_lower fold_case v))")
  case None
  then have n: "normalize_resolution fold_case v = trim_space (to_lower fold_case v)"
    by (simp add: normalize_resolution_def)
  have "to_lower fold_case (trim_space (to_lower fold_case v)) = trim_space (to_lower fold_case v)"
    using assms by (simp add: lower_stable_def)
  then have "normalize_resolution fold_case (trim_space (to_lower fold_case v)) = trim_space (to_lower fold_case v)"
    using None by (simp add: normalize_resolution_def)
  then show ?thesis using n by simp
next
  case (Some a)
  then have "normalize_resolution fold_case v = a" by (simp add: normalize_resolution_def)
  then show ?thesis using alias_target [OF Some] by simp
qed

section \<open>Sorting\<close>

lemma sort_key_map_same:
  assumes "\<And>x. k (f x) = k x"
  shows "sort_key k (map f (sort_key k xs)) = map f (sort_key k xs)"
proof -
  have "sorted (map k (map f (sort_key k xs)))" using assms by (simp add: comp_def)
  then show ?thesis by (metis sort_key_id_if_sorted)
qed

lemma sort_key_idem [simp]: "sort_key k (sort_key k xs) = sort_key k xs"
  by (simp add: sort_key_id_if_sorted)

lemma sort_records_idem [simp]:
  "sort_node (sort_node n) = sort_node n" "sort_conflict (sort_conflict c) = sort_conflict c"
  "sort_claim (sort_claim l) = sort_claim l" "sort_document (sort_document d) = sort_document d"
  by (simp_all add: sort_node_def sort_conflict_def sort_claim_def sort_document_def sorted_sort_id)

lemma sort_edge_idem: "lower_stable fold_case \<Longrightarrow> sort_edge fold_case (sort_edge fold_case e) = sort_edge fold_case e"
  by (simp add: sort_edge_def normalize_resolution_idem sorted_sort_id)

lemma sort_record_ids [simp]:
  "n_id (sort_node n) = n_id n" "e_id (sort_edge fold_case e) = e_id e" "cf_id (sort_conflict c) = cf_id c"
  "cl_id (sort_claim l) = cl_id l" "doc_id (sort_document d) = doc_id d"
  by (simp_all add: sort_node_def sort_edge_def sort_conflict_def sort_claim_def sort_document_def)

lemma strip_operational_idem [simp]: "strip_operational (strip_operational s) = strip_operational s"
  by (simp add: strip_operational_def delete_idem delete_twist)

lemma sort_bundle_idem:
  fixes b :: "'v model_bundle"
  assumes "lower_stable fold_case"
  shows "sort_bundle fold_case (sort_bundle fold_case b) = sort_bundle fold_case b"
proof -
  have "(\<lambda>x :: 'v edge. sort_edge fold_case (sort_edge fold_case x)) = sort_edge fold_case"
    using sort_edge_idem [OF assms] by blast
  then show ?thesis by (simp add: sort_bundle_def sort_key_map_same comp_def)
qed

text \<open>
  Canonicalising is idempotent: the canonical form of a canonical bundle is the bundle itself.
\<close>

theorem canonical_bundle_idem:
  fixes b :: "'v model_bundle"
  assumes "lower_stable fold_case"
  shows "canonical_bundle fold_case (canonical_bundle fold_case b) = canonical_bundle fold_case b"
  using sort_bundle_idem [OF assms, of "b\<lparr>bu_snapshot := strip_operational (bu_snapshot b)\<rparr>"]
  by (simp add: canonical_bundle_def sort_bundle_def)

text \<open>Two bundles with the same records, whatever their order and the machine-local fields.\<close>

definition same_records :: "'v model_bundle \<Rightarrow> 'v model_bundle \<Rightarrow> bool" where
  "same_records b c \<longleftrightarrow> strip_operational (bu_snapshot b) = strip_operational (bu_snapshot c) \<and>
     mset (bu_artifacts b) = mset (bu_artifacts c) \<and> mset (bu_nodes b) = mset (bu_nodes c) \<and>
     mset (bu_edges b) = mset (bu_edges c) \<and> mset (bu_evidence b) = mset (bu_evidence c) \<and>
     mset (bu_diagnostics b) = mset (bu_diagnostics c) \<and> mset (bu_conflicts b) = mset (bu_conflicts c) \<and>
     mset (bu_documents b) = mset (bu_documents c) \<and> mset (bu_claims b) = mset (bu_claims c) \<and>
     mset (bu_paths b) = mset (bu_paths c)"

definition distinct_ids :: "'v model_bundle \<Rightarrow> bool" where
  "distinct_ids b \<longleftrightarrow> distinct (map a_id (bu_artifacts b)) \<and> distinct (map n_id (bu_nodes b)) \<and>
     distinct (map e_id (bu_edges b)) \<and> distinct (map evd_id (bu_evidence b)) \<and>
     distinct (map dg_id (bu_diagnostics b)) \<and> distinct (map cf_id (bu_conflicts b)) \<and>
     distinct (map doc_id (bu_documents b)) \<and> distinct (map cl_id (bu_claims b)) \<and>
     distinct (map ep_id (bu_paths b))"

lemma sort_key_distinct_ids:
  "mset xs = mset ys \<Longrightarrow> distinct (map k xs) \<Longrightarrow> sort_key k xs = sort_key k ys"
  by (rule sort_key_unique_keys) (auto simp: distinct_map)

lemma sort_artifacts_distinct:
  assumes "mset xs = mset ys" "distinct (map a_id xs)"
  shows "sort_key (\<lambda>a. (a_path a, a_id a)) xs = sort_key (\<lambda>a. (a_path a, a_id a)) ys"
  using assms by (intro sort_key_distinct_ids) (auto simp: distinct_map inj_on_def)


section \<open>Stable identifiers\<close>

lemma append_nul_unique:
  "byte 0 \<notin> set a \<Longrightarrow> byte 0 \<notin> set b \<Longrightarrow> a @ byte 0 # x = b @ byte 0 # y \<longleftrightarrow> a = b \<and> x = y"
proof (induction a arbitrary: b)
  case Nil
  then show ?case by (cases b) auto
next
  case (Cons c a)
  then show ?case by (cases b) auto
qed

lemma set_join: "set (join sep ps) = (\<Union>p \<in> set ps. set p) \<union> (if length ps \<le> 1 then {} else set sep)"
  by (induction sep ps rule: join.induct) auto

lemma join_nul_inj:
  "join nul ps = join nul qs \<Longrightarrow> ps \<noteq> [] \<Longrightarrow> qs \<noteq> [] \<Longrightarrow> \<forall>p \<in> set ps \<union> set qs. byte 0 \<notin> set p \<Longrightarrow> ps = qs"
proof (induction ps arbitrary: qs)
  case (Cons p ps)
  obtain q qs' where qs: "qs = q # qs'" using Cons.prems(3) by (cases qs) auto
  have join_Cons: "join nul (x # xs) = x @ byte 0 # join nul xs" if "xs \<noteq> []" for x xs
    using that by (cases xs) (auto simp: nul_def)
  show ?case
  proof (cases "ps = []")
    case True
    show ?thesis
    proof (cases "qs' = []")
      case False
      then have "byte 0 \<in> set p" using Cons.prems(1) True by (simp add: qs join_Cons)
      then show ?thesis using Cons.prems(4) by auto
    qed (use True Cons.prems qs in auto)
  next
    case ps: False
    show ?thesis
    proof (cases "qs' = []")
      case True
      then have "byte 0 \<in> set q" using Cons.prems(1) ps by (simp add: qs join_Cons) (metis in_set_conv_decomp)
      then show ?thesis using Cons.prems(4) qs by auto
    next
      case False
      then have "p = q" "join nul ps = join nul qs'"
        using append_nul_unique [of p q] Cons.prems ps by (auto simp: qs join_Cons)
      then show ?thesis using Cons.IH [of qs'] Cons.prems ps False by (auto simp: qs)
    qed
  qed
qed simp

text \<open>
  \<open>StableID\<close> hashes different texts for different names and non-empty part lists, as long as none of
  them contains a zero byte.
\<close>

theorem stable_key_inj:
  assumes "stable_key ns ps = stable_key ns' qs" and "ps \<noteq> []" "qs \<noteq> []"
    and "\<forall>p \<in> set (ns # ns' # ps @ qs). byte 0 \<notin> set p"
  shows "ns = ns' \<and> ps = qs"
proof -
  have "ns @ byte 0 # join nul ps = ns' @ byte 0 # join nul qs"
    using assms(1) by (simp add: stable_key_def nul_def)
  then have "ns = ns'" "join nul ps = join nul qs"
    using append_nul_unique [of ns ns'] assms(4) by auto
  then show ?thesis using join_nul_inj [of ps qs] assms by auto
qed

theorem stable_key_inj_witness:
  "stable_key ''edge'' [''a'', ''b''] \<noteq> stable_key ''edge'' [''ab'']"
proof
  assume "stable_key ''edge'' [''a'', ''b''] = stable_key ''edge'' [''ab'']"
  then have "''edge'' = ''edge'' \<and> [''a'', ''b''] = [''ab'']"
    by (rule stable_key_inj) (auto simp: byte_def char_of_def)
  then show False by simp
qed

text \<open>
  With a zero byte inside a part the boundary is lost: two different part lists get the same identifier,
  contrary to the comment of \<open>StableID\<close>.
\<close>

theorem stable_id_collision:
  "stable_id sha12 ''edge'' [''a'' @ nul @ ''b''] = stable_id sha12 ''edge'' [''a'', ''b''] \<and>
   [''a'' @ nul @ ''b''] \<noteq> [''a'', ''b'']"
  by (simp add: stable_id_def stable_key_def)

end
