(* ===== verification/Graph.thy ===== *)
theory Graph
  imports Model
begin

text \<open>
  The index and the bounded searches of \<open>internal/graph/index.go\<close>. A loop of the source is a recursive
  function over its work list; the two breadth-first loops terminate because every iteration takes one
  node off the queue and a node enters the queue only when it is visited for the first time, which the
  node limit allows at most \<open>MaxNodes\<close> times. The maps of a search keep the insertion order; the
  results are sorted as in the source.
\<close>

section \<open>The index\<close>

record 'v graph_index =
  ix_nodes :: "(string \<times> 'v node) list"
  ix_edges :: "(string \<times> 'v edge) list"
  ix_outgoing :: "(string \<times> 'v edge list) list"
  ix_incoming :: "(string \<times> 'v edge list) list"

definition edge_sort_key :: "'v edge \<Rightarrow> string" where
  "edge_sort_key e = e_from e @ nul @ e_to e @ nul @ e_kind e @ nul @ e_id e"

definition sort_edges :: "'v edge list \<Rightarrow> 'v edge list" where
  "sort_edges es = sort_key edge_sort_key es"

definition adjacent :: "(string \<times> 'v edge list) list \<Rightarrow> string \<Rightarrow> 'v edge list" where
  "adjacent m k = (case map_of m k of None \<Rightarrow> [] | Some es \<Rightarrow> es)"

definition group_edges :: "('v edge \<Rightarrow> string) \<Rightarrow> 'v edge list \<Rightarrow> (string \<times> 'v edge list) list" where
  "group_edges endpoint es =
     map (\<lambda>(k, es). (k, sort_edges es))
       (fold (\<lambda>e m. AList.update (endpoint e) (adjacent m (endpoint e) @ [e]) m) es [])"

definition build :: "'v node list \<Rightarrow> 'v edge list \<Rightarrow> 'v graph_index" where
  "build nodes edges = \<lparr>
     ix_nodes = fold (\<lambda>n. AList.update (n_id n) n) nodes [],
     ix_edges = fold (\<lambda>e. AList.update (e_id e) e) edges [],
     ix_outgoing = group_edges e_from edges,
     ix_incoming = group_edges e_to edges\<rparr>"

definition index_node :: "'v graph_index \<Rightarrow> string \<Rightarrow> 'v node" where
  "index_node ix k = (case map_of (ix_nodes ix) k of None \<Rightarrow> zero_node | Some n \<Rightarrow> n)"

definition index_edge :: "'v graph_index \<Rightarrow> string \<Rightarrow> 'v edge" where
  "index_edge ix k = (case map_of (ix_edges ix) k of None \<Rightarrow> zero_edge | Some e \<Rightarrow> e)"

section \<open>Admissible steps\<close>

datatype direction = DirectionDefault | DirectionOutgoing | DirectionIncoming | DirectionBoth | DirectionOther string

record traverse_options =
  to_direction :: direction
  to_edge_kinds :: "string list"
  to_resolutions :: "string list"
  to_max_depth :: int
  to_max_nodes :: int
  to_include_unresolved :: bool
  to_suppressed_node_ids :: "string list"
  to_suppressed_edge_ids :: "string list"

definition normalize_options :: "traverse_options \<Rightarrow> traverse_options" where
  "normalize_options o1 = o1\<lparr>
     to_direction := (if to_direction o1 = DirectionDefault then DirectionBoth else to_direction o1),
     to_max_depth := (let d = if to_max_depth o1 \<le> 0 then 4 else to_max_depth o1 in if 64 < d then 64 else d),
     to_max_nodes := (let n = if to_max_nodes o1 \<le> 0 then 5000 else to_max_nodes o1 in if 100000 < n then 100000 else n)\<rparr>"

definition accept_edge :: "(string \<Rightarrow> string) \<Rightarrow> 'v edge \<Rightarrow> traverse_options \<Rightarrow> bool" where
  "accept_edge fold_case edge opts \<longleftrightarrow>
     e_id edge \<notin> set (to_suppressed_edge_ids opts) \<and>
     e_from edge \<notin> set (to_suppressed_node_ids opts) \<and>
     e_to edge \<notin> set (to_suppressed_node_ids opts) \<and>
     (to_include_unresolved opts \<or> normalize_resolution fold_case (e_resolution edge) \<noteq> ''unresolved'') \<and>
     (to_edge_kinds opts = [] \<or> e_kind edge \<in> set (to_edge_kinds opts)) \<and>
     (to_resolutions opts = [] \<or> normalize_resolution fold_case (e_resolution edge) \<in> set (to_resolutions opts))"

record 'v graph_step =
  step_next :: string
  step_edge :: "'v edge"

definition steps :: "(string \<Rightarrow> string) \<Rightarrow> 'v graph_index \<Rightarrow> string \<Rightarrow> traverse_options \<Rightarrow> 'v graph_step list" where
  "steps fold_case ix node_id opts = sort_key (\<lambda>s. (step_next s, e_id (step_edge s)))
     ((if to_direction opts = DirectionOutgoing \<or> to_direction opts = DirectionBoth
       then map (\<lambda>e. \<lparr>step_next = e_to e, step_edge = e\<rparr>)
              (filter (\<lambda>e. accept_edge fold_case e opts) (adjacent (ix_outgoing ix) node_id)) else []) @
      (if to_direction opts = DirectionIncoming \<or> to_direction opts = DirectionBoth
       then map (\<lambda>e. \<lparr>step_next = e_from e, step_edge = e\<rparr>)
              (filter (\<lambda>e. accept_edge fold_case e opts) (adjacent (ix_incoming ix) node_id)) else []))"

section \<open>Neighborhoods\<close>

record 'v nb_state =
  nb_visited :: "(string \<times> nat) list"
  nb_queue :: "string list"
  nb_edges :: "(string \<times> 'v edge) list"
  nb_truncated :: bool

definition depth_of :: "(string \<times> nat) list \<Rightarrow> string \<Rightarrow> nat" where
  "depth_of m k = (case map_of m k of None \<Rightarrow> 0 | Some d \<Rightarrow> d)"

text \<open>The loop over the steps of one node; \<open>depth\<close> is the depth of that node.\<close>

fun inspect :: "nat \<Rightarrow> nat \<Rightarrow> 'v graph_step list \<Rightarrow> 'v nb_state \<Rightarrow> 'v nb_state" where
  "inspect max_nodes depth [] st = st"
| "inspect max_nodes depth (s # ss) st =
     (let st1 = st\<lparr>nb_edges := AList.update (e_id (step_edge s)) (step_edge s) (nb_edges st)\<rparr> in
      if step_next s \<in> set (keys (nb_visited st1)) then inspect max_nodes depth ss st1
      else if max_nodes \<le> length (nb_visited st1)
      then inspect max_nodes depth ss (st1\<lparr>nb_truncated := True\<rparr>)
      else inspect max_nodes depth ss
             (st1\<lparr>nb_visited := AList.update (step_next s) (depth + 1) (nb_visited st1),
                  nb_queue := nb_queue st1 @ [step_next s]\<rparr>))"

lemma length_update_new: "k \<notin> set (keys m) \<Longrightarrow> length (AList.update k v m) = Suc (length m)"
  by (induction m) (auto simp: keys_def)

lemma inspect_measure:
  "length (nb_queue (inspect n d ss st)) + (n - length (nb_visited (inspect n d ss st))) =
     length (nb_queue st) + (n - length (nb_visited st))"
  by (induction n d ss st rule: inspect.induct) (auto simp: Let_def length_update_new)

function neighborhood_loop ::
  "(string \<Rightarrow> 'v graph_step list) \<Rightarrow> nat \<Rightarrow> nat \<Rightarrow> 'v nb_state \<Rightarrow> 'v nb_state" where
  "neighborhood_loop step_fn max_depth max_nodes st =
     (case nb_queue st of
        [] \<Rightarrow> st
      | current # queue \<Rightarrow>
          let st1 = st\<lparr>nb_queue := queue\<rparr>; depth = depth_of (nb_visited st) current in
          if max_depth \<le> depth then neighborhood_loop step_fn max_depth max_nodes st1
          else neighborhood_loop step_fn max_depth max_nodes (inspect max_nodes depth (step_fn current) st1))"
  by pat_completeness auto
termination
  by (relation "measure (\<lambda>(_, _, n, st). length (nb_queue st) + (n - length (nb_visited st)))")
     (auto simp: inspect_measure)

declare neighborhood_loop.simps [simp del]

record 'v neighborhood =
  nh_seed_id :: string
  nh_nodes :: "'v node list"
  nh_edges :: "'v edge list"
  nh_depth_by_id :: "(string \<times> nat) list"
  nh_truncated :: bool

text \<open>The second argument of \<open>ErrInvalidCounterfactual\<close> is the identifier that the message quotes, if any.\<close>

datatype graph_error = ErrNodeNotFound | ErrInvalidCounterfactual string string | OutOfFuel

definition materialize_neighborhood ::
  "'v graph_index \<Rightarrow> string \<Rightarrow> (string \<times> nat) list \<Rightarrow> (string \<times> 'v edge) list \<Rightarrow> bool \<Rightarrow> 'v neighborhood" where
  "materialize_neighborhood ix seed visited edge_map truncated = \<lparr>
     nh_seed_id = seed,
     nh_nodes = map (index_node ix) (sort_key (\<lambda>k. (depth_of visited k, k)) (keys visited)),
     nh_edges = sort_edges (filter (\<lambda>e. e_from e \<in> set (keys visited) \<and> e_to e \<in> set (keys visited))
       (map snd edge_map)),
     nh_depth_by_id = visited,
     nh_truncated = truncated\<rparr>"

definition start_neighborhood :: "string \<Rightarrow> 'v nb_state" where
  "start_neighborhood seed = \<lparr>nb_visited = [(seed, 0)], nb_queue = [seed], nb_edges = [], nb_truncated = False\<rparr>"

definition neighborhood_search ::
  "(string \<Rightarrow> string) \<Rightarrow> 'v graph_index \<Rightarrow> string \<Rightarrow> traverse_options \<Rightarrow> 'v nb_state" where
  "neighborhood_search fold_case ix seed opts =
     neighborhood_loop (\<lambda>k. steps fold_case ix k opts) (nat (to_max_depth opts)) (nat (to_max_nodes opts)) (start_neighborhood seed)"

definition neighborhood ::
  "(string \<Rightarrow> string) \<Rightarrow> 'v graph_index \<Rightarrow> string \<Rightarrow> traverse_options \<Rightarrow> graph_error + 'v neighborhood" where
  "neighborhood fold_case ix seed opts0 =
     (case map_of (ix_nodes ix) seed of
        None \<Rightarrow> Inl ErrNodeNotFound
      | Some _ \<Rightarrow>
          let st = neighborhood_search fold_case ix seed (normalize_options opts0)
          in Inr (materialize_neighborhood ix seed (nb_visited st) (nb_edges st) (nb_truncated st)))"

section \<open>Impact\<close>

record 'v impact_result =
  im_seed_id :: string
  im_nodes :: "'v node list"
  im_edges :: "'v edge list"
  im_depth_by_id :: "(string \<times> nat) list"
  im_truncated :: bool

definition impact ::
  "(string \<Rightarrow> string) \<Rightarrow> 'v graph_index \<Rightarrow> string \<Rightarrow> traverse_options \<Rightarrow> graph_error + 'v impact_result" where
  "impact fold_case ix seed opts =
     res_bind (neighborhood fold_case ix seed
       (if to_direction opts = DirectionDefault then opts\<lparr>to_direction := DirectionIncoming\<rparr> else opts)) (\<lambda>nh.
     Inr \<lparr>im_seed_id = seed, im_nodes = filter (\<lambda>n. n_id n \<noteq> seed) (nh_nodes nh), im_edges = nh_edges nh,
          im_depth_by_id = nh_depth_by_id nh, im_truncated = nh_truncated nh\<rparr>)"

section \<open>Shortest paths\<close>

record ps_state =
  ps_previous :: "(string \<times> string \<times> string) list"
  ps_depth :: "(string \<times> nat) list"
  ps_queue :: "string list"
  ps_found :: bool
  ps_depth_limit :: bool
  ps_node_limit :: bool

text \<open>The loop over the steps of \<open>current\<close>, left early when the destination is found.\<close>

fun relax :: "string \<Rightarrow> nat \<Rightarrow> string \<Rightarrow> 'v graph_step list \<Rightarrow> ps_state \<Rightarrow> ps_state" where
  "relax dest max_nodes current [] st = st"
| "relax dest max_nodes current (s # ss) st =
     (if step_next s \<in> set (keys (ps_depth st)) then relax dest max_nodes current ss st
      else if max_nodes \<le> length (ps_depth st)
      then relax dest max_nodes current ss (st\<lparr>ps_node_limit := True\<rparr>)
      else let st1 = st\<lparr>ps_depth := AList.update (step_next s) (depth_of (ps_depth st) current + 1) (ps_depth st),
                        ps_previous := AList.update (step_next s) (current, e_id (step_edge s)) (ps_previous st)\<rparr> in
           if step_next s = dest then st1\<lparr>ps_found := True\<rparr>
           else relax dest max_nodes current ss (st1\<lparr>ps_queue := ps_queue st1 @ [step_next s]\<rparr>))"

lemma relax_measure:
  "length (ps_queue (relax t n c ss st)) + (n - length (ps_depth (relax t n c ss st))) \<le>
     length (ps_queue st) + (n - length (ps_depth st))"
  by (induction t n c ss st rule: relax.induct) (auto simp: Let_def length_update_new)

function path_loop ::
  "(string \<Rightarrow> 'v graph_step list) \<Rightarrow> string \<Rightarrow> nat \<Rightarrow> nat \<Rightarrow> ps_state \<Rightarrow> ps_state" where
  "path_loop step_fn dest max_depth max_nodes st =
     (if ps_found st then st
      else case ps_queue st of
        [] \<Rightarrow> st
      | current # queue \<Rightarrow>
          let st1 = st\<lparr>ps_queue := queue\<rparr> in
          if max_depth \<le> depth_of (ps_depth st) current
          then path_loop step_fn dest max_depth max_nodes
                 (if list_ex (\<lambda>s. step_next s \<notin> set (keys (ps_depth st1))) (step_fn current)
                  then st1\<lparr>ps_depth_limit := True\<rparr> else st1)
          else path_loop step_fn dest max_depth max_nodes (relax dest max_nodes current (step_fn current) st1))"
  by pat_completeness auto
termination
proof (relation "measure (\<lambda>(_, _, _, n, st). length (ps_queue st) + (n - length (ps_depth st)))", goal_cases)
  case (3 step_fn dest max_depth max_nodes st current queue x)
  then show ?case
    using relax_measure [of dest max_nodes current "step_fn current" "st\<lparr>ps_queue := queue\<rparr>"] by simp
qed auto

declare path_loop.simps [simp del]

text \<open>
  The walk from the destination back to the source along \<open>previous\<close>; the lists come out reversed, as in
  the source. The loop of the source has no bound of its own, so the walk has fuel: one step for every
  visited node is enough (theory GraphSearch).
\<close>

fun walk_back ::
  "nat \<Rightarrow> (string \<times> string \<times> string) list \<Rightarrow> string \<Rightarrow> string \<Rightarrow> (string list \<times> string list) option" where
  "walk_back 0 previous source current = None"
| "walk_back (Suc fuel) previous source current =
     (if current = source then Some ([current], [])
      else let (prev_node, prev_edge) = (case map_of previous current of None \<Rightarrow> ([], []) | Some p \<Rightarrow> p) in
           map_option (\<lambda>(ns, es). (current # ns, prev_edge # es))
             (walk_back fuel previous source prev_node))"

record 'v path_result =
  pa_found :: bool
  pa_from_id :: string
  pa_to_id :: string
  pa_node_ids :: "string list"
  pa_edge_ids :: "string list"
  pa_nodes :: "'v node list"
  pa_edges :: "'v edge list"
  pa_depth :: nat
  pa_visited :: nat
  pa_truncated :: bool
  pa_depth_limit_reached :: bool
  pa_node_limit_reached :: bool
  pa_search_exhausted :: bool

definition start_path :: "string \<Rightarrow> ps_state" where
  "start_path source = \<lparr>ps_previous = [], ps_depth = [(source, 0)], ps_queue = [source], ps_found = False,
     ps_depth_limit = False, ps_node_limit = False\<rparr>"

definition path_search ::
  "(string \<Rightarrow> string) \<Rightarrow> 'v graph_index \<Rightarrow> string \<Rightarrow> string \<Rightarrow> traverse_options \<Rightarrow> ps_state" where
  "path_search fold_case ix source dest opts =
     path_loop (\<lambda>k. steps fold_case ix k opts) dest (nat (to_max_depth opts)) (nat (to_max_nodes opts)) (start_path source)"

definition empty_path :: "string \<Rightarrow> string \<Rightarrow> 'v path_result" where
  "empty_path source dest = \<lparr>pa_found = False, pa_from_id = source, pa_to_id = dest, pa_node_ids = [],
     pa_edge_ids = [], pa_nodes = [], pa_edges = [], pa_depth = 0, pa_visited = 0, pa_truncated = False,
     pa_depth_limit_reached = False, pa_node_limit_reached = False, pa_search_exhausted = False\<rparr>"

definition search_result :: "string \<Rightarrow> string \<Rightarrow> ps_state \<Rightarrow> 'v path_result" where
  "search_result source dest st =
     (let truncated = ps_depth_limit st \<or> ps_node_limit st in
      (empty_path source dest)\<lparr>pa_found := ps_found st, pa_visited := length (ps_depth st),
        pa_truncated := truncated, pa_depth_limit_reached := ps_depth_limit st,
        pa_node_limit_reached := ps_node_limit st,
        pa_search_exhausted := \<not> ps_found st \<and> \<not> truncated\<rparr>)"

definition shortest_path ::
  "(string \<Rightarrow> string) \<Rightarrow> 'v graph_index \<Rightarrow> string \<Rightarrow> string \<Rightarrow> traverse_options \<Rightarrow> graph_error + 'v path_result" where
  "shortest_path fold_case ix source dest opts0 =
     (if map_of (ix_nodes ix) source = None \<or> map_of (ix_nodes ix) dest = None then Inl ErrNodeNotFound
      else if source = dest
      then Inr ((empty_path source dest)\<lparr>pa_found := True, pa_node_ids := [source],
                  pa_nodes := [index_node ix source], pa_visited := 1\<rparr>)
      else let st = path_search fold_case ix source dest (normalize_options opts0);
               result = search_result source dest st in
        if \<not> ps_found st then Inr result
        else case walk_back (Suc (length (ps_depth st))) (ps_previous st) source dest of
               None \<Rightarrow> Inl OutOfFuel
             | Some (ns, es) \<Rightarrow> Inr (result\<lparr>pa_node_ids := rev ns, pa_edge_ids := rev es, pa_depth := length es,
                 pa_nodes := map (index_node ix) (rev ns), pa_edges := map (index_edge ix) (rev es)\<rparr>))"

end
