(* ===== verification/GraphSearch.thy ===== *)
theory GraphSearch
  imports Graph
begin

text \<open>
  Correctness of the breadth-first searches of \<open>internal/graph\<close>. The locale \<open>bounded_search\<close> holds the
  invariant of a breadth-first search with a depth and a node limit; both loops of the source are shown to
  keep it, and the locale is interpreted on the admissible steps of an index under normalised options.
\<close>

section \<open>The invariant of a bounded breadth-first search\<close>

locale bounded_search =
  fixes succ :: "'n \<Rightarrow> 'n set" and source :: 'n and max_depth max_nodes :: nat
  assumes max_depth_pos: "0 < max_depth" and max_nodes_pos: "0 < max_nodes"
begin

definition edge_rel :: "('n \<times> 'n) set" where
  "edge_rel = {(x, y). y \<in> succ x}"

text \<open>
  \<open>D\<close> is the depth map, \<open>Q\<close> the queue, \<open>A\<close> the node being expanded, and \<open>capped\<close> tells that the node limit has
  suppressed a node.
\<close>

definition inv :: "('n \<rightharpoonup> nat) \<Rightarrow> 'n list \<Rightarrow> 'n set \<Rightarrow> bool \<Rightarrow> bool" where
  "inv D Q A capped \<longleftrightarrow>
     D source = Some 0 \<and> distinct Q \<and> set Q \<union> A \<subseteq> dom D \<and> A \<inter> set Q = {} \<and>
     sorted (map (\<lambda>x. the (D x)) Q) \<and>
     (\<forall>x \<in> dom D - set Q. \<forall>q \<in> set Q \<union> A. the (D x) \<le> the (D q)) \<and>
     (\<forall>q \<in> set Q. \<forall>x \<in> set Q \<union> A. the (D q) \<le> the (D x) + 1) \<and>
     (\<forall>x d. D x = Some d \<longrightarrow> (source, x) \<in> edge_rel ^^ d \<and> (\<forall>n. (source, x) \<in> edge_rel ^^ n \<longrightarrow> d \<le> n) \<and> d \<le> max_depth) \<and>
     (\<not> capped \<longrightarrow> (\<forall>x \<in> dom D - set Q - A. the (D x) < max_depth \<longrightarrow> succ x \<subseteq> dom D))"

lemma inv_init: "inv [source \<mapsto> 0] [source] {} capped"
  by (simp add: inv_def)

lemma inv_pop: "inv D (c # Q) {} capped \<Longrightarrow> inv D Q {c} capped"
  unfolding inv_def by (auto simp: Ball_def)

lemma inv_cut: "inv D Q A capped \<Longrightarrow> inv D Q A True"
  unfolding inv_def by simp

lemma inv_finish:
  "inv D Q {c} capped \<Longrightarrow> capped \<or> max_depth \<le> the (D c) \<or> succ c \<subseteq> dom D \<Longrightarrow> inv D Q {} capped"
  unfolding inv_def by (auto simp: Ball_def) 

lemma invD:
  assumes "inv D Q A capped"
  shows "D source = Some 0" and "distinct Q" and "set Q \<subseteq> dom D" and "A \<subseteq> dom D" and "A \<inter> set Q = {}"
    and "sorted (map (\<lambda>x. the (D x)) Q)"
    and "x \<in> dom D \<Longrightarrow> x \<notin> set Q \<Longrightarrow> q \<in> set Q \<union> A \<Longrightarrow> the (D x) \<le> the (D q)"
    and "q \<in> set Q \<Longrightarrow> x \<in> set Q \<union> A \<Longrightarrow> the (D q) \<le> the (D x) + 1"
    and "\<not> capped \<Longrightarrow> x \<in> dom D \<Longrightarrow> x \<notin> set Q \<Longrightarrow> x \<notin> A \<Longrightarrow> the (D x) < max_depth \<Longrightarrow> succ x \<subseteq> dom D"
  using assms unfolding inv_def by simp_all

lemma inv_depth:
  "inv D Q A capped \<Longrightarrow> D x = Some d \<Longrightarrow> (source, x) \<in> edge_rel ^^ d"
  "inv D Q A capped \<Longrightarrow> D x = Some d \<Longrightarrow> (source, x) \<in> edge_rel ^^ n \<Longrightarrow> d \<le> n"
  "inv D Q A capped \<Longrightarrow> D x = Some d \<Longrightarrow> d \<le> max_depth"
  unfolding inv_def by auto

lemma inv_frontier:
  assumes inv: "inv D Q A False" and deep: "\<forall>x \<in> dom D - set Q - A. the (D x) < max_depth \<or> succ x \<subseteq> dom D"
  shows "(source, z) \<in> edge_rel ^^ n \<Longrightarrow> z \<in> dom D \<or> (\<exists>q \<in> set Q \<union> A. the (D q) + 1 \<le> n)"
proof (induction n arbitrary: z)
  case 0
  then show ?case using invD(1) [OF inv] by auto
next
  case (Suc n)
  then obtain w where w: "(source, w) \<in> edge_rel ^^ n" "z \<in> succ w" by (auto simp: edge_rel_def)
  show ?case
  proof (cases "w \<in> dom D")
    case True
    then obtain d where d: "D w = Some d" by blast
    have dn: "d \<le> n" using inv_depth(2) [OF inv d w(1)] .
    show ?thesis
    proof (cases "w \<in> set Q \<union> A")
      case True
      then show ?thesis using d dn by force
    next
      case False
      then have "succ w \<subseteq> dom D"
        using inv deep \<open>w \<in> dom D\<close> unfolding inv_def by blast
      then show ?thesis using w(2) by blast
    qed
  next
    case False
    then obtain q where "q \<in> set Q \<union> A" "the (D q) + 1 \<le> n" using Suc.IH [OF w(1)] by blast
    then show ?thesis by (intro disjI2 bexI [of _ q]) auto
  qed
qed

lemma inv_insert:
  assumes inv: "inv D Q {c} False" and c: "D c = Some d" "d < max_depth" and y: "y \<in> succ c" "y \<notin> dom D"
  shows "inv (D(y \<mapsto> d + 1)) (Q @ [y]) {c} False"
proof -
  note i = invD [OF inv]
  have dQ: "c \<in> dom D" "c \<notin> set Q" using i(4,5) by auto
  have yQ: "y \<notin> set Q" "y \<noteq> c" "y \<noteq> source" using i(1,3) dQ y(2) by auto
  have Qd: "the (D q) \<le> d + 1" if "q \<in> set Q" for q using i(8) [of q c] that c by simp
  have cQ: "d \<le> the (D q)" if "q \<in> set Q" for q using i(7) [of c q] that c dQ by simp
  have pc: "the (D x) \<le> d" if "x \<in> dom D" "x \<notin> set Q" for x using i(7) [of x c] that c by simp
  have shallow: "\<forall>x \<in> dom D - set Q - {c}. the (D x) < max_depth \<or> succ x \<subseteq> dom D"
    using pc c(2) by force
  have lower: "d + 1 \<le> n" if walk: "(source, y) \<in> edge_rel ^^ n" for n
  proof -
    obtain q where q: "q \<in> set Q \<union> {c}" "the (D q) + 1 \<le> n"
      using inv_frontier [OF inv shallow walk] y(2) by blast
    have "d \<le> the (D q)" using q(1) cQ c(1) by auto
    then show ?thesis using q(2) by simp
  qed
  have path: "(source, y) \<in> edge_rel ^^ (d + 1)"
    using inv_depth(1) [OF inv c(1)] y(1) by (auto simp: edge_rel_def)
  let ?D = "D(y \<mapsto> d + 1)"
  have same: "?D x = D x" if "x \<in> dom D" for x using that y(2) by auto
  have dom': "dom ?D - set (Q @ [y]) = dom D - set Q" using y(2) by auto
  have sQ: "map (\<lambda>x. the (?D x)) Q = map (\<lambda>x. the (D x)) Q" using yQ(1) by auto
  have 1: "sorted (map (\<lambda>x. the (?D x)) (Q @ [y]))"
    unfolding map_append sQ using i(6) Qd by (auto simp: sorted_append)
  have 2: "\<forall>x \<in> dom ?D - set (Q @ [y]). \<forall>q \<in> set (Q @ [y]) \<union> {c}. the (?D x) \<le> the (?D q)"
  proof (intro ballI)
    fix x q assume x: "x \<in> dom ?D - set (Q @ [y])" and q: "q \<in> set (Q @ [y]) \<union> {c}"
    then have x': "x \<in> dom D" "x \<notin> set Q" unfolding dom' by auto
    show "the (?D x) \<le> the (?D q)"
      using q pc [OF x'] i(7) [OF x', of q] same [OF x'(1)] yQ by auto
  qed
  have 3: "\<forall>q \<in> set (Q @ [y]). \<forall>x \<in> set (Q @ [y]) \<union> {c}. the (?D q) \<le> the (?D x) + 1"
  proof (intro ballI)
    fix q x assume q: "q \<in> set (Q @ [y])" and x: "x \<in> set (Q @ [y]) \<union> {c}"
    show "the (?D q) \<le> the (?D x) + 1"
    proof (cases "q = y")
      case True
      then show ?thesis using x cQ c(1) yQ by auto
    next
      case False
      then have q': "q \<in> set Q" using q by auto
      then show ?thesis using x i(8) [OF q', of x] Qd [OF q'] False yQ by auto
    qed
  qed
  have 4: "\<forall>x \<in> dom ?D - set (Q @ [y]) - {c}. the (?D x) < max_depth \<longrightarrow> succ x \<subseteq> dom ?D"
  proof (intro ballI impI)
    fix x assume "x \<in> dom ?D - set (Q @ [y]) - {c}" and lt: "the (?D x) < max_depth"
    then have x: "x \<in> dom D" "x \<notin> set Q" "x \<notin> {c}" unfolding dom' by auto
    then have "succ x \<subseteq> dom D" using i(9) [OF _ x] lt same [OF x(1)] by simp
    then show "succ x \<subseteq> dom ?D" by auto
  qed
  have 5: "(source, x) \<in> edge_rel ^^ e \<and> (\<forall>n. (source, x) \<in> edge_rel ^^ n \<longrightarrow> e \<le> n) \<and> e \<le> max_depth"
    if "?D x = Some e" for x e
  proof (cases "x = y")
    case True
    then show ?thesis using that path lower c(2) by auto
  next
    case False
    then have "D x = Some e" using that by simp
    then show ?thesis using inv_depth [OF inv] by blast
  qed
  have 6: "?D source = Some 0" "distinct (Q @ [y])" "set (Q @ [y]) \<union> {c} \<subseteq> dom ?D" "{c} \<inter> set (Q @ [y]) = {}"
    using i(1,2,3) dQ yQ by auto
  show ?thesis
    unfolding inv_def using 1 2 3 4 5 6 by blast
qed

text \<open>What the search knows when the queue is empty.\<close>

lemma inv_complete:
  assumes "inv D [] {} False" and "(source, x) \<in> edge_rel ^^ n" and "n \<le> max_depth"
  shows "\<exists>d \<le> n. D x = Some d"
proof -
  have "\<exists>d. D x = Some d" using assms(2,3)
  proof (induction n arbitrary: x)
    case 0
    then show ?case using invD(1) [OF assms(1)] by auto
  next
    case (Suc n)
    then obtain w where w: "(source, w) \<in> edge_rel ^^ n" "x \<in> succ w" by (auto simp: edge_rel_def)
    then obtain d where d: "D w = Some d" using Suc.IH Suc.prems(2) by auto
    then have "d \<le> n" using inv_depth(2) [OF assms(1) d w(1)] by simp
    then have "succ w \<subseteq> dom D" using invD(9) [OF assms(1), of w] d Suc.prems(2) by auto
    then show ?case using w(2) by blast
  qed
  then show ?thesis using inv_depth(2) [OF assms(1) _ assms(2)] by blast
qed

lemma inv_exhaustive:
  assumes "inv D [] {} False" and "\<forall>x \<in> dom D. the (D x) < max_depth \<or> succ x \<subseteq> dom D"
    and "(source, x) \<in> edge_rel ^^ n"
  shows "x \<in> dom D"
  using inv_frontier [OF assms(1) _ assms(3)] assms(2) by auto

end

end
