(* ===== verification/GraphLoops.thy ===== *)
theory GraphLoops
  imports GraphSearch
begin

text \<open>
  The two breadth-first loops of \<open>index.go\<close> keep the invariant of theory GraphSearch, and the walk back
  along the predecessors yields a route of accepted steps.
\<close>

section \<open>Routes\<close>

fun route :: "(string \<Rightarrow> 'v graph_step list) \<Rightarrow> string \<Rightarrow> 'v graph_step list \<Rightarrow> string \<Rightarrow> bool" where
  "route step_fn x [] y = (x = y)"
| "route step_fn x (s # ss) y = (s \<in> set (step_fn x) \<and> route step_fn (step_next s) ss y)"

lemma route_append: "route f x (ss @ ts) z \<longleftrightarrow> (\<exists>y. route f x ss y \<and> route f y ts z)"
  by (induction ss arbitrary: x) auto

locale index_search = bounded_search succ source max_depth max_nodes
  for succ :: "string \<Rightarrow> string set" and source :: string and max_depth max_nodes :: nat +
  fixes step_fn :: "string \<Rightarrow> 'v graph_step list"
  assumes succ_steps: "succ x = step_next ` set (step_fn x)"
begin

lemma succ_ex: "(\<exists>z. z \<in> succ x \<and> P z) \<longleftrightarrow> (\<exists>s \<in> set (step_fn x). P (step_next s))"
  by (auto simp: succ_steps)

lemma relpow_route: "(x, y) \<in> edge_rel ^^ n \<longleftrightarrow> (\<exists>ss. route step_fn x ss y \<and> length ss = n)"
proof (induction n arbitrary: x)
  case (Suc n)
  have "(x, y) \<in> edge_rel ^^ Suc n \<longleftrightarrow> (\<exists>z. z \<in> succ x \<and> (z, y) \<in> edge_rel ^^ n)"
    by (auto simp: edge_rel_def simp del: relpow.simps dest!: relpow_Suc_D2 intro: relpow_Suc_I2)
  also have "\<dots> \<longleftrightarrow> (\<exists>s \<in> set (step_fn x). \<exists>ss. route step_fn (step_next s) ss y \<and> length ss = n)"
    unfolding Suc by (rule succ_ex)
  also have "\<dots> \<longleftrightarrow> (\<exists>ss. route step_fn x ss y \<and> length ss = Suc n)"
    by (auto simp: length_Suc_conv) (metis length_Cons route.simps(2), blast)
  finally show ?case .
qed auto

section \<open>The neighborhood loop\<close>

definition nb_inv :: "'v nb_state \<Rightarrow> string set \<Rightarrow> bool" where
  "nb_inv st A \<longleftrightarrow> wf_map (nb_visited st) \<and> length (nb_visited st) \<le> max_nodes \<and>
     (nb_truncated st \<longrightarrow> max_nodes \<le> length (nb_visited st)) \<and>
     inv (map_of (nb_visited st)) (nb_queue st) A (nb_truncated st)"

lemma inspect_inv:
  "nb_inv st {c} \<Longrightarrow> map_of (nb_visited st) c = Some d \<Longrightarrow> d < max_depth \<Longrightarrow> step_next ` set ss \<subseteq> succ c \<Longrightarrow>
   nb_inv (inspect max_nodes d ss st) {c} \<and> map_of (nb_visited (inspect max_nodes d ss st)) c = Some d \<and>
   set (keys (nb_visited st)) \<subseteq> set (keys (nb_visited (inspect max_nodes d ss st))) \<and>
   (nb_truncated (inspect max_nodes d ss st) \<or>
      step_next ` set ss \<subseteq> set (keys (nb_visited (inspect max_nodes d ss st))))"
proof (induction ss arbitrary: st)
  case (Cons s ss)
  let ?st1 = "st\<lparr>nb_edges := AList.update (e_id (step_edge s)) (step_edge s) (nb_edges st)\<rparr>"
  let ?y = "step_next s"
  have inv1: "nb_inv ?st1 {c}" using Cons.prems(1) by (simp add: nb_inv_def)
  have ss: "step_next ` set ss \<subseteq> succ c" "?y \<in> succ c" using Cons.prems(4) by auto
  show ?case
  proof (cases "?y \<in> set (keys (nb_visited st))")
    case True
    then show ?thesis using Cons.IH [OF inv1 _ Cons.prems(3) ss(1)] Cons.prems(2) by auto
  next
    case new: False
    show ?thesis
    proof (cases "max_nodes \<le> length (nb_visited st)")
      case True
      have "nb_inv (?st1\<lparr>nb_truncated := True\<rparr>) {c}"
        using inv1 True inv_cut by (auto simp: nb_inv_def)
      moreover have "nb_truncated (inspect max_nodes d ss st0)" if "nb_truncated st0" for st0 :: "'v nb_state"
        using that by (induction max_nodes d ss st0 rule: inspect.induct) (auto simp: Let_def)
      ultimately show ?thesis using Cons.IH [of "?st1\<lparr>nb_truncated := True\<rparr>"] Cons.prems(2,3) ss new True by simp
    next
      case False
      let ?st2 = "?st1\<lparr>nb_visited := AList.update ?y (d + 1) (nb_visited ?st1), nb_queue := nb_queue ?st1 @ [?y]\<rparr>"
      have nt: "\<not> nb_truncated st" using False Cons.prems(1) by (auto simp: nb_inv_def)
      have "inv ((map_of (nb_visited st))(?y \<mapsto> d + 1)) (nb_queue st @ [?y]) {c} False"
        using Cons.prems nt new ss(2) by (intro inv_insert) (auto simp: nb_inv_def set_keys_map_of)
      then have inv2: "nb_inv ?st2 {c}"
        using Cons.prems(1) nt False new by (auto simp: nb_inv_def length_update_new)
      have "c \<noteq> ?y" using new Cons.prems(2) by (auto simp: set_keys_map_of)
      then show ?thesis
        using Cons.IH [OF inv2 _ Cons.prems(3) ss(1)] Cons.prems(2) new False by (auto simp: Let_def)
    qed
  qed
qed auto

lemma neighborhood_loop_inv:
  "nb_inv st {} \<Longrightarrow> nb_inv (neighborhood_loop step_fn max_depth max_nodes st) {} \<and>
     nb_queue (neighborhood_loop step_fn max_depth max_nodes st) = []"
proof (induction "length (nb_queue st) + (max_nodes - length (nb_visited st))" arbitrary: st rule: less_induct)
  case less
  show ?case
  proof (cases "nb_queue st")
    case Nil
    then show ?thesis using less.prems by (simp add: neighborhood_loop.simps)
  next
    case (Cons c queue)
    let ?st1 = "st\<lparr>nb_queue := queue\<rparr>"
    let ?d = "depth_of (nb_visited st) c"
    have inv1: "nb_inv ?st1 {c}" using less.prems Cons inv_pop by (auto simp: nb_inv_def)
    have c: "map_of (nb_visited st) c = Some ?d"
      using invD(3) less.prems Cons by (fastforce simp: nb_inv_def depth_of_def)
    show ?thesis
    proof (cases "max_depth \<le> ?d")
      case True
      have "nb_inv ?st1 {}"
        using inv1 True c unfolding nb_inv_def by (auto intro: inv_finish)
      then show ?thesis using less.hyps [of ?st1] Cons True by (subst (1 2) neighborhood_loop.simps) auto
    next
      case False
      let ?st2 = "inspect max_nodes ?d (step_fn c) ?st1"
      have i: "nb_inv ?st2 {c}" "map_of (nb_visited ?st2) c = Some ?d"
          "nb_truncated ?st2 \<or> succ c \<subseteq> set (keys (nb_visited ?st2))"
        using inspect_inv [OF inv1, of ?d "step_fn c"] c False by (auto simp: succ_steps)
      then have "nb_inv ?st2 {}"
        unfolding nb_inv_def by (auto intro!: inv_finish simp: set_keys_map_of)
      moreover have "length (nb_queue ?st2) + (max_nodes - length (nb_visited ?st2)) <
          length (nb_queue st) + (max_nodes - length (nb_visited st))"
        using Cons by (simp add: inspect_measure)
      ultimately show ?thesis
        using less.hyps [of ?st2] Cons False by (subst (1 2) neighborhood_loop.simps) (auto simp: Let_def)
    qed
  qed
qed

section \<open>The path loop\<close>

text \<open>The predecessor map spells out one shortest route to every visited node.\<close>

definition prev_ok :: "ps_state \<Rightarrow> bool" where
  "prev_ok st \<longleftrightarrow> (\<forall>x d. map_of (ps_depth st) x = Some (Suc d) \<longrightarrow>
     (\<exists>p s. map_of (ps_previous st) x = Some (p, e_id (step_edge s)) \<and> map_of (ps_depth st) p = Some d \<and>
        s \<in> set (step_fn p) \<and> step_next s = x))"

definition ps_inv :: "string \<Rightarrow> ps_state \<Rightarrow> string set \<Rightarrow> bool" where
  "ps_inv dest st A \<longleftrightarrow> wf_map (ps_depth st) \<and> length (ps_depth st) \<le> max_nodes \<and>
     (ps_node_limit st \<longrightarrow> max_nodes \<le> length (ps_depth st)) \<and>
     inv (map_of (ps_depth st)) (ps_queue st) A (ps_node_limit st) \<and> prev_ok st \<and>
     (ps_depth_limit st \<longrightarrow> (\<forall>q \<in> set (ps_queue st) \<union> A. max_depth \<le> depth_of (ps_depth st) q)) \<and>
     (\<not> ps_depth_limit st \<longrightarrow> (\<forall>x \<in> set (keys (ps_depth st)) - set (ps_queue st) - A.
        max_depth \<le> depth_of (ps_depth st) x \<longrightarrow> succ x \<subseteq> set (keys (ps_depth st))))"

definition ps_done :: "string \<Rightarrow> ps_state \<Rightarrow> bool" where
  "ps_done dest st \<longleftrightarrow> (if ps_found st
     then \<not> ps_node_limit st \<and> \<not> ps_depth_limit st \<and> dest \<in> set (keys (ps_depth st)) \<and> prev_ok st \<and>
       wf_map (ps_depth st) \<and> length (ps_depth st) \<le> max_nodes \<and>
       (\<exists>Q c capped. inv (map_of (ps_depth st)) Q {c} capped)
     else ps_inv dest st {} \<and> dest \<notin> set (keys (ps_depth st)))"

lemma prev_ok_insert:
  assumes "prev_ok st" "map_of (ps_depth st) c = Some d" "s \<in> set (step_fn c)"
    and "step_next s \<notin> set (keys (ps_depth st))"
  shows "prev_ok (st\<lparr>ps_depth := AList.update (step_next s) (d + 1) (ps_depth st),
      ps_previous := AList.update (step_next s) (c, e_id (step_edge s)) (ps_previous st)\<rparr>)"
proof -
  have ne: "x \<noteq> step_next s" if "map_of (ps_depth st) x = Some e" for x e
    using that assms(4) by (auto simp: set_keys_map_of)
  show ?thesis
    unfolding prev_ok_def
  proof (intro allI impI, goal_cases)
    case (1 x e)
    show ?case
    proof (cases "x = step_next s")
      case True
      then show ?thesis using 1 assms(2,3) ne [OF assms(2)]
        by (intro exI [of _ c] exI [of _ s]) simp
    next
      case False
      then have "map_of (ps_depth st) x = Some (Suc e)" using 1 by simp
      then obtain p s' where "map_of (ps_previous st) x = Some (p, e_id (step_edge s'))"
          "map_of (ps_depth st) p = Some e" "s' \<in> set (step_fn p)" "step_next s' = x"
        using assms(1) unfolding prev_ok_def by blast
      then show ?thesis using False ne by (intro exI [of _ p] exI [of _ s']) auto
    qed
  qed
qed

lemma relax_inv:
  "ps_inv dest st {c} \<Longrightarrow> \<not> ps_found st \<Longrightarrow> dest \<notin> set (keys (ps_depth st)) \<Longrightarrow>
   map_of (ps_depth st) c = Some d \<Longrightarrow> d < max_depth \<Longrightarrow> set ss \<subseteq> set (step_fn c) \<Longrightarrow>
   (let st' = relax dest max_nodes c ss st in
     if ps_found st' then ps_done dest st'
     else ps_inv dest st' {c} \<and> dest \<notin> set (keys (ps_depth st')) \<and> map_of (ps_depth st') c = Some d \<and>
       set (keys (ps_depth st)) \<subseteq> set (keys (ps_depth st')) \<and>
       (ps_node_limit st' \<or> step_next ` set ss \<subseteq> set (keys (ps_depth st'))))"
proof (induction ss arbitrary: st)
  case (Cons s ss)
  let ?y = "step_next s"
  have sc: "?y \<in> succ c" "set ss \<subseteq> set (step_fn c)" "s \<in> set (step_fn c)"
    using Cons.prems(6) by (auto simp: succ_steps)
  show ?case
  proof (cases "?y \<in> set (keys (ps_depth st))")
    case True
    then show ?thesis using Cons.IH [OF Cons.prems(1-5) sc(2)] by (auto simp: Let_def split: if_splits)
  next
    case new: False
    show ?thesis
    proof (cases "max_nodes \<le> length (ps_depth st)")
      case True
      let ?st1 = "st\<lparr>ps_node_limit := True\<rparr>"
      have "ps_inv dest ?st1 {c}"
        using Cons.prems(1) True inv_cut by (auto simp: ps_inv_def prev_ok_def)
      moreover have "ps_node_limit (relax dest max_nodes c ss st0)" if "ps_node_limit st0" for st0
        using that by (induction dest max_nodes c ss st0 rule: relax.induct) (auto simp: Let_def)
      ultimately show ?thesis
        using Cons.IH [of ?st1] Cons.prems(2-5) sc(2) new True by (auto simp: Let_def split: if_splits)
    next
      case False
      note p = Cons.prems(1) [unfolded ps_inv_def]
      have nl: "\<not> ps_node_limit st" using False p by auto
      have dl: "\<not> ps_depth_limit st" using p Cons.prems(4,5) by (auto simp: depth_of_def)
      have dc: "depth_of (ps_depth st) c = d" using Cons.prems(4) by (simp add: depth_of_def)
      let ?st1 = "st\<lparr>ps_depth := AList.update ?y (d + 1) (ps_depth st),
                     ps_previous := AList.update ?y (c, e_id (step_edge s)) (ps_previous st)\<rparr>"
      let ?st2 = "?st1\<lparr>ps_queue := ps_queue ?st1 @ [?y]\<rparr>"
      have inv2: "inv ((map_of (ps_depth st))(?y \<mapsto> d + 1)) (ps_queue st @ [?y]) {c} False"
        using p nl new sc(1) Cons.prems(4,5) by (intro inv_insert) (auto simp: set_keys_map_of)
      have prev: "prev_ok ?st1" using prev_ok_insert [OF _ Cons.prems(4) sc(3) new] p by blast
      have cy: "c \<noteq> ?y" using new Cons.prems(4) by (auto simp: set_keys_map_of)
      show ?thesis
      proof (cases "?y = dest")
        case True
        have "ps_done dest (?st1\<lparr>ps_found := True\<rparr>)"
          using inv2 prev p nl dl new False True
          by (auto simp: ps_done_def prev_ok_def length_update_new)
        then show ?thesis using new False True dc by (simp add: Let_def)
      next
        case dest: False
        have "\<forall>x \<in> set (keys (ps_depth ?st2)) - set (ps_queue ?st2) - {c}.
            max_depth \<le> depth_of (ps_depth ?st2) x \<longrightarrow> succ x \<subseteq> set (keys (ps_depth ?st2))"
          using p dl by (auto simp: depth_of_def split: if_splits)
        then have "ps_inv dest ?st2 {c}"
          using inv2 prev p nl dl new False by (auto simp: ps_inv_def prev_ok_def length_update_new)
        then show ?thesis
          using Cons.IH [of ?st2] Cons.prems(2-5) sc(2) new False dest cy dc by (auto simp: Let_def split: if_splits)
      qed
    qed
  qed
qed (auto simp: Let_def)

lemma path_loop_done:
  "ps_inv dest st {} \<Longrightarrow> \<not> ps_found st \<Longrightarrow> dest \<notin> set (keys (ps_depth st)) \<Longrightarrow>
     ps_done dest (path_loop step_fn dest max_depth max_nodes st) \<and>
     (\<not> ps_found (path_loop step_fn dest max_depth max_nodes st) \<longrightarrow>
        ps_queue (path_loop step_fn dest max_depth max_nodes st) = [])"
proof (induction "length (ps_queue st) + (max_nodes - length (ps_depth st))" arbitrary: st rule: less_induct)
  case less
  note p = less.prems(1) [unfolded ps_inv_def]
  show ?case
  proof (cases "ps_queue st")
    case Nil
    then show ?thesis using less.prems by (simp add: path_loop.simps ps_done_def)
  next
    case (Cons c queue)
    let ?st1 = "st\<lparr>ps_queue := queue\<rparr>"
    let ?d = "depth_of (ps_depth st) c"
    have inv1: "inv (map_of (ps_depth st)) queue {c} (ps_node_limit st)"
      using p Cons inv_pop by simp
    have c: "map_of (ps_depth st) c = Some ?d"
      using invD(4) [OF inv1] by (auto simp: depth_of_def)
    have ps1: "ps_inv dest ?st1 {c}"
      using p inv1 Cons by (auto simp: ps_inv_def prev_ok_def)
    show ?thesis
    proof (cases "max_depth \<le> ?d")
      case True
      let ?unseen = "list_ex (\<lambda>s. step_next s \<notin> set (keys (ps_depth ?st1))) (step_fn c)"
      let ?st2 = "if ?unseen then ?st1\<lparr>ps_depth_limit := True\<rparr> else ?st1"
      have deep: "max_depth \<le> depth_of (ps_depth st) q" if q: "q \<in> set queue" for q
      proof -
        have "c \<in> dom (map_of (ps_depth st))" "c \<notin> set queue" using invD(4,5) [OF inv1] by auto
        then have le: "the (map_of (ps_depth st) c) \<le> the (map_of (ps_depth st) q)"
          using invD(7) [OF inv1, of c q] q by blast
        obtain e where "map_of (ps_depth st) q = Some e" using invD(3) [OF inv1] q by blast
        then have "depth_of (ps_depth st) q = e" "the (map_of (ps_depth st) q) = e" by (simp_all add: depth_of_def)
        moreover have "the (map_of (ps_depth st) c) = ?d" using c by (metis option.sel)
        ultimately show ?thesis using le True by simp
      qed
      have fin: "inv (map_of (ps_depth st)) queue {} (ps_node_limit st)"
        using inv_finish [OF inv1] True c by simp
      have "succ c \<subseteq> set (keys (ps_depth st))" if "\<not> ?unseen"
        using that by (auto simp: succ_steps list_ex_iff)
      note seen = this
      note p1 = ps1 [unfolded ps_inv_def]
      have "ps_inv dest ?st2 {}"
      proof (cases ?unseen)
        case True
        then show ?thesis using p1 fin deep by (simp add: ps_inv_def prev_ok_def)
      next
        case False
        have "succ x \<subseteq> set (keys (ps_depth st))"
          if "x \<in> set (keys (ps_depth st)) - set queue" "max_depth \<le> depth_of (ps_depth st) x" "\<not> ps_depth_limit st" for x
        proof (cases "x = c")
          case True
          then show ?thesis using seen False by blast
        next
          case False
          then show ?thesis using p1 that by simp
        qed
        then show ?thesis using p1 fin deep False by (simp add: ps_inv_def)
      qed
      moreover have "path_loop step_fn dest max_depth max_nodes st = path_loop step_fn dest max_depth max_nodes ?st2"
        using Cons True less.prems(2) by (subst path_loop.simps) (simp add: Let_def)
      moreover have "length (ps_queue ?st2) + (max_nodes - length (ps_depth ?st2)) <
          length (ps_queue st) + (max_nodes - length (ps_depth st))" "\<not> ps_found ?st2"
          "ps_depth ?st2 = ps_depth st"
        using Cons less.prems(2) by auto
      ultimately show ?thesis using less.hyps [of ?st2] less.prems(3) by simp
    next
      case False
      let ?st2 = "relax dest max_nodes c (step_fn c) ?st1"
      have r: "if ps_found ?st2 then ps_done dest ?st2
        else ps_inv dest ?st2 {c} \<and> dest \<notin> set (keys (ps_depth ?st2)) \<and> map_of (ps_depth ?st2) c = Some ?d \<and>
          (ps_node_limit ?st2 \<or> step_next ` set (step_fn c) \<subseteq> set (keys (ps_depth ?st2)))"
        using relax_inv [OF ps1, of ?d "step_fn c"] less.prems(2,3) c False by (simp add: Let_def split: if_splits)
      have unfold: "path_loop step_fn dest max_depth max_nodes st = path_loop step_fn dest max_depth max_nodes ?st2"
        using Cons False less.prems(2) by (subst path_loop.simps) (simp add: Let_def)
      show ?thesis
      proof (cases "ps_found ?st2")
        case True
        then show ?thesis using r unfold by (simp add: path_loop.simps)
      next
        case nf: False
        then have r': "ps_inv dest ?st2 {c}" "dest \<notin> set (keys (ps_depth ?st2))" "map_of (ps_depth ?st2) c = Some ?d"
            "ps_node_limit ?st2 \<or> succ c \<subseteq> set (keys (ps_depth ?st2))"
          using r by (auto simp: succ_steps)
        note q = r'(1) [unfolded ps_inv_def]
        have "inv (map_of (ps_depth ?st2)) (ps_queue ?st2) {} (ps_node_limit ?st2)"
          using q r'(4) by (auto intro!: inv_finish simp: set_keys_map_of)
        then have "ps_inv dest ?st2 {}"
          using q r'(3) False by (auto simp: ps_inv_def depth_of_def)
        moreover have "length (ps_queue ?st2) + (max_nodes - length (ps_depth ?st2)) <
            length (ps_queue st) + (max_nodes - length (ps_depth st))"
          using relax_measure [of dest max_nodes c "step_fn c" ?st1] Cons by simp
        ultimately show ?thesis using less.hyps [of ?st2] nf r'(2) unfold by simp
      qed
    qed
  qed
qed

section \<open>Walking back\<close>

lemma walk_back_route:
  assumes "prev_ok st" and "inv (map_of (ps_depth st)) Q A capped"
  shows "map_of (ps_depth st) x = Some d \<Longrightarrow> d < fuel \<Longrightarrow>
    \<exists>ns es ss. walk_back fuel (ps_previous st) source x = Some (ns, es) \<and> route step_fn source ss x \<and>
      length ss = d \<and> rev ns = source # map step_next ss \<and> rev es = map (\<lambda>s. e_id (step_edge s)) ss"
proof (induction d arbitrary: x fuel)
  case 0
  then have "x = source" using inv_depth(1) [OF assms(2), of x 0] by simp
  then show ?case using 0 by (cases fuel) (auto intro: exI [of _ "[]"])
next
  case (Suc d)
  obtain f where f: "fuel = Suc f" using Suc.prems(2) by (cases fuel) auto
  obtain p s where p: "map_of (ps_previous st) x = Some (p, e_id (step_edge s))" "map_of (ps_depth st) p = Some d"
      "s \<in> set (step_fn p)" "step_next s = x"
    using assms(1) Suc.prems(1) unfolding prev_ok_def by blast
  have ne: "x \<noteq> source" using invD(1) [OF assms(2)] Suc.prems(1) by auto
  obtain ns es ss where w: "walk_back f (ps_previous st) source p = Some (ns, es)" "route step_fn source ss p"
      "length ss = d" "rev ns = source # map step_next ss" "rev es = map (\<lambda>s. e_id (step_edge s)) ss"
    using Suc.IH [OF p(2), of f] Suc.prems(2) f by auto
  have "route step_fn source (ss @ [s]) x" using w(2) p(3,4) by (auto simp: route_append)
  then show ?case
    using w p(1,4) ne f
    by (intro exI [of _ "x # ns"] exI [of _ "e_id (step_edge s) # es"] exI [of _ "ss @ [s]"]) simp
qed

lemma depth_lt_size:
  assumes "prev_ok st" and "wf_map (ps_depth st)" and "map_of (ps_depth st) x = Some d"
  shows "d < length (ps_depth st)"
proof -
  have "\<exists>y. map_of (ps_depth st) y = Some (d - k)" if "k \<le> d" for k
    using that
  proof (induction k)
    case (Suc k)
    then obtain y where "map_of (ps_depth st) y = Some (Suc (d - Suc k))" by (auto simp: Suc_diff_Suc)
    then show ?case using assms(1) unfolding prev_ok_def by blast
  qed (use assms(3) in auto)
  then have "e \<in> ran (map_of (ps_depth st))" if "e \<le> d" for e
    using that diff_diff_cancel [OF that] by (metis diff_le_self ranI)
  then have "{..d} \<subseteq> ran (map_of (ps_depth st))" by blast
  moreover have "ran (map_of (ps_depth st)) = snd ` set (ps_depth st)"
    using assms(2) by (simp add: ran_distinct wf_map_def keys_def)
  ultimately have "card {..d} \<le> card (snd ` set (ps_depth st))" by (intro card_mono) auto
  also have "\<dots> \<le> length (ps_depth st)" by (meson card_image_le card_length finite_set le_trans)
  finally show ?thesis by simp
qed

section \<open>The outcomes of the two searches\<close>

lemma start_path_inv: "dest \<noteq> source \<Longrightarrow> ps_inv dest (start_path source) {}"
  using max_nodes_pos inv_init by (simp add: ps_inv_def start_path_def prev_ok_def wf_map_def keys_def)

lemma path_search_done:
  assumes "dest \<noteq> source" and "st = path_loop step_fn dest max_depth max_nodes (start_path source)"
  shows "ps_done dest st \<and> (\<not> ps_found st \<longrightarrow> ps_queue st = [])"
  using path_loop_done [OF start_path_inv [OF assms(1)]] assms by (simp add: start_path_def keys_def)

lemma path_search_found:
  assumes "dest \<noteq> source" and "st = path_loop step_fn dest max_depth max_nodes (start_path source)" and "ps_found st"
  shows "\<not> ps_depth_limit st \<and> \<not> ps_node_limit st \<and>
    (\<exists>ns es ss. walk_back (Suc (length (ps_depth st))) (ps_previous st) source dest = Some (ns, es) \<and>
      route step_fn source ss dest \<and> rev ns = source # map step_next ss \<and>
      rev es = map (\<lambda>s. e_id (step_edge s)) ss \<and> length ss \<le> max_depth \<and>
      (\<forall>ts. route step_fn source ts dest \<longrightarrow> length ss \<le> length ts))"
proof -
  have d: "\<not> ps_node_limit st" "\<not> ps_depth_limit st" "dest \<in> set (keys (ps_depth st))" "prev_ok st"
      "wf_map (ps_depth st)" "\<exists>Q c capped. inv (map_of (ps_depth st)) Q {c} capped"
    using path_search_done [OF assms(1,2)] assms(3) by (simp_all add: ps_done_def)
  then obtain Q c capped where inv: "inv (map_of (ps_depth st)) Q {c} capped" by blast
  obtain k where k: "map_of (ps_depth st) dest = Some k" using d(3) by (auto simp: set_keys_map_of)
  have "k < Suc (length (ps_depth st))" using depth_lt_size [OF d(4,5) k] by simp
  then obtain ns es ss where "walk_back (Suc (length (ps_depth st))) (ps_previous st) source dest = Some (ns, es)"
      "route step_fn source ss dest" "length ss = k" "rev ns = source # map step_next ss"
      "rev es = map (\<lambda>s. e_id (step_edge s)) ss"
    using walk_back_route [OF d(4) inv k] by blast
  moreover have "k \<le> length ts" if "route step_fn source ts dest" for ts
    using inv_depth(2) [OF inv k, of "length ts"] that by (auto simp: relpow_route)
  ultimately show ?thesis using d inv_depth(3) [OF inv k] by blast
qed

lemma path_search_missing:
  assumes "dest \<noteq> source" and "st = path_loop step_fn dest max_depth max_nodes (start_path source)" and "\<not> ps_found st"
    and "\<not> ps_node_limit st" and "route step_fn source ts dest"
  shows "ps_depth_limit st \<and> max_depth < length ts"
proof -
  have d: "ps_inv dest st {}" "dest \<notin> set (keys (ps_depth st))" "ps_queue st = []"
    using path_search_done [OF assms(1,2)] assms(3) by (simp_all add: ps_done_def)
  note p = d(1) [unfolded ps_inv_def]
  have inv: "inv (map_of (ps_depth st)) [] {} False" using p d(3) assms(4) by simp
  have w: "(source, dest) \<in> edge_rel ^^ length ts" using assms(5) by (auto simp: relpow_route)
  have far: "max_depth < length ts"
    using inv_complete [OF inv w] d(2) by (fastforce simp: set_keys_map_of)
  moreover have "ps_depth_limit st"
  proof (rule ccontr)
    assume "\<not> ps_depth_limit st"
    then have deep: "\<forall>x \<in> set (keys (ps_depth st)). max_depth \<le> depth_of (ps_depth st) x \<longrightarrow> succ x \<subseteq> set (keys (ps_depth st))"
      using p d(3) by simp
    have "\<forall>x \<in> dom (map_of (ps_depth st)). the (map_of (ps_depth st) x) < max_depth \<or> succ x \<subseteq> dom (map_of (ps_depth st))"
    proof
      fix x assume x: "x \<in> dom (map_of (ps_depth st))"
      then have "depth_of (ps_depth st) x = the (map_of (ps_depth st) x)" by (auto simp: depth_of_def)
      then show "the (map_of (ps_depth st) x) < max_depth \<or> succ x \<subseteq> dom (map_of (ps_depth st))"
        using deep x unfolding set_keys_map_of by (metis not_le)
    qed
    then show False using inv_exhaustive [OF inv _ w] d(2) by (simp add: set_keys_map_of)
  qed
  ultimately show ?thesis by blast
qed

lemma path_search_visited:
  assumes "dest \<noteq> source" and "st = path_loop step_fn dest max_depth max_nodes (start_path source)"
  shows "length (ps_depth st) \<le> max_nodes"
  using path_search_done [OF assms] by (auto simp: ps_done_def ps_inv_def split: if_splits)

lemma neighborhood_search_depths:
  assumes "st = neighborhood_loop step_fn max_depth max_nodes (start_neighborhood source)"
  shows "wf_map (nb_visited st) \<and> length (nb_visited st) \<le> max_nodes \<and>
    (map_of (nb_visited st) x = Some d \<longrightarrow> d \<le> max_depth \<and> (\<exists>ss. route step_fn source ss x \<and> length ss = d) \<and>
       (\<forall>ts. route step_fn source ts x \<longrightarrow> d \<le> length ts)) \<and>
    (\<not> nb_truncated st \<longrightarrow> (\<forall>ts. route step_fn source ts x \<longrightarrow> length ts \<le> max_depth \<longrightarrow> map_of (nb_visited st) x \<noteq> None))"
proof -
  have "nb_inv (start_neighborhood source) {}"
    using max_nodes_pos inv_init by (simp add: nb_inv_def start_neighborhood_def wf_map_def keys_def)
  then have i: "nb_inv st {}" "nb_queue st = []"
    using neighborhood_loop_inv by (auto simp: assms)
  then have inv: "inv (map_of (nb_visited st)) [] {} (nb_truncated st)" by (simp add: nb_inv_def)
  have "map_of (nb_visited st) x = Some d \<Longrightarrow> d \<le> max_depth \<and> (\<exists>ss. route step_fn source ss x \<and> length ss = d) \<and>
       (\<forall>ts. route step_fn source ts x \<longrightarrow> d \<le> length ts)"
    using inv_depth [OF inv, of x d] unfolding relpow_route by blast
  moreover have "map_of (nb_visited st) x \<noteq> None" if "\<not> nb_truncated st" "route step_fn source ts x" "length ts \<le> max_depth" for ts
  proof -
    have "(source, x) \<in> edge_rel ^^ length ts" using that(2) by (auto simp: relpow_route)
    then show ?thesis using inv_complete [of "map_of (nb_visited st)" x "length ts"] inv that by auto
  qed
  ultimately show ?thesis using i(1) by (auto simp: nb_inv_def)
qed

end

section \<open>Admissible steps under normalised options\<close>

lemma normalize_options_limits:
  "0 < nat (to_max_depth (normalize_options opts))" "nat (to_max_depth (normalize_options opts)) \<le> 64"
  "0 < nat (to_max_nodes (normalize_options opts))" "nat (to_max_nodes (normalize_options opts)) \<le> 100000"
  by (auto simp: normalize_options_def Let_def)

interpretation search: index_search
    "\<lambda>x. step_next ` set (steps fold_case ix x (normalize_options opts))" source
    "nat (to_max_depth (normalize_options opts))" "nat (to_max_nodes (normalize_options opts))"
    "\<lambda>x. steps fold_case ix x (normalize_options opts)" for fold_case ix opts source
  by unfold_locales (use normalize_options_limits in auto)

end
