(* ===== verification/GraphTheorems.thy ===== *)
theory GraphTheorems
  imports GraphLoops Canonical
begin

text \<open>
  What the index and the searches of \<open>internal/graph\<close> promise: adjacency lists hold exactly the recorded
  edges, a found path is a shortest route of accepted steps, an exhaustive search proves that there is no
  route, every search ends within its node limit, a neighborhood lists shortest distances, and no result
  depends on the order in which nodes and edges were supplied.
\<close>

section \<open>The index\<close>

lemma fold_group:
  "adjacent (fold (\<lambda>e m. AList.update (f e) (adjacent m (f e) @ [e]) m) es m0) k =
     adjacent m0 k @ filter (\<lambda>e. f e = k) es"
  by (induction es arbitrary: m0) (auto simp: adjacent_def split: option.splits)

lemma adjacent_map_sort: "adjacent (map (\<lambda>(k, es). (k, sort_edges es)) m) k = sort_edges (adjacent m k)"
  by (induction m) (auto simp: adjacent_def sort_edges_def)

lemma adjacent_group_edges: "adjacent (group_edges f es) k = sort_edges (filter (\<lambda>e. f e = k) es)"
  by (simp add: group_edges_def adjacent_map_sort fold_group) (simp add: adjacent_def)

lemma map_of_fold_records:
  "distinct (map f xs) \<Longrightarrow> map_of (fold (\<lambda>x. AList.update (f x) x) xs m) k =
     (case find (\<lambda>x. f x = k) xs of Some x \<Rightarrow> Some x | None \<Rightarrow> map_of m k)"
proof (induction xs arbitrary: m)
  case (Cons x xs)
  have "find (\<lambda>y. f y = f x) xs = None" using Cons.prems by (simp add: find_None_iff) (metis image_eqI)
  then show ?case using Cons by (auto split: option.splits)
qed simp

lemma map_of_fold_set:
  assumes "distinct (map f xs)"
  shows "map_of (fold (\<lambda>x. AList.update (f x) x) xs []) k = Some y \<longleftrightarrow> y \<in> set xs \<and> f y = k"
proof -
  have "find (\<lambda>x. f x = k) xs = Some y \<longleftrightarrow> y \<in> set xs \<and> f y = k"
    using assms by (induction xs) (auto simp: image_iff)
  then show ?thesis by (cases "find (\<lambda>x. f x = k) xs") (simp_all add: map_of_fold_records [OF assms])
qed

lemma option_eqI: "(\<And>y. a = Some y \<longleftrightarrow> b = Some y) \<Longrightarrow> a = b"
  by (metis not_None_eq)

lemma map_of_fold_cong:
  assumes "distinct (map f xs)" "distinct (map f ys)" "set xs = set ys"
  shows "map_of (fold (\<lambda>x. AList.update (f x) x) xs []) = map_of (fold (\<lambda>x. AList.update (f x) x) ys [])"
    (is "map_of ?a = map_of ?b")
proof
  fix k
  have "map_of ?a k = Some y \<longleftrightarrow> map_of ?b k = Some y" for y
    using assms(3) by (simp only: map_of_fold_set [OF assms(1)] map_of_fold_set [OF assms(2)])
  then show "map_of ?a k = map_of ?b k" by (rule option_eqI)
qed

lemma steps_build:
  "s \<in> set (steps fold_case (build nodes edges) x opts) \<longleftrightarrow>
     step_edge s \<in> set edges \<and> accept_edge fold_case (step_edge s) opts \<and>
     (to_direction opts \<in> {DirectionOutgoing, DirectionBoth} \<and> e_from (step_edge s) = x \<and> step_next s = e_to (step_edge s) \<or>
      to_direction opts \<in> {DirectionIncoming, DirectionBoth} \<and> e_to (step_edge s) = x \<and> step_next s = e_from (step_edge s))"
proof -
  have s: "s = \<lparr>step_next = n, step_edge = e\<rparr> \<longleftrightarrow> step_next s = n \<and> step_edge s = e" for n e
    by (cases s) auto
  show ?thesis
    by (auto simp: steps_def build_def adjacent_group_edges sort_edges_def s image_iff)
qed

text \<open>
  The steps the index offers at a node are exactly the recorded edges at that node which the options
  accept, each in a direction the options allow.
\<close>

theorem steps_exact:
  "s \<in> set (steps fold_case (build nodes edges) x opts) \<longleftrightarrow>
     step_edge s \<in> set edges \<and> accept_edge fold_case (step_edge s) opts \<and>
     (to_direction opts \<in> {DirectionOutgoing, DirectionBoth} \<and> e_from (step_edge s) = x \<and> step_next s = e_to (step_edge s) \<or>
      to_direction opts \<in> {DirectionIncoming, DirectionBoth} \<and> e_to (step_edge s) = x \<and> step_next s = e_from (step_edge s))"
  by (rule steps_build)

section \<open>Shortest paths\<close>

text \<open>The routes a search may take: chains of accepted steps under the normalised options.\<close>

definition accepted_route ::
  "(string \<Rightarrow> string) \<Rightarrow> 'v graph_index \<Rightarrow> traverse_options \<Rightarrow> string \<Rightarrow> 'v graph_step list \<Rightarrow> string \<Rightarrow> bool" where
  "accepted_route fold_case ix opts source ss dest \<longleftrightarrow>
     route (\<lambda>k. steps fold_case ix k (normalize_options opts)) source ss dest"

lemma shortest_path_cases:
  assumes "shortest_path fold_case ix source dest opts = Inr p"
  obtains (Same) "source = dest" "p = (empty_path source dest)\<lparr>pa_found := True, pa_node_ids := [source],
              pa_nodes := [index_node ix source], pa_visited := 1\<rparr>"
  | (Missing) "source \<noteq> dest" "\<not> ps_found (path_search fold_case ix source dest (normalize_options opts))"
      "p = search_result source dest (path_search fold_case ix source dest (normalize_options opts))"
  | (Found) ns es where "source \<noteq> dest" "ps_found (path_search fold_case ix source dest (normalize_options opts))"
      "walk_back (Suc (length (ps_depth (path_search fold_case ix source dest (normalize_options opts)))))
         (ps_previous (path_search fold_case ix source dest (normalize_options opts))) source dest = Some (ns, es)"
      "p = (search_result source dest (path_search fold_case ix source dest (normalize_options opts)))\<lparr>
         pa_node_ids := rev ns, pa_edge_ids := rev es, pa_depth := length es,
         pa_nodes := map (index_node ix) (rev ns), pa_edges := map (index_edge ix) (rev es)\<rparr>"
  using assms
  by (auto simp: shortest_path_def Let_def split: if_splits option.splits)

lemma path_search_loop:
  "path_search fold_case ix source dest (normalize_options opts) =
     path_loop (\<lambda>k. steps fold_case ix k (normalize_options opts)) dest
       (nat (to_max_depth (normalize_options opts))) (nat (to_max_nodes (normalize_options opts))) (start_path source)"
  by (simp add: path_search_def)

lemma search_result_simps [simp]:
  "pa_found (search_result source dest st) = ps_found st"
  "pa_truncated (search_result source dest st) = (ps_depth_limit st \<or> ps_node_limit st)"
  "pa_node_limit_reached (search_result source dest st) = ps_node_limit st"
  "pa_search_exhausted (search_result source dest st) = (\<not> ps_found st \<and> \<not> (ps_depth_limit st \<or> ps_node_limit st))"
  "pa_visited (search_result source dest st) = length (ps_depth st)"
  by (simp_all add: search_result_def empty_path_def Let_def)

lemma found_route:
  assumes "shortest_path fold_case ix source dest opts = Inr p" and "pa_found p"
  shows "\<exists>ss. accepted_route fold_case ix opts source ss dest \<and> pa_node_ids p = source # map step_next ss \<and>
    pa_edge_ids p = map (\<lambda>s. e_id (step_edge s)) ss \<and> pa_depth p = length ss \<and> \<not> pa_truncated p \<and>
    (\<forall>ts. accepted_route fold_case ix opts source ts dest \<longrightarrow> length ss \<le> length ts)"
  using assms(1)
proof (cases rule: shortest_path_cases)
  case Same
  then show ?thesis
    by (intro exI [of _ "[]"]) (simp add: accepted_route_def empty_path_def)
next
  case Missing
  then show ?thesis using assms(2) by simp
next
  case (Found ns es)
  obtain ss where "route (\<lambda>k. steps fold_case ix k (normalize_options opts)) source ss dest"
      "rev ns = source # map step_next ss" "rev es = map (\<lambda>s. e_id (step_edge s)) ss"
      "\<forall>ts. route (\<lambda>k. steps fold_case ix k (normalize_options opts)) source ts dest \<longrightarrow> length ss \<le> length ts"
      and nl: "\<not> ps_depth_limit (path_search fold_case ix source dest (normalize_options opts))"
      "\<not> ps_node_limit (path_search fold_case ix source dest (normalize_options opts))"
    using search.path_search_found [OF Found(1) [symmetric] path_search_loop Found(2)] Found(3) by auto
  moreover from this(3) have "length es = length ss" by (metis length_map length_rev)
  ultimately show ?thesis by (intro exI [of _ ss]) (simp add: accepted_route_def Found(4))
qed

text \<open>
  C12. A path that is reported as found is a chain of accepted steps from the source to the destination, in
  the order of its node and edge lists, no accepted route is shorter, and it was not cut off by a limit.
\<close>

theorem shortest_path_found:
  assumes "shortest_path fold_case ix source dest opts = Inr p" and "pa_found p"
  shows "\<exists>ss. accepted_route fold_case ix opts source ss dest \<and> pa_node_ids p = source # map step_next ss \<and>
    pa_edge_ids p = map (\<lambda>s. e_id (step_edge s)) ss \<and> pa_depth p = length ss \<and> \<not> pa_truncated p \<and>
    (\<forall>ts. accepted_route fold_case ix opts source ts dest \<longrightarrow> length ss \<le> length ts)"
  using assms by (rule found_route)

text \<open>
  A search that reports exhaustion proves that there is no accepted route at all, and one that was
  only cut off by the depth limit proves that there is none within the depth limit.
\<close>

theorem shortest_path_missing:
  assumes "shortest_path fold_case ix source dest opts = Inr p" and "\<not> pa_found p"
    and "accepted_route fold_case ix opts source ts dest"
  shows "\<not> pa_search_exhausted p \<and>
    (\<not> pa_node_limit_reached p \<longrightarrow> nat (to_max_depth (normalize_options opts)) < length ts)"
  using assms(1)
proof (cases rule: shortest_path_cases)
  case Missing
  show ?thesis
  proof (cases "ps_node_limit (path_search fold_case ix source dest (normalize_options opts))")
    case True
    then show ?thesis by (simp add: Missing(3))
  next
    case False
    then show ?thesis
      using search.path_search_missing [OF Missing(1) [symmetric] path_search_loop Missing(2)] assms(3) Missing(3)
      by (auto simp: accepted_route_def)
  qed
qed (use assms(2) in \<open>auto simp: empty_path_def\<close>)

text \<open>
  C13. A search between two recorded nodes always returns a result, with exactly one of the outcomes found,
  exhausted and truncated, and visits no more nodes than the node limit allows.
\<close>

theorem shortest_path_returns:
  assumes "source \<in> set (keys (ix_nodes ix))" and "dest \<in> set (keys (ix_nodes ix))"
  shows "\<exists>p. shortest_path fold_case ix source dest opts = Inr p \<and>
    (pa_found p \<noteq> (pa_search_exhausted p \<noteq> pa_truncated p)) \<and> \<not> (pa_found p \<and> pa_truncated p) \<and>
    int (pa_visited p) \<le> to_max_nodes (normalize_options opts)"
proof (cases "source = dest")
  case True
  then show ?thesis
    using assms by (auto simp: shortest_path_def set_keys_map_of empty_path_def normalize_options_def Let_def)
next
  case False
  let ?st = "path_search fold_case ix source dest (normalize_options opts)"
  have v: "int (length (ps_depth ?st)) \<le> to_max_nodes (normalize_options opts)"
    using search.path_search_visited [OF False [symmetric] path_search_loop, of fold_case ix opts]
      normalize_options_limits(3) [of opts] by linarith
  show ?thesis
  proof (cases "ps_found ?st")
    case True
    then show ?thesis
      using search.path_search_found [OF False [symmetric] path_search_loop True] False assms v
      by (auto simp: shortest_path_def set_keys_map_of Let_def)
  next
    case nf: False
    then show ?thesis using False assms v by (auto simp: shortest_path_def set_keys_map_of Let_def)
  qed
qed

section \<open>Neighborhoods\<close>

text \<open>
  C15. The depths of a neighborhood are shortest distances over accepted routes, within the depth limit; a
  neighborhood that is not truncated lists every node within the depth limit; and it never has more nodes
  than the node limit.
\<close>

theorem neighborhood_depths:
  assumes "neighborhood fold_case ix seed opts = Inr nh"
  shows "int (length (nh_depth_by_id nh)) \<le> to_max_nodes (normalize_options opts) \<and>
    (map_of (nh_depth_by_id nh) x = Some d \<longrightarrow> int d \<le> to_max_depth (normalize_options opts) \<and>
       (\<exists>ss. accepted_route fold_case ix opts seed ss x \<and> length ss = d) \<and>
       (\<forall>ts. accepted_route fold_case ix opts seed ts x \<longrightarrow> d \<le> length ts)) \<and>
    (\<not> nh_truncated nh \<and> accepted_route fold_case ix opts seed ts x \<and>
       int (length ts) \<le> to_max_depth (normalize_options opts) \<longrightarrow> map_of (nh_depth_by_id nh) x \<noteq> None)"
proof -
  let ?st = "neighborhood_search fold_case ix seed (normalize_options opts)"
  have nh: "nh_depth_by_id nh = nb_visited ?st" "nh_truncated nh = nb_truncated ?st"
    using assms by (auto simp: neighborhood_def materialize_neighborhood_def Let_def split: option.splits)
  have lim: "0 < to_max_depth (normalize_options opts)" "0 < to_max_nodes (normalize_options opts)"
    using normalize_options_limits(1,3) [of opts] by simp_all
  note r = search.neighborhood_search_depths [OF neighborhood_search_def, of fold_case ix seed opts x d]
  show ?thesis
    using r lim unfolding nh accepted_route_def by (auto simp: nat_le_iff le_nat_iff)
qed

section \<open>Determinism\<close>

lemma build_order:
  assumes "mset nodes = mset nodes'" "mset edges = mset edges'" "distinct (map n_id nodes)"
    and "distinct (map e_id edges)" "distinct (map edge_sort_key edges)"
  shows "steps fold_case (build nodes edges) k opts = steps fold_case (build nodes' edges') k opts"
    and "map_of (ix_nodes (build nodes edges)) = map_of (ix_nodes (build nodes' edges'))"
    and "map_of (ix_edges (build nodes edges)) = map_of (ix_edges (build nodes' edges'))"
proof -
  have adj: "adjacent (group_edges f edges) k = adjacent (group_edges f edges') k" for f :: "'a edge \<Rightarrow> string"
    unfolding adjacent_group_edges sort_edges_def
    using assms(2,5) by (intro sort_key_distinct_ids) (simp_all add: distinct_map_filter)
  then show "steps fold_case (build nodes edges) k opts = steps fold_case (build nodes' edges') k opts"
    by (simp add: steps_def build_def)
  have d: "distinct (map n_id nodes')" "distinct (map e_id edges')"
    using assms by (metis mset_eq_imp_distinct_iff mset_map)+
  have s: "set nodes = set nodes'" "set edges = set edges'" using assms(1,2) by (metis set_mset_mset)+
  show "map_of (ix_nodes (build nodes edges)) = map_of (ix_nodes (build nodes' edges'))"
    using map_of_fold_cong [OF assms(3) d(1) s(1)] by (simp add: build_def)
  show "map_of (ix_edges (build nodes edges)) = map_of (ix_edges (build nodes' edges'))"
    using map_of_fold_cong [OF assms(4) d(2) s(2)] by (simp add: build_def)
qed

text \<open>
  The order in which nodes and edges are supplied to \<open>Build\<close> does not influence any search result.
\<close>

theorem graph_order_irrelevant:
  assumes "mset nodes = mset nodes'" and "mset edges = mset edges'" and "distinct (map n_id nodes)"
    and "distinct (map e_id edges)" and "distinct (map edge_sort_key edges)"
  shows "shortest_path fold_case (build nodes edges) source dest opts =
      shortest_path fold_case (build nodes' edges') source dest opts \<and>
    neighborhood fold_case (build nodes edges) source opts = neighborhood fold_case (build nodes' edges') source opts"
proof -
  note b = build_order [OF assms]
  have n: "index_node (build nodes edges) = index_node (build nodes' edges')"
    and e: "index_edge (build nodes edges) = index_edge (build nodes' edges')"
    using b(2,3) by (auto simp: index_node_def index_edge_def)
  show ?thesis
    unfolding shortest_path_def path_search_def neighborhood_def neighborhood_search_def materialize_neighborhood_def
    by (simp only: b n e simp_thms)
qed

end
