(* ===== verification/ValidateTheorems.thy ===== *)
theory ValidateTheorems
  imports ValidateSpec Canonical GraphTheorems
begin

text \<open>
  \<open>ValidateBundle\<close> reports an error exactly when the bundle is not valid in the sense of \<open>ValidateSpec\<close>.
  From this: canonicalising a bundle never changes the verdict, warnings about missing evidence never make a
  report erroneous, the edges of a path are found by their identifiers, and the paths that the
  graph index finds in a valid bundle name records of the bundle.
\<close>

section \<open>Lookups\<close>

text \<open>\<open>artifactsByID\<close> and \<open>findEdge\<close> as relations.\<close>

definition at_path_map :: "artifact list \<Rightarrow> string \<Rightarrow> string \<Rightarrow> bool" where
  "at_path_map artifacts k path \<longleftrightarrow> (\<exists>a. artifact_by_id artifacts k = Some a \<and> (a_path a = [] \<or> a_path a = path))"

definition found_edge :: "'v edge list \<Rightarrow> string \<Rightarrow> string \<Rightarrow> string \<Rightarrow> bool" where
  "found_edge edges k x y \<longleftrightarrow> (\<exists>e. find_edge edges k = Some e \<and> e_from e = x \<and> e_to e = y)"

lemma map_of_fold_update_None:
  "map_of (fold (\<lambda>x. AList.update (f x) x) xs m) k = None \<longleftrightarrow> map_of m k = None \<and> k \<notin> f ` set xs"
  by (induction xs arbitrary: m) auto

lemma artifact_by_id_None: "k \<noteq> [] \<Longrightarrow> artifact_by_id artifacts k = None \<longleftrightarrow> k \<notin> a_id ` set artifacts"
  by (auto simp: artifact_by_id_def map_of_fold_update_None)

lemma artifact_by_id_Some:
  assumes "identified (\<lambda>k. k = []) a_id artifacts"
  shows "artifact_by_id artifacts k = Some a \<longleftrightarrow> a \<in> set artifacts \<and> a_id a = k"
proof -
  have "filter (\<lambda>a. a_id a \<noteq> []) artifacts = artifacts" using assms by (auto simp: identified_def filter_id_conv)
  then show ?thesis using assms map_of_fold_set [of a_id artifacts k a] by (simp add: artifact_by_id_def identified_def)
qed

lemma find_edge_Some:
  assumes "identified missing e_id edges"
  shows "find_edge edges k = Some e \<longleftrightarrow> e \<in> set edges \<and> e_id e = k"
  using assms by (induction edges) (auto simp: find_edge_def identified_def image_iff)

lemma at_path_map_identified:
  "identified (\<lambda>k. k = []) a_id artifacts \<Longrightarrow> \<forall>a \<in> set artifacts. \<not> blank (a_path a) \<Longrightarrow>
   at_path_map artifacts k path \<longleftrightarrow> (\<exists>a \<in> set artifacts. a_id a = k \<and> a_path a = path)"
  by (auto simp: at_path_map_def artifact_by_id_Some)

lemma found_edge_identified:
  "identified missing e_id edges \<Longrightarrow>
   found_edge edges k x y \<longleftrightarrow> (\<exists>e \<in> set edges. e_id e = k \<and> e_from e = x \<and> e_to e = y)"
  by (auto simp: found_edge_def find_edge_Some)

lemma known_subject_sets:
  "known_subject k (subject_sets b) \<longleftrightarrow> k \<in> set (node_ids b) \<union> set (artifact_ids b) \<union> set (claim_ids b)"
  by (auto simp: known_subject_def subject_sets_def node_ids_def artifact_ids_def claim_ids_def)

section \<open>Each family reports exactly its violations\<close>

lemma no_source_issues [simp]:
  "no_errors (source_range_issues env artifacts source rule subject) \<longleftrightarrow> source_ok (at_path_map artifacts) source"
proof (cases source)
  case (Some s)
  have "no_errors (if sr_artifact_id s = [] then []
         else case artifact_by_id artifacts (sr_artifact_id s) of
           None \<Rightarrow> issue env True rule ''source references missing artifact'' (subject @ '':artifact'')
         | Some a \<Rightarrow> issue env (sr_path s \<noteq> [] \<and> a_path a \<noteq> [] \<and> sr_path s \<noteq> a_path a)
             rule ''source path disagrees with artifact path'' (subject @ '':artifact-path'')) \<longleftrightarrow>
      (sr_artifact_id s \<noteq> [] \<longrightarrow> at_path_map artifacts (sr_artifact_id s) (sr_path s))" if "\<not> blank (sr_path s)"
    using that by (cases "artifact_by_id artifacts (sr_artifact_id s)") (auto simp: at_path_map_def)
  then show ?thesis
    by (cases "blank (sr_path s)") (simp_all add: Some source_range_issues_def source_ok_def not_less, blast)
qed (simp add: source_range_issues_def source_ok_def)

lemma no_evidence_reference_issues [simp]:
  "no_errors (evidence_reference_issues env ids known rule family) \<longleftrightarrow> set ids \<subseteq> set known"
  by (auto simp: evidence_reference_issues_def)

lemma no_snapshot_issues [simp]: "no_errors (snapshot_issues env s) \<longleftrightarrow> snapshot_ok s"
  by (auto simp: snapshot_issues_def snapshot_ok_def)

lemma no_repository_node_issues [simp]:
  "no_errors (repository_node_issues env origin repository n) \<longleftrightarrow>
     n_logical_id n = repository \<and> n_qualified_name n = origin \<and> git_origin env n = Some origin"
  by (simp add: repository_node_issues_def)

lemma no_provenance_issues [simp]: "no_errors (provenance_issues env b) \<longleftrightarrow> provenance_ok env b"
proof -
  have e: "[x \<leftarrow> xs. P x] = [] \<longleftrightarrow> \<not> (\<exists>x \<in> set xs. P x)" for xs :: "'v node list" and P by (auto simp: filter_empty_conv)
  show ?thesis
    by (cases "map_of (sn_metadata (bu_snapshot b)) ''source_reference''")
       (auto simp: provenance_issues_def provenance_ok_def Let_def e)
qed

interpretation artifacts: record_family "artifact_issues env opts" "\<lambda>k. k = []" a_id "artifact_ok (vo_strict_vocabulary opts)"
  for env opts
  by unfold_locales (auto simp: artifact_ok_def)

lemma no_missing_artifact:
  "source_ok (at_path_map (bu_artifacts b)) source \<Longrightarrow>
   no_errors (case source of None \<Rightarrow> [] | Some s \<Rightarrow>
      issue env (sr_artifact_id s \<noteq> [] \<and> sr_artifact_id s \<notin> set (artifact_ids b)) rule message (sr_artifact_id s))"
proof (cases source)
  case (Some s)
  assume "source_ok (at_path_map (bu_artifacts b)) source"
  then have "sr_artifact_id s = [] \<or> artifact_by_id (bu_artifacts b) (sr_artifact_id s) \<noteq> None"
    by (auto simp: source_ok_def at_path_map_def Some)
  then show ?thesis using artifact_by_id_None [of "sr_artifact_id s" "bu_artifacts b"] by (auto simp: Some artifact_ids_def)
qed simp

interpretation evidence: record_family "evidence_issues env opts b" "\<lambda>k. k = []" evd_id
    "evidence_ok (vo_strict_vocabulary opts) (at_path_map (bu_artifacts b))"
  for env opts b
  by unfold_locales (auto simp: evidence_ok_def no_missing_artifact)

interpretation nodes: record_family "node_issues env opts b" "\<lambda>k. k = []" n_id
    "node_ok (vo_strict_vocabulary opts) (at_path_map (bu_artifacts b)) (set (artifact_ids b)) (set (evidence_ids b))"
  for env opts b
  by unfold_locales (auto simp: node_ok_def split: option.splits)

interpretation edges: record_family "edge_issues env opts b" "\<lambda>k. k = []" e_id
    "edge_ok (ve_fold_case env) (vo_strict_vocabulary opts) (set (node_ids b)) (set (evidence_ids b))"
  for env opts b
  by unfold_locales (auto simp: edge_ok_def)

interpretation claims: record_family "claim_issues env opts b" blank cl_id
    "claim_ok (set (node_ids b)) (set (evidence_ids b))"
  for env opts b
  by unfold_locales (auto simp: claim_ok_def)

interpretation diagnostics: record_family "diagnostic_issues env b" blank dg_id
    "diagnostic_ok (at_path_map (bu_artifacts b))"
  for env b
  by unfold_locales (auto simp: diagnostic_ok_def)

abbreviation subject_ids :: "'v model_bundle \<Rightarrow> string set" where
  "subject_ids b \<equiv> set (node_ids b) \<union> set (artifact_ids b) \<union> set (claim_ids b)"

interpretation conflicts: record_family "conflict_issues env b" blank cf_id
    "conflict_ok (subject_ids b) (set (evidence_ids b))"
  for env b
  by unfold_locales (auto simp: conflict_ok_def known_subject_sets)

text \<open>The sections of a document are a family of their own, inside the loop over the documents.\<close>

interpretation sections: record_family "section_issues env b document" blank sec_id
    "section_ok (set (claim_ids b)) (set (evidence_ids b))"
  for env b document
  by unfold_locales (auto simp: section_ok_def)

lemma no_section_parent_issues:
  "identified blank sec_id (doc_sections d) \<Longrightarrow>
   no_errors (section_parent_issues env b d) \<longleftrightarrow>
     (\<forall>s \<in> set (doc_sections d). sec_parent_id s = [] \<or> sec_parent_id s \<in> sec_id ` set (doc_sections d) \<or>
        sec_parent_id s \<in> set (node_ids b))"
  using identified_ids [of blank sec_id "doc_sections d"] by (auto simp: section_parent_issues_def section_ids_def)

interpretation documents: record_family "document_issues env b" blank doc_id
    "document_ok (set (node_ids b)) (subject_ids b) (set (claim_ids b)) (set (evidence_ids b))"
  for env b
proof unfold_locales
  fix seen d ds
  show "no_errors (document_issues env b seen (d # ds)) \<longleftrightarrow> \<not> blank (doc_id d) \<and> doc_id d \<notin> set seen \<and>
      document_ok (set (node_ids b)) (subject_ids b) (set (claim_ids b)) (set (evidence_ids b)) d \<and>
      no_errors (document_issues env b (doc_id d # seen) ds)"
    by (cases "identified blank sec_id (doc_sections d)")
       (auto simp: document_ok_def known_subject_sets sections.no_issues no_section_parent_issues)
qed simp

lemma no_path_edge_issues:
  "no_errors (path_edge_issues env b nodes i ks) \<longleftrightarrow>
     (\<forall>j < length ks. \<exists>e. find_edge (bu_edges b) (ks ! j) = Some e \<and>
        (i + j + 1 < length nodes \<longrightarrow> e_from e = nodes ! (i + j) \<and> e_to e = nodes ! (i + j + 1)))"
proof (induction env b nodes i ks rule: path_edge_issues.induct)
  case (2 env b nodes i k ks)
  have all: "(\<forall>j < length (k # ks). P j) \<longleftrightarrow> P 0 \<and> (\<forall>j < length ks. P (Suc j))" for P
    by (simp add: All_less_Suc2)
  show ?case
    unfolding all by (cases "find_edge (bu_edges b) k") (auto simp: 2 [simplified])
qed simp

lemma no_path_issues_Cons:
  fixes p :: "'v execution_path"
  shows "no_errors (path_issues env b seen (p # ps)) \<longleftrightarrow> \<not> blank (ep_id p) \<and> ep_id p \<notin> set seen \<and>
    path_ok (set (node_ids b)) (found_edge (bu_edges b)) (set (evidence_ids b)) p \<and> no_errors (path_issues env b (ep_id p # seen) ps)"
proof -
  have walk: "no_errors (path_edge_issues env b (ep_node_ids p) 0 (ep_edge_ids p)) \<longleftrightarrow>
      (\<forall>i < length (ep_edge_ids p). found_edge (bu_edges b) (ep_edge_ids p ! i) (ep_node_ids p ! i) (ep_node_ids p ! (i + 1)))"
    if "length (ep_node_ids p) = length (ep_edge_ids p) + 1"
    using that by (auto simp: no_path_edge_issues found_edge_def)
  have entry: "ep_node_ids p \<noteq> [] \<Longrightarrow> set (ep_node_ids p) \<subseteq> set (node_ids b) \<Longrightarrow> hd (ep_node_ids p) \<noteq> []"
    using hd_in_set by (fastforce simp: node_ids_def)
  show ?thesis
  proof (cases "ep_node_ids p \<noteq> [] \<and> set (ep_node_ids p) \<subseteq> set (node_ids b) \<and> length (ep_node_ids p) = length (ep_edge_ids p) + 1")
    case True
    then show ?thesis using walk entry by (simp add: path_ok_def subset_iff) metis
  next
    case False
    then show ?thesis by (auto simp: path_ok_def)
  qed
qed

interpretation paths: record_family "path_issues env b" blank ep_id
    "path_ok (set (node_ids b)) (found_edge (bu_edges b)) (set (evidence_ids b))"
  for env b
  by unfold_locales (simp, rule no_path_issues_Cons)

section \<open>The whole bundle\<close>

lemma valid_bundle_ids:
  assumes "ids_ok b"
  shows "set (artifact_ids b) = all_artifacts b" "set (evidence_ids b) = all_evidence b"
    "set (node_ids b) = all_nodes b" "set (claim_ids b) = all_claims b"
  using assms
  by (auto simp: ids_ok_def identified_def artifact_ids_def evidence_ids_def node_ids_def claim_ids_def all_ids_defs)

lemma valid_bundle_lookups:
  assumes "ids_ok b" and "\<forall>a \<in> set (bu_artifacts b). artifact_ok strict a"
  shows "at_path_map (bu_artifacts b) = artifact_at b" "found_edge (bu_edges b) = edge_between b"
  using assms at_path_map_identified [of "bu_artifacts b"] found_edge_identified [of "\<lambda>k. k = []" "bu_edges b"]
  by (auto simp: ids_ok_def artifact_ok_def artifact_at_def edge_between_def fun_eq_iff)

lemmas family_iffs = artifacts.no_issues evidence.no_issues nodes.no_issues edges.no_issues claims.no_issues
  diagnostics.no_issues conflicts.no_issues documents.no_issues paths.no_issues

lemma valid_bundle_iff: "no_errors (bundle_issues env opts b) \<longleftrightarrow> valid_bundle env (vo_strict_vocabulary opts) b"
proof (cases "ids_ok b \<and> (\<forall>a \<in> set (bu_artifacts b). artifact_ok (vo_strict_vocabulary opts) a)")
  case True
  then have ids: "ids_ok b" and "\<forall>a \<in> set (bu_artifacts b). artifact_ok (vo_strict_vocabulary opts) a" by simp_all
  note eqs = valid_bundle_ids [OF ids] valid_bundle_lookups [OF this]
  show ?thesis
    using ids by (simp add: bundle_issues_def family_iffs valid_bundle_def records_ok_def eqs)
      (simp add: ids_ok_def all_subjects_def Un_ac conj_ac)
next
  case False
  then show ?thesis
    by (auto simp: bundle_issues_def family_iffs valid_bundle_def records_ok_def ids_ok_def)
qed

text \<open>
  C17. \<open>ValidateBundle\<close> reports an error exactly when the bundle is not valid: identifiers are unique and
  present in every family, every record satisfies its conditions, and every reference to a node, artifact,
  evidence, claim, section or edge leads to a record of the bundle. Requiring evidence only adds warnings.
\<close>

theorem validate_bundle_exact:
  "has_errors (validate_bundle env b opts) \<longleftrightarrow> \<not> valid_bundle env (vo_strict_vocabulary opts) b"
  by (metis no_errors_report valid_bundle_iff)

section \<open>The verdict and the canonical form\<close>

lemma identified_mset_cong:
  assumes "mset (map ident xs) = mset (map ident ys)"
  shows "identified missing ident xs \<longleftrightarrow> identified missing ident ys"
proof -
  have ids: "identified missing ident rs \<longleftrightarrow> distinct (map ident rs) \<and> (\<forall>k \<in> set (map ident rs). \<not> missing k)" for rs
    by (auto simp: identified_def)
  show ?thesis unfolding ids using mset_eq_setD [OF assms] mset_eq_imp_distinct_iff [OF assms] by simp
qed

lemma identified_sort_key [simp]: "identified missing ident (sort_key k xs) \<longleftrightarrow> identified missing ident xs"
  by (rule identified_mset_cong) simp

lemma identified_map: "(\<And>x. ident (f x) = ident x) \<Longrightarrow> identified missing ident (map f xs) \<longleftrightarrow> identified missing ident xs"
  by (rule identified_mset_cong) (simp add: comp_def)

lemma canonical_ids [simp]: "ids_ok (canonical_bundle fold_case b) \<longleftrightarrow> ids_ok b"
  by (simp add: ids_ok_def canonical_bundle_def sort_bundle_def identified_map)

lemma canonical_sets [simp]:
  "all_artifacts (canonical_bundle fold_case b) = all_artifacts b" "all_nodes (canonical_bundle fold_case b) = all_nodes b"
  "all_evidence (canonical_bundle fold_case b) = all_evidence b" "all_claims (canonical_bundle fold_case b) = all_claims b"
  "all_subjects (canonical_bundle fold_case b) = all_subjects b"
  by (simp_all add: all_ids_defs canonical_bundle_def sort_bundle_def image_image)

lemma canonical_lookups [simp]:
  "artifact_at (canonical_bundle fold_case b) = artifact_at b" "edge_between (canonical_bundle fold_case b) = edge_between b"
  by (auto simp: fun_eq_iff artifact_at_def edge_between_def canonical_bundle_def sort_bundle_def sort_edge_def)

lemma known_resolution_normalised:
  "lower_stable fold_case \<Longrightarrow> is_known_resolution fold_case (normalize_resolution fold_case r) \<longleftrightarrow> is_known_resolution fold_case r"
  by (simp add: is_known_resolution_def normalize_resolution_idem)

lemma sort_record_conditions [simp]:
  "node_ok strict at_path as evs (sort_node n) \<longleftrightarrow> node_ok strict at_path as evs n"
  "conflict_ok subjects evs (sort_conflict c) \<longleftrightarrow> conflict_ok subjects evs c"
  "claim_ok ns evs (sort_claim l) \<longleftrightarrow> claim_ok ns evs l"
  "document_ok ns subjects ls evs (sort_document d) \<longleftrightarrow> document_ok ns subjects ls evs d"
  by (simp_all add: node_ok_def conflict_ok_def claim_ok_def document_ok_def sort_node_def sort_conflict_def
    sort_claim_def sort_document_def)

lemma sort_edge_condition:
  "lower_stable fold_case \<Longrightarrow> edge_ok fold_case strict ns evs (sort_edge fold_case e) \<longleftrightarrow> edge_ok fold_case strict ns evs e"
  by (simp add: edge_ok_def sort_edge_def known_resolution_normalised)

lemma canonical_provenance:
  "provenance_ok env (canonical_bundle fold_case b) \<longleftrightarrow> provenance_ok env b"
  by (simp add: provenance_ok_def canonical_bundle_def sort_bundle_def strip_operational_def sort_node_def git_origin_def)

text \<open>
  Canonicalising a bundle never changes whether it is valid: neither the removal of the machine-local
  fields nor sorting the records, their reference lists and the sections of a document, nor normalising the
  resolutions of the edges.
\<close>

theorem canonical_bundle_valid:
  assumes "lower_stable (ve_fold_case env)"
  shows "has_errors (validate_bundle env (canonical_bundle (ve_fold_case env) b) opts) = has_errors (validate_bundle env b opts)"
proof -
  have "snapshot_ok (bu_snapshot (canonical_bundle (ve_fold_case env) b)) = snapshot_ok (bu_snapshot b)"
    by (simp add: canonical_bundle_def sort_bundle_def strip_operational_def snapshot_ok_def)
  moreover have "records_ok env strict (canonical_bundle (ve_fold_case env) b) = records_ok env strict b" for strict
    unfolding records_ok_def canonical_sets canonical_lookups
    by (simp add: canonical_bundle_def sort_bundle_def sort_edge_condition [OF assms])
  ultimately have "valid_bundle env strict (canonical_bundle (ve_fold_case env) b) = valid_bundle env strict b" for strict
    by (simp add: valid_bundle_def canonical_provenance)
  then show ?thesis by (metis no_errors_report valid_bundle_iff)
qed

section \<open>Valid bundles and their graph\<close>

text \<open>
  C18. In a valid bundle an execution path is a walk: its nodes and edges are records of the bundle, edge
  number i leads from node i to node i + 1, and it begins at the entry node and ends at the exit node, if
  one is given.
\<close>

theorem execution_path_walk:
  assumes "\<not> has_errors (validate_bundle env b opts)" and "p \<in> set (bu_paths b)"
  shows "length (ep_node_ids p) = length (ep_edge_ids p) + 1 \<and> ep_node_ids p ! 0 = ep_entry_node_id p \<and>
    (ep_exit_node_id p = [] \<or> ep_node_ids p ! length (ep_edge_ids p) = ep_exit_node_id p) \<and>
    (\<forall>k \<in> set (ep_node_ids p). \<exists>!n. n \<in> set (bu_nodes b) \<and> n_id n = k) \<and>
    (\<forall>i < length (ep_edge_ids p). \<exists>e \<in> set (bu_edges b). e_id e = ep_edge_ids p ! i \<and>
       e_from e = ep_node_ids p ! i \<and> e_to e = ep_node_ids p ! (i + 1))"
proof -
  have v: "valid_bundle env (vo_strict_vocabulary opts) b" using assms(1) by (simp add: no_errors_report valid_bundle_iff)
  then have p: "path_ok (all_nodes b) (edge_between b) (all_evidence b) p"
    using assms(2) by (simp add: valid_bundle_def records_ok_def)
  have "distinct (map n_id (bu_nodes b))" using v by (simp add: valid_bundle_def ids_ok_def identified_def)
  then have "\<exists>!n. n \<in> set (bu_nodes b) \<and> n_id n = k" if "k \<in> set (ep_node_ids p)" for k
    using p that by (auto simp: path_ok_def all_nodes_def distinct_map inj_on_def)
  moreover have "ep_node_ids p ! 0 = hd (ep_node_ids p)" "last (ep_node_ids p) = ep_node_ids p ! length (ep_edge_ids p)"
    using p by (auto simp: path_ok_def hd_conv_nth last_conv_nth)
  ultimately show ?thesis using p by (auto simp: path_ok_def edge_between_def)
qed

lemma route_records:
  assumes "valid_bundle env strict b"
    and "route (\<lambda>k. steps fold_case (build (bu_nodes b) (bu_edges b)) k opts) source ss dest" and "source \<in> all_nodes b"
  shows "set (source # map step_next ss) \<subseteq> all_nodes b \<and> step_edge ` set ss \<subseteq> set (bu_edges b)"
  using assms(2,3)
proof (induction ss arbitrary: source)
  case (Cons s ss)
  have "step_edge s \<in> set (bu_edges b)" "step_next s \<in> {e_from (step_edge s), e_to (step_edge s)}"
    using Cons.prems(1) by (auto simp: steps_build)
  moreover from this have "step_next s \<in> all_nodes b"
    using assms(1) by (auto simp: valid_bundle_def records_ok_def edge_ok_def)
  ultimately show ?case using Cons.IH [of "step_next s"] Cons.prems by auto
qed simp

lemma build_lookups:
  assumes "ids_ok b"
  shows "k \<in> all_nodes b \<Longrightarrow> index_node (build (bu_nodes b) (bu_edges b)) k \<in> set (bu_nodes b) \<and>
      n_id (index_node (build (bu_nodes b) (bu_edges b)) k) = k"
    and "e \<in> set (bu_edges b) \<Longrightarrow> index_edge (build (bu_nodes b) (bu_edges b)) (e_id e) = e"
    and "map_of (ix_nodes (build (bu_nodes b) (bu_edges b))) k \<noteq> None \<longleftrightarrow> k \<in> all_nodes b"
proof -
  have d: "distinct (map n_id (bu_nodes b))" "distinct (map e_id (bu_edges b))"
    using assms by (simp_all add: ids_ok_def identified_def)
  have n: "map_of (ix_nodes (build (bu_nodes b) (bu_edges b))) k = Some n \<longleftrightarrow> n \<in> set (bu_nodes b) \<and> n_id n = k" for k n
    by (simp add: build_def map_of_fold_set [OF d(1)])
  then show known: "map_of (ix_nodes (build (bu_nodes b) (bu_edges b))) k \<noteq> None \<longleftrightarrow> k \<in> all_nodes b"
    by (auto simp: all_nodes_def)
  show "k \<in> all_nodes b \<Longrightarrow> index_node (build (bu_nodes b) (bu_edges b)) k \<in> set (bu_nodes b) \<and>
      n_id (index_node (build (bu_nodes b) (bu_edges b)) k) = k"
    using known n [of k] by (cases "map_of (ix_nodes (build (bu_nodes b) (bu_edges b))) k") (auto simp: index_node_def)
  show "e \<in> set (bu_edges b) \<Longrightarrow> index_edge (build (bu_nodes b) (bu_edges b)) (e_id e) = e"
    using map_of_fold_set [OF d(2), of "e_id e" e] by (simp add: index_edge_def build_def)
qed

text \<open>
  In the graph of a valid bundle a found path names records of the bundle: its node list and its edge list
  carry the identifiers it reports, in the same order, and all of them are nodes and edges of the bundle.
\<close>

theorem valid_graph_path:
  fixes b :: "'v model_bundle"
  assumes "\<not> has_errors (validate_bundle env b opts)"
    and "shortest_path fold_case (build (bu_nodes b) (bu_edges b)) source dest traversal = Inr p" and "pa_found p"
  shows "map n_id (pa_nodes p) = pa_node_ids p \<and> map e_id (pa_edges p) = pa_edge_ids p \<and>
    set (pa_nodes p) \<subseteq> set (bu_nodes b) \<and> set (pa_edges p) \<subseteq> set (bu_edges b)"
proof -
  have v: "valid_bundle env (vo_strict_vocabulary opts) b" using assms(1) by (simp add: no_errors_report valid_bundle_iff)
  then have ids: "ids_ok b" by (simp add: valid_bundle_def)
  obtain ss :: "'v graph_step list" where ss: "accepted_route fold_case (build (bu_nodes b) (bu_edges b)) traversal source ss dest"
      "pa_node_ids p = source # map step_next ss" "pa_edge_ids p = map (\<lambda>s. e_id (step_edge s)) ss"
    using found_route [OF assms(2,3)] by blast
  have "source \<in> all_nodes b"
    using assms(2) build_lookups(3) [OF ids, of source] by (auto simp: shortest_path_def split: if_splits)
  then have r: "set (pa_node_ids p) \<subseteq> all_nodes b" "step_edge ` set ss \<subseteq> set (bu_edges b)"
    using route_records [OF v, of fold_case "normalize_options traversal" source ss dest] ss
    by (auto simp: accepted_route_def)
  have lists: "pa_nodes p = map (index_node (build (bu_nodes b) (bu_edges b))) (pa_node_ids p)"
      "pa_edges p = map (index_edge (build (bu_nodes b) (bu_edges b))) (pa_edge_ids p)"
    using assms(3) by (cases rule: shortest_path_cases [OF assms(2)]; auto simp: empty_path_def)+
  have edges: "pa_edges p = map step_edge ss"
    using r(2) build_lookups(2) [OF ids] by (auto simp: lists ss(3))
  show ?thesis
    using r build_lookups(1) [OF ids] by (auto simp: edges ss(3) lists(1) intro!: map_idI)
qed

end
