(* ===== verification/Counterfactual.thy ===== *)
theory Counterfactual
  imports GraphTheorems
begin

text \<open>
  Structural counterfactuals (\<open>internal/graph/counterfactual.go\<close>): two bounded searches, one on the
  recorded graph and one on the view without the named nodes and edges, and the comparison of the two.
\<close>

section \<open>The request and the result\<close>

record counterfactual_request =
  cq_from_id :: string
  cq_to_id :: string
  cq_without_node_ids :: "string list"
  cq_without_edge_ids :: "string list"
  cq_traversal :: traverse_options

record counterfactual_assumption =
  ca_without_node_ids :: "string list"
  ca_without_edge_ids :: "string list"

record counterfactual_scope =
  cs_direction :: direction
  cs_maximum_depth :: int
  cs_maximum_nodes :: int
  cs_include_unresolved :: bool
  cs_edge_kinds :: "string list"
  cs_resolutions :: "string list"

record 'v counterfactual_result =
  cr_schema_version :: string
  cr_snapshot_id :: string
  cr_analysis :: string
  cr_authoritative :: bool
  cr_outcome :: string
  cr_statement :: string
  cr_assumption :: counterfactual_assumption
  cr_scope :: counterfactual_scope
  cr_baseline :: "'v path_result"
  cr_counterfactual :: "'v path_result"
  cr_evidence_ids :: "string list"

definition maximum_counterfactual_suppressions :: nat where
  "maximum_counterfactual_suppressions = 64"

definition counterfactual_schema_version :: string where
  "counterfactual_schema_version = ''1.1''"

section \<open>Validation\<close>

fun check_ids :: "string list \<Rightarrow> (string \<Rightarrow> bool) \<Rightarrow> string \<Rightarrow> string list \<Rightarrow> graph_error + string list" where
  "check_ids [] exists_id kind result = Inr result"
| "check_ids (k # ks) exists_id kind result =
     (if k = [] then Inl (ErrInvalidCounterfactual (kind @ '' ID cannot be empty'') [])
      else if k \<in> set result then Inl (ErrInvalidCounterfactual (''duplicate '' @ kind @ '' ID'') k)
      else if \<not> exists_id k then Inl (ErrInvalidCounterfactual (kind @ '' does not exist'') k)
      else check_ids ks exists_id kind (result @ [k]))"

definition validated_counterfactual_ids ::
  "string list \<Rightarrow> (string \<Rightarrow> bool) \<Rightarrow> string \<Rightarrow> graph_error + string list" where
  "validated_counterfactual_ids values exists_id kind =
     res_bind (check_ids values exists_id kind []) (\<lambda>result. Inr (sort result))"

section \<open>Summaries and evidence\<close>

definition path_limit_summary :: "'v path_result \<Rightarrow> string" where
  "path_limit_summary p =
     (let limits = (if pa_depth_limit_reached p then [''depth limit''] else []) @
                   (if pa_node_limit_reached p then [''node limit''] else [])
      in if limits = [] then ''search bound'' else join '' and '' limits)"

definition counterfactual_truncation_summary :: "'v path_result \<Rightarrow> 'v path_result \<Rightarrow> string" where
  "counterfactual_truncation_summary baseline derived =
     join ''; '' ((if pa_truncated baseline then [''baseline: '' @ path_limit_summary baseline] else []) @
                  (if pa_truncated derived then [''counterfactual: '' @ path_limit_summary derived] else []))"

definition counterfactual_evidence ::
  "'v graph_index \<Rightarrow> 'v path_result \<Rightarrow> 'v path_result \<Rightarrow> string list \<Rightarrow> string list \<Rightarrow> string list" where
  "counterfactual_evidence ix baseline derived without_nodes without_edges =
     sorted_keys (filter (\<lambda>v. v \<noteq> [])
       (concat (map (\<lambda>k. n_evidence_ids (index_node ix k)) (pa_node_ids baseline @ pa_node_ids derived)) @
        concat (map (\<lambda>k. e_evidence_ids (index_edge ix k)) (pa_edge_ids baseline @ pa_edge_ids derived @ without_edges)) @
        concat (map (\<lambda>k. n_evidence_ids (index_node ix k)) without_nodes)))"

section \<open>The comparison\<close>

definition compare_paths :: "'v path_result \<Rightarrow> 'v path_result \<Rightarrow> string \<times> string" where
  "compare_paths baseline derived =
     (if pa_truncated baseline \<or> pa_truncated derived
      then (''search_truncated'',
        ''One or more route searches reached a configured traversal cap ('' @
        counterfactual_truncation_summary baseline derived @
        ''), so the comparison remains unresolved and no exhaustive no-route conclusion is supported.'')
      else if \<not> pa_found baseline
      then (''baseline_not_found'',
        ''The baseline search exhaustively found no route in the recorded graph under the stated filters, so this intervention has no supported route-level effect to compare.'')
      else if pa_found derived \<and> pa_edge_ids baseline = pa_edge_ids derived
      then (''no_effect'', ''The same shortest route remains after the intervention within the stated traversal bounds.'')
      else if pa_found derived
      then (''rerouted'', ''A different route remains after the intervention within the stated traversal bounds.'')
      else (''no_route_found'',
        ''No alternative route was found after exhaustively searching every admissible reachable node in the derived recorded graph under the stated filters; this is not proof of runtime impossibility or causation.''))"

text \<open>The checks on the request: \<open>Inr\<close> the sorted identifiers of the suppressed nodes and edges.\<close>

definition check_request ::
  "'v graph_index \<Rightarrow> counterfactual_request \<Rightarrow> graph_error + string list \<times> string list" where
  "check_request ix request =
     (if cq_from_id request = [] \<or> cq_to_id request = []
      then Inl (ErrInvalidCounterfactual ''from and to node IDs are required'' [])
      else if length (cq_without_node_ids request) + length (cq_without_edge_ids request) = 0
      then Inl (ErrInvalidCounterfactual ''at least one node or edge intervention is required'' [])
      else if maximum_counterfactual_suppressions <
              length (cq_without_node_ids request) + length (cq_without_edge_ids request)
      then Inl (ErrInvalidCounterfactual ''at most 64 interventions are allowed'' [])
      else res_bind (validated_counterfactual_ids (cq_without_node_ids request)
             (\<lambda>k. k \<in> set (keys (ix_nodes ix))) ''node'') (\<lambda>without_nodes.
           res_bind (validated_counterfactual_ids (cq_without_edge_ids request)
             (\<lambda>k. k \<in> set (keys (ix_edges ix))) ''edge'') (\<lambda>without_edges.
           if cq_from_id request \<in> set without_nodes \<or> cq_to_id request \<in> set without_nodes
           then Inl (ErrInvalidCounterfactual ''route endpoints cannot be suppressed'' [])
           else Inr (without_nodes, without_edges))))"

definition baseline_options :: "counterfactual_request \<Rightarrow> traverse_options" where
  "baseline_options request = (cq_traversal request)\<lparr>to_suppressed_node_ids := [], to_suppressed_edge_ids := []\<rparr>"

definition derived_options :: "counterfactual_request \<Rightarrow> string list \<Rightarrow> string list \<Rightarrow> traverse_options" where
  "derived_options request without_nodes without_edges = (baseline_options request)\<lparr>
     to_suppressed_node_ids := without_nodes, to_suppressed_edge_ids := without_edges\<rparr>"

definition counterfactual_path ::
  "(string \<Rightarrow> string) \<Rightarrow> 'v graph_index option \<Rightarrow> counterfactual_request \<Rightarrow> graph_error + 'v counterfactual_result" where
  "counterfactual_path fold_case index request =
     (case index of
        None \<Rightarrow> Inl (ErrInvalidCounterfactual ''graph index is required'' [])
      | Some ix \<Rightarrow>
      res_bind (check_request ix request) (\<lambda>(without_nodes, without_edges).
      res_bind (shortest_path fold_case ix (cq_from_id request) (cq_to_id request) (baseline_options request)) (\<lambda>baseline.
      res_bind (shortest_path fold_case ix (cq_from_id request) (cq_to_id request)
                  (derived_options request without_nodes without_edges)) (\<lambda>derived.
      let normalized = normalize_options (baseline_options request);
          (outcome, statement) = compare_paths baseline derived
      in Inr \<lparr>cr_schema_version = counterfactual_schema_version, cr_snapshot_id = [],
           cr_analysis = ''bounded_structural_counterfactual'', cr_authoritative = False,
           cr_outcome = outcome, cr_statement = statement,
           cr_assumption = \<lparr>ca_without_node_ids = without_nodes, ca_without_edge_ids = without_edges\<rparr>,
           cr_scope = \<lparr>cs_direction = to_direction normalized, cs_maximum_depth = to_max_depth normalized,
             cs_maximum_nodes = to_max_nodes normalized, cs_include_unresolved = to_include_unresolved normalized,
             cs_edge_kinds = sorted_keys (to_edge_kinds normalized),
             cs_resolutions = sorted_keys (to_resolutions normalized)\<rparr>,
           cr_baseline = baseline, cr_counterfactual = derived,
           cr_evidence_ids = counterfactual_evidence ix baseline derived without_nodes without_edges\<rparr>))))"

section \<open>Properties\<close>

lemma counterfactual_path_elim:
  assumes "counterfactual_path fold_case (Some ix) request = Inr r"
  obtains wn we where "check_request ix request = Inr (wn, we)"
    "shortest_path fold_case ix (cq_from_id request) (cq_to_id request) (baseline_options request) = Inr (cr_baseline r)"
    "shortest_path fold_case ix (cq_from_id request) (cq_to_id request) (derived_options request wn we) = Inr (cr_counterfactual r)"
    "cr_assumption r = \<lparr>ca_without_node_ids = wn, ca_without_edge_ids = we\<rparr>"
    "cr_outcome r = fst (compare_paths (cr_baseline r) (cr_counterfactual r))"
  using assms
  by (auto simp: counterfactual_path_def res_simps Let_def case_prod_beta)

text \<open>A route that touches none of the suppressed nodes and edges.\<close>

definition avoids :: "counterfactual_assumption \<Rightarrow> 'v graph_step list \<Rightarrow> bool" where
  "avoids a ss \<longleftrightarrow> (\<forall>s \<in> set ss. e_id (step_edge s) \<notin> set (ca_without_edge_ids a) \<and>
     e_from (step_edge s) \<notin> set (ca_without_node_ids a) \<and> e_to (step_edge s) \<notin> set (ca_without_node_ids a))"

lemma derived_steps:
  "s \<in> set (steps fold_case ix k (normalize_options (derived_options request wn we))) \<longleftrightarrow>
     s \<in> set (steps fold_case ix k (normalize_options (baseline_options request))) \<and>
     avoids \<lparr>ca_without_node_ids = wn, ca_without_edge_ids = we\<rparr> [s]"
  by (auto simp: steps_def accept_edge_def derived_options_def baseline_options_def normalize_options_def avoids_def)

lemma derived_route:
  "accepted_route fold_case ix (derived_options request wn we) x ss y \<longleftrightarrow>
     accepted_route fold_case ix (baseline_options request) x ss y \<and>
     avoids \<lparr>ca_without_node_ids = wn, ca_without_edge_ids = we\<rparr> ss"
  unfolding accepted_route_def
  by (induction ss arbitrary: x) (auto simp: derived_steps, auto simp: avoids_def)

text \<open>
  C14. The outcome \<open>no_route_found\<close> is backed by the recorded graph: the baseline has a route, and every
  accepted route from source to destination uses one of the suppressed edges or touches a suppressed node.
\<close>

theorem no_route_found_sound:
  assumes "counterfactual_path fold_case (Some ix) request = Inr r" and "cr_outcome r = ''no_route_found''"
  shows "pa_found (cr_baseline r) \<and>
    (\<forall>ss. accepted_route fold_case ix (baseline_options request) (cq_from_id request) ss (cq_to_id request) \<longrightarrow>
       \<not> avoids (cr_assumption r) ss)"
proof (rule counterfactual_path_elim [OF assms(1)])
  fix wn we
  assume d: "shortest_path fold_case ix (cq_from_id request) (cq_to_id request) (derived_options request wn we) = Inr (cr_counterfactual r)"
    and a: "cr_assumption r = \<lparr>ca_without_node_ids = wn, ca_without_edge_ids = we\<rparr>"
    and b: "shortest_path fold_case ix (cq_from_id request) (cq_to_id request) (baseline_options request) = Inr (cr_baseline r)"
    and o1: "cr_outcome r = fst (compare_paths (cr_baseline r) (cr_counterfactual r))"
  have f: "pa_found (cr_baseline r)" "\<not> pa_found (cr_counterfactual r)" "\<not> pa_truncated (cr_counterfactual r)"
    using o1 assms(2) by (auto simp: compare_paths_def split: if_splits)
  have "pa_search_exhausted (cr_counterfactual r)"
    using d f by (cases rule: shortest_path_cases) (auto simp: empty_path_def)
  have no: "\<not> accepted_route fold_case ix (derived_options request wn we) (cq_from_id request) ss (cq_to_id request)" for ss
    using d
  proof (cases rule: shortest_path_cases)
    case Missing
    then show ?thesis
      using search.path_search_missing [OF Missing(1) [symmetric] path_search_loop Missing(2)] f(3)
      by (auto simp: accepted_route_def)
  qed (use f in \<open>auto simp: empty_path_def\<close>)
  then show ?thesis using f(1) by (auto simp: a derived_route)
qed

text \<open>
  When a route is reported to remain, it is an accepted route of the recorded graph that avoids every
  suppressed node and edge, and the outcome is \<open>no_effect\<close> exactly when it has the edges of the baseline.
\<close>

theorem remaining_route_sound:
  assumes "counterfactual_path fold_case (Some ix) request = Inr r" and "cr_outcome r \<in> {''no_effect'', ''rerouted''}"
  shows "(\<exists>ss. accepted_route fold_case ix (baseline_options request) (cq_from_id request) ss (cq_to_id request) \<and>
      avoids (cr_assumption r) ss \<and> pa_edge_ids (cr_counterfactual r) = map (\<lambda>s. e_id (step_edge s)) ss) \<and>
    (cr_outcome r = ''no_effect'' \<longleftrightarrow> pa_edge_ids (cr_baseline r) = pa_edge_ids (cr_counterfactual r))"
proof (rule counterfactual_path_elim [OF assms(1)])
  fix wn we
  assume d: "shortest_path fold_case ix (cq_from_id request) (cq_to_id request) (derived_options request wn we) = Inr (cr_counterfactual r)"
    and a: "cr_assumption r = \<lparr>ca_without_node_ids = wn, ca_without_edge_ids = we\<rparr>"
    and o1: "cr_outcome r = fst (compare_paths (cr_baseline r) (cr_counterfactual r))"
  have f: "pa_found (cr_counterfactual r)"
      "cr_outcome r = ''no_effect'' \<longleftrightarrow> pa_edge_ids (cr_baseline r) = pa_edge_ids (cr_counterfactual r)"
    using o1 assms(2) by (auto simp: compare_paths_def split: if_splits)
  obtain ss where "accepted_route fold_case ix (derived_options request wn we) (cq_from_id request) ss (cq_to_id request)"
      "pa_edge_ids (cr_counterfactual r) = map (\<lambda>s. e_id (step_edge s)) ss"
    using d
  proof (cases rule: shortest_path_cases)
    case Same
    then show thesis using that [of "[]"] by (simp add: accepted_route_def empty_path_def)
  next
    case (Found ns es)
    then show thesis
      using search.path_search_found [OF Found(1) [symmetric] path_search_loop Found(2)] that
      by (auto simp: accepted_route_def)
  qed (use f in simp)
  then show ?thesis using f(2) by (auto simp: a derived_route)
qed

end
