(* ===== verification/GraphWitnesses.thy ===== *)
theory GraphWitnesses
  imports Counterfactual
begin

text \<open>
  A small bundle and its graph, on which the hypotheses of the properties of the model and the graph
  searches hold: three nodes, an edge from a to b, one from b to c and one from a to c.
\<close>

section \<open>The bundle\<close>

definition ex_node :: "string \<Rightarrow> nat node" where
  "ex_node k = zero_node\<lparr>n_id := k, n_kind := ''function'', n_name := k\<rparr>"

definition ex_edge :: "string \<Rightarrow> string \<Rightarrow> string \<Rightarrow> nat edge" where
  "ex_edge k from to = zero_edge\<lparr>e_id := k, e_kind := ''calls'', e_from := from, e_to := to, e_resolution := ''Resolved''\<rparr>"

definition ex_nodes :: "nat node list" where
  "ex_nodes = [ex_node ''a'', ex_node ''b'', ex_node ''c'']"

definition ex_edges :: "nat edge list" where
  "ex_edges = [ex_edge ''ab'' ''a'' ''b'', ex_edge ''bc'' ''b'' ''c'', ex_edge ''ac'' ''a'' ''c'']"

definition ex_snapshot :: "nat snapshot" where
  "ex_snapshot = \<lparr>sn_schema_version = ''0.2.0'', sn_id = ''s'', sn_repository_id = [], sn_parent_snapshot_id = [],
     sn_created_at = 7, sn_status = ''building'', sn_root_name = ''r'', sn_root_path = ''/tmp/r'',
     sn_content_digest = replicate 64 CHR ''a'', sn_config_digest = [], sn_policy_digest = [],
     sn_plugin_lock_digest = [], sn_toolchain_digest = [],
     sn_git = \<lparr>gi_commit = [], gi_branch = [], gi_origin = [], gi_dirty = False, gi_working_tree_digest = [], gi_unavailable = True\<rparr>,
     sn_tool = \<lparr>ti_name = ''rkc'', ti_version = ''1'', ti_build = [], ti_runtime = [], ti_attributes = []\<rparr>,
     sn_policy = [], sn_metadata = [(''host'', ''h'')]\<rparr>"

definition ex_bundle :: "nat node list \<Rightarrow> nat edge list \<Rightarrow> int \<Rightarrow> nat model_bundle" where
  "ex_bundle nodes edges clock = \<lparr>bu_snapshot = ex_snapshot\<lparr>sn_created_at := clock\<rparr>, bu_artifacts = [], bu_nodes = nodes, bu_edges = edges,
     bu_evidence = [], bu_diagnostics = [], bu_conflicts = [], bu_documents = [], bu_claims = [], bu_paths = []\<rparr>"

theorem canonical_bundle_idem_witness:
  "canonical_bundle (map ascii_lower) (canonical_bundle (map ascii_lower) (ex_bundle ex_nodes ex_edges 1)) =
   canonical_bundle (map ascii_lower) (ex_bundle ex_nodes ex_edges 1)"
  by (rule canonical_bundle_idem [OF lower_stable_ascii])

lemma ex_distinct: "distinct (map n_id ex_nodes)" "distinct (map e_id ex_edges)" "distinct (map edge_sort_key ex_edges)"
  by (simp_all add: ex_nodes_def ex_edges_def ex_node_def ex_edge_def edge_sort_key_def nul_def)


section \<open>The graph\<close>

definition ex_index :: "nat graph_index" where
  "ex_index = build ex_nodes ex_edges"

definition ex_traverse :: "int \<Rightarrow> traverse_options" where
  "ex_traverse depth = \<lparr>to_direction = DirectionOutgoing, to_edge_kinds = [], to_resolutions = [],
     to_max_depth = depth, to_max_nodes = 10, to_include_unresolved = False,
     to_suppressed_node_ids = [], to_suppressed_edge_ids = []\<rparr>"

lemma ex_route: "accepted_route id ex_index (ex_traverse 5) ''a'' [\<lparr>step_next = ''c'', step_edge = ex_edge ''ac'' ''a'' ''c''\<rparr>] ''c''"
proof -
  have "\<lparr>step_next = ''c'', step_edge = ex_edge ''ac'' ''a'' ''c''\<rparr> \<in>
      set (steps id ex_index ''a'' (normalize_options (ex_traverse 5)))"
    unfolding ex_index_def steps_build by code_simp
  then show ?thesis by (simp add: accepted_route_def)
qed

lemma ex_nodes_known: "''a'' \<in> set (keys (ix_nodes ex_index))" "''c'' \<in> set (keys (ix_nodes ex_index))"
  by code_simp+

theorem shortest_path_returns_witness:
  "\<exists>p. shortest_path id ex_index ''a'' ''c'' (ex_traverse 5) = Inr p \<and> int (pa_visited p) \<le> 10"
  using shortest_path_returns [OF ex_nodes_known, of id "ex_traverse 5"]
  by (auto simp: ex_traverse_def normalize_options_def Let_def)

definition ex_outcome :: "graph_error + nat path_result \<Rightarrow> bool \<times> bool \<times> string list" where
  "ex_outcome r = (case r of Inl e \<Rightarrow> (False, True, []) | Inr p \<Rightarrow> (pa_found p, pa_truncated p, pa_edge_ids p))"

lemma ex_outcome_forward:
  "ex_outcome (shortest_path id ex_index ''a'' ''c'' (ex_traverse 5)) = (True, False, [''ac''])"
  by code_simp

theorem shortest_path_found_witness:
  "\<exists>p. shortest_path id ex_index ''a'' ''c'' (ex_traverse 5) = Inr p \<and> pa_edge_ids p = [''ac''] \<and> pa_depth p = 1 \<and>
     \<not> pa_truncated p"
proof -
  obtain p where p: "shortest_path id ex_index ''a'' ''c'' (ex_traverse 5) = Inr p" "pa_found p" "pa_edge_ids p = [''ac'']"
    using ex_outcome_forward by (cases "shortest_path id ex_index ''a'' ''c'' (ex_traverse 5)") (auto simp: ex_outcome_def)
  obtain ss :: "nat graph_step list" where "pa_edge_ids p = map (\<lambda>s. e_id (step_edge s)) ss" "pa_depth p = length ss" "\<not> pa_truncated p"
    using shortest_path_found [OF p(1,2)] by blast
  then have "length ss = 1" using p(3) by (metis One_nat_def length_map list.size(3,4) plus_1_eq_Suc add.commute)
  then show ?thesis using p \<open>pa_depth p = length ss\<close> \<open>\<not> pa_truncated p\<close> by auto
qed

text \<open>A chain of three edges under a depth limit of two.\<close>

definition ex_chain :: "nat graph_index" where
  "ex_chain = build [ex_node ''a'', ex_node ''b'', ex_node ''c'', ex_node ''d'']
     [ex_edge ''ab'' ''a'' ''b'', ex_edge ''bc'' ''b'' ''c'', ex_edge ''cd'' ''c'' ''d'']"

lemma ex_chain_route:
  "accepted_route id ex_chain (ex_traverse 2) ''a''
     [\<lparr>step_next = ''b'', step_edge = ex_edge ''ab'' ''a'' ''b''\<rparr>, \<lparr>step_next = ''c'', step_edge = ex_edge ''bc'' ''b'' ''c''\<rparr>,
      \<lparr>step_next = ''d'', step_edge = ex_edge ''cd'' ''c'' ''d''\<rparr>] ''d''"
proof -
  have "\<lparr>step_next = ''b'', step_edge = ex_edge ''ab'' ''a'' ''b''\<rparr> \<in> set (steps id ex_chain ''a'' (normalize_options (ex_traverse 2)))"
    "\<lparr>step_next = ''c'', step_edge = ex_edge ''bc'' ''b'' ''c''\<rparr> \<in> set (steps id ex_chain ''b'' (normalize_options (ex_traverse 2)))"
    "\<lparr>step_next = ''d'', step_edge = ex_edge ''cd'' ''c'' ''d''\<rparr> \<in> set (steps id ex_chain ''c'' (normalize_options (ex_traverse 2)))"
    unfolding ex_chain_def steps_build by code_simp+
  then show ?thesis by (simp add: accepted_route_def)
qed

theorem shortest_path_missing_witness:
  "\<exists>p. shortest_path id ex_chain ''a'' ''d'' (ex_traverse 2) = Inr p \<and> \<not> pa_found p \<and> \<not> pa_search_exhausted p"
proof -
  have "fst (ex_outcome (shortest_path id ex_chain ''a'' ''d'' (ex_traverse 2))) = False \<and>
      \<not> isl (shortest_path id ex_chain ''a'' ''d'' (ex_traverse 2))"
    by code_simp
  then obtain p where "shortest_path id ex_chain ''a'' ''d'' (ex_traverse 2) = Inr p" "\<not> pa_found p"
    by (cases "shortest_path id ex_chain ''a'' ''d'' (ex_traverse 2)") (auto simp: ex_outcome_def)
  then show ?thesis using shortest_path_missing [OF _ _ ex_chain_route] by blast
qed

theorem neighborhood_depths_witness:
  "\<exists>nh. neighborhood id ex_index ''a'' (ex_traverse 5) = Inr nh \<and> map_of (nh_depth_by_id nh) ''c'' = Some 1 \<and>
     int (length (nh_depth_by_id nh)) \<le> 10"
proof -
  have "(case neighborhood id ex_index ''a'' (ex_traverse 5) of Inl e \<Rightarrow> None | Inr nh \<Rightarrow> map_of (nh_depth_by_id nh) ''c'') = Some 1"
    by code_simp
  then obtain nh where nh: "neighborhood id ex_index ''a'' (ex_traverse 5) = Inr nh" "map_of (nh_depth_by_id nh) ''c'' = Some 1"
    by (cases "neighborhood id ex_index ''a'' (ex_traverse 5)") auto
  have "int (length (nh_depth_by_id nh)) \<le> to_max_nodes (normalize_options (ex_traverse 5))"
    using neighborhood_depths [OF nh(1)] by blast
  then show ?thesis using nh by (auto simp: ex_traverse_def normalize_options_def Let_def)
qed

theorem graph_order_irrelevant_witness:
  "shortest_path id (build ex_nodes ex_edges) ''a'' ''c'' (ex_traverse 5) =
   shortest_path id (build (rev ex_nodes) (rev ex_edges)) ''a'' ''c'' (ex_traverse 5)"
  using graph_order_irrelevant [OF _ _ ex_distinct, of "rev ex_nodes" "rev ex_edges" id "''a''" "''c''" "ex_traverse 5"] by simp

section \<open>Counterfactuals\<close>

definition ex_request :: "string list \<Rightarrow> counterfactual_request" where
  "ex_request es = \<lparr>cq_from_id = ''a'', cq_to_id = ''c'', cq_without_node_ids = [], cq_without_edge_ids = es,
     cq_traversal = ex_traverse 5\<rparr>"

definition ex_verdict :: "graph_error + nat counterfactual_result \<Rightarrow> string" where
  "ex_verdict r = (case r of Inl e \<Rightarrow> [] | Inr c \<Rightarrow> cr_outcome c)"

lemma ex_searches:
  "ex_outcome (shortest_path id ex_index ''a'' ''c'' (baseline_options (ex_request []))) = (True, False, [''ac''])"
  "ex_outcome (shortest_path id ex_index ''a'' ''c'' (derived_options (ex_request [''ac'']) [] [''ac''])) =
     (True, False, [''ab'', ''bc''])"
  "ex_outcome (shortest_path id ex_index ''a'' ''c'' (derived_options (ex_request [''ac'', ''ab'']) [] [''ab'', ''ac''])) =
     (False, False, [])"
  by code_simp+

lemma ex_checks:
  "check_request ex_index (ex_request [''ac'']) = Inr ([], [''ac''])"
  "check_request ex_index (ex_request [''ac'', ''ab'']) = Inr ([], [''ab'', ''ac''])"
  by code_simp+

lemma ex_outcomeE:
  assumes "ex_outcome r = (f, False, es)"
  obtains p where "r = Inr p" "pa_found p = f" "\<not> pa_truncated p" "pa_edge_ids p = es"
  using assms by (cases r) (auto simp: ex_outcome_def)

lemma ex_verdicts:
  "ex_verdict (counterfactual_path id (Some ex_index) (ex_request [''ac'', ''ab''])) = ''no_route_found''"
  "ex_verdict (counterfactual_path id (Some ex_index) (ex_request [''ac''])) = ''rerouted''"
proof -
  have ends: "cq_from_id (ex_request es) = ''a''" "cq_to_id (ex_request es) = ''c''" for es by (simp_all add: ex_request_def)
  obtain b where b: "\<And>es. shortest_path id ex_index ''a'' ''c'' (baseline_options (ex_request es)) = Inr b"
      "pa_found b" "\<not> pa_truncated b" "pa_edge_ids b = [''ac'']"
    using ex_searches(1) by (auto elim!: ex_outcomeE simp: baseline_options_def ex_request_def)
  obtain d where "shortest_path id ex_index ''a'' ''c'' (derived_options (ex_request [''ac'', ''ab'']) [] [''ab'', ''ac'']) = Inr d"
      "\<not> pa_found d" "\<not> pa_truncated d"
    using ex_searches(3) by (auto elim!: ex_outcomeE)
  then show "ex_verdict (counterfactual_path id (Some ex_index) (ex_request [''ac'', ''ab''])) = ''no_route_found''"
    using b by (simp add: counterfactual_path_def ends ex_checks compare_paths_def ex_verdict_def Let_def res_simps)
  obtain d where "shortest_path id ex_index ''a'' ''c'' (derived_options (ex_request [''ac'']) [] [''ac'']) = Inr d"
      "pa_found d" "\<not> pa_truncated d" "pa_edge_ids d = [''ab'', ''bc'']"
    using ex_searches(2) by (auto elim!: ex_outcomeE)
  then show "ex_verdict (counterfactual_path id (Some ex_index) (ex_request [''ac''])) = ''rerouted''"
    using b by (simp add: counterfactual_path_def ends ex_checks compare_paths_def ex_verdict_def Let_def res_simps)
qed

theorem no_route_found_sound_witness:
  "\<exists>r. counterfactual_path id (Some ex_index) (ex_request [''ac'', ''ab'']) = Inr r \<and>
     cr_outcome r = ''no_route_found'' \<and> pa_found (cr_baseline r)"
proof -
  obtain r where "counterfactual_path id (Some ex_index) (ex_request [''ac'', ''ab'']) = Inr r" "cr_outcome r = ''no_route_found''"
    using ex_verdicts(1)
    by (cases "counterfactual_path id (Some ex_index) (ex_request [''ac'', ''ab''])") (auto simp: ex_verdict_def)
  then show ?thesis using no_route_found_sound by blast
qed

theorem remaining_route_sound_witness:
  "\<exists>r. counterfactual_path id (Some ex_index) (ex_request [''ac'']) = Inr r \<and> cr_outcome r = ''rerouted'' \<and>
     pa_edge_ids (cr_baseline r) \<noteq> pa_edge_ids (cr_counterfactual r)"
proof -
  obtain r where r: "counterfactual_path id (Some ex_index) (ex_request [''ac'']) = Inr r" "cr_outcome r = ''rerouted''"
    using ex_verdicts(2)
    by (cases "counterfactual_path id (Some ex_index) (ex_request [''ac''])") (auto simp: ex_verdict_def)
  then have "cr_outcome r = ''no_effect'' \<longleftrightarrow> pa_edge_ids (cr_baseline r) = pa_edge_ids (cr_counterfactual r)"
    using remaining_route_sound [OF r(1)] by blast
  then show ?thesis using r by auto
qed

end
