(* ===== verification/ValidateWitnesses.thy ===== *)
theory ValidateWitnesses
  imports ValidateTheorems GraphWitnesses
begin

text \<open>The small bundle of \<open>GraphWitnesses\<close> with an execution path is valid, and the properties apply to it.\<close>

definition ex_env :: "nat validation_env" where
  "ex_env = \<lparr>ve_fold_case = map ascii_lower, ve_sha12 = id, ve_canonical_origin = (\<lambda>_. True), ve_as_string = (\<lambda>_. None)\<rparr>"

definition ex_walk :: "nat execution_path" where
  "ex_walk = \<lparr>ep_id = ''p'', ep_name = ''main'', ep_entry_node_id = ''a'', ep_exit_node_id = ''c'',
     ep_node_ids = [''a'', ''b'', ''c''], ep_edge_ids = [''ab'', ''bc''], ep_evidence_ids = [], ep_attributes = []\<rparr>"

definition ex_walked :: "nat model_bundle" where
  "ex_walked = (ex_bundle ex_nodes ex_edges 1)\<lparr>bu_paths := [ex_walk]\<rparr>"

definition ex_strict :: validation_options where
  "ex_strict = \<lparr>vo_strict_vocabulary = True, vo_require_evidence = True\<rparr>"

lemma ex_walked_valid: "\<not> has_errors (validate_bundle ex_env ex_walked ex_strict)"
  by code_simp

text \<open>The report is not empty: the three functions have no evidence.\<close>

lemma ex_walked_warnings: "length (vr_diagnostics (validate_bundle ex_env ex_walked ex_strict)) = 3"
  by code_simp

theorem canonical_bundle_valid_witness:
  "\<not> has_errors (validate_bundle ex_env (canonical_bundle (map ascii_lower) ex_walked) ex_strict)"
  using canonical_bundle_valid [of ex_env ex_walked ex_strict] lower_stable_ascii ex_walked_valid by (simp add: ex_env_def)

theorem execution_path_walk_witness:
  "\<exists>e \<in> set (bu_edges ex_walked). e_id e = ''bc'' \<and> e_from e = ''b'' \<and> e_to e = ''c''"
proof -
  have "ex_walk \<in> set (bu_paths ex_walked)" by (simp add: ex_walked_def)
  from execution_path_walk [OF ex_walked_valid this]
  have "\<forall>i < length (ep_edge_ids ex_walk). \<exists>e \<in> set (bu_edges ex_walked). e_id e = ep_edge_ids ex_walk ! i \<and>
      e_from e = ep_node_ids ex_walk ! i \<and> e_to e = ep_node_ids ex_walk ! (i + 1)"
    by simp
  from this [rule_format, of 1] show ?thesis by (simp add: ex_walk_def)
qed

theorem valid_graph_path_witness:
  "\<exists>p. shortest_path id (build ex_nodes ex_edges) ''a'' ''c'' (ex_traverse 5) = Inr p \<and> map e_id (pa_edges p) = [''ac'']"
proof -
  have b: "bu_nodes ex_walked = ex_nodes" "bu_edges ex_walked = ex_edges" by (simp_all add: ex_walked_def ex_bundle_def)
  obtain p where p: "shortest_path id ex_index ''a'' ''c'' (ex_traverse 5) = Inr p" "pa_found p" "pa_edge_ids p = [''ac'']"
    using ex_outcome_forward by (cases "shortest_path id ex_index ''a'' ''c'' (ex_traverse 5)") (auto simp: ex_outcome_def)
  then show ?thesis
    using valid_graph_path [OF ex_walked_valid, of id "''a''" "''c''" "ex_traverse 5" p] by (auto simp: b ex_index_def)
qed

end
