(* ===== verification/Coverage.thy ===== *)
theory Coverage
  imports Model "HOL-Library.Finite_Map"
begin

text \<open>
  \<open>BuildCoverage\<close> of \<open>pkg/rkcmodel/coverage.go\<close>. Attribute values are the \<^emph>\<open>go_value\<close>s that the type
  switches of the source distinguish. Every loop of the source is a fold of a step function over the
  records, in the order of the source; a Go map used as a set is a finite set, a
  \<open>map[string]int\<close> a finite map, \<^const>\<open>None\<close> being the nil map. A ratio is the quotient
  rounded to binary64.
\<close>

section \<open>Values of attributes\<close>

datatype go_value =
    GoNil
  | GoBool bool
  | GoString string
  | GoBytes string
  | GoFloat go_float
  | GoInt int
  | GoStrings "string list"
  | GoList "go_value list"
  | GoMap "(string \<times> go_value) list"

type_synonym go_attributes = "go_value attributes"

definition attribute :: "go_attributes \<Rightarrow> string \<Rightarrow> go_value" where
  "attribute values k = (case map_of values k of None \<Rightarrow> GoNil | Some v \<Rightarrow> v)"

fun as_string :: "go_value \<Rightarrow> string option" where
  "as_string (GoString s) = Some s"
| "as_string v = None"

text \<open>\<open>flag, _ := v.(bool)\<close>.\<close>

fun as_bool :: "go_value \<Rightarrow> bool" where
  "as_bool (GoBool b) = b"
| "as_bool v = False"

definition attribute_string :: "go_attributes \<Rightarrow> string \<Rightarrow> string" where
  "attribute_string values k =
     (case attribute values k of GoString s \<Rightarrow> s | GoBytes s \<Rightarrow> s | _ \<Rightarrow> [])"

text \<open>\<open>parse_float\<close> is the value of \<open>strconv.ParseFloat\<close>, its error dropped; an int is exact here.\<close>

definition attribute_float :: "(string \<Rightarrow> go_float) \<Rightarrow> go_attributes \<Rightarrow> string \<Rightarrow> go_float" where
  "attribute_float parse_float values k =
     (case attribute values k of GoFloat f \<Rightarrow> f | GoInt i \<Rightarrow> Finite (of_int i) | GoString s \<Rightarrow> parse_float s | _ \<Rightarrow> 0)"

text \<open>\<open>strconv.ParseBool\<close> on the text of an artifact attribute; a missing attribute is empty.\<close>

definition bool_string :: "string \<Rightarrow> bool" where
  "bool_string s \<longleftrightarrow> s \<in> {''1'', ''t'', ''T'', ''TRUE'', ''true'', ''True''}"

definition string_values_intersect :: "go_value \<Rightarrow> string fset \<Rightarrow> bool" where
  "string_values_intersect v ids =
     (case v of
        GoStrings ss \<Rightarrow> list_ex (\<lambda>s. s |\<in>| ids) ss
      | GoList vs \<Rightarrow> list_ex (\<lambda>item. case as_string item of None \<Rightarrow> False | Some s \<Rightarrow> s |\<in>| ids) vs
      | _ \<Rightarrow> False)"

definition string_value_in_set :: "go_value \<Rightarrow> string fset \<Rightarrow> bool" where
  "string_value_in_set v ids = (case as_string v of None \<Rightarrow> False | Some s \<Rightarrow> s \<noteq> [] \<and> s |\<in>| ids)"

definition valid_runtime_test_status :: "string \<Rightarrow> bool" where
  "valid_runtime_test_status s \<longleftrightarrow> s = ''pass'' \<or> s = ''fail'' \<or> s = ''skip''"

section \<open>Ratios\<close>

text \<open>
  The quotient of two positive integers below \<open>2^53\<close> in binary64, rounded to nearest, ties to even. \<open>log2_quot\<close>
  is the exponent \<open>e\<close> with \<open>2^e \<le> n / d < 2^(e + 1)\<close>; the quotient never leaves the normal range.
\<close>

definition pow2 :: "int \<Rightarrow> rat" where
  "pow2 e = 2 powi e"

fun nat_log2 :: "nat \<Rightarrow> nat" where
  "nat_log2 n = (if n < 2 then 0 else Suc (nat_log2 (n div 2)))"

declare nat_log2.simps [simp del]

definition log2_quot :: "nat \<Rightarrow> nat \<Rightarrow> int" where
  "log2_quot n d =
     (let e = int (nat_log2 n) - int (nat_log2 d)
      in if pow2 e * of_nat d \<le> of_nat n then e else e - 1)"

definition round_half_even :: "rat \<Rightarrow> int" where
  "round_half_even q =
     (let m = \<lfloor>q\<rfloor>; r = q - of_int m
      in if r < 1 / 2 \<or> r = 1 / 2 \<and> even m then m else m + 1)"

definition float64_quot :: "nat \<Rightarrow> nat \<Rightarrow> go_float" where
  "float64_quot n d =
     (if n = 0 then 0
      else let e = log2_quot n d
           in Finite (of_int (round_half_even (of_nat n / of_nat d * pow2 (52 - e))) * pow2 (e - 52)))"

definition ratio :: "int \<Rightarrow> int \<Rightarrow> go_float" where
  "ratio numerator denominator =
     (if denominator = 0 then 1 else float64_quot (nat numerator) (nat denominator))"

section \<open>The coverage record\<close>

type_synonym counts = "(string, int) fmap option"

record coverage_totals =
  cv_snapshot_id :: string
  cv_artifacts_encountered :: int
  cv_artifacts_inventoried :: int
  cv_text_artifacts :: int
  cv_artifacts_syntactically_parsed :: int
  cv_artifacts_semantically_parsed :: int
  cv_artifacts_excluded :: int
  cv_artifacts_binary :: int
  cv_artifacts_unreadable :: int
  cv_nodes_total :: int
  cv_symbols_total :: int
  cv_symbols_with_evidence :: int
  cv_public_symbols :: int
  cv_public_symbols_documented :: int
  cv_edges_total :: int
  cv_resolved_edges :: int
  cv_unresolved_edges :: int
  cv_claims_total :: int
  cv_claims_with_evidence :: int
  cv_conflicts_total :: int
  cv_secret_findings :: int
  cv_high_confidence_secret_findings :: int
  cv_diagnostics_by_severity :: counts
  cv_node_kinds :: counts
  cv_edge_kinds :: counts
  cv_evidence_kinds :: counts
  cv_artifact_statuses :: counts

record coverage = coverage_totals +
  cv_inventory_accounting_ratio :: go_float
  cv_syntactic_parse_ratio :: go_float
  cv_semantic_parse_ratio :: go_float
  cv_symbol_evidence_ratio :: go_float
  cv_public_documentation_ratio :: go_float
  cv_edge_resolution_ratio :: go_float
  cv_claim_citation_ratio :: go_float
  cv_flow_cfg_blocks :: int
  cv_flow_cfg_edges :: int
  cv_flow_call_edges :: int
  cv_flow_call_edges_resolved :: int
  cv_flow_value_edges :: int
  cv_flow_sources :: int
  cv_flow_sinks :: int
  cv_runtime_traces :: int
  cv_runtime_producer_authenticated_traces :: int
  cv_runtime_assertion_traces :: int
  cv_runtime_capture_integrity_assertions :: int
  cv_runtime_producer_authenticated_tests :: int
  cv_runtime_producer_observed_call_edges :: int
  cv_runtime_functions_execution_asserted :: int
  cv_runtime_functions_not_observed :: int
  cv_runtime_call_observation_available :: bool
  cv_runtime_producer_call_edge_observation_ratio :: go_float
  cv_deterministic_output_digest :: string

section \<open>The loops\<close>

definition start_coverage :: "go_value model_bundle \<Rightarrow> coverage" where
  "start_coverage b = \<lparr>
     cv_snapshot_id = sn_id (bu_snapshot b), cv_artifacts_encountered = int (length (bu_artifacts b)),
     cv_artifacts_inventoried = int (length (bu_artifacts b)), cv_text_artifacts = 0,
     cv_artifacts_syntactically_parsed = 0, cv_artifacts_semantically_parsed = 0, cv_artifacts_excluded = 0,
     cv_artifacts_binary = 0, cv_artifacts_unreadable = 0, cv_nodes_total = 0, cv_symbols_total = 0,
     cv_symbols_with_evidence = 0, cv_public_symbols = 0, cv_public_symbols_documented = 0, cv_edges_total = 0,
     cv_resolved_edges = 0, cv_unresolved_edges = 0, cv_claims_total = 0, cv_claims_with_evidence = 0,
     cv_conflicts_total = 0, cv_secret_findings = 0, cv_high_confidence_secret_findings = 0,
     cv_diagnostics_by_severity = Some fmempty, cv_node_kinds = Some fmempty, cv_edge_kinds = Some fmempty,
     cv_evidence_kinds = Some fmempty, cv_artifact_statuses = Some fmempty, cv_inventory_accounting_ratio = 0,
     cv_syntactic_parse_ratio = 0, cv_semantic_parse_ratio = 0, cv_symbol_evidence_ratio = 0,
     cv_public_documentation_ratio = 0, cv_edge_resolution_ratio = 0, cv_claim_citation_ratio = 0,
     cv_flow_cfg_blocks = 0, cv_flow_cfg_edges = 0, cv_flow_call_edges = 0, cv_flow_call_edges_resolved = 0,
     cv_flow_value_edges = 0, cv_flow_sources = 0, cv_flow_sinks = 0, cv_runtime_traces = 0,
     cv_runtime_producer_authenticated_traces = 0, cv_runtime_assertion_traces = 0,
     cv_runtime_capture_integrity_assertions = 0, cv_runtime_producer_authenticated_tests = 0,
     cv_runtime_producer_observed_call_edges = 0, cv_runtime_functions_execution_asserted = 0,
     cv_runtime_functions_not_observed = 0, cv_runtime_call_observation_available = False,
     cv_runtime_producer_call_edge_observation_ratio = 0, cv_deterministic_output_digest = []\<rparr>"

text \<open>\<open>m[k]++\<close>.\<close>

definition count_up :: "string \<Rightarrow> counts \<Rightarrow> counts" where
  "count_up k = map_option (\<lambda>m. fmupd k ((case fmlookup m k of None \<Rightarrow> 0 | Some n \<Rightarrow> n) + 1) m)"

definition tick :: "bool \<Rightarrow> int \<Rightarrow> int" where
  "tick b n = (if b then n + 1 else n)"

definition excluded_statuses :: "string list" where
  "excluded_statuses = [''excluded'', ''inventory_only'', ''oversized'', ''unsupported'', ''redacted'']"

definition parsed_statuses :: "string list" where
  "parsed_statuses = [''parsed'', ''syntax_parsed'', ''semantic_parsed'']"

definition semantically_parsed :: "artifact \<Rightarrow> bool" where
  "semantically_parsed a \<longleftrightarrow> trim_space (a_status a) = ''semantic_parsed'' \<or>
     (case map_of (a_attributes a) ''semantic_parsed'' of None \<Rightarrow> False | Some s \<Rightarrow> bool_string s)"

text \<open>The second component is \<open>eligibleSyntax\<close>.\<close>

definition artifact_step :: "artifact \<Rightarrow> coverage \<times> int \<Rightarrow> coverage \<times> int" where
  "artifact_step a = (\<lambda>(c, eligible).
     let status = trim_space (a_status a) in
     (c\<lparr>cv_artifact_statuses := count_up status (cv_artifact_statuses c),
        cv_text_artifacts := tick (a_text a) (cv_text_artifacts c),
        cv_artifacts_syntactically_parsed := tick (status \<in> set parsed_statuses) (cv_artifacts_syntactically_parsed c),
        cv_artifacts_semantically_parsed := tick (semantically_parsed a) (cv_artifacts_semantically_parsed c),
        cv_artifacts_excluded := tick (status \<in> set excluded_statuses) (cv_artifacts_excluded c),
        cv_artifacts_binary := tick (status = ''binary'') (cv_artifacts_binary c),
        cv_artifacts_unreadable := tick (status = ''unreadable'') (cv_artifacts_unreadable c)\<rparr>,
      tick (a_text a \<and> status \<notin> set excluded_statuses \<and> status \<noteq> ''unreadable'') eligible))"

definition documented_subjects :: "go_value document list \<Rightarrow> string fset" where
  "documented_subjects ds =
     fold (\<lambda>d ids. if doc_status d = ''rejected'' \<or> doc_status d = ''stale'' then ids
                   else fold finsert (doc_subject_ids d) ids) ds {||}"

record trace_ids =
  ti_runtime_traces :: "string fset"
  ti_producer_authenticated :: "string fset"
  ti_assertion :: "string fset"
  ti_capture_integrity :: "string fset"
  ti_call_event :: "string fset"

definition no_traces :: trace_ids where
  "no_traces = \<lparr>ti_runtime_traces = {||}, ti_producer_authenticated = {||}, ti_assertion = {||}, ti_capture_integrity = {||},
     ti_call_event = {||}\<rparr>"

text \<open>The flag is \<open>RuntimeCallObservationAvailable\<close>.\<close>

definition trace_step :: "go_value node \<Rightarrow> trace_ids \<times> bool \<Rightarrow> trace_ids \<times> bool" where
  "trace_step n = (\<lambda>(t, available).
     if n_kind n \<noteq> ''trace'' then (t, available)
     else let k = attribute_string (n_attributes n) ''trace_id'' in
       if k = [] then (t, available)
       else let t1 = t\<lparr>ti_runtime_traces := finsert k (ti_runtime_traces t)\<rparr> in
         if as_bool (attribute (n_attributes n) ''producer_authenticated'')
         then let t2 = t1\<lparr>ti_producer_authenticated := finsert k (ti_producer_authenticated t1)\<rparr> in
           if as_bool (attribute (n_attributes n) ''call_observation_available'')
           then (t2\<lparr>ti_call_event := finsert k (ti_call_event t2)\<rparr>, True)
           else (t2, available)
         else let t2 = t1\<lparr>ti_assertion := finsert k (ti_assertion t1)\<rparr> in
           if as_bool (attribute (n_attributes n) ''capture_integrity_authenticated'')
           then (t2\<lparr>ti_capture_integrity := finsert k (ti_capture_integrity t2)\<rparr>, available)
           else (t2, available))"

definition observed_call :: "(string \<Rightarrow> string) \<Rightarrow> bool \<Rightarrow> string fset \<Rightarrow> go_value edge \<Rightarrow> bool" where
  "observed_call fold_case available call_traces e \<longleftrightarrow>
     normalize_resolution fold_case (e_resolution e) \<noteq> ''unresolved'' \<and> as_bool (attribute (e_attributes e) ''observed'') \<and>
     available \<and> string_values_intersect (attribute (e_attributes e) ''observed_trace_ids'') call_traces"

definition flow_step :: "(string \<Rightarrow> string) \<Rightarrow> string fset \<Rightarrow> go_value edge \<Rightarrow> coverage \<Rightarrow> coverage" where
  "flow_step fold_case call_traces e c =
     (if e_kind e = ''calls'' then
        c\<lparr>cv_flow_call_edges := cv_flow_call_edges c + 1,
          cv_flow_call_edges_resolved :=
            tick (normalize_resolution fold_case (e_resolution e) \<noteq> ''unresolved'') (cv_flow_call_edges_resolved c),
          cv_runtime_producer_observed_call_edges :=
            tick (observed_call fold_case (cv_runtime_call_observation_available c) call_traces e)
              (cv_runtime_producer_observed_call_edges c)\<rparr>
      else if e_kind e \<in> {''flows_to'', ''binds_to'', ''returns_to'', ''sanitizes''} then
        c\<lparr>cv_flow_value_edges := cv_flow_value_edges c + 1\<rparr>
      else if e_kind e = ''precedes'' then c\<lparr>cv_flow_cfg_edges := cv_flow_cfg_edges c + 1\<rparr>
      else c)"

definition authenticated_test :: "string fset \<Rightarrow> go_value evidence \<Rightarrow> bool" where
  "authenticated_test producers e \<longleftrightarrow> evd_kind e = ''test_result'' \<and> evd_confidence e = 1 \<and>
     attribute (evd_attributes e) ''producer_authenticated'' = GoBool True \<and>
     valid_runtime_test_status (attribute_string (evd_attributes e) ''status'') \<and>
     string_value_in_set (attribute (evd_attributes e) ''trace_id'') producers"

definition claim_step :: "go_value claim \<Rightarrow> coverage \<Rightarrow> coverage" where
  "claim_step l c = c\<lparr>cv_claims_total := cv_claims_total c + 1,
     cv_claims_with_evidence := tick (cl_evidence_ids l \<noteq> []) (cv_claims_with_evidence c)\<rparr>"

definition is_high_confidence_secret :: "(string \<Rightarrow> go_float) \<Rightarrow> go_value node \<Rightarrow> bool" where
  "is_high_confidence_secret parse_float n \<longleftrightarrow> n_kind n = ''secret'' \<and>
     (Finite (8106479329266893 / 9007199254740992) \<le> attribute_float parse_float (n_attributes n) ''confidence'' \<or>
      attribute_string (n_attributes n) ''confidence_class'' = ''high'')"

text \<open>The \<open>switch\<close> on the kind of a node.\<close>

definition node_kind_step :: "string fset \<Rightarrow> go_value node \<Rightarrow> coverage \<Rightarrow> coverage" where
  "node_kind_step assertions n c =
     (if n_kind n = ''cfg_block'' then c\<lparr>cv_flow_cfg_blocks := cv_flow_cfg_blocks c + 1\<rparr>
      else if n_kind n = ''value'' then
        (let role = attribute_string (n_attributes n) ''flow_role'' in
         c\<lparr>cv_flow_sources := tick (role = ''source'') (cv_flow_sources c), cv_flow_sinks := tick (role = ''sink'') (cv_flow_sinks c)\<rparr>)
      else if n_kind n \<in> {''function'', ''method'', ''constructor'', ''test''} then
        c\<lparr>cv_runtime_functions_execution_asserted :=
            tick (string_values_intersect (attribute (n_attributes n) ''execution_asserted_trace_ids'') assertions)
              (cv_runtime_functions_execution_asserted c),
          cv_runtime_functions_not_observed :=
            tick (string_values_intersect (attribute (n_attributes n) ''execution_not_observed_trace_ids'') assertions)
              (cv_runtime_functions_not_observed c)\<rparr>
      else c)"

definition public_symbol :: "go_value node \<Rightarrow> bool" where
  "public_symbol n \<longleftrightarrow> n_public_surface n \<or> n_visibility n = ''public'' \<or> n_visibility n = ''exported''"

definition documented_symbol :: "string fset \<Rightarrow> go_value node \<Rightarrow> bool" where
  "documented_symbol documented n \<longleftrightarrow> n_id n |\<in>| documented \<or>
     \<not> blank (attribute_string (n_attributes n) ''docstring'') \<or> \<not> blank (attribute_string (n_attributes n) ''documentation'')"

definition symbol_step :: "string fset \<Rightarrow> go_value node \<Rightarrow> coverage \<Rightarrow> coverage" where
  "symbol_step documented n c =
     (if \<not> is_symbol_kind (n_kind n) then c
      else c\<lparr>cv_symbols_total := cv_symbols_total c + 1,
             cv_symbols_with_evidence := tick (n_evidence_ids n \<noteq> []) (cv_symbols_with_evidence c),
             cv_public_symbols := tick (public_symbol n) (cv_public_symbols c),
             cv_public_symbols_documented := tick (public_symbol n \<and> documented_symbol documented n) (cv_public_symbols_documented c)\<rparr>)"

definition node_step ::
  "(string \<Rightarrow> go_float) \<Rightarrow> string fset \<Rightarrow> string fset \<Rightarrow> go_value node \<Rightarrow> coverage \<Rightarrow> coverage" where
  "node_step parse_float assertions documented n c =
     (let c1 = node_kind_step assertions n (c\<lparr>cv_nodes_total := cv_nodes_total c + 1,
                 cv_node_kinds := count_up (n_kind n) (cv_node_kinds c)\<rparr>);
          c2 = c1\<lparr>cv_secret_findings := tick (n_kind n = ''secret'') (cv_secret_findings c1),
                 cv_high_confidence_secret_findings :=
                   tick (is_high_confidence_secret parse_float n) (cv_high_confidence_secret_findings c1)\<rparr>
      in symbol_step documented n c2)"

definition edge_step :: "(string \<Rightarrow> string) \<Rightarrow> go_value edge \<Rightarrow> coverage \<Rightarrow> coverage" where
  "edge_step fold_case e c = c\<lparr>cv_edges_total := cv_edges_total c + 1,
     cv_edge_kinds := count_up (e_kind e) (cv_edge_kinds c),
     cv_resolved_edges := tick (is_resolved_resolution fold_case (e_resolution e)) (cv_resolved_edges c),
     cv_unresolved_edges := tick (\<not> is_resolved_resolution fold_case (e_resolution e)) (cv_unresolved_edges c)\<rparr>"

section \<open>Coverage of a bundle\<close>

record coverage_env =
  ce_fold_case :: "string \<Rightarrow> string"
  ce_parse_float :: "string \<Rightarrow> go_float"
  ce_clone :: "go_value model_bundle \<Rightarrow> go_value model_bundle option"
  ce_hash :: "go_value model_bundle \<Rightarrow> string"

text \<open>
  \<open>ce_clone\<close> encodes a bundle to JSON and decodes it again, \<open>ce_hash\<close> is the SHA-256 digest of the JSON text of a
  bundle, or empty when there is none. \<open>CanonicalDigest\<close>:
\<close>

definition canonical_digest :: "coverage_env \<Rightarrow> go_value model_bundle \<Rightarrow> string" where
  "canonical_digest env b =
     (case ce_clone env b of None \<Rightarrow> [] | Some out \<Rightarrow> ce_hash env (canonical_bundle (ce_fold_case env) out))"

definition count_artifacts :: "go_value model_bundle \<Rightarrow> coverage \<times> int" where
  "count_artifacts b = fold artifact_step (bu_artifacts b) (start_coverage b, 0)"

definition scan_traces :: "go_value model_bundle \<Rightarrow> trace_ids \<times> bool" where
  "scan_traces b = fold trace_step (bu_nodes b) (no_traces, False)"

definition count_records :: "coverage_env \<Rightarrow> go_value model_bundle \<Rightarrow> trace_ids \<Rightarrow> coverage \<Rightarrow> coverage" where
  "count_records env b t c =
     (let c1 = fold (flow_step (ce_fold_case env) (ti_call_event t)) (bu_edges b) c;
          c2 = fold (\<lambda>e c. c\<lparr>cv_runtime_producer_authenticated_tests :=
                      tick (authenticated_test (ti_producer_authenticated t) e) (cv_runtime_producer_authenticated_tests c)\<rparr>)
                 (bu_evidence b) c1;
          c3 = fold claim_step (bu_claims b) c2
      in fold (node_step (ce_parse_float env) (ti_assertion t) (documented_subjects (bu_documents b))) (bu_nodes b) c3)"

definition count_traces :: "trace_ids \<Rightarrow> coverage \<Rightarrow> coverage" where
  "count_traces t c =
     (let c1 = c\<lparr>cv_runtime_traces := int (fcard (ti_runtime_traces t)),
                 cv_runtime_producer_authenticated_traces := int (fcard (ti_producer_authenticated t)),
                 cv_runtime_assertion_traces := int (fcard (ti_assertion t)),
                 cv_runtime_capture_integrity_assertions := int (fcard (ti_capture_integrity t))\<rparr>
      in if cv_runtime_call_observation_available c1 \<and> 0 < cv_flow_call_edges_resolved c1
         then c1\<lparr>cv_runtime_producer_call_edge_observation_ratio :=
                ratio (cv_runtime_producer_observed_call_edges c1) (cv_flow_call_edges_resolved c1)\<rparr>
         else c1)"

definition count_kinds :: "coverage_env \<Rightarrow> go_value model_bundle \<Rightarrow> coverage \<Rightarrow> coverage" where
  "count_kinds env b c =
     (let c1 = fold (edge_step (ce_fold_case env)) (bu_edges b) c;
          c2 = fold (\<lambda>e c. c\<lparr>cv_evidence_kinds := count_up (evd_kind e) (cv_evidence_kinds c)\<rparr>) (bu_evidence b) c1;
          c3 = fold (\<lambda>d c. c\<lparr>cv_diagnostics_by_severity := count_up (dg_severity d) (cv_diagnostics_by_severity c)\<rparr>)
                 (bu_diagnostics b) c2
      in c3\<lparr>cv_conflicts_total := int (length (bu_conflicts b))\<rparr>)"

definition set_ratios :: "int \<Rightarrow> coverage \<Rightarrow> coverage" where
  "set_ratios eligible c = c\<lparr>
     cv_inventory_accounting_ratio := ratio (cv_artifacts_inventoried c) (cv_artifacts_encountered c),
     cv_syntactic_parse_ratio := ratio (cv_artifacts_syntactically_parsed c) eligible,
     cv_semantic_parse_ratio := ratio (cv_artifacts_semantically_parsed c) eligible,
     cv_symbol_evidence_ratio := ratio (cv_symbols_with_evidence c) (cv_symbols_total c),
     cv_public_documentation_ratio := ratio (cv_public_symbols_documented c) (cv_public_symbols c),
     cv_edge_resolution_ratio := ratio (cv_resolved_edges c) (cv_edges_total c),
     cv_claim_citation_ratio := ratio (cv_claims_with_evidence c) (cv_claims_total c)\<rparr>"

definition build_coverage :: "coverage_env \<Rightarrow> go_value model_bundle \<Rightarrow> coverage" where
  "build_coverage env b =
     (let (c1, eligible) = count_artifacts b; (t, available) = scan_traces b;
          c2 = count_records env b t (c1\<lparr>cv_runtime_call_observation_available := available\<rparr>);
          c3 = set_ratios eligible (count_kinds env b (count_traces t c2))
      in c3\<lparr>cv_deterministic_output_digest := canonical_digest env b\<rparr>)"

end
