(* ===== verification/CoverageRatio.thy ===== *)
theory CoverageRatio
  imports Coverage
begin

text \<open>
  The ratios of \<open>coverage.go\<close> in binary64: the quotient of a part and a whole lies between 0 and 1, and
  rounding never turns an incomplete ratio into 1 as long as the whole is at most \<open>2^53\<close>.
\<close>

lemma nat_log2_bounds: "0 < n \<Longrightarrow> 2 ^ nat_log2 n \<le> n \<and> n < 2 ^ Suc (nat_log2 n)"
proof (induction n rule: nat_log2.induct)
  case (1 n)
  show ?case
  proof (cases "n < 2")
    case False
    then have "2 ^ nat_log2 (n div 2) \<le> n div 2 \<and> n div 2 < 2 ^ Suc (nat_log2 (n div 2))" using 1 by simp
    moreover have "nat_log2 n = Suc (nat_log2 (n div 2))" using False by (subst nat_log2.simps) simp
    ultimately show ?thesis by auto
  qed (use 1 in \<open>simp add: nat_log2.simps\<close>)
qed

lemma pow2_add: "pow2 (a + b) = pow2 a * pow2 b"
  by (simp add: pow2_def power_int_add)

lemma pow2_pos [simp]: "0 < pow2 e"
  by (simp add: pow2_def)

lemma pow2_less_iff [simp]: "pow2 a < pow2 b \<longleftrightarrow> a < b"
  by (auto simp: pow2_def power_int_strict_increasing intro: ccontr)
     (metis linorder_not_less one_le_numeral power_int_increasing)

lemma pow2_of_nat: "pow2 (int n) = 2 ^ n"
  by (simp add: pow2_def)

lemma nat_log2_pow2: "0 < n \<Longrightarrow> pow2 (int (nat_log2 n)) \<le> of_nat n \<and> of_nat n < pow2 (int (nat_log2 n) + 1)"
  using nat_log2_bounds [of n] of_nat_le_iff [of "2 ^ nat_log2 n" n, where 'a = rat] of_nat_less_iff [of n "2 ^ Suc (nat_log2 n)", where 'a = rat]
  by (auto simp: pow2_add pow2_of_nat) (simp add: pow2_def)

lemma log2_quot_bounds:
  assumes "0 < n" "0 < d"
  shows "pow2 (log2_quot n d) \<le> of_nat n / of_nat d \<and> of_nat n / of_nat d < pow2 (log2_quot n d + 1)"
proof -
  define e where "e = int (nat_log2 n) - int (nat_log2 d)"
  have n: "pow2 (int (nat_log2 n)) \<le> of_nat n" "of_nat n < pow2 (int (nat_log2 n) + 1)"
    and d: "pow2 (int (nat_log2 d)) \<le> of_nat d" "of_nat d < pow2 (int (nat_log2 d) + 1)"
    using nat_log2_pow2 assms by blast+
  have d0: "(0::rat) < of_nat d" using assms by simp
  have "of_nat n < pow2 (e + 1) * pow2 (int (nat_log2 d))"
    using n(2) by (simp add: e_def flip: pow2_add)
  also have "\<dots> \<le> pow2 (e + 1) * of_nat d" using d(1) by (simp add: mult_left_mono less_imp_le)
  finally have up: "of_nat n < pow2 (e + 1) * (of_nat d :: rat)" .
  have "pow2 (e - 1) * of_nat d \<le> pow2 (e - 1) * pow2 (int (nat_log2 d) + 1)"
    using d(2) by (simp add: mult_left_mono less_imp_le)
  also have "\<dots> = pow2 (int (nat_log2 n))" by (simp add: e_def flip: pow2_add)
  also have "\<dots> \<le> of_nat n" by (rule n(1))
  finally have low: "pow2 (e - 1) * of_nat d \<le> (of_nat n :: rat)" .
  show ?thesis using up low d0 by (simp add: log2_quot_def Let_def field_simps flip: e_def)
qed

lemma round_half_even_le: "q \<le> of_int k \<Longrightarrow> round_half_even q \<le> k"
  by (auto simp: round_half_even_def Let_def floor_le_iff le_floor_iff split: if_splits)

lemma round_half_even_ge: "of_int k \<le> q \<Longrightarrow> k \<le> round_half_even q"
  by (simp add: round_half_even_def Let_def le_floor_iff [symmetric])

lemma round_half_even_of_int [simp]: "round_half_even (of_int k) = k"
  by (simp add: round_half_even_def)

text \<open>The mantissa of a quotient has 53 bits.\<close>

definition mantissa :: "nat \<Rightarrow> nat \<Rightarrow> rat" where
  "mantissa n d = of_nat n / of_nat d * pow2 (52 - log2_quot n d)"

lemma mantissa_bounds:
  assumes "0 < n" "0 < d"
  shows "2 ^ 52 \<le> mantissa n d" "mantissa n d < 2 ^ 53"
proof -
  let ?e = "log2_quot n d"
  note b = log2_quot_bounds [OF assms]
  have "pow2 ?e * pow2 (52 - ?e) \<le> mantissa n d"
    unfolding mantissa_def using b by (intro mult_right_mono) (auto simp: less_imp_le)
  moreover have "mantissa n d < pow2 (?e + 1) * pow2 (52 - ?e)"
    unfolding mantissa_def using b by (intro mult_strict_right_mono) auto
  ultimately show "2 ^ 52 \<le> mantissa n d" "mantissa n d < 2 ^ 53"
    by (simp_all add: flip: pow2_add) (simp_all add: pow2_def)
qed

lemma float64_quot_pos:
  "0 < n \<Longrightarrow> float64_quot n d = Finite (of_int (round_half_even (mantissa n d)) * pow2 (log2_quot n d - 52))"
  by (simp add: float64_quot_def mantissa_def Let_def)

lemma float64_quot_self: "0 < n \<Longrightarrow> float64_quot n n = 1"
proof -
  assume n: "0 < n"
  then have "pow2 (log2_quot n n) \<le> pow2 0" "pow2 0 < pow2 (log2_quot n n + 1)"
    using log2_quot_bounds [OF n n] by (simp_all add: pow2_def)
  then have e: "log2_quot n n = 0"
    by (metis linorder_not_less pow2_less_iff zle_add1_eq_le add.commute order_antisym)
  have "mantissa n n = of_int (2 ^ 52)" using n by (simp add: mantissa_def e) (simp add: pow2_def)
  then show ?thesis using n by (simp only: float64_quot_pos round_half_even_of_int e) (simp add: pow2_def one_go_float_def)
qed

lemma float64_quot_less:
  assumes "0 < n" "n < d" "d \<le> 2 ^ 53"
  shows "\<exists>q. float64_quot n d = Finite q \<and> 0 < q \<and> q < 1"
proof -
  let ?e = "log2_quot n d" and ?r = "round_half_even (mantissa n d)"
  have d: "0 < d" using assms by simp
  have "of_nat n / of_nat d < (1 :: rat)" using assms by simp
  then have "pow2 ?e < pow2 0" using log2_quot_bounds [OF assms(1) d] by (simp add: pow2_def)
  then have e: "?e < 0" by simp
  have r: "2 ^ 52 \<le> ?r" "?r \<le> 2 ^ 53"
    using mantissa_bounds [OF assms(1) d] by (auto intro!: round_half_even_ge round_half_even_le)
  have "of_int ?r * pow2 (?e - 52) < 1"
  proof (cases "?e = -1")
    case True
    have "of_nat n / of_nat d \<le> 1 - 1 / (of_nat d :: rat)"
      using assms d by (simp add: field_simps flip: of_nat_Suc)
    moreover have "(2 :: rat) ^ 53 / of_nat d \<ge> 1" using assms(3) d
      by (metis le_divide_eq_1_pos of_nat_0_less_iff of_nat_le_iff of_nat_numeral of_nat_power)
    ultimately have "of_nat n / of_nat d * 2 ^ 53 \<le> (2 :: rat) ^ 53 - 1"
      using mult_right_mono [of "of_nat n / of_nat d" "1 - 1 / of_nat d" "(2 :: rat) ^ 53"] by (simp add: left_diff_distrib) linarith
    then have "mantissa n d \<le> of_int (2 ^ 53 - 1)"
      unfolding mantissa_def True by (simp add: pow2_def)
    then have "?r \<le> 2 ^ 53 - 1" by (rule round_half_even_le)
    then have "(of_int ?r :: rat) < of_int (2 ^ 53)" unfolding of_int_less_iff by simp
    then show ?thesis unfolding True by (simp add: pow2_def power_int_minus field_simps)
  next
    case False
    then have "pow2 (?e - 52) < pow2 (- 53)" using e by simp
    then have "of_int ?r * pow2 (?e - 52) < of_int ?r * pow2 (- 53)" using r by (intro mult_strict_left_mono) auto
    also have "\<dots> \<le> of_int (2 ^ 53) * pow2 (- 53)"
      using r(2) by (intro mult_right_mono) (simp_all only: of_int_le_iff pow2_pos less_imp_le)
    also have "\<dots> = 1" by (simp add: pow2_def power_int_minus)
    finally show ?thesis .
  qed
  moreover have "0 < of_int ?r * pow2 (?e - 52)" using r by simp
  ultimately show ?thesis using assms by (simp add: float64_quot_pos)
qed

lemma ratio_part:
  assumes "0 \<le> n" "n \<le> d" "d \<le> 2 ^ 53"
  shows "0 \<le> ratio n d \<and> ratio n d \<le> 1 \<and> (ratio n d = 1 \<longleftrightarrow> n = d)"
proof (cases "n = d \<or> n = 0")
  case True
  then show ?thesis
    using assms float64_quot_self [of "nat d"]
    by (auto simp: ratio_def float64_quot_def zero_go_float_def one_go_float_def)
next
  case False
  then obtain q where "float64_quot (nat n) (nat d) = Finite q" "0 < q" "q < 1"
    using float64_quot_less [of "nat n" "nat d"] assms by (auto simp: nat_le_iff)
  then show ?thesis using False assms by (auto simp: ratio_def zero_go_float_def one_go_float_def)
qed

end
