(* ===== verification/CoverageTheorems.thy ===== *)
theory CoverageTheorems
  imports CoverageRatio Canonical
begin

text \<open>
  What coverage means: every ratio compares a set of records with a larger one of which it is a part, lies
  between 0 and 1 and is 1 exactly when nothing is missing, except the two parse ratios, which can exceed 1;
  and the whole record depends only on the multiset of records of a bundle, not on their order.
\<close>

section \<open>The steps commute\<close>

lemma count_up_commute: "count_up j (count_up k m) = count_up k (count_up j m)"
  by (cases m; cases "j = k") (auto simp: count_up_def fmupd_reorder_neq split: option.splits)

lemma tick_commute: "tick a (tick b n) = tick b (tick a n)"
  by (simp add: tick_def)

lemmas step_commute = count_up_commute tick_commute finsert_commute

lemma artifact_step_commute: "artifact_step a \<circ> artifact_step b = artifact_step b \<circ> artifact_step a"
  by (auto simp: fun_eq_iff artifact_step_def Let_def step_commute)

definition finsert_if :: "bool \<Rightarrow> 'a \<Rightarrow> 'a fset \<Rightarrow> 'a fset" where
  "finsert_if b x s = (if b then finsert x s else s)"

lemma finsert_if_commute: "finsert_if a x (finsert_if b y s) = finsert_if b y (finsert_if a x s)"
  by (simp add: finsert_if_def finsert_commute)

text \<open>The trace a node stands for, and what it claims.\<close>

definition trace_id :: "go_value node \<Rightarrow> string" where
  "trace_id n = (if n_kind n = ''trace'' then attribute_string (n_attributes n) ''trace_id'' else [])"

definition authenticated :: "go_value node \<Rightarrow> bool" where
  "authenticated n \<longleftrightarrow> as_bool (attribute (n_attributes n) ''producer_authenticated'')"

definition add_trace :: "bool \<Rightarrow> bool \<Rightarrow> bool \<Rightarrow> bool \<Rightarrow> bool \<Rightarrow> string \<Rightarrow> trace_ids \<Rightarrow> trace_ids" where
  "add_trace runtime producer asserted integrity call k t = t\<lparr>
     ti_runtime_traces := finsert_if runtime k (ti_runtime_traces t),
     ti_producer_authenticated := finsert_if producer k (ti_producer_authenticated t),
     ti_assertion := finsert_if asserted k (ti_assertion t),
     ti_capture_integrity := finsert_if integrity k (ti_capture_integrity t),
     ti_call_event := finsert_if call k (ti_call_event t)\<rparr>"

lemma add_trace_commute:
  "add_trace a1 a2 a3 a4 a5 j (add_trace b1 b2 b3 b4 b5 k t) = add_trace b1 b2 b3 b4 b5 k (add_trace a1 a2 a3 a4 a5 j t)"
  by (cases t) (simp add: add_trace_def, intro conjI finsert_if_commute)

abbreviation integrity_flag :: "go_value node \<Rightarrow> bool" where
  "integrity_flag n \<equiv> as_bool (attribute (n_attributes n) ''capture_integrity_authenticated'')"

abbreviation call_flag :: "go_value node \<Rightarrow> bool" where
  "call_flag n \<equiv> as_bool (attribute (n_attributes n) ''call_observation_available'')"

lemma trace_step_adds:
  "trace_step n (t, available) =
     (add_trace (trace_id n \<noteq> []) (trace_id n \<noteq> [] \<and> authenticated n) (trace_id n \<noteq> [] \<and> \<not> authenticated n)
        (trace_id n \<noteq> [] \<and> \<not> authenticated n \<and> integrity_flag n) (trace_id n \<noteq> [] \<and> authenticated n \<and> call_flag n)
        (trace_id n) t,
      available \<or> trace_id n \<noteq> [] \<and> authenticated n \<and> call_flag n)"
  by (simp add: trace_step_def trace_id_def authenticated_def finsert_if_def add_trace_def Let_def)

lemma trace_step_commute: "trace_step m \<circ> trace_step n = trace_step n \<circ> trace_step m"
proof
  fix s :: "trace_ids \<times> bool"
  obtain t available where s: "s = (t, available)" by (cases s)
  show "(trace_step m \<circ> trace_step n) s = (trace_step n \<circ> trace_step m) s"
    unfolding s comp_apply trace_step_adds prod.inject by (rule conjI [OF add_trace_commute]) blast
qed

lemma tick_simps [simp]: "tick True n = n + 1" "tick False n = n"
  by (simp_all add: tick_def)

lemma flow_step_ticks:
  "flow_step fc ts e c = c\<lparr>
     cv_flow_call_edges := tick (e_kind e = ''calls'') (cv_flow_call_edges c),
     cv_flow_call_edges_resolved :=
       tick (e_kind e = ''calls'' \<and> normalize_resolution fc (e_resolution e) \<noteq> ''unresolved'') (cv_flow_call_edges_resolved c),
     cv_runtime_producer_observed_call_edges :=
       tick (e_kind e = ''calls'' \<and> observed_call fc (cv_runtime_call_observation_available c) ts e)
         (cv_runtime_producer_observed_call_edges c),
     cv_flow_value_edges := tick (e_kind e \<in> {''flows_to'', ''binds_to'', ''returns_to'', ''sanitizes''}) (cv_flow_value_edges c),
     cv_flow_cfg_edges := tick (e_kind e = ''precedes'') (cv_flow_cfg_edges c)\<rparr>"
  by (cases "e_kind e = ''calls''"; cases "e_kind e \<in> {''flows_to'', ''binds_to'', ''returns_to'', ''sanitizes''}")
    (auto simp: flow_step_def)

lemma flow_step_commute: "flow_step fc ts e \<circ> flow_step fc ts f = flow_step fc ts f \<circ> flow_step fc ts e"
  by (simp add: fun_eq_iff flow_step_ticks step_commute)

lemma claim_step_commute: "claim_step k \<circ> claim_step l = claim_step l \<circ> claim_step k"
  by (auto simp: fun_eq_iff claim_step_def step_commute)

lemma edge_step_commute: "edge_step fc e \<circ> edge_step fc f = edge_step fc f \<circ> edge_step fc e"
  by (auto simp: fun_eq_iff edge_step_def step_commute)

text \<open>The counters a node advances, without the case distinctions.\<close>

lemma node_step_ticks:
  "node_step pf as ds n c = c\<lparr>
     cv_nodes_total := cv_nodes_total c + 1, cv_node_kinds := count_up (n_kind n) (cv_node_kinds c),
     cv_flow_cfg_blocks := tick (n_kind n = ''cfg_block'') (cv_flow_cfg_blocks c),
     cv_flow_sources := tick (n_kind n = ''value'' \<and> attribute_string (n_attributes n) ''flow_role'' = ''source'') (cv_flow_sources c),
     cv_flow_sinks := tick (n_kind n = ''value'' \<and> attribute_string (n_attributes n) ''flow_role'' = ''sink'') (cv_flow_sinks c),
     cv_runtime_functions_execution_asserted :=
       tick (n_kind n \<in> {''function'', ''method'', ''constructor'', ''test''} \<and>
         string_values_intersect (attribute (n_attributes n) ''execution_asserted_trace_ids'') as)
         (cv_runtime_functions_execution_asserted c),
     cv_runtime_functions_not_observed :=
       tick (n_kind n \<in> {''function'', ''method'', ''constructor'', ''test''} \<and>
         string_values_intersect (attribute (n_attributes n) ''execution_not_observed_trace_ids'') as)
         (cv_runtime_functions_not_observed c),
     cv_secret_findings := tick (n_kind n = ''secret'') (cv_secret_findings c),
     cv_high_confidence_secret_findings := tick (is_high_confidence_secret pf n) (cv_high_confidence_secret_findings c),
     cv_symbols_total := tick (is_symbol_kind (n_kind n)) (cv_symbols_total c),
     cv_symbols_with_evidence := tick (is_symbol_kind (n_kind n) \<and> n_evidence_ids n \<noteq> []) (cv_symbols_with_evidence c),
     cv_public_symbols := tick (is_symbol_kind (n_kind n) \<and> public_symbol n) (cv_public_symbols c),
     cv_public_symbols_documented :=
       tick (is_symbol_kind (n_kind n) \<and> public_symbol n \<and> documented_symbol ds n) (cv_public_symbols_documented c)\<rparr>"
proof -
  have kinds: "n_kind n = ''cfg_block'' \<Longrightarrow> n_kind n \<noteq> ''value''" "n_kind n \<in> {''function'', ''method'', ''constructor'', ''test''} \<Longrightarrow>
      n_kind n \<noteq> ''cfg_block'' \<and> n_kind n \<noteq> ''value''"
    by auto
  have kind: "node_kind_step as n c = c\<lparr>
      cv_flow_cfg_blocks := tick (n_kind n = ''cfg_block'') (cv_flow_cfg_blocks c),
      cv_flow_sources := tick (n_kind n = ''value'' \<and> attribute_string (n_attributes n) ''flow_role'' = ''source'') (cv_flow_sources c),
      cv_flow_sinks := tick (n_kind n = ''value'' \<and> attribute_string (n_attributes n) ''flow_role'' = ''sink'') (cv_flow_sinks c),
      cv_runtime_functions_execution_asserted :=
        tick (n_kind n \<in> {''function'', ''method'', ''constructor'', ''test''} \<and>
          string_values_intersect (attribute (n_attributes n) ''execution_asserted_trace_ids'') as)
          (cv_runtime_functions_execution_asserted c),
      cv_runtime_functions_not_observed :=
        tick (n_kind n \<in> {''function'', ''method'', ''constructor'', ''test''} \<and>
          string_values_intersect (attribute (n_attributes n) ''execution_not_observed_trace_ids'') as)
          (cv_runtime_functions_not_observed c)\<rparr>" for c
    using kinds by (simp add: node_kind_step_def Let_def)
  have symbol: "symbol_step ds n c = c\<lparr>
      cv_symbols_total := tick (is_symbol_kind (n_kind n)) (cv_symbols_total c),
      cv_symbols_with_evidence := tick (is_symbol_kind (n_kind n) \<and> n_evidence_ids n \<noteq> []) (cv_symbols_with_evidence c),
      cv_public_symbols := tick (is_symbol_kind (n_kind n) \<and> public_symbol n) (cv_public_symbols c),
      cv_public_symbols_documented :=
        tick (is_symbol_kind (n_kind n) \<and> public_symbol n \<and> documented_symbol ds n) (cv_public_symbols_documented c)\<rparr>" for c
    by (simp add: symbol_step_def)
  show ?thesis unfolding node_step_def kind symbol Let_def by simp
qed

lemma node_step_commute: "node_step pf as ds m \<circ> node_step pf as ds n = node_step pf as ds n \<circ> node_step pf as ds m"
  by (simp add: fun_eq_iff node_step_ticks step_commute)

lemma documented_subjects_set:
  "fset (documented_subjects ds) = (\<Union>d \<in> {d \<in> set ds. doc_status d \<noteq> ''rejected'' \<and> doc_status d \<noteq> ''stale''}. set (doc_subject_ids d))"
proof -
  have ins: "fset (fold finsert xs s) = set xs \<union> fset s" for xs s
    by (induction xs arbitrary: s) auto
  have "fset (fold (\<lambda>d ids. if doc_status d = ''rejected'' \<or> doc_status d = ''stale'' then ids
          else fold finsert (doc_subject_ids d) ids) ds s) =
      fset s \<union> (\<Union>d \<in> {d \<in> set ds. doc_status d \<noteq> ''rejected'' \<and> doc_status d \<noteq> ''stale''}. set (doc_subject_ids d))" for s
    by (induction ds arbitrary: s) (auto simp: ins)
  then show ?thesis by (simp add: documented_subjects_def)
qed

lemma documented_subjects_cong:
  "set xs = set ys \<Longrightarrow> documented_subjects xs = documented_subjects ys"
  by (simp add: fset_inject [symmetric] documented_subjects_set)

section \<open>Order\<close>

text \<open>The same records of every family, in any order.\<close>

definition same_families :: "'v model_bundle \<Rightarrow> 'v model_bundle \<Rightarrow> bool" where
  "same_families b c \<longleftrightarrow>
     mset (bu_artifacts b) = mset (bu_artifacts c) \<and> mset (bu_nodes b) = mset (bu_nodes c) \<and>
     mset (bu_edges b) = mset (bu_edges c) \<and> mset (bu_evidence b) = mset (bu_evidence c) \<and>
     mset (bu_diagnostics b) = mset (bu_diagnostics c) \<and> mset (bu_conflicts b) = mset (bu_conflicts c) \<and>
     mset (bu_documents b) = mset (bu_documents c) \<and> mset (bu_claims b) = mset (bu_claims c)"

lemma fold_order:
  "(\<And>x y. f x \<circ> f y = f y \<circ> f x) \<Longrightarrow> mset xs = mset ys \<Longrightarrow> fold f xs = fold f ys"
  by (rule fold_multiset_equiv) auto

text \<open>Coverage without the digest.\<close>

abbreviation undigested :: "coverage_env \<Rightarrow> go_value model_bundle \<Rightarrow> coverage" where
  "undigested env b \<equiv> (build_coverage env b)\<lparr>cv_deterministic_output_digest := []\<rparr>"

lemma undigested_eqD:
  "undigested env b = undigested env c \<Longrightarrow> canonical_digest env b = canonical_digest env c \<Longrightarrow>
   build_coverage env b = build_coverage env c"
proof -
  assume "undigested env b = undigested env c" "canonical_digest env b = canonical_digest env c"
  moreover have "build_coverage env x = (undigested env x)\<lparr>cv_deterministic_output_digest := canonical_digest env x\<rparr>" for x
    by (simp add: build_coverage_def split_beta Let_def)
  ultimately show ?thesis by metis
qed

lemma build_coverage_cong:
  assumes same: "same_families b c" and snap: "sn_id (bu_snapshot b) = sn_id (bu_snapshot c)"
  shows "undigested env b = undigested env c"
proof -
  note m = same [unfolded same_families_def]
  have start: "start_coverage b = start_coverage c"
    using m snap by (simp add: start_coverage_def) (metis size_mset)
  have "fold artifact_step (bu_artifacts b) = fold artifact_step (bu_artifacts c)"
    using m by (intro fold_order artifact_step_commute) simp
  then have art: "count_artifacts b = count_artifacts c" by (simp add: count_artifacts_def start)
  have "fold trace_step (bu_nodes b) = fold trace_step (bu_nodes c)"
    using m by (intro fold_order trace_step_commute) simp
  then have tr: "scan_traces b = scan_traces c" by (simp add: scan_traces_def)
  have edges: "fold (flow_step fc ts) (bu_edges b) = fold (flow_step fc ts) (bu_edges c)"
      "fold (edge_step fc) (bu_edges b) = fold (edge_step fc) (bu_edges c)" for fc ts
    using m by (auto intro!: fold_order flow_step_commute edge_step_commute)
  have evs: "fold (\<lambda>e c. c\<lparr>cv_runtime_producer_authenticated_tests := tick (P e) (cv_runtime_producer_authenticated_tests c)\<rparr>) (bu_evidence b) =
        fold (\<lambda>e c. c\<lparr>cv_runtime_producer_authenticated_tests := tick (P e) (cv_runtime_producer_authenticated_tests c)\<rparr>) (bu_evidence c)"
      "fold (\<lambda>e c. c\<lparr>cv_evidence_kinds := count_up (evd_kind e) (cv_evidence_kinds c)\<rparr>) (bu_evidence b) =
        fold (\<lambda>e c :: coverage. c\<lparr>cv_evidence_kinds := count_up (evd_kind e) (cv_evidence_kinds c)\<rparr>) (bu_evidence c)" for P
    using m by - (rule fold_order; simp add: fun_eq_iff step_commute)+
  have diags: "fold (\<lambda>d c. c\<lparr>cv_diagnostics_by_severity := count_up (dg_severity d) (cv_diagnostics_by_severity c)\<rparr>) (bu_diagnostics b) =
      fold (\<lambda>d c :: coverage. c\<lparr>cv_diagnostics_by_severity := count_up (dg_severity d) (cv_diagnostics_by_severity c)\<rparr>) (bu_diagnostics c)"
    using m by - (rule fold_order; simp add: fun_eq_iff step_commute)
  have "fold claim_step (bu_claims b) = fold claim_step (bu_claims c)"
    using m by (intro fold_order claim_step_commute) simp
  moreover have "documented_subjects (bu_documents b) = documented_subjects (bu_documents c)"
    using m by (intro documented_subjects_cong mset_eq_setD) simp
  moreover have "fold (node_step pf as ds) (bu_nodes b) = fold (node_step pf as ds) (bu_nodes c)" for pf as ds
    using m by (intro fold_order node_step_commute) simp
  ultimately have rec: "count_records env b t cv = count_records env c t cv" for t cv
    by (simp add: count_records_def edges evs Let_def)
  have "length (bu_conflicts b) = length (bu_conflicts c)" using m by (metis size_mset)
  then have kinds: "count_kinds env b cv = count_kinds env c cv" for cv
    by (simp add: count_kinds_def edges evs diags)
  show ?thesis by (simp add: build_coverage_def split_beta Let_def art tr rec kinds)
qed

section \<open>The canonical form\<close>

lemma sort_Nil_iff: "sort xs = [] \<longleftrightarrow> xs = []"
  by (metis length_0_conv length_sort)

lemma mapped_steps:
  "node_step pf as ds (sort_node n) = node_step pf as ds n" "trace_step (sort_node n) = trace_step n"
  "claim_step (sort_claim l) = claim_step l"
  by (simp_all add: fun_eq_iff sort_Nil_iff node_step_ticks trace_step_adds trace_id_def authenticated_def sort_node_def
      claim_step_def sort_claim_def is_high_confidence_secret_def public_symbol_def documented_symbol_def)

lemma mapped_edge_steps:
  assumes "lower_stable fc"
  shows "flow_step fc ts (sort_edge fc e) = flow_step fc ts e" "edge_step fc (sort_edge fc e) = edge_step fc e"
  using normalize_resolution_idem [OF assms]
  by (simp_all add: fun_eq_iff flow_step_ticks observed_call_def edge_step_def sort_edge_def is_resolved_resolution_def)

lemma documented_subjects_sorted: "documented_subjects (map sort_document ds) = documented_subjects ds"
  by (auto simp: fset_inject [symmetric] documented_subjects_set sort_document_def)

lemma canonical_sort:
  fixes b :: "'v model_bundle"
  assumes "lower_stable fc"
  shows "canonical_bundle fc (sort_bundle fc b) = canonical_bundle fc b"
proof -
  have "(\<lambda>x :: 'v edge. sort_edge fc (sort_edge fc x)) = sort_edge fc" using sort_edge_idem [OF assms] by blast
  then show ?thesis by (simp add: canonical_bundle_def sort_bundle_def sort_key_map_same comp_def)
qed

text \<open>The records as \<open>SortBundle\<close> rewrites them, in their original order.\<close>

definition rewrite_records :: "(string \<Rightarrow> string) \<Rightarrow> 'v model_bundle \<Rightarrow> 'v model_bundle" where
  "rewrite_records fc b = b\<lparr>bu_nodes := map sort_node (bu_nodes b), bu_edges := map (sort_edge fc) (bu_edges b),
     bu_conflicts := map sort_conflict (bu_conflicts b), bu_documents := map sort_document (bu_documents b),
     bu_claims := map sort_claim (bu_claims b)\<rparr>"

lemma sort_bundle_records: "same_families (sort_bundle fc b) (rewrite_records fc b)"
  by (simp add: same_families_def sort_bundle_def rewrite_records_def)

lemma build_coverage_rewrite:
  assumes "lower_stable (ce_fold_case env)"
  shows "undigested env (rewrite_records (ce_fold_case env) b) = undigested env b"
  using assms
  by (simp add: build_coverage_def split_beta Let_def count_artifacts_def scan_traces_def count_records_def count_kinds_def start_coverage_def
      rewrite_records_def fold_map comp_def mapped_steps mapped_edge_steps documented_subjects_sorted)

section \<open>Closed forms of the counters\<close>

definition count_if :: "('a \<Rightarrow> bool) \<Rightarrow> 'a list \<Rightarrow> int" where
  "count_if P xs = int (length (filter P xs))"

lemma count_if_simps [simp]: "count_if P [] = 0" "count_if P (x # xs) = tick (P x) (count_if P xs)"
  by (simp_all add: count_if_def tick_def)

lemma count_if_bounds: "0 \<le> count_if P xs" "count_if (\<lambda>x. P x \<and> Q x) xs \<le> count_if P xs" "count_if P xs \<le> int (length xs)"
  by (induction xs) (auto simp: tick_def)

lemma count_if_all: "count_if P xs = int (length xs) \<longleftrightarrow> (\<forall>x \<in> set xs. P x)"
proof -
  have "length (filter P xs) = length xs \<longleftrightarrow> (\<forall>x \<in> set xs. P x)"
    by (metis filter_True filter_id_conv length_filter_less less_irrefl)
  then show ?thesis by (simp add: count_if_def)
qed

lemma count_if_part_eq: "count_if (\<lambda>x. P x \<and> Q x) xs = count_if P xs \<longleftrightarrow> (\<forall>x \<in> set xs. P x \<longrightarrow> Q x)"
proof (induction xs)
  case (Cons x xs)
  have "count_if (\<lambda>x. P x \<and> Q x) xs \<le> count_if P xs" by (rule count_if_bounds)
  then show ?case using Cons by (auto simp: tick_def)
qed simp

lemma tick_add: "tick b n + m = n + tick b m" "tick b n = n + tick b 0"
  by (simp_all add: tick_def)

text \<open>A counter that every step of a fold advances on a condition, and one that it leaves alone.\<close>

lemma fold_tick: "(\<And>x c. f (step x c) = tick (P x) (f c)) \<Longrightarrow> f (fold step xs c) = f c + count_if P xs"
  by (induction xs arbitrary: c) (auto simp: tick_def)

lemma fold_keep: "(\<And>x c. f (step x c) = f c) \<Longrightarrow> f (fold step xs c) = f c"
  by (induction xs arbitrary: c) auto

lemma artifact_step_simps [simp]:
  "snd (artifact_step a p) = tick (a_text a \<and> trim_space (a_status a) \<notin> set excluded_statuses \<and>
      trim_space (a_status a) \<noteq> ''unreadable'') (snd p)"
  "cv_artifacts_syntactically_parsed (fst (artifact_step a p)) =
     tick (trim_space (a_status a) \<in> set parsed_statuses) (cv_artifacts_syntactically_parsed (fst p))"
  "cv_artifacts_semantically_parsed (fst (artifact_step a p)) = tick (semantically_parsed a) (cv_artifacts_semantically_parsed (fst p))"
  by (simp_all add: artifact_step_def Let_def split: prod.split)

text \<open>What the loop over the artifacts leaves alone.\<close>

lemma artifact_step_keeps [simp]:
  "cv_artifacts_encountered (fst (artifact_step a p)) = cv_artifacts_encountered (fst p)"
  "cv_artifacts_inventoried (fst (artifact_step a p)) = cv_artifacts_inventoried (fst p)"
  "cv_symbols_total (fst (artifact_step a p)) = cv_symbols_total (fst p)"
  "cv_symbols_with_evidence (fst (artifact_step a p)) = cv_symbols_with_evidence (fst p)"
  "cv_public_symbols (fst (artifact_step a p)) = cv_public_symbols (fst p)"
  "cv_public_symbols_documented (fst (artifact_step a p)) = cv_public_symbols_documented (fst p)"
  "cv_edges_total (fst (artifact_step a p)) = cv_edges_total (fst p)"
  "cv_resolved_edges (fst (artifact_step a p)) = cv_resolved_edges (fst p)"
  "cv_unresolved_edges (fst (artifact_step a p)) = cv_unresolved_edges (fst p)"
  "cv_claims_total (fst (artifact_step a p)) = cv_claims_total (fst p)"
  "cv_claims_with_evidence (fst (artifact_step a p)) = cv_claims_with_evidence (fst p)"
  by (simp_all add: artifact_step_def Let_def split: prod.split)

lemmas stage_defs = build_coverage_def count_artifacts_def scan_traces_def count_records_def count_kinds_def count_traces_def
  set_ratios_def start_coverage_def Let_def split_beta flow_step_ticks node_step_ticks claim_step_def edge_step_def

lemma edge_counters:
  "cv_edges_total (build_coverage env b) = count_if (\<lambda>_. True) (bu_edges b)"
  "cv_resolved_edges (build_coverage env b) = count_if (\<lambda>e. is_resolved_resolution (ce_fold_case env) (e_resolution e)) (bu_edges b)"
  "cv_unresolved_edges (build_coverage env b) = count_if (\<lambda>e. \<not> is_resolved_resolution (ce_fold_case env) (e_resolution e)) (bu_edges b)"
  by (simp_all add: stage_defs
    fold_keep [of cv_edges_total] fold_keep [of cv_resolved_edges] fold_keep [of cv_unresolved_edges]
    fold_keep [of "\<lambda>p. cv_edges_total (fst p)"] fold_keep [of "\<lambda>p. cv_resolved_edges (fst p)"] fold_keep [of "\<lambda>p. cv_unresolved_edges (fst p)"]
    fold_tick [of cv_edges_total "edge_step fc" "\<lambda>_. True" for fc]
    fold_tick [of cv_resolved_edges "edge_step fc" "\<lambda>e. is_resolved_resolution fc (e_resolution e)" for fc]
    fold_tick [of cv_unresolved_edges "edge_step fc" "\<lambda>e. \<not> is_resolved_resolution fc (e_resolution e)" for fc])

lemma symbol_counters:
  "cv_symbols_total (build_coverage env b) = count_if (\<lambda>n. is_symbol_kind (n_kind n)) (bu_nodes b)"
  "cv_symbols_with_evidence (build_coverage env b) = count_if (\<lambda>n. is_symbol_kind (n_kind n) \<and> n_evidence_ids n \<noteq> []) (bu_nodes b)"
  "cv_public_symbols (build_coverage env b) = count_if (\<lambda>n. is_symbol_kind (n_kind n) \<and> public_symbol n) (bu_nodes b)"
  "cv_public_symbols_documented (build_coverage env b) = count_if (\<lambda>n. is_symbol_kind (n_kind n) \<and> public_symbol n \<and>
       documented_symbol (documented_subjects (bu_documents b)) n) (bu_nodes b)"
  by (simp_all add: stage_defs fold_keep [of cv_symbols_total] fold_keep [of cv_symbols_with_evidence] fold_keep [of cv_public_symbols] fold_keep [of cv_public_symbols_documented]
    fold_keep [of "\<lambda>p. cv_symbols_total (fst p)"] fold_keep [of "\<lambda>p. cv_symbols_with_evidence (fst p)"] fold_keep [of "\<lambda>p. cv_public_symbols (fst p)"] fold_keep [of "\<lambda>p. cv_public_symbols_documented (fst p)"]
    fold_tick [of cv_symbols_total "node_step pf as ds" "\<lambda>n. is_symbol_kind (n_kind n)" for pf as ds]
    fold_tick [of cv_symbols_with_evidence "node_step pf as ds" "\<lambda>n. is_symbol_kind (n_kind n) \<and> n_evidence_ids n \<noteq> []" for pf as ds]
    fold_tick [of cv_public_symbols "node_step pf as ds" "\<lambda>n. is_symbol_kind (n_kind n) \<and> public_symbol n" for pf as ds]
    fold_tick [of cv_public_symbols_documented "node_step pf as ds" "\<lambda>n. is_symbol_kind (n_kind n) \<and> public_symbol n \<and> documented_symbol ds n" for pf as ds])

lemma claim_counters:
  "cv_claims_total (build_coverage env b) = count_if (\<lambda>_. True) (bu_claims b)"
  "cv_claims_with_evidence (build_coverage env b) = count_if (\<lambda>l. cl_evidence_ids l \<noteq> []) (bu_claims b)"
  by (simp_all add: stage_defs fold_keep [of cv_claims_total] fold_keep [of cv_claims_with_evidence]
    fold_keep [of "\<lambda>p. cv_claims_total (fst p)"] fold_keep [of "\<lambda>p. cv_claims_with_evidence (fst p)"]
    fold_tick [of cv_claims_total "claim_step" "\<lambda>_. True"]
    fold_tick [of cv_claims_with_evidence "claim_step" "\<lambda>l. cl_evidence_ids l \<noteq> []"])

lemma coverage_ratio_fields:
  "cv_symbol_evidence_ratio (build_coverage env b) =
     ratio (cv_symbols_with_evidence (build_coverage env b)) (cv_symbols_total (build_coverage env b))"
  "cv_public_documentation_ratio (build_coverage env b) =
     ratio (cv_public_symbols_documented (build_coverage env b)) (cv_public_symbols (build_coverage env b))"
  "cv_edge_resolution_ratio (build_coverage env b) =
     ratio (cv_resolved_edges (build_coverage env b)) (cv_edges_total (build_coverage env b))"
  "cv_claim_citation_ratio (build_coverage env b) =
     ratio (cv_claims_with_evidence (build_coverage env b)) (cv_claims_total (build_coverage env b))"
  by (simp_all add: build_coverage_def set_ratios_def split_beta Let_def)

lemma ratio_count:
  assumes "int (length xs) \<le> 2 ^ 53"
  shows "0 \<le> ratio (count_if (\<lambda>x. P x \<and> Q x) xs) (count_if P xs) \<and> ratio (count_if (\<lambda>x. P x \<and> Q x) xs) (count_if P xs) \<le> 1 \<and>
    (ratio (count_if (\<lambda>x. P x \<and> Q x) xs) (count_if P xs) = 1 \<longleftrightarrow> (\<forall>x \<in> set xs. P x \<longrightarrow> Q x))"
  using ratio_part [of "count_if (\<lambda>x. P x \<and> Q x) xs" "count_if P xs"] count_if_bounds(1) [of "\<lambda>x. P x \<and> Q x" xs]
    count_if_bounds(3) [of P xs] count_if_bounds(2) [of P Q xs] assms count_if_part_eq [of P Q xs]
  by auto


text \<open>
  Coverage does not depend on the order of the records of a bundle, nor on whether it has been put into
  canonical order and its resolutions normalised.
\<close>

theorem coverage_sorted:
  assumes "lower_stable (ce_fold_case env)"
    and "\<And>x. x \<in> {b, sort_bundle (ce_fold_case env) b} \<Longrightarrow> ce_clone env x = Some x"
  shows "build_coverage env (sort_bundle (ce_fold_case env) b) = build_coverage env b"
proof (rule undigested_eqD)
  let ?fc = "ce_fold_case env"
  have "undigested env (sort_bundle ?fc b) = undigested env (rewrite_records ?fc b)"
    by (rule build_coverage_cong [OF sort_bundle_records]) (simp add: sort_bundle_def rewrite_records_def)
  then show "undigested env (sort_bundle ?fc b) = undigested env b"
    by (simp add: build_coverage_rewrite [OF assms(1)])
  show "canonical_digest env (sort_bundle ?fc b) = canonical_digest env b"
    by (simp add: canonical_digest_def assms(2) canonical_sort [OF assms(1)])
qed

section \<open>The parse ratios\<close>

lemma parse_counters:
  "cv_syntactic_parse_ratio (build_coverage env b) =
     ratio (count_if (\<lambda>a. trim_space (a_status a) \<in> set parsed_statuses) (bu_artifacts b))
       (count_if (\<lambda>a. a_text a \<and> trim_space (a_status a) \<notin> set excluded_statuses \<and>
          trim_space (a_status a) \<noteq> ''unreadable'') (bu_artifacts b))"
proof -
  have records: "cv_artifacts_syntactically_parsed (count_kinds env b (count_traces t (count_records env b t c))) =
      cv_artifacts_syntactically_parsed c" for t c
    by (simp add: stage_defs fold_keep [of cv_artifacts_syntactically_parsed])
  have "cv_artifacts_syntactically_parsed (fst (count_artifacts b)) =
      count_if (\<lambda>a. trim_space (a_status a) \<in> set parsed_statuses) (bu_artifacts b)"
    by (simp add: count_artifacts_def start_coverage_def
      fold_tick [of "\<lambda>p. cv_artifacts_syntactically_parsed (fst p)" artifact_step "\<lambda>a. trim_space (a_status a) \<in> set parsed_statuses"])
  moreover have "snd (count_artifacts b) = count_if (\<lambda>a. a_text a \<and> trim_space (a_status a) \<notin> set excluded_statuses \<and>
      trim_space (a_status a) \<noteq> ''unreadable'') (bu_artifacts b)"
    by (simp add: count_artifacts_def fold_tick [of snd artifact_step "\<lambda>a. a_text a \<and>
      trim_space (a_status a) \<notin> set excluded_statuses \<and> trim_space (a_status a) \<noteq> ''unreadable''"])
  ultimately show ?thesis
    by (simp add: build_coverage_def set_ratios_def split_beta Let_def records)
qed

definition plain_artifact :: "string \<Rightarrow> bool \<Rightarrow> artifact" where
  "plain_artifact k is_text = \<lparr>a_id = k, a_logical_id = [], a_content_id = [], a_path = k, a_kind = ''file'', a_language = [],
     a_media_type = [], a_encoding = [], a_newline = [], a_size_bytes = 0, a_sha256 = [], a_line_count = 0, a_mode = 0,
     a_text = is_text, a_executable = False, a_generated = False, a_vendored = False, a_status = ''parsed'',
     a_disposition_reason = [], a_exclusion_reason = [], a_target = [], a_license_expression = [], a_attributes = []\<rparr>"

text \<open>
  The syntactic parse ratio is no ratio of a part: parsed artifacts count in its numerator even when they
  are not text, so a bundle of one parsed text artifact and one parsed artifact that is not text has ratio 2.
\<close>

theorem syntactic_parse_ratio_exceeds:
  "cv_syntactic_parse_ratio (build_coverage env (b\<lparr>bu_artifacts := [plain_artifact ''a'' True, plain_artifact ''b'' False]\<rparr>)) = Finite 2"
proof -
  have s: "trim_space ''parsed'' = ''parsed''" by code_simp
  have r: "ratio 2 1 = Finite 2" by code_simp
  show ?thesis
    by (simp add: parse_counters plain_artifact_def s parsed_statuses_def excluded_statuses_def tick_def r)
qed

end
