(* ===== verification/CoverageWitnesses.thy ===== *)
theory CoverageWitnesses
  imports CoverageTheorems
begin

text \<open>A small bundle on which the hypotheses of the coverage properties hold.\<close>

definition cov_env :: coverage_env where
  "cov_env = \<lparr>ce_fold_case = map ascii_lower, ce_parse_float = (\<lambda>_. 0), ce_clone = Some, ce_hash = (\<lambda>_. ''d'')\<rparr>"

definition cov_node :: "string \<Rightarrow> string list \<Rightarrow> go_value node" where
  "cov_node k evs = zero_node\<lparr>n_id := k, n_kind := ''function'', n_name := k, n_visibility := ''public'', n_evidence_ids := evs\<rparr>"

definition cov_edge :: "go_value edge" where
  "cov_edge = zero_edge\<lparr>e_id := ''e'', e_kind := ''calls'', e_from := ''b'', e_to := ''a'', e_resolution := ''Declared''\<rparr>"

definition cov_snapshot :: "go_value snapshot" where
  "cov_snapshot = \<lparr>sn_schema_version = ''0.2.0'', sn_id = ''s'', sn_repository_id = ''r'', sn_parent_snapshot_id = [],
     sn_created_at = 7, sn_status = ''committed'', sn_root_name = ''r'', sn_root_path = ''/tmp/r'',
     sn_content_digest = replicate 64 CHR ''a'', sn_config_digest = [], sn_policy_digest = [],
     sn_plugin_lock_digest = [], sn_toolchain_digest = [],
     sn_git = \<lparr>gi_commit = [], gi_branch = [], gi_origin = [], gi_dirty = False, gi_working_tree_digest = [], gi_unavailable = True\<rparr>,
     sn_tool = \<lparr>ti_name = ''rkc'', ti_version = ''1'', ti_build = [], ti_runtime = [], ti_attributes = []\<rparr>,
     sn_policy = [], sn_metadata = []\<rparr>"

definition cov_bundle :: "go_value model_bundle" where
  "cov_bundle = \<lparr>bu_snapshot = cov_snapshot, bu_artifacts = [], bu_nodes = [cov_node ''b'' [''x''], cov_node ''a'' []],
     bu_edges = [cov_edge], bu_evidence = [], bu_diagnostics = [], bu_conflicts = [], bu_documents = [], bu_claims = [],
     bu_paths = []\<rparr>"


theorem coverage_sorted_witness:
  "build_coverage cov_env (sort_bundle (map ascii_lower) cov_bundle) = build_coverage cov_env cov_bundle"
  using coverage_sorted [of cov_env cov_bundle] lower_stable_ascii by (simp add: cov_env_def)

end
