(* ===== verification/StoreTypes.thy ===== *)
theory StoreTypes
  imports Validate Coverage
begin

text \<open>
  The data of \<open>pkg/rkcstore\<close>: error classification (\<open>errors.go\<close>), contexts, JSON codecs, the limits and
  the preparation of a batch (\<open>limits.go\<close>), and the records of the in-memory store (\<open>memory.go\<close>).
  \<open>int\<close> and \<open>int64\<close> counters are unbounded here; every sum the code forms is checked against a limit by
  a subtraction first, so it stays below the limit.
\<close>

section \<open>Errors\<close>

datatype store_code =
    CodeInvalidArgument | CodeInvalidQuery | CodeInvalidCursor | CodeBuildNotFound | CodeBuildClosed
  | CodeBuildCommitted | CodeSnapshotNotFound | CodeRecordNotFound | CodeConflict | CodeValidation
  | CodeCoverageMismatch | CodeResourceExhausted | CodeCanceled | CodeInternal

text \<open>A cause is the format string of its message and the arguments.\<close>

record operation_error =
  oe_code :: store_code
  oe_operation :: string
  oe_build :: string
  oe_snapshot :: string
  oe_field :: string
  oe_cause :: "(string \<times> string list) option"

record validation_result =
  vs_report :: "go_value validation_report"
  vs_expected_coverage :: coverage
  vs_coverage_present :: bool
  vs_coverage_consistent :: bool

definition valid_result :: "validation_result \<Rightarrow> bool" where
  "valid_result r \<longleftrightarrow> \<not> has_errors (vs_report r) \<and> vs_coverage_present r \<and> vs_coverage_consistent r"

text \<open>\<open>WrappedError\<close> is the result of \<open>fmt.Errorf("prefix: %w", err)\<close>.\<close>

datatype store_failure =
    OperationError operation_error
  | ValidationFailure string string validation_result
  | WrappedError string string

definition store_error ::
  "store_code \<Rightarrow> string \<Rightarrow> string \<Rightarrow> string \<Rightarrow> string \<Rightarrow> (string \<times> string list) option \<Rightarrow> store_failure" where
  "store_error kind operation build snapshot field cause = OperationError \<lparr>oe_code = kind, oe_operation = operation,
     oe_build = build, oe_snapshot = snapshot, oe_field = field, oe_cause = cause\<rparr>"

definition invalid_argument :: "string \<Rightarrow> string \<Rightarrow> string \<Rightarrow> store_failure" where
  "invalid_argument operation field message = store_error CodeInvalidArgument operation [] [] field (Some (message, []))"

definition invalid_query :: "string \<Rightarrow> string \<Rightarrow> string \<Rightarrow> store_failure" where
  "invalid_query operation field message = store_error CodeInvalidQuery operation [] [] field (Some (message, []))"

definition invalid_cursor :: "string \<Rightarrow> string \<Rightarrow> store_failure" where
  "invalid_cursor operation message = store_error CodeInvalidCursor operation [] [] ''cursor'' (Some (message, []))"

definition resource_exhausted :: "string \<Rightarrow> string \<Rightarrow> string \<Rightarrow> string \<Rightarrow> store_failure" where
  "resource_exhausted operation build field message = store_error CodeResourceExhausted operation build [] field (Some (message, []))"

definition conflict_error :: "string \<Rightarrow> string \<Rightarrow> string \<Rightarrow> string \<Rightarrow> string list \<Rightarrow> store_failure" where
  "conflict_error operation build snapshot format args = store_error CodeConflict operation build snapshot [] (Some (format, args))"

lemmas error_defs = store_error_def invalid_argument_def invalid_query_def invalid_cursor_def resource_exhausted_def conflict_error_def

text \<open>\<open>errors.Is(err, sentinelByCode[code])\<close>.\<close>

fun is_code :: "store_failure \<Rightarrow> store_code \<Rightarrow> bool" where
  "is_code (OperationError e) kind = (oe_code e = kind)"
| "is_code (ValidationFailure operation build r) kind = (kind = CodeValidation)"
| "is_code (WrappedError prefix cause) kind = False"

section \<open>Contexts\<close>

text \<open>A nil context, or the result of the n-th \<open>ctx.Err()\<close> of the operation.\<close>

datatype context_value = NoContext | Context "nat \<Rightarrow> string option"

definition background :: context_value where
  "background = Context (\<lambda>_. None)"

definition check_context :: "context_value \<Rightarrow> nat \<Rightarrow> string \<Rightarrow> store_failure + unit" where
  "check_context ctx i operation =
     (case ctx of
        NoContext \<Rightarrow> Inl (invalid_argument operation ''context'' ''context is required'')
      | Context f \<Rightarrow> (case f i of
          None \<Rightarrow> Inr ()
        | Some e \<Rightarrow> Inl (store_error CodeCanceled operation [] [] [] (Some (e, [])))))"

lemma check_background [simp]: "check_context background i operation = Inr ()"
  by (simp add: check_context_def background_def)

definition max_identifier_size :: int where "max_identifier_size = 1024"

definition valid_identifier :: "string \<Rightarrow> string \<Rightarrow> string \<Rightarrow> store_failure + unit" where
  "valid_identifier operation field v =
     (if blank v then Inl (invalid_argument operation field ''identifier is required'')
      else if max_identifier_size < int (length v) then Inl (invalid_argument operation field ''identifier exceeds MaxIdentifierSize'')
      else Inr ())"

section \<open>JSON codecs\<close>

text \<open>\<open>json.Marshal\<close> and \<open>json.Unmarshal\<close> at one type; on the left the text of the error.\<close>

record 'r codec =
  cd_marshal :: "'r \<Rightarrow> string + string"
  cd_unmarshal :: "string \<Rightarrow> string + 'r"

definition clone_json :: "'r codec \<Rightarrow> 'r \<Rightarrow> string + 'r" where
  "clone_json c v = res_bind (cd_marshal c v) (cd_unmarshal c)"

text \<open>A codec that loses nothing.\<close>

definition lossless :: "'r codec \<Rightarrow> bool" where
  "lossless c \<longleftrightarrow> (\<forall>v. \<exists>data. cd_marshal c v = Inr data \<and> cd_unmarshal c data = Inr v)"

lemma clone_lossless [simp]: "lossless c \<Longrightarrow> clone_json c v = Inr v"
  unfolding lossless_def clone_json_def by (metis res_bind_simps(2))

section \<open>Limits\<close>

record memory_options =
  mo_max_metadata_keys :: int
  mo_max_metadata_bytes :: int
  mo_max_open_builds :: int
  mo_max_record_bytes :: int
  mo_max_batch_bytes :: int
  mo_max_build_records :: int
  mo_max_build_bytes :: int
  mo_max_closed_build_tombstones :: int

definition default_memory_options :: memory_options where
  "default_memory_options = \<lparr>mo_max_metadata_keys = 256, mo_max_metadata_bytes = 65536, mo_max_open_builds = 4,
     mo_max_record_bytes = 4194304, mo_max_batch_bytes = 16777216, mo_max_build_records = 200000,
     mo_max_build_bytes = 134217728, mo_max_closed_build_tombstones = 1024\<rparr>"

definition default_durable_options :: memory_options where
  "default_durable_options = default_memory_options\<lparr>mo_max_build_records := 1000000, mo_max_build_bytes := 1073741824\<rparr>"

definition positive_limit :: "string \<times> int \<Rightarrow> store_failure + unit" where
  "positive_limit = (\<lambda>(field, v). guard (v \<le> 0) (invalid_argument ''create memory store'' field ''limit must be positive''))"

definition validate_memory_options :: "memory_options \<Rightarrow> store_failure + unit" where
  "validate_memory_options opts =
     res_bind (first_error positive_limit
       [(''max_metadata_keys'', mo_max_metadata_keys opts), (''max_open_builds'', mo_max_open_builds opts),
        (''max_closed_build_tombstones'', mo_max_closed_build_tombstones opts),
        (''max_metadata_bytes'', mo_max_metadata_bytes opts), (''max_record_bytes'', mo_max_record_bytes opts),
        (''max_batch_bytes'', mo_max_batch_bytes opts), (''max_build_records'', mo_max_build_records opts),
        (''max_build_bytes'', mo_max_build_bytes opts)]) (\<lambda>_.
     res_bind (guard (mo_max_batch_bytes opts < mo_max_record_bytes opts)
       (invalid_argument ''create memory store'' ''max_record_bytes'' ''limit must not exceed max_batch_bytes'')) (\<lambda>_.
     guard (mo_max_build_bytes opts < mo_max_batch_bytes opts)
       (invalid_argument ''create memory store'' ''max_batch_bytes'' ''limit must not exceed max_build_bytes'')))"

fun metadata_bytes :: "string \<Rightarrow> int \<Rightarrow> int \<Rightarrow> (string \<times> string) list \<Rightarrow> store_failure + unit" where
  "metadata_bytes operation limit used [] = Inr ()"
| "metadata_bytes operation limit used ((k, v) # kvs) =
     (let size = int (length k) + int (length v)
      in if limit - used < size then Inl (resource_exhausted operation [] ''metadata'' ''metadata exceeds MaxMetadataBytes'')
         else metadata_bytes operation limit (used + size) kvs)"

definition validate_metadata :: "string \<Rightarrow> (string \<times> string) list \<Rightarrow> memory_options \<Rightarrow> store_failure + unit" where
  "validate_metadata operation kvs opts =
     (if mo_max_metadata_keys opts < int (length kvs)
      then Inl (resource_exhausted operation [] ''metadata'' ''metadata exceeds MaxMetadataKeys'')
      else metadata_bytes operation (mo_max_metadata_bytes opts) 0 kvs)"

section \<open>Batches\<close>

definition max_batch_size :: int where "max_batch_size = 10000"

record 'r prepared_batch =
  pb_values :: "'r list"
  pb_records :: int
  pb_bytes :: int

definition prepare_limited_record ::
  "string \<Rightarrow> string \<Rightarrow> 'r codec \<Rightarrow> 'r \<Rightarrow> memory_options \<Rightarrow> store_failure + 'r \<times> int" where
  "prepare_limited_record operation field c v opts =
     (case cd_marshal c v of
        Inl e \<Rightarrow> Inl (invalid_argument operation field (''record is not canonically serializable: '' @ e))
      | Inr data \<Rightarrow>
          let size = int (length data) in
          if mo_max_record_bytes opts < size then Inl (resource_exhausted operation [] field ''record exceeds MaxRecordBytes'')
          else if mo_max_batch_bytes opts < size then Inl (resource_exhausted operation [] field ''record exceeds MaxBatchBytes'')
          else case cd_unmarshal c data of
            Inl e \<Rightarrow> Inl (invalid_argument operation field (''record is not canonically serializable: '' @ e))
          | Inr cloned \<Rightarrow> Inr (cloned, size))"

text \<open>The loop; \<open>seen\<close> are the identifiers of the records before.\<close>

fun prepare_records ::
  "string \<Rightarrow> 'r codec \<Rightarrow> ('r \<Rightarrow> string) \<Rightarrow> memory_options \<Rightarrow> string list \<Rightarrow> 'r prepared_batch \<Rightarrow> 'r list \<Rightarrow>
     store_failure + 'r prepared_batch" where
  "prepare_records operation c ident opts seen p [] = Inr p"
| "prepare_records operation c ident opts seen p (v # vs) =
     res_bind (valid_identifier operation ''record_id'' (ident v)) (\<lambda>_.
     res_bind (guard (ident v \<in> set seen)
       (conflict_error operation [] [] ''duplicate record identifier %q in batch'' [ident v])) (\<lambda>_.
     res_bind (prepare_limited_record operation ''values'' c v opts) (\<lambda>(cloned, size).
     res_bind (guard (mo_max_batch_bytes opts - pb_bytes p < size)
       (resource_exhausted operation [] ''values'' ''batch exceeds MaxBatchBytes'')) (\<lambda>_.
     prepare_records operation c ident opts (ident v # seen)
       (p\<lparr>pb_values := pb_values p @ [cloned], pb_bytes := pb_bytes p + size\<rparr>) vs))))"

text \<open>The context is checked before and after the loop: its checks number 0 and 1.\<close>

definition prepare_limited_batch ::
  "context_value \<Rightarrow> string \<Rightarrow> 'r codec \<Rightarrow> ('r \<Rightarrow> string) \<Rightarrow> memory_options \<Rightarrow> 'r list \<Rightarrow> store_failure + 'r prepared_batch" where
  "prepare_limited_batch ctx operation c ident opts vs =
     res_bind (check_context ctx 0 operation) (\<lambda>_.
     res_bind (guard (max_batch_size < int (length vs))
       (resource_exhausted operation [] ''values'' ''batch exceeds MaxBatchSize'')) (\<lambda>_.
     res_bind (guard (mo_max_build_records opts < int (length vs))
       (resource_exhausted operation [] ''values'' ''batch exceeds MaxBuildRecords'')) (\<lambda>_.
     res_bind (prepare_records operation c ident opts [] \<lparr>pb_values = [], pb_records = int (length vs), pb_bytes = 0\<rparr> vs) (\<lambda>p.
     res_bind (check_context ctx 1 operation) (\<lambda>_. Inr p)))))"

section \<open>The records of the store\<close>

record build_options =
  bo_repository_id :: string
  bo_parent_snapshot_id :: string
  bo_expected_schema :: string
  bo_metadata :: "(string \<times> string) list"

datatype build_state = BuildOpen | BuildCommitted | BuildAborted

record memory_build =
  mb_options :: build_options
  mb_base_current :: string
  mb_state :: build_state
  mb_abort_reason :: string
  mb_artifacts :: "(string \<times> artifact) list"
  mb_nodes :: "(string \<times> go_value node) list"
  mb_edges :: "(string \<times> go_value edge) list"
  mb_evidence :: "(string \<times> go_value evidence) list"
  mb_diagnostics :: "(string \<times> go_value diagnostic) list"
  mb_conflicts :: "(string \<times> go_value conflict) list"
  mb_documents :: "(string \<times> go_value document) list"
  mb_claims :: "(string \<times> go_value claim) list"
  mb_paths :: "(string \<times> go_value execution_path) list"
  mb_coverage :: "coverage option"
  mb_coverage_bytes :: int
  mb_record_count :: int
  mb_record_bytes :: int

record memory_snapshot =
  mp_bundle :: "go_value model_bundle"
  mp_coverage :: coverage

record memory_store =
  ms_secret :: string
  ms_options :: memory_options
  ms_builds :: "(string \<times> memory_build) list"
  ms_snapshots :: "(string \<times> memory_snapshot) list"
  ms_current :: "(string \<times> string) list"
  ms_affinity :: "(string \<times> string) list"
  ms_open_builds :: int
  ms_closed_order :: "string list"

end
