(* ===== verification/Store.thy ===== *)
theory Store
  imports StoreTypes
begin

text \<open>
  The transactional operations of the in-memory store, \<open>pkg/rkcstore/memory.go\<close>. The mutex makes every
  operation atomic, so an operation is a function from the store to the store and its result; on an error the
  store is returned as the code leaves it. Records are values, so that defensive copies are the JSON clones
  only. The environment holds the codecs and what validation and coverage take as parameters.
\<close>

record store_env =
  se_fold_case :: "string \<Rightarrow> string"
  se_sha12 :: "string \<Rightarrow> string"
  se_canonical_origin :: "string \<Rightarrow> bool"
  se_parse_float :: "string \<Rightarrow> go_float"
  se_hash :: "go_value model_bundle \<Rightarrow> string"
  se_artifact :: "artifact codec"
  se_node :: "go_value node codec"
  se_edge :: "go_value edge codec"
  se_evidence :: "go_value evidence codec"
  se_diagnostic :: "go_value diagnostic codec"
  se_conflict :: "go_value conflict codec"
  se_document :: "go_value document codec"
  se_claim :: "go_value claim codec"
  se_path :: "go_value execution_path codec"
  se_coverage :: "coverage codec"
  se_snapshot :: "go_value snapshot codec"
  se_bundle :: "go_value model_bundle codec"

definition validation_env_of :: "store_env \<Rightarrow> go_value validation_env" where
  "validation_env_of env = \<lparr>ve_fold_case = se_fold_case env, ve_sha12 = se_sha12 env,
     ve_canonical_origin = se_canonical_origin env, ve_as_string = as_string\<rparr>"

definition coverage_env_of :: "store_env \<Rightarrow> coverage_env" where
  "coverage_env_of env = \<lparr>ce_fold_case = se_fold_case env, ce_parse_float = se_parse_float env,
     ce_clone = (\<lambda>b. case clone_json (se_bundle env) b of Inl e \<Rightarrow> None | Inr c \<Rightarrow> Some c), ce_hash = se_hash env\<rparr>"

type_synonym 'a store_op = "memory_store \<Rightarrow> memory_store \<times> (store_failure + 'a)"

section \<open>Creating a store\<close>

text \<open>\<open>random\<close> is the result of \<open>rand.Read\<close>.\<close>

definition new_memory_store_with_options :: "string + string \<Rightarrow> memory_options \<Rightarrow> store_failure + memory_store" where
  "new_memory_store_with_options random opts =
     res_bind (validate_memory_options opts) (\<lambda>_.
     case random of
       Inl e \<Rightarrow> Inl (WrappedError ''initialize memory-store cursor key'' e)
     | Inr secret \<Rightarrow> Inr \<lparr>ms_secret = secret, ms_options = opts, ms_builds = [], ms_snapshots = [], ms_current = [],
         ms_affinity = [], ms_open_builds = 0, ms_closed_order = []\<rparr>)"

definition new_memory_store :: "string + string \<Rightarrow> store_failure + memory_store" where
  "new_memory_store random = new_memory_store_with_options random default_memory_options"

section \<open>Opening a build\<close>

text \<open>A lookup of a missing key of a \<open>map[K]string\<close>.\<close>

definition lookup_text :: "(string \<times> string) list \<Rightarrow> string \<Rightarrow> string" where
  "lookup_text m k = (case map_of m k of None \<Rightarrow> [] | Some v \<Rightarrow> v)"

text \<open>
  The loop that draws identifiers until one is unused; \<open>draws\<close> are the successive results of \<open>rand.Read\<close>,
  as hexadecimal text. Its length is the fuel of the loop.
\<close>

datatype draw_result = DrawFailed string | Drawn string | DrawsExhausted

fun draw_build_id :: "(string \<times> memory_build) list \<Rightarrow> (string + string) list \<Rightarrow> draw_result" where
  "draw_build_id builds [] = DrawsExhausted"
| "draw_build_id builds (Inl e # ds) = DrawFailed e"
| "draw_build_id builds (Inr hex # ds) =
     (if ''build_'' @ hex \<in> set (keys builds) then draw_build_id builds ds else Drawn (''build_'' @ hex))"

definition empty_build :: "build_options \<Rightarrow> string \<Rightarrow> memory_build" where
  "empty_build opts base = \<lparr>mb_options = opts, mb_base_current = base, mb_state = BuildOpen, mb_abort_reason = [],
     mb_artifacts = [], mb_nodes = [], mb_edges = [], mb_evidence = [], mb_diagnostics = [], mb_conflicts = [],
     mb_documents = [], mb_claims = [], mb_paths = [], mb_coverage = None, mb_coverage_bytes = 0, mb_record_count = 0,
     mb_record_bytes = 0\<rparr>"

definition checked_build_options :: "memory_options \<Rightarrow> build_options \<Rightarrow> store_failure + build_options" where
  "checked_build_options limits opts =
     res_bind (valid_identifier ''begin build'' ''repository_id'' (bo_repository_id opts)) (\<lambda>_.
     res_bind (if bo_parent_snapshot_id opts = [] then Inr ()
               else valid_identifier ''begin build'' ''parent_snapshot_id'' (bo_parent_snapshot_id opts)) (\<lambda>_.
     let schema = (if bo_expected_schema opts = [] then ''0.2.0'' else bo_expected_schema opts) in
     res_bind (guard (schema \<noteq> ''0.2.0'')
       (invalid_argument ''begin build'' ''expected_schema'' ''unsupported RKC schema version'')) (\<lambda>_.
     res_bind (validate_metadata ''begin build'' (bo_metadata opts) limits) (\<lambda>_.
     Inr (opts\<lparr>bo_expected_schema := schema\<rparr>)))))"

definition check_parent :: "memory_store \<Rightarrow> build_options \<Rightarrow> store_failure + unit" where
  "check_parent st opts =
     (let base = lookup_text (ms_current st) (bo_repository_id opts); parent = bo_parent_snapshot_id opts in
      res_bind (guard (base \<noteq> parent) (conflict_error ''begin build'' [] parent
         ''parent snapshot %q is not the current snapshot %q'' [parent, base])) (\<lambda>_.
      if parent = [] then Inr ()
      else case map_of (ms_snapshots st) parent of
        None \<Rightarrow> Inl (store_error CodeSnapshotNotFound ''begin build'' [] parent ''parent_snapshot_id'' None)
      | Some s \<Rightarrow> guard (sn_repository_id (bu_snapshot (mp_bundle s)) \<noteq> bo_repository_id opts)
          (conflict_error ''begin build'' [] parent ''parent belongs to another repository'' [])))"

definition begin_checks :: "context_value \<Rightarrow> memory_store \<Rightarrow> build_options \<Rightarrow> store_failure + build_options" where
  "begin_checks ctx st opts0 =
     res_bind (check_context ctx 0 ''begin build'') (\<lambda>_.
     res_bind (checked_build_options (ms_options st) opts0) (\<lambda>opts.
     res_bind (check_context ctx 1 ''begin build'') (\<lambda>_.
     res_bind (guard (mo_max_open_builds (ms_options st) \<le> ms_open_builds st)
       (resource_exhausted ''begin build'' [] ''builds'' ''store exceeds MaxOpenBuilds'')) (\<lambda>_.
     res_bind (check_parent st opts) (\<lambda>_. Inr opts)))))"

definition begin_build :: "context_value \<Rightarrow> (string + string) list \<Rightarrow> build_options \<Rightarrow> string store_op" where
  "begin_build ctx draws opts0 st =
     (case begin_checks ctx st opts0 of
        Inl e \<Rightarrow> (st, Inl e)
      | Inr opts \<Rightarrow> (case draw_build_id (ms_builds st) draws of
          DrawFailed e \<Rightarrow> (st, Inl (WrappedError ''generate build identifier'' e))
        | DrawsExhausted \<Rightarrow> (st, Inl (WrappedError ''generate build identifier'' ''no further random draw''))
        | Drawn k \<Rightarrow> (st\<lparr>ms_builds := AList.update k (empty_build opts (lookup_text (ms_current st) (bo_repository_id opts))) (ms_builds st),
                         ms_open_builds := ms_open_builds st + 1\<rparr>, Inr k)))"

section \<open>Staging records\<close>

definition open_build_locked :: "context_value \<Rightarrow> nat \<Rightarrow> string \<Rightarrow> string \<Rightarrow> memory_store \<Rightarrow> store_failure + memory_build" where
  "open_build_locked ctx i operation k st =
     res_bind (check_context ctx i operation) (\<lambda>_.
     if k = [] then Inl (invalid_argument operation ''build_id'' ''build identifier is required'')
     else case map_of (ms_builds st) k of
       None \<Rightarrow> Inl (store_error CodeBuildNotFound operation k [] [] None)
     | Some build \<Rightarrow> (case mb_state build of
         BuildCommitted \<Rightarrow> Inl (store_error CodeBuildCommitted operation k [] [] None)
       | BuildAborted \<Rightarrow> Inl (store_error CodeBuildClosed operation k [] [] None)
       | BuildOpen \<Rightarrow> Inr build))"

definition ensure_build_capacity ::
  "string \<Rightarrow> string \<Rightarrow> memory_build \<Rightarrow> int \<Rightarrow> int \<Rightarrow> memory_options \<Rightarrow> store_failure + unit" where
  "ensure_build_capacity operation k build records bytes opts =
     (if mo_max_build_records opts - mb_record_count build < records
      then Inl (resource_exhausted operation k ''values'' ''build exceeds MaxBuildRecords'')
      else if mo_max_build_bytes opts - mb_record_bytes build < bytes
      then Inl (resource_exhausted operation k ''values'' ''build exceeds MaxBuildBytes'')
      else Inr ())"

definition insert_records :: "('r \<Rightarrow> string) \<Rightarrow> 'r list \<Rightarrow> (string \<times> 'r) list \<Rightarrow> (string \<times> 'r) list" where
  "insert_records ident vs m = fold (\<lambda>v. AList.update (ident v) v) vs m"

text \<open>A record family of a build: where its records are kept, and how they are identified and encoded.\<close>

record 'r family =
  fa_operation :: string
  fa_ident :: "'r \<Rightarrow> string"
  fa_codec :: "store_env \<Rightarrow> 'r codec"
  fa_get :: "memory_build \<Rightarrow> (string \<times> 'r) list"
  fa_put :: "(string \<times> 'r) list \<Rightarrow> memory_build \<Rightarrow> memory_build"

definition merge_batch ::
  "'r family \<Rightarrow> string \<Rightarrow> memory_build \<Rightarrow> 'r prepared_batch \<Rightarrow> memory_options \<Rightarrow> store_failure + memory_build" where
  "merge_batch fa k build batch opts =
     res_bind (first_error (\<lambda>v. guard (fa_ident fa v \<in> set (keys (fa_get fa build)))
       (conflict_error (fa_operation fa) k [] ''record identifier %q already exists'' [fa_ident fa v])) (pb_values batch)) (\<lambda>_.
     res_bind (ensure_build_capacity (fa_operation fa) k build (pb_records batch) (pb_bytes batch) opts) (\<lambda>_.
     Inr ((fa_put fa (insert_records (fa_ident fa) (pb_values batch) (fa_get fa build)) build)\<lparr>
       mb_record_count := mb_record_count build + pb_records batch,
       mb_record_bytes := mb_record_bytes build + pb_bytes batch\<rparr>)))"

definition update_build :: "string \<Rightarrow> memory_build \<Rightarrow> memory_store \<Rightarrow> memory_store" where
  "update_build k build st = st\<lparr>ms_builds := AList.update k build (ms_builds st)\<rparr>"

text \<open>The body that \<open>PutArtifacts\<close>, \<open>PutNodes\<close> and the other seven share.\<close>

definition put_records :: "'r family \<Rightarrow> store_env \<Rightarrow> context_value \<Rightarrow> string \<Rightarrow> 'r list \<Rightarrow> unit store_op" where
  "put_records fa env ctx k vs st =
     (case res_bind (prepare_limited_batch ctx (fa_operation fa) (fa_codec fa env) (fa_ident fa) (ms_options st) vs) (\<lambda>batch.
           res_bind (open_build_locked ctx 2 (fa_operation fa) k st) (\<lambda>build.
           merge_batch fa k build batch (ms_options st))) of
        Inl e \<Rightarrow> (st, Inl e)
      | Inr build \<Rightarrow> (update_build k build st, Inr ()))"

definition artifact_family :: "artifact family" where
  "artifact_family = \<lparr>fa_operation = ''put artifacts'', fa_ident = a_id, fa_codec = se_artifact,
     fa_get = mb_artifacts, fa_put = (\<lambda>m b. b\<lparr>mb_artifacts := m\<rparr>)\<rparr>"

definition node_family :: "go_value node family" where
  "node_family = \<lparr>fa_operation = ''put nodes'', fa_ident = n_id, fa_codec = se_node,
     fa_get = mb_nodes, fa_put = (\<lambda>m b. b\<lparr>mb_nodes := m\<rparr>)\<rparr>"

definition edge_family :: "go_value edge family" where
  "edge_family = \<lparr>fa_operation = ''put edges'', fa_ident = e_id, fa_codec = se_edge,
     fa_get = mb_edges, fa_put = (\<lambda>m b. b\<lparr>mb_edges := m\<rparr>)\<rparr>"

definition evidence_family :: "go_value evidence family" where
  "evidence_family = \<lparr>fa_operation = ''put evidence'', fa_ident = evd_id, fa_codec = se_evidence,
     fa_get = mb_evidence, fa_put = (\<lambda>m b. b\<lparr>mb_evidence := m\<rparr>)\<rparr>"

definition diagnostic_family :: "go_value diagnostic family" where
  "diagnostic_family = \<lparr>fa_operation = ''put diagnostics'', fa_ident = dg_id, fa_codec = se_diagnostic,
     fa_get = mb_diagnostics, fa_put = (\<lambda>m b. b\<lparr>mb_diagnostics := m\<rparr>)\<rparr>"

definition conflict_family :: "go_value conflict family" where
  "conflict_family = \<lparr>fa_operation = ''put conflicts'', fa_ident = cf_id, fa_codec = se_conflict,
     fa_get = mb_conflicts, fa_put = (\<lambda>m b. b\<lparr>mb_conflicts := m\<rparr>)\<rparr>"

definition document_family :: "go_value document family" where
  "document_family = \<lparr>fa_operation = ''put documents'', fa_ident = doc_id, fa_codec = se_document,
     fa_get = mb_documents, fa_put = (\<lambda>m b. b\<lparr>mb_documents := m\<rparr>)\<rparr>"

definition claim_family :: "go_value claim family" where
  "claim_family = \<lparr>fa_operation = ''put claims'', fa_ident = cl_id, fa_codec = se_claim,
     fa_get = mb_claims, fa_put = (\<lambda>m b. b\<lparr>mb_claims := m\<rparr>)\<rparr>"

definition path_family :: "go_value execution_path family" where
  "path_family = \<lparr>fa_operation = ''put paths'', fa_ident = ep_id, fa_codec = se_path,
     fa_get = mb_paths, fa_put = (\<lambda>m b. b\<lparr>mb_paths := m\<rparr>)\<rparr>"

lemmas family_defs = artifact_family_def node_family_def edge_family_def evidence_family_def diagnostic_family_def
  conflict_family_def document_family_def claim_family_def path_family_def

text \<open>The operations of the writer interface.\<close>

definition put_artifacts where "put_artifacts = put_records artifact_family"
definition put_nodes where "put_nodes = put_records node_family"
definition put_edges where "put_edges = put_records edge_family"
definition put_evidence where "put_evidence = put_records evidence_family"
definition put_diagnostics where "put_diagnostics = put_records diagnostic_family"
definition put_conflicts where "put_conflicts = put_records conflict_family"
definition put_documents where "put_documents = put_records document_family"
definition put_claims where "put_claims = put_records claim_family"
definition put_paths where "put_paths = put_records path_family"

definition stage_coverage :: "memory_options \<Rightarrow> string \<Rightarrow> memory_build \<Rightarrow> coverage \<times> int \<Rightarrow> store_failure + memory_build" where
  "stage_coverage opts k build = (\<lambda>(cloned, bytes).
     let records = (if mb_coverage build = None then 1 else 0); retained = mb_record_bytes build - mb_coverage_bytes build in
     res_bind (ensure_build_capacity ''put coverage'' k build records (bytes - mb_coverage_bytes build) opts) (\<lambda>_.
     res_bind (guard (mo_max_build_bytes opts - bytes < retained)
       (resource_exhausted ''put coverage'' k ''coverage'' ''build exceeds MaxBuildBytes'')) (\<lambda>_.
     Inr (build\<lparr>mb_coverage := Some cloned, mb_record_count := mb_record_count build + records,
       mb_record_bytes := retained + bytes, mb_coverage_bytes := bytes\<rparr>))))"

definition put_coverage :: "store_env \<Rightarrow> context_value \<Rightarrow> string \<Rightarrow> coverage \<Rightarrow> unit store_op" where
  "put_coverage env ctx k coverage st =
     (case res_bind (check_context ctx 0 ''put coverage'') (\<lambda>_.
           res_bind (prepare_limited_record ''put coverage'' ''coverage'' (se_coverage env) coverage (ms_options st)) (\<lambda>prepared.
           res_bind (open_build_locked ctx 1 ''put coverage'' k st) (\<lambda>build. stage_coverage (ms_options st) k build prepared))) of
        Inl e \<Rightarrow> (st, Inl e)
      | Inr build \<Rightarrow> (update_build k build st, Inr ()))"

section \<open>Closing a build\<close>

definition clear_payload :: "memory_build \<Rightarrow> memory_build" where
  "clear_payload b = b\<lparr>mb_options := (mb_options b)\<lparr>bo_metadata := []\<rparr>, mb_base_current := [], mb_artifacts := [],
     mb_nodes := [], mb_edges := [], mb_evidence := [], mb_diagnostics := [], mb_conflicts := [], mb_documents := [],
     mb_claims := [], mb_paths := [], mb_coverage := None, mb_coverage_bytes := 0, mb_record_count := 0, mb_record_bytes := 0\<rparr>"

text \<open>The loop that drops the oldest tombstones, over the builds and the closing order.\<close>

fun evict_tombstones ::
  "int \<Rightarrow> (string \<times> memory_build) list \<Rightarrow> string list \<Rightarrow> (string \<times> memory_build) list \<times> string list" where
  "evict_tombstones limit builds [] = (builds, [])"
| "evict_tombstones limit builds (oldest # order) =
     (if limit < int (length (oldest # order))
      then evict_tombstones limit
             (case map_of builds oldest of
                None \<Rightarrow> builds
              | Some candidate \<Rightarrow> if mb_state candidate \<noteq> BuildOpen then AList.delete oldest builds else builds) order
      else (builds, oldest # order))"

definition close_build_locked :: "string \<Rightarrow> memory_build \<Rightarrow> build_state \<Rightarrow> string \<Rightarrow> memory_store \<Rightarrow> memory_store" where
  "close_build_locked k build state reason st =
     (let closed = clear_payload (build\<lparr>mb_state := state, mb_abort_reason := reason\<rparr>);
          (builds, order) = evict_tombstones (mo_max_closed_build_tombstones (ms_options st))
            (AList.update k closed (ms_builds st)) (ms_closed_order st @ [k])
      in st\<lparr>ms_builds := builds, ms_open_builds := ms_open_builds st - 1, ms_closed_order := order\<rparr>)"

section \<open>Validation\<close>

definition bundle_from_build :: "store_env \<Rightarrow> go_value snapshot \<Rightarrow> memory_build \<Rightarrow> string + go_value model_bundle" where
  "bundle_from_build env snapshot build =
     res_bind (clone_json (se_bundle env)
       \<lparr>bu_snapshot = snapshot, bu_artifacts = map snd (mb_artifacts build), bu_nodes = map snd (mb_nodes build),
        bu_edges = map snd (mb_edges build), bu_evidence = map snd (mb_evidence build),
        bu_diagnostics = map snd (mb_diagnostics build), bu_conflicts = map snd (mb_conflicts build),
        bu_documents = map snd (mb_documents build), bu_claims = map snd (mb_claims build),
        bu_paths = map snd (mb_paths build)\<rparr>) (\<lambda>cloned. Inr (sort_bundle (se_fold_case env) cloned))"

definition provisional_snapshot :: "string \<Rightarrow> memory_build \<Rightarrow> go_value snapshot" where
  "provisional_snapshot k build = \<lparr>sn_schema_version = bo_expected_schema (mb_options build), sn_id = k,
     sn_repository_id = bo_repository_id (mb_options build),
     sn_parent_snapshot_id = bo_parent_snapshot_id (mb_options build), sn_created_at = 0, sn_status = ''validating'',
     sn_root_name = bo_repository_id (mb_options build), sn_root_path = [], sn_content_digest = replicate 64 (CHR ''0''),
     sn_config_digest = [], sn_policy_digest = [], sn_plugin_lock_digest = [], sn_toolchain_digest = [],
     sn_git = \<lparr>gi_commit = [], gi_branch = [], gi_origin = [], gi_dirty = False, gi_working_tree_digest = [], gi_unavailable = False\<rparr>,
     sn_tool = \<lparr>ti_name = ''rkcstore-memory'', ti_version = ''1'', ti_build = [], ti_runtime = [], ti_attributes = []\<rparr>,
     sn_policy = [], sn_metadata = []\<rparr>"

definition provisional_bundle :: "store_env \<Rightarrow> string \<Rightarrow> memory_build \<Rightarrow> string + go_value model_bundle" where
  "provisional_bundle env k build = bundle_from_build env (provisional_snapshot k build) build"

definition strict_options :: validation_options where
  "strict_options = \<lparr>vo_strict_vocabulary = True, vo_require_evidence = False\<rparr>"

text \<open>Coverage without the fields that identify the snapshot.\<close>

definition anonymous_coverage :: "coverage \<Rightarrow> coverage" where
  "anonymous_coverage c = c\<lparr>cv_snapshot_id := [], cv_deterministic_output_digest := []\<rparr>"

definition validate_staged :: "store_env \<Rightarrow> go_value model_bundle \<Rightarrow> coverage option \<Rightarrow> validation_result" where
  "validate_staged env b provided =
     (let expected = build_coverage (coverage_env_of env) b in
      \<lparr>vs_report = validate_bundle (validation_env_of env) b strict_options, vs_expected_coverage = expected,
       vs_coverage_present = (provided \<noteq> None),
       vs_coverage_consistent = (case provided of None \<Rightarrow> False | Some c \<Rightarrow> anonymous_coverage c = anonymous_coverage expected)\<rparr>)"

definition clone_coverage :: "store_env \<Rightarrow> coverage option \<Rightarrow> coverage option" where
  "clone_coverage env c =
     (case c of None \<Rightarrow> None | Some v \<Rightarrow> (case clone_json (se_coverage env) v of Inl e \<Rightarrow> None | Inr d \<Rightarrow> Some d))"

definition validate_build :: "store_env \<Rightarrow> context_value \<Rightarrow> string \<Rightarrow> validation_result store_op" where
  "validate_build env ctx k st =
     (st, res_bind (open_build_locked ctx 0 ''validate build'' k st) (\<lambda>build.
          case provisional_bundle env k build of
            Inl e \<Rightarrow> Inl (WrappedError ''clone staged build'' e)
          | Inr b \<Rightarrow> res_bind (check_context ctx 1 ''validate build'') (\<lambda>_.
              Inr (validate_staged env b (clone_coverage env (mb_coverage build))))))"

section \<open>Commit\<close>

definition snapshot_matches :: "memory_store \<Rightarrow> string \<Rightarrow> memory_build \<Rightarrow> go_value snapshot \<Rightarrow> store_failure + unit" where
  "snapshot_matches st k build s =
     (let opts = mb_options build; op = ''commit build'' in
      res_bind (guard (sn_repository_id s \<noteq> bo_repository_id opts)
        (invalid_argument op ''repository_id'' ''snapshot does not match build repository'')) (\<lambda>_.
      res_bind (guard (sn_parent_snapshot_id s \<noteq> bo_parent_snapshot_id opts)
        (invalid_argument op ''parent_snapshot_id'' ''snapshot does not match build parent'')) (\<lambda>_.
      res_bind (guard (sn_schema_version s \<noteq> bo_expected_schema opts)
        (invalid_argument op ''schema_version'' ''snapshot does not match expected schema'')) (\<lambda>_.
      res_bind (guard (sn_status s \<noteq> ''committed'')
        (invalid_argument op ''status'' ''committed snapshot must have status committed'')) (\<lambda>_.
      res_bind (guard (lookup_text (ms_current st) (bo_repository_id opts) \<noteq> mb_base_current build)
        (conflict_error op k (sn_id s) ''repository current snapshot changed during build'' [])) (\<lambda>_.
      guard (sn_id s \<in> set (keys (ms_snapshots st)))
        (conflict_error op k (sn_id s) ''snapshot identifier already exists'' [])))))))"

text \<open>\<open>reflect.DeepEqual\<close> on coverage records, and the affinity check.\<close>

definition exact_coverage :: "memory_build \<Rightarrow> validation_result \<Rightarrow> bool" where
  "exact_coverage build r \<longleftrightarrow> mb_coverage build = Some (vs_expected_coverage r)"

definition checked_commit ::
  "store_env \<Rightarrow> memory_store \<Rightarrow> string \<Rightarrow> memory_build \<Rightarrow> go_value snapshot \<Rightarrow> store_failure + memory_snapshot" where
  "checked_commit env st k build s =
     res_bind (snapshot_matches st k build s) (\<lambda>_.
     case bundle_from_build env s build of
       Inl e \<Rightarrow> Inl (WrappedError ''clone staged build'' e)
     | Inr b \<Rightarrow>
         let r = validate_staged env b (clone_coverage env (mb_coverage build)) in
         if has_errors (vs_report r) then Inl (ValidationFailure ''commit build'' k r)
         else if \<not> vs_coverage_present r \<or> \<not> exact_coverage build r
         then Inl (store_error CodeCoverageMismatch ''commit build'' k (sn_id s) ''coverage'' None)
         else if (case map_of (ms_affinity st) (bo_repository_id (mb_options build)) of
                    None \<Rightarrow> False | Some affinity \<Rightarrow> affinity \<noteq> sn_repository_id s)
         then Inl (conflict_error ''commit build'' k (sn_id s) ''repository identity does not match its established affinity'' [])
         else case clone_json (se_coverage env) (vs_expected_coverage r) of
           Inl e \<Rightarrow> Inl (WrappedError ''clone validated coverage'' e)
         | Inr c \<Rightarrow> Inr \<lparr>mp_bundle = sort_bundle (se_fold_case env) b, mp_coverage = c\<rparr>)"

definition publish :: "string \<Rightarrow> memory_build \<Rightarrow> go_value snapshot \<Rightarrow> memory_snapshot \<Rightarrow> memory_store \<Rightarrow> memory_store" where
  "publish k build s stored st =
     (let repository = bo_repository_id (mb_options build);
          st1 = st\<lparr>ms_affinity := (if repository \<in> set (keys (ms_affinity st)) then ms_affinity st
                                  else AList.update repository (sn_repository_id s) (ms_affinity st)),
                   ms_snapshots := AList.update (sn_id s) stored (ms_snapshots st),
                   ms_current := AList.update repository (sn_id s) (ms_current st)\<rparr>
      in close_build_locked k build BuildCommitted [] st1)"

definition commit_checks ::
  "store_env \<Rightarrow> context_value \<Rightarrow> string \<Rightarrow> go_value snapshot \<Rightarrow> memory_store \<Rightarrow>
     store_failure + (memory_build \<times> go_value snapshot \<times> memory_snapshot)" where
  "commit_checks env ctx k snapshot st =
     res_bind (check_context ctx 0 ''commit build'') (\<lambda>_.
     case clone_json (se_snapshot env) snapshot of
       Inl e \<Rightarrow> Inl (invalid_argument ''commit build'' ''snapshot'' (''snapshot is not canonically serializable: '' @ e))
     | Inr s \<Rightarrow>
         res_bind (valid_identifier ''commit build'' ''snapshot_id'' (sn_id s)) (\<lambda>_.
         res_bind (open_build_locked ctx 1 ''commit build'' k st) (\<lambda>build.
         res_bind (checked_commit env st k build s) (\<lambda>stored. Inr (build, s, stored)))))"

definition commit_build :: "store_env \<Rightarrow> context_value \<Rightarrow> string \<Rightarrow> go_value snapshot \<Rightarrow> unit store_op" where
  "commit_build env ctx k snapshot st =
     (case commit_checks env ctx k snapshot st of
        Inl e \<Rightarrow> (st, Inl e)
      | Inr (build, s, stored) \<Rightarrow> (publish k build s stored st, Inr ()))"

section \<open>Abort and recovery\<close>

text \<open>\<open>reason\<close> is the text of the error, \<^const>\<open>None\<close> a nil error.\<close>

definition limited_abort_reason :: "string option \<Rightarrow> int \<Rightarrow> string" where
  "limited_abort_reason reason limit =
     (case reason of None \<Rightarrow> [] | Some message \<Rightarrow> if limit < int (length message) then take (nat limit) message else message)"

definition abort_build :: "context_value \<Rightarrow> string \<Rightarrow> string option \<Rightarrow> unit store_op" where
  "abort_build ctx k reason st =
     (case check_context ctx 0 ''abort build'' of
        Inl e \<Rightarrow> (st, Inl e)
      | Inr _ \<Rightarrow> (case map_of (ms_builds st) k of
          None \<Rightarrow> (st, Inl (store_error CodeBuildNotFound ''abort build'' k [] [] None))
        | Some build \<Rightarrow> (case mb_state build of
            BuildCommitted \<Rightarrow> (st, Inl (store_error CodeBuildCommitted ''abort build'' k [] [] None))
          | BuildAborted \<Rightarrow> (st, Inr ())
          | BuildOpen \<Rightarrow> (close_build_locked k build BuildAborted
              (limited_abort_reason reason (mo_max_metadata_bytes (ms_options st))) st, Inr ()))))"

definition open_build_ids :: "memory_store \<Rightarrow> string list" where
  "open_build_ids st = sort (map fst (filter (\<lambda>(k, build). mb_state build = BuildOpen) (ms_builds st)))"

text \<open>\<open>store.builds[id]\<close> is never nil in the loop: an open build is not evicted.\<close>

definition recover_one :: "string \<Rightarrow> memory_store \<Rightarrow> memory_store" where
  "recover_one k st =
     (case map_of (ms_builds st) k of
        None \<Rightarrow> st
      | Some build \<Rightarrow> close_build_locked k build BuildAborted ''recovered incomplete build'' st)"

definition recover_builds :: "context_value \<Rightarrow> string list store_op" where
  "recover_builds ctx st =
     (case check_context ctx 0 ''recover builds'' of
        Inl e \<Rightarrow> (st, Inl e)
      | Inr _ \<Rightarrow> (fold recover_one (open_build_ids st) st, Inr (open_build_ids st)))"

end
