(* ===== verification/StoreInvariant.thy ===== *)
theory StoreInvariant
  imports Store Canonical
begin

text \<open>
  The invariants of the store: how many builds are open, which builds are tombstones, the limits on every
  open build, and the history of committed snapshots. Each operation is shown to preserve them; a run of
  the store is any sequence of operations from a new store.
\<close>

section \<open>Steps\<close>

inductive store_step :: "store_env \<Rightarrow> memory_store \<Rightarrow> memory_store \<Rightarrow> bool" for env where
  Begin: "store_step env st (fst (begin_build ctx draws opts st))"
| Artifacts: "store_step env st (fst (put_artifacts env ctx k artifacts st))"
| Nodes: "store_step env st (fst (put_nodes env ctx k nodes st))"
| Edges: "store_step env st (fst (put_edges env ctx k edges st))"
| Evidence: "store_step env st (fst (put_evidence env ctx k evidence st))"
| Diagnostics: "store_step env st (fst (put_diagnostics env ctx k diagnostics st))"
| Conflicts: "store_step env st (fst (put_conflicts env ctx k conflicts st))"
| Documents: "store_step env st (fst (put_documents env ctx k documents st))"
| Claims: "store_step env st (fst (put_claims env ctx k claims st))"
| Paths: "store_step env st (fst (put_paths env ctx k paths st))"
| Coverage: "store_step env st (fst (put_coverage env ctx k coverage st))"
| Validate: "store_step env st (fst (validate_build env ctx k st))"
| Commit: "store_step env st (fst (commit_build env ctx k snapshot st))"
| Abort: "store_step env st (fst (abort_build ctx k reason st))"
| Recover: "store_step env st (fst (recover_builds ctx st))"

inductive store_run :: "store_env \<Rightarrow> memory_store \<Rightarrow> bool" for env where
  New: "new_memory_store_with_options random opts = Inr st \<Longrightarrow> store_run env st"
| Step: "store_run env st \<Longrightarrow> store_step env st st' \<Longrightarrow> store_run env st'"

section \<open>What the operations do to a store\<close>

text \<open>
  Every operation either leaves the store alone or does one of four things: it opens a build, replaces an
  open build by another open one with the same options, closes an open build, or publishes one.
\<close>

lemma update_fresh: "k \<notin> set (keys m) \<Longrightarrow> AList.update k v m = m @ [(k, v)]"
  by (induction m) (auto simp: keys_def)

lemma open_build_lockedD:
  "open_build_locked ctx i operation k st = Inr build \<Longrightarrow> map_of (ms_builds st) k = Some build \<and> mb_state build = BuildOpen \<and> k \<noteq> []"
  by (auto simp: open_build_locked_def res_simps split: option.splits build_state.splits if_splits)

lemma checked_build_optionsD:
  "checked_build_options limits opts0 = Inr opts \<Longrightarrow> opts = opts0\<lparr>bo_expected_schema := ''0.2.0''\<rparr> \<and> \<not> blank (bo_repository_id opts0)"
  by (auto simp: checked_build_options_def res_simps valid_identifier_def Let_def split: if_split_asm)

lemma check_parentD:
  "check_parent st opts = Inr u \<Longrightarrow> lookup_text (ms_current st) (bo_repository_id opts) = bo_parent_snapshot_id opts"
  by (auto simp: check_parent_def res_simps Let_def)

lemma begin_checksD:
  assumes "begin_checks ctx st opts0 = Inr opts"
  shows "ms_open_builds st < mo_max_open_builds (ms_options st)" "opts = opts0\<lparr>bo_expected_schema := ''0.2.0''\<rparr>"
    "\<not> blank (bo_repository_id opts0)" "lookup_text (ms_current st) (bo_repository_id opts0) = bo_parent_snapshot_id opts0"
proof -
  have "\<not> mo_max_open_builds (ms_options st) \<le> ms_open_builds st" "checked_build_options (ms_options st) opts0 = Inr opts"
      "check_parent st opts = Inr ()"
    using assms by (auto simp: begin_checks_def res_simps)
  then show "ms_open_builds st < mo_max_open_builds (ms_options st)" "opts = opts0\<lparr>bo_expected_schema := ''0.2.0''\<rparr>"
      "\<not> blank (bo_repository_id opts0)" "lookup_text (ms_current st) (bo_repository_id opts0) = bo_parent_snapshot_id opts0"
    using checked_build_optionsD check_parentD by fastforce+
qed

lemma draw_fresh: "draw_build_id builds ds = Drawn k \<Longrightarrow> k \<notin> set (keys builds) \<and> k \<noteq> []"
  by (induction builds ds rule: draw_build_id.induct) (auto split: if_split_asm)

text \<open>The build that \<open>BeginBuild\<close> opens.\<close>

definition opened_build :: "build_options \<Rightarrow> memory_build" where
  "opened_build opts = empty_build (opts\<lparr>bo_expected_schema := ''0.2.0''\<rparr>) (bo_parent_snapshot_id opts)"

lemma begin_buildE:
  assumes "begin_build ctx draws opts st = (st', r)"
  obtains (Unchanged) e where "st' = st" "r = Inl e"
  | (Opened) k where "r = Inr k" "k \<notin> set (keys (ms_builds st))" "k \<noteq> []" "ms_open_builds st < mo_max_open_builds (ms_options st)"
      "lookup_text (ms_current st) (bo_repository_id opts) = bo_parent_snapshot_id opts" "\<not> blank (bo_repository_id opts)"
      "st' = st\<lparr>ms_builds := ms_builds st @ [(k, opened_build opts)], ms_open_builds := ms_open_builds st + 1\<rparr>"
proof (cases "begin_checks ctx st opts")
  case (Inl e)
  then show ?thesis using assms Unchanged by (auto simp: begin_build_def)
next
  case (Inr opts')
  note c = begin_checksD [OF this]
  show ?thesis
  proof (cases "draw_build_id (ms_builds st) draws")
    case (Drawn k)
    then have k: "k \<notin> set (keys (ms_builds st))" "k \<noteq> []" using draw_fresh by blast+
    show ?thesis
      using assms Inr Drawn k c by (intro Opened [of k]) (simp_all add: begin_build_def update_fresh opened_build_def)
  qed (use assms Inr Unchanged in \<open>auto simp: begin_build_def\<close>)
qed

text \<open>The four changes.\<close>

definition replaces :: "memory_build \<Rightarrow> memory_build \<Rightarrow> bool" where
  "replaces build build' \<longleftrightarrow> mb_state build' = mb_state build \<and> mb_options build' = mb_options build \<and>
     mb_base_current build' = mb_base_current build"

text \<open>The records a build retains, and its limits.\<close>

definition retained_records :: "memory_build \<Rightarrow> int" where
  "retained_records b = int (length (mb_artifacts b) + length (mb_nodes b) + length (mb_edges b) + length (mb_evidence b) +
     length (mb_diagnostics b) + length (mb_conflicts b) + length (mb_documents b) + length (mb_claims b) +
     length (mb_paths b)) + (if mb_coverage b = None then 0 else 1)"

definition within_limits :: "memory_options \<Rightarrow> memory_build \<Rightarrow> bool" where
  "within_limits opts b \<longleftrightarrow> retained_records b \<le> mb_record_count b \<and> mb_record_count b \<le> mo_max_build_records opts \<and>
     0 \<le> mb_coverage_bytes b \<and> mb_coverage_bytes b \<le> mb_record_bytes b \<and> mb_record_bytes b \<le> mo_max_build_bytes opts"

definition stage_change :: "memory_store \<Rightarrow> memory_store \<Rightarrow> bool" where
  "stage_change st st' \<longleftrightarrow> (\<exists>k build build'. map_of (ms_builds st) k = Some build \<and> mb_state build = BuildOpen \<and>
     replaces build build' \<and> (within_limits (ms_options st) build \<longrightarrow> within_limits (ms_options st) build') \<and>
     st' = update_build k build' st)"

definition close_change :: "memory_store \<Rightarrow> memory_store \<Rightarrow> bool" where
  "close_change st st' \<longleftrightarrow> (\<exists>k build reason. map_of (ms_builds st) k = Some build \<and> mb_state build = BuildOpen \<and>
     st' = close_build_locked k build BuildAborted reason st)"

definition commit_change :: "store_env \<Rightarrow> memory_store \<Rightarrow> memory_store \<Rightarrow> bool" where
  "commit_change env st st' \<longleftrightarrow> (\<exists>k build s stored s0. map_of (ms_builds st) k = Some build \<and> mb_state build = BuildOpen \<and>
     clone_json (se_snapshot env) s0 = Inr s \<and> \<not> blank (sn_id s) \<and> checked_commit env st k build s = Inr stored \<and>
     st' = publish k build s stored st)"

definition open_change :: "memory_store \<Rightarrow> memory_store \<Rightarrow> bool" where
  "open_change st st' \<longleftrightarrow> (\<exists>k opts. k \<notin> set (keys (ms_builds st)) \<and> ms_open_builds st < mo_max_open_builds (ms_options st) \<and>
     lookup_text (ms_current st) (bo_repository_id opts) = bo_parent_snapshot_id opts \<and>
     st' = st\<lparr>ms_builds := ms_builds st @ [(k, opened_build opts)], ms_open_builds := ms_open_builds st + 1\<rparr>)"

section \<open>The record families\<close>

text \<open>
  What the operations on a build rely on of a record family: its field is read back as written, and writing it
  changes nothing else of the build.
\<close>

lemma prepare_records_Cons_iff:
  "prepare_records operation c ident opts seen p (v # vs) = Inr q \<longleftrightarrow>
   (\<exists>cloned bytes. valid_identifier operation ''record_id'' (ident v) = Inr () \<and> ident v \<notin> set seen \<and>
     prepare_limited_record operation ''values'' c v opts = Inr (cloned, bytes) \<and> bytes \<le> mo_max_batch_bytes opts - pb_bytes p \<and>
     prepare_records operation c ident opts (ident v # seen)
       (p\<lparr>pb_values := pb_values p @ [cloned], pb_bytes := pb_bytes p + bytes\<rparr>) vs = Inr q)"
  by (auto simp: res_simps not_less)

lemma prepare_limited_record_size:
  "prepare_limited_record operation field c v opts = Inr (cloned, bytes) \<Longrightarrow> 0 \<le> bytes"
  by (auto simp: prepare_limited_record_def Let_def split: sum.splits if_split_asm)

lemma prepare_recordsD:
  "prepare_records operation c ident opts seen p vs = Inr q \<Longrightarrow>
   pb_records q = pb_records p \<and> length (pb_values q) = length (pb_values p) + length vs \<and> pb_bytes p \<le> pb_bytes q"
proof (induction vs arbitrary: seen p)
  case (Cons v vs)
  from Cons.prems obtain cloned bytes where s: "prepare_limited_record operation ''values'' c v opts = Inr (cloned, bytes)"
      "prepare_records operation c ident opts (ident v # seen)
        (p\<lparr>pb_values := pb_values p @ [cloned], pb_bytes := pb_bytes p + bytes\<rparr>) vs = Inr q"
    unfolding prepare_records_Cons_iff by blast
  show ?case using Cons.IH [OF s(2)] prepare_limited_record_size [OF s(1)] by simp
qed simp

lemma prepare_limited_batchD:
  assumes "prepare_limited_batch ctx operation c ident opts vs = Inr p"
  shows "pb_records p = int (length (pb_values p)) \<and> 0 \<le> pb_bytes p"
proof -
  have "prepare_records operation c ident opts [] \<lparr>pb_values = [], pb_records = int (length vs), pb_bytes = 0\<rparr> vs = Inr p"
    using assms by (auto simp: prepare_limited_batch_def res_simps)
  from prepare_recordsD [OF this] show ?thesis by simp
qed

lemma insert_records_length: "length (insert_records ident vs m) \<le> length m + length vs"
proof (induction vs arbitrary: m)
  case (Cons v vs)
  have "length (AList.update (ident v) v m) \<le> Suc (length m)" by (induction m) auto
  then show ?case using Cons [of "AList.update (ident v) v m"] by (simp add: insert_records_def)
qed (simp add: insert_records_def)

locale build_family =
  fixes fa :: "'r family"
  assumes get_put: "fa_get fa (fa_put fa m b) = m"
    and put_replaces: "replaces b (fa_put fa m b)"
    and put_counters: "mb_record_count (fa_put fa m b) = mb_record_count b \<and> mb_record_bytes (fa_put fa m b) = mb_record_bytes b \<and>
      mb_coverage_bytes (fa_put fa m b) = mb_coverage_bytes b"
    and put_retained: "retained_records (fa_put fa m b) + int (length (fa_get fa b)) = retained_records b + int (length m)"
begin

lemma merge_batchD:
  assumes "merge_batch fa k build batch opts = Inr build'"
  shows "build' = (fa_put fa (insert_records (fa_ident fa) (pb_values batch) (fa_get fa build)) build)\<lparr>
       mb_record_count := mb_record_count build + pb_records batch, mb_record_bytes := mb_record_bytes build + pb_bytes batch\<rparr>"
    "mb_record_count build + pb_records batch \<le> mo_max_build_records opts"
    "mb_record_bytes build + pb_bytes batch \<le> mo_max_build_bytes opts"
  using assms by (auto simp: merge_batch_def res_simps ensure_build_capacity_def split: if_split_asm)

lemma merge_batch_replaces: "merge_batch fa k build batch opts = Inr build' \<Longrightarrow> replaces build build'"
  using put_replaces [of build] merge_batchD(1) [of k build batch opts build'] by (simp add: replaces_def)

lemma merge_batch_limits:
  assumes "merge_batch fa k build batch opts = Inr build'" and p: "pb_records batch = int (length (pb_values batch)) \<and> 0 \<le> pb_bytes batch"
    and "within_limits opts build"
  shows "within_limits opts build'"
proof -
  note d = merge_batchD [OF assms(1)]
  let ?m = "insert_records (fa_ident fa) (pb_values batch) (fa_get fa build)"
  have "retained_records build' = retained_records (fa_put fa ?m build)" by (simp add: d(1) retained_records_def)
  also have "\<dots> \<le> retained_records build + pb_records batch"
    using put_retained [of ?m build] insert_records_length [of "fa_ident fa" "pb_values batch" "fa_get fa build"] p by linarith
  finally show ?thesis
    using assms(3) d(2,3) p put_counters [of ?m build] by (simp add: within_limits_def) (simp add: d(1) put_counters)
qed

lemma put_records_change:
  "fst (put_records fa env ctx k vs st) = st \<or> stage_change st (fst (put_records fa env ctx k vs st))"
proof (cases "res_bind (prepare_limited_batch ctx (fa_operation fa) (fa_codec fa env) (fa_ident fa) (ms_options st) vs)
    (\<lambda>batch. res_bind (open_build_locked ctx 2 (fa_operation fa) k st) (\<lambda>build. merge_batch fa k build batch (ms_options st)))")
  case (Inr build')
  then obtain build batch where b: "open_build_locked ctx 2 (fa_operation fa) k st = Inr build"
      "merge_batch fa k build batch (ms_options st) = Inr build'"
      "prepare_limited_batch ctx (fa_operation fa) (fa_codec fa env) (fa_ident fa) (ms_options st) vs = Inr batch"
    by (auto simp: res_simps)
  have "fst (put_records fa env ctx k vs st) = update_build k build' st" unfolding put_records_def Inr by simp
  then show ?thesis
    using open_build_lockedD [OF b(1)] merge_batch_replaces [OF b(2)] merge_batch_limits [OF b(2) prepare_limited_batchD [OF b(3)]]
    unfolding stage_change_def by blast
qed (simp add: put_records_def)

end

interpretation artifacts: build_family artifact_family
  by unfold_locales (simp_all add: artifact_family_def replaces_def retained_records_def)

interpretation nodes: build_family node_family
  by unfold_locales (simp_all add: node_family_def replaces_def retained_records_def)

interpretation edges: build_family edge_family
  by unfold_locales (simp_all add: edge_family_def replaces_def retained_records_def)

interpretation evidence: build_family evidence_family
  by unfold_locales (simp_all add: evidence_family_def replaces_def retained_records_def)

interpretation diagnostics: build_family diagnostic_family
  by unfold_locales (simp_all add: diagnostic_family_def replaces_def retained_records_def)

interpretation conflicts: build_family conflict_family
  by unfold_locales (simp_all add: conflict_family_def replaces_def retained_records_def)

interpretation documents: build_family document_family
  by unfold_locales (simp_all add: document_family_def replaces_def retained_records_def)

interpretation claims: build_family claim_family
  by unfold_locales (simp_all add: claim_family_def replaces_def retained_records_def)

interpretation paths: build_family path_family
  by unfold_locales (simp_all add: path_family_def replaces_def retained_records_def)

lemma stage_coverage_replaces: "stage_coverage opts k build prepared = Inr build' \<Longrightarrow> replaces build build'"
  by (cases prepared) (auto simp: stage_coverage_def replaces_def res_simps Let_def)

lemma stage_coverage_limits:
  "stage_coverage opts k build (cloned, bytes) = Inr build' \<Longrightarrow> 0 \<le> bytes \<Longrightarrow> within_limits opts build \<Longrightarrow> within_limits opts build'"
  by (auto simp: stage_coverage_def res_simps Let_def ensure_build_capacity_def within_limits_def retained_records_def split: if_split_asm)

lemma put_coverage_change:
  "fst (put_coverage env ctx k c st) = st \<or> stage_change st (fst (put_coverage env ctx k c st))"
proof (cases "res_bind (check_context ctx 0 ''put coverage'') (\<lambda>_.
    res_bind (prepare_limited_record ''put coverage'' ''coverage'' (se_coverage env) c (ms_options st)) (\<lambda>prepared.
    res_bind (open_build_locked ctx 1 ''put coverage'' k st) (\<lambda>build. stage_coverage (ms_options st) k build prepared)))")
  case (Inr build')
  then obtain build cloned bytes where b: "open_build_locked ctx 1 ''put coverage'' k st = Inr build"
      "stage_coverage (ms_options st) k build (cloned, bytes) = Inr build'"
      "prepare_limited_record ''put coverage'' ''coverage'' (se_coverage env) c (ms_options st) = Inr (cloned, bytes)"
    by (auto simp: res_simps)
  have "0 \<le> bytes" using prepare_limited_record_size [OF b(3)] .
  moreover have "fst (put_coverage env ctx k c st) = update_build k build' st" unfolding put_coverage_def Inr by simp
  ultimately show ?thesis
    using open_build_lockedD [OF b(1)] stage_coverage_replaces [OF b(2)] stage_coverage_limits [OF b(2)]
    unfolding stage_change_def by blast
qed (simp add: put_coverage_def)

lemma commit_build_change:
  "fst (commit_build env ctx k s st) = st \<or> commit_change env st (fst (commit_build env ctx k s st))"
proof (cases "commit_checks env ctx k s st")
  case (Inr r)
  obtain build s' stored where r: "r = (build, s', stored)" by (cases r)
  have "clone_json (se_snapshot env) s = Inr s'" "\<not> blank (sn_id s')" "checked_commit env st k build s' = Inr stored"
      "open_build_locked ctx 1 ''commit build'' k st = Inr build"
    using Inr by (auto simp: r commit_checks_def res_simps valid_identifier_def split: sum.splits if_split_asm)
  then show ?thesis
    using Inr open_build_lockedD [of ctx 1 "''commit build''" k st build]
    unfolding commit_change_def by (simp add: r commit_build_def) blast
qed (simp add: commit_build_def)

lemma abort_build_change: "fst (abort_build ctx k reason st) = st \<or> close_change st (fst (abort_build ctx k reason st))"
  unfolding close_change_def abort_build_def by (auto split: sum.splits option.splits build_state.splits)

lemma begin_build_change: "fst (begin_build ctx draws opts st) = st \<or> open_change st (fst (begin_build ctx draws opts st))"
proof -
  obtain st' r where b: "begin_build ctx draws opts st = (st', r)" by fastforce
  then show ?thesis
  proof (cases rule: begin_buildE)
    case (Opened k)
    then show ?thesis using b unfolding open_change_def by auto
  qed (use b in simp)
qed

section \<open>Builds\<close>

definition open_ids :: "memory_store \<Rightarrow> string set" where
  "open_ids st = {k. \<exists>b. map_of (ms_builds st) k = Some b \<and> mb_state b = BuildOpen}"

definition closed_ids :: "memory_store \<Rightarrow> string set" where
  "closed_ids st = {k. \<exists>b. map_of (ms_builds st) k = Some b \<and> mb_state b \<noteq> BuildOpen}"

lemma finite_open_ids [simp]: "finite (open_ids st)"
  by (rule finite_subset [OF _ finite_dom_map_of [of "ms_builds st"]]) (auto simp: open_ids_def)

text \<open>
  The number of open builds is counted correctly and bounded, and the tombstones are exactly the builds in the
  closing order, of which there are at most \<open>MaxClosedBuildTombstones\<close>.
\<close>

definition builds_inv :: "memory_store \<Rightarrow> bool" where
  "builds_inv st \<longleftrightarrow> wf_map (ms_builds st) \<and> ms_open_builds st = int (card (open_ids st)) \<and>
     ms_open_builds st \<le> mo_max_open_builds (ms_options st) \<and>
     distinct (ms_closed_order st) \<and> set (ms_closed_order st) = closed_ids st \<and>
     int (length (ms_closed_order st)) \<le> mo_max_closed_build_tombstones (ms_options st) \<and>
     validate_memory_options (ms_options st) = Inr ()"

lemma positive_limits:
  "validate_memory_options opts = Inr () \<Longrightarrow> 0 < mo_max_closed_build_tombstones opts \<and> 0 < mo_max_open_builds opts \<and>
     0 < mo_max_build_records opts \<and> 0 < mo_max_build_bytes opts \<and> 0 < mo_max_batch_bytes opts \<and> 0 < mo_max_metadata_bytes opts"
  by (auto simp: validate_memory_options_def res_simps positive_limit_def)

lemma map_of_append_fresh: "k \<notin> set (keys m) \<Longrightarrow> map_of (m @ [(k, v)]) = (map_of m)(k \<mapsto> v)"
  by (metis map_of_update update_fresh)

lemma wf_map_append_fresh: "wf_map m \<Longrightarrow> k \<notin> set (keys m) \<Longrightarrow> wf_map (m @ [(k, v)])"
  by (metis update_fresh wf_map_update)

lemma evict_tombstones_spec:
  assumes "evict_tombstones limit builds order = (builds', order')" and "0 \<le> limit" and "distinct order"
    and "\<forall>k \<in> set order. \<exists>b. map_of builds k = Some b \<and> mb_state b \<noteq> BuildOpen"
  shows "\<exists>n. order' = drop n order \<and> map_of builds' = (map_of builds) |` (- set (take n order)) \<and>
    (wf_map builds \<longrightarrow> wf_map builds') \<and> int (length order') \<le> limit"
  using assms
proof (induction limit builds order arbitrary: builds' order' rule: evict_tombstones.induct)
  case (2 limit builds oldest order)
  show ?case
  proof (cases "limit < int (length (oldest # order))")
    case True
    obtain b where b: "map_of builds oldest = Some b" "mb_state b \<noteq> BuildOpen" using 2(5) by auto
    let ?builds = "AList.delete oldest builds"
    have del: "(case map_of builds oldest of None \<Rightarrow> builds
        | Some candidate \<Rightarrow> if mb_state candidate \<noteq> BuildOpen then AList.delete oldest builds else builds) = ?builds"
      using b by simp
    have e: "evict_tombstones limit ?builds order = (builds', order')" using 2(2) True b by simp
    have closed: "\<forall>k \<in> set order. \<exists>b. map_of ?builds k = Some b \<and> mb_state b \<noteq> BuildOpen" using 2(4,5) by auto
    have "\<exists>n. order' = drop n order \<and> map_of builds' = (map_of ?builds) |` (- set (take n order)) \<and>
        (wf_map ?builds \<longrightarrow> wf_map builds') \<and> int (length order') \<le> limit"
      using 2(1) [OF True, of builds' order', unfolded del, OF e 2(3) _ closed] 2(4) by fastforce
    then obtain n where n: "order' = drop n order" "map_of builds' = (map_of ?builds) |` (- set (take n order))"
        "wf_map ?builds \<longrightarrow> wf_map builds'" "int (length order') \<le> limit"
      by blast
    have "map_of builds' = (map_of builds) |` (- set (take (Suc n) (oldest # order)))"
      by (simp add: n(2)) (auto simp: restrict_map_def fun_eq_iff)
    then show ?thesis using n by (intro exI [of _ "Suc n"]) simp
  next
    case False
    then show ?thesis using 2(2) by (intro exI [of _ 0]) auto
  qed
qed auto

lemma set_drop_distinct: "distinct xs \<Longrightarrow> set (drop n xs) = set xs - set (take n xs)"
proof -
  assume d: "distinct xs"
  have "set xs = set (take n xs) \<union> set (drop n xs)" by (metis append_take_drop_id set_append)
  moreover have "set (take n xs) \<inter> set (drop n xs) = {}" using d by (rule set_take_disj_set_drop_if_distinct) simp
  ultimately show ?thesis by blast
qed

text \<open>The builds after closing build \<open>k\<close>.\<close>

lemma close_build_builds:
  assumes inv: "builds_inv st" and k: "map_of (ms_builds st) k = Some build" "mb_state build = BuildOpen" and "state \<noteq> BuildOpen"
  shows "builds_inv (close_build_locked k build state reason st)"
    and "open_ids (close_build_locked k build state reason st) = open_ids st - {k}"
    and "j \<in> open_ids st \<Longrightarrow> j \<noteq> k \<Longrightarrow> map_of (ms_builds (close_build_locked k build state reason st)) j = map_of (ms_builds st) j"
    and "\<And>j b. map_of (ms_builds (close_build_locked k build state reason st)) j = Some b \<Longrightarrow>
      map_of (ms_builds st) j = Some b \<or> b = clear_payload (build\<lparr>mb_state := state, mb_abort_reason := reason\<rparr>)"
    and "\<And>j b. map_of (ms_builds (close_build_locked k build state reason st)) j = Some b \<Longrightarrow> mb_state b = BuildOpen \<Longrightarrow>
      map_of (ms_builds st) j = Some b"
proof -
  let ?closed = "clear_payload (build\<lparr>mb_state := state, mb_abort_reason := reason\<rparr>)"
  let ?order = "ms_closed_order st @ [k]" and ?builds = "AList.update k ?closed (ms_builds st)"
  let ?limit = "mo_max_closed_build_tombstones (ms_options st)"
  obtain builds' order' where e: "evict_tombstones ?limit ?builds ?order = (builds', order')" by fastforce
  note i = inv [unfolded builds_inv_def]
  have st: "mb_state ?closed \<noteq> BuildOpen" using assms(4) by (simp add: clear_payload_def)
  have kc: "k \<notin> set (ms_closed_order st)" using i k by (auto simp: closed_ids_def)
  then have d: "distinct ?order" using i by simp
  have c: "\<forall>j \<in> set ?order. \<exists>b. map_of ?builds j = Some b \<and> mb_state b \<noteq> BuildOpen"
    using i st kc by (auto simp: closed_ids_def)
  have l: "0 \<le> ?limit" using i positive_limits by force
  obtain n where n: "order' = drop n ?order" "map_of builds' = (map_of ?builds) |` (- set (take n ?order))"
      "wf_map ?builds \<longrightarrow> wf_map builds'" "int (length order') \<le> ?limit"
    using evict_tombstones_spec [OF e l d c] by blast
  have cl: "close_build_locked k build state reason st =
      st\<lparr>ms_builds := builds', ms_open_builds := ms_open_builds st - 1, ms_closed_order := order'\<rparr>"
    by (simp add: close_build_locked_def e)
  have gone: "set (take n ?order) \<inter> open_ids st \<subseteq> {k}"
    using i by (auto simp: open_ids_def closed_ids_def dest!: in_set_takeD)
  have look: "map_of builds' j = Some b \<longleftrightarrow> j \<notin> set (take n ?order) \<and> (if j = k then b = ?closed else map_of (ms_builds st) j = Some b)"
    for j b
    by (auto simp: n(2) restrict_map_def)
  show o: "open_ids (close_build_locked k build state reason st) = open_ids st - {k}"
    using st gone by (auto simp: cl open_ids_def look split: if_splits)
  have "set order' = set ?order - set (take n ?order)" unfolding n(1) by (rule set_drop_distinct [OF d])
  moreover have "set ?order = insert k (closed_ids st)" using i by simp
  ultimately have co: "set order' = closed_ids (close_build_locked k build state reason st)"
    using st by (auto simp: cl closed_ids_def look)
  have "k \<in> open_ids st" using k by (simp add: open_ids_def)
  then have card: "int (card (open_ids st - {k})) = int (card (open_ids st)) - 1"
    using card_Suc_Diff1 [OF finite_open_ids] by force
  have "distinct order'" unfolding n(1) by (rule distinct_drop [OF d])
  moreover have "wf_map builds'" using i n(3) by simp
  ultimately have "wf_map (ms_builds (close_build_locked k build state reason st))"
      "distinct (ms_closed_order (close_build_locked k build state reason st))" by (simp_all add: cl)
  then show "builds_inv (close_build_locked k build state reason st)"
    unfolding builds_inv_def o co [symmetric] card using i n(4) by (simp add: cl)
  show "j \<in> open_ids st \<Longrightarrow> j \<noteq> k \<Longrightarrow> map_of (ms_builds (close_build_locked k build state reason st)) j = map_of (ms_builds st) j"
    using look gone by (auto simp: cl open_ids_def)
  show "\<And>j b. map_of (ms_builds (close_build_locked k build state reason st)) j = Some b \<Longrightarrow>
      map_of (ms_builds st) j = Some b \<or> b = ?closed"
    using look by (auto simp: cl split: if_splits)
  show "\<And>j b. map_of (ms_builds (close_build_locked k build state reason st)) j = Some b \<Longrightarrow> mb_state b = BuildOpen \<Longrightarrow>
      map_of (ms_builds st) j = Some b"
    using look st by (auto simp: cl split: if_splits)
qed

lemma stage_change_builds:
  assumes "builds_inv st" and "stage_change st st'"
  shows "builds_inv st'" and "open_ids st' = open_ids st"
proof -
  obtain k build build' where k: "map_of (ms_builds st) k = Some build" "mb_state build = BuildOpen" "replaces build build'"
      "st' = update_build k build' st"
    using assms(2) by (auto simp: stage_change_def)
  then have o: "open_ids st' = open_ids st" "closed_ids st' = closed_ids st"
    by (auto simp: open_ids_def closed_ids_def update_build_def replaces_def)
  then show "open_ids st' = open_ids st" by simp
  show "builds_inv st'" using assms(1) o k(4) by (simp add: builds_inv_def update_build_def)
qed

lemma open_change_builds:
  assumes "builds_inv st" and "open_change st st'"
  shows "builds_inv st'"
proof -
  obtain k opts where k: "k \<notin> set (keys (ms_builds st))" "ms_open_builds st < mo_max_open_builds (ms_options st)"
      "st' = st\<lparr>ms_builds := ms_builds st @ [(k, opened_build opts)], ms_open_builds := ms_open_builds st + 1\<rparr>"
    using assms(2) by (auto simp: open_change_def)
  have s: "mb_state (opened_build opts) = BuildOpen" by (simp add: opened_build_def empty_build_def)
  have kn: "map_of (ms_builds st) k = None" using k(1) by (simp add: map_of_None_keys)
  have "ms_builds st' = ms_builds st @ [(k, opened_build opts)]" by (simp add: k(3))
  then have "map_of (ms_builds st') = (map_of (ms_builds st))(k \<mapsto> opened_build opts)"
    by (simp only: map_of_append_fresh [OF k(1)])
  then have o: "open_ids st' = insert k (open_ids st)" "closed_ids st' = closed_ids st"
    using s kn by (auto simp: open_ids_def closed_ids_def)
  have "k \<notin> open_ids st" using kn by (simp add: open_ids_def)
  then show ?thesis using assms(1) k o by (simp add: builds_inv_def wf_map_append_fresh)
qed

text \<open>Publishing changes nothing in the builds but closing the build.\<close>

lemma publish_builds:
  "ms_builds (publish k build s stored st) = ms_builds (close_build_locked k build BuildCommitted [] st)"
  "ms_open_builds (publish k build s stored st) = ms_open_builds (close_build_locked k build BuildCommitted [] st)"
  "ms_closed_order (publish k build s stored st) = ms_closed_order (close_build_locked k build BuildCommitted [] st)"
  "ms_options (publish k build s stored st) = ms_options st"
  by (simp_all add: publish_def close_build_locked_def Let_def split: prod.split)

lemma close_keeps [simp]:
  "ms_snapshots (close_build_locked k build state reason st) = ms_snapshots st"
  "ms_current (close_build_locked k build state reason st) = ms_current st"
  "ms_affinity (close_build_locked k build state reason st) = ms_affinity st"
  "ms_options (close_build_locked k build state reason st) = ms_options st"
  "ms_secret (close_build_locked k build state reason st) = ms_secret st"
  by (simp_all add: close_build_locked_def Let_def split: prod.split)

lemma builds_inv_cong:
  "ms_builds st = ms_builds st' \<Longrightarrow> ms_open_builds st = ms_open_builds st' \<Longrightarrow> ms_closed_order st = ms_closed_order st' \<Longrightarrow>
   ms_options st = ms_options st' \<Longrightarrow> builds_inv st \<longleftrightarrow> builds_inv st'"
  by (simp add: builds_inv_def open_ids_def closed_ids_def)

lemma commit_change_builds:
  assumes "builds_inv st" and "commit_change env st st'"
  shows "builds_inv st'"
proof -
  obtain k build s stored where k: "map_of (ms_builds st) k = Some build" "mb_state build = BuildOpen" "st' = publish k build s stored st"
    using assms(2) by (auto simp: commit_change_def)
  have "builds_inv (close_build_locked k build BuildCommitted [] st)" using close_build_builds(1) [OF assms(1) k(1,2)] by simp
  then show ?thesis using builds_inv_cong [of "st'" "close_build_locked k build BuildCommitted [] st"] by (simp add: k(3) publish_builds)
qed

lemma close_change_builds: "builds_inv st \<Longrightarrow> close_change st st' \<Longrightarrow> builds_inv st'"
  unfolding close_change_def using close_build_builds(1) by blast

section \<open>Preservation\<close>

text \<open>
  A property that the four changes preserve is preserved by every operation; recovery closes open builds one
  after the other.
\<close>

lemma recover_changes:
  assumes "builds_inv st" and "P st" and close: "\<And>s s'. builds_inv s \<Longrightarrow> P s \<Longrightarrow> close_change s s' \<Longrightarrow> P s'"
  shows "distinct ks \<Longrightarrow> set ks \<subseteq> open_ids st \<Longrightarrow> builds_inv (fold recover_one ks st) \<and> P (fold recover_one ks st)"
  using assms(1,2)
proof (induction ks arbitrary: st)
  case (Cons k ks)
  obtain build where b: "map_of (ms_builds st) k = Some build" "mb_state build = BuildOpen"
    using Cons.prems(2) by (auto simp: open_ids_def)
  have "close_change st (recover_one k st)" using b by (auto simp: close_change_def recover_one_def)
  then have "builds_inv (recover_one k st)" "P (recover_one k st)"
    using Cons.prems(3,4) close close_change_builds by blast+
  moreover have "open_ids (recover_one k st) = open_ids st - {k}"
    using close_build_builds(2) [OF Cons.prems(3) b] by (simp add: recover_one_def b)
  ultimately show ?case using Cons.IH [of "recover_one k st"] Cons.prems(1,2) by auto
qed simp

lemma open_build_ids_set:
  assumes "builds_inv st"
  shows "set (open_build_ids st) = open_ids st" "distinct (open_build_ids st)"
proof -
  have w: "wf_map (ms_builds st)" using assms by (simp add: builds_inv_def)
  show "set (open_build_ids st) = open_ids st"
    using wf_map_map_of [OF w] by (force simp: open_build_ids_def open_ids_def)
  show "distinct (open_build_ids st)"
    using w by (simp add: open_build_ids_def wf_map_def keys_def distinct_map_filter)
qed

lemma put_changes:
  "fst (put_artifacts env ctx k artifacts st) = st \<or> stage_change st (fst (put_artifacts env ctx k artifacts st))"
  "fst (put_nodes env ctx k nodes st) = st \<or> stage_change st (fst (put_nodes env ctx k nodes st))"
  "fst (put_edges env ctx k edges st) = st \<or> stage_change st (fst (put_edges env ctx k edges st))"
  "fst (put_evidence env ctx k evidence st) = st \<or> stage_change st (fst (put_evidence env ctx k evidence st))"
  "fst (put_diagnostics env ctx k diagnostics st) = st \<or> stage_change st (fst (put_diagnostics env ctx k diagnostics st))"
  "fst (put_conflicts env ctx k conflicts st) = st \<or> stage_change st (fst (put_conflicts env ctx k conflicts st))"
  "fst (put_documents env ctx k documents st) = st \<or> stage_change st (fst (put_documents env ctx k documents st))"
  "fst (put_claims env ctx k claims st) = st \<or> stage_change st (fst (put_claims env ctx k claims st))"
  "fst (put_paths env ctx k paths st) = st \<or> stage_change st (fst (put_paths env ctx k paths st))"
  unfolding put_artifacts_def put_nodes_def put_edges_def put_evidence_def put_diagnostics_def put_conflicts_def
    put_documents_def put_claims_def put_paths_def
  by (rule artifacts.put_records_change nodes.put_records_change edges.put_records_change evidence.put_records_change
    diagnostics.put_records_change conflicts.put_records_change documents.put_records_change claims.put_records_change
    paths.put_records_change)+

lemma store_step_changes:
  "store_step env st st' \<Longrightarrow> st' = st \<or> open_change st st' \<or> stage_change st st' \<or> close_change st st' \<or>
     commit_change env st st' \<or> (\<exists>ctx. st' = fst (recover_builds ctx st))"
proof (induction rule: store_step.induct)
  case (Validate st ctx k)
  then show ?case by (simp add: validate_build_def)
next
  case (Recover st ctx)
  then show ?case by blast
qed (use put_changes put_coverage_change begin_build_change commit_build_change abort_build_change in metis)+

lemma store_step_preserves:
  assumes step: "store_step env st st'" and inv: "builds_inv st" and "P st"
    and changes: "\<And>s s'. builds_inv s \<Longrightarrow> P s \<Longrightarrow> open_change s s' \<or> stage_change s s' \<or> close_change s s' \<or> commit_change env s s' \<Longrightarrow> P s'"
  shows "builds_inv st' \<and> P st'"
proof -
  have one: "builds_inv st' \<and> P st'"
    if "st' = st \<or> open_change st st' \<or> stage_change st st' \<or> close_change st st' \<or> commit_change env st st'"
    using that assms(2,3) changes [OF inv \<open>P st\<close>] open_change_builds stage_change_builds(1) close_change_builds commit_change_builds
    by metis
  show ?thesis
  proof (cases "\<exists>ctx. st' = fst (recover_builds ctx st)")
    case True
    then obtain ctx where st': "st' = fst (recover_builds ctx st)" ..
    have "builds_inv (fold recover_one (open_build_ids st) st) \<and> P (fold recover_one (open_build_ids st) st)"
      using open_build_ids_set [OF inv] by (intro recover_changes inv \<open>P st\<close>) (auto intro: changes)
    then show ?thesis
      using assms(2,3) by (cases "check_context ctx 0 ''recover builds''") (auto simp: st' recover_builds_def)
  next
    case False
    then have "st' = st \<or> open_change st st' \<or> stage_change st st' \<or> close_change st st' \<or> commit_change env st st'"
      using store_step_changes [OF step] by blast
    then show ?thesis by (rule one)
  qed
qed

lemma new_store_inv: "new_memory_store_with_options random opts = Inr st \<Longrightarrow> builds_inv st"
  using positive_limits [of opts]
  by (auto simp: new_memory_store_with_options_def res_simps builds_inv_def open_ids_def closed_ids_def split: sum.splits)

lemma store_run_builds: "store_run env st \<Longrightarrow> builds_inv st"
proof (induction rule: store_run.induct)
  case (Step st st')
  then show ?case using store_step_preserves [of env st st' "\<lambda>_. True"] by simp
qed (rule new_store_inv)

text \<open>An invariant of all runs.\<close>

lemma store_run_invariant:
  assumes "store_run env st"
    and new: "\<And>random opts s. new_memory_store_with_options random opts = Inr s \<Longrightarrow> P s"
    and changes: "\<And>s s'. builds_inv s \<Longrightarrow> P s \<Longrightarrow> open_change s s' \<or> stage_change s s' \<or> close_change s s' \<or> commit_change env s s' \<Longrightarrow> P s'"
  shows "P st"
  using assms(1)
proof (induction rule: store_run.induct)
  case (New random opts st)
  then show ?case by (rule new)
next
  case (Step st st')
  then show ?case using store_step_preserves [OF Step(2) store_run_builds [OF Step(1)], of P] changes by blast
qed

end
