(* ===== verification/StoreHistory.thy ===== *)
theory StoreHistory
  imports StoreInvariant
begin

text \<open>
  The published snapshots. Per repository the store refines an append-only log: a commit appends one snapshot
  whose parent is the last one, nothing else touches the log, and \<open>Current\<close> is its last entry. Every
  stored bundle is valid, canonical and carries its exact coverage.
\<close>

section \<open>What a commit checks\<close>

lemma snapshot_matchesD:
  assumes "snapshot_matches st k build s = Inr u"
  shows "sn_repository_id s = bo_repository_id (mb_options build)" "sn_parent_snapshot_id s = bo_parent_snapshot_id (mb_options build)"
    "sn_schema_version s = bo_expected_schema (mb_options build)" "sn_status s = ''committed''"
    "lookup_text (ms_current st) (sn_repository_id s) = mb_base_current build" "sn_id s \<notin> set (keys (ms_snapshots st))"
  using assms by (simp_all add: snapshot_matches_def res_simps Let_def)

lemma checked_commitE:
  assumes "checked_commit env st k build s = Inr stored"
  obtains b u where "snapshot_matches st k build s = Inr u" "bundle_from_build env s build = Inr b"
    "\<not> has_errors (validate_bundle (validation_env_of env) b strict_options)"
    "mb_coverage build = Some (build_coverage (coverage_env_of env) b)"
    "map_of (ms_affinity st) (bo_repository_id (mb_options build)) \<in> {None, Some (sn_repository_id s)}"
    "mp_bundle stored = sort_bundle (se_fold_case env) b"
    "clone_json (se_coverage env) (build_coverage (coverage_env_of env) b) = Inr (mp_coverage stored)"
proof -
  obtain u where u: "snapshot_matches st k build s = Inr u" using assms by (auto simp: checked_commit_def res_simps)
  obtain b where b: "bundle_from_build env s build = Inr b"
    using assms by (cases "bundle_from_build env s build") (auto simp: checked_commit_def res_simps)
  let ?r = "validate_staged env b (clone_coverage env (mb_coverage build))"
  have c: "\<not> has_errors (vs_report ?r)" "vs_coverage_present ?r" "exact_coverage build ?r"
      "\<not> (case map_of (ms_affinity st) (bo_repository_id (mb_options build)) of
                    None \<Rightarrow> False | Some affinity \<Rightarrow> affinity \<noteq> sn_repository_id s)"
    using assms u b by (auto simp: checked_commit_def Let_def split: if_split_asm)
  then have "(case clone_json (se_coverage env) (vs_expected_coverage ?r) of
      Inl e \<Rightarrow> Inl (WrappedError ''clone validated coverage'' e)
    | Inr c \<Rightarrow> Inr \<lparr>mp_bundle = sort_bundle (se_fold_case env) b, mp_coverage = c\<rparr>) = Inr stored"
    using assms u b by (simp add: checked_commit_def Let_def)
  then have "mp_bundle stored = sort_bundle (se_fold_case env) b"
      "clone_json (se_coverage env) (vs_expected_coverage ?r) = Inr (mp_coverage stored)"
    by (auto split: sum.splits)
  then show ?thesis
    using c by (intro that [OF u b]) (auto simp: validate_staged_def exact_coverage_def Let_def split: option.splits)
qed

text \<open>
  What the store relies on of JSON: a snapshot that has been decoded once, and the coverage of a decoded bundle,
  come back unchanged.
\<close>

definition stable_codecs :: "store_env \<Rightarrow> bool" where
  "stable_codecs env \<longleftrightarrow>
     (\<forall>s0 s b b'. clone_json (se_snapshot env) s0 = Inr s \<longrightarrow> bu_snapshot b = s \<longrightarrow> clone_json (se_bundle env) b = Inr b' \<longrightarrow>
        bu_snapshot b' = s) \<and>
     (\<forall>b0 b c. clone_json (se_bundle env) b0 = Inr b \<longrightarrow>
        clone_json (se_coverage env) (build_coverage (coverage_env_of env) (sort_bundle (se_fold_case env) b)) = Inr c \<longrightarrow>
        c = build_coverage (coverage_env_of env) (sort_bundle (se_fold_case env) b))"

lemma bundle_from_buildD:
  "bundle_from_build env s build = Inr b \<Longrightarrow> \<exists>b0 b1. clone_json (se_bundle env) b0 = Inr b1 \<and> bu_snapshot b0 = s \<and>
     b = sort_bundle (se_fold_case env) b1"
proof -
  assume "bundle_from_build env s build = Inr b"
  then obtain b0 b1 where "clone_json (se_bundle env) b0 = Inr b1" "b = sort_bundle (se_fold_case env) b1" "bu_snapshot b0 = s"
    unfolding bundle_from_build_def res_bind_Inr_iff by fastforce
  then show ?thesis by blast
qed

section \<open>The log\<close>

definition stored_ok :: "store_env \<Rightarrow> memory_snapshot \<Rightarrow> bool" where
  "stored_ok env s \<longleftrightarrow> sn_status (bu_snapshot (mp_bundle s)) = ''committed'' \<and>
     \<not> has_errors (validate_bundle (validation_env_of env) (mp_bundle s) strict_options) \<and>
     sort_bundle (se_fold_case env) (mp_bundle s) = mp_bundle s \<and>
     mp_coverage s = build_coverage (coverage_env_of env) (mp_bundle s)"

definition repository_of :: "memory_snapshot \<Rightarrow> string" where
  "repository_of s = sn_repository_id (bu_snapshot (mp_bundle s))"

definition log_of :: "memory_store \<Rightarrow> string \<Rightarrow> memory_snapshot list" where
  "log_of st r = filter (\<lambda>s. repository_of s = r) (map snd (ms_snapshots st))"

definition log_ids :: "memory_snapshot list \<Rightarrow> string list" where
  "log_ids = map (\<lambda>s. sn_id (bu_snapshot (mp_bundle s)))"

definition log_parents :: "memory_snapshot list \<Rightarrow> string list" where
  "log_parents = map (\<lambda>s. sn_parent_snapshot_id (bu_snapshot (mp_bundle s)))"

text \<open>The snapshot an open build is based on is the parent it was opened with, and is published or absent.\<close>

definition build_based :: "memory_store \<Rightarrow> memory_build \<Rightarrow> bool" where
  "build_based st b \<longleftrightarrow> mb_base_current b = bo_parent_snapshot_id (mb_options b) \<and>
     mb_base_current b \<in> insert [] (set (keys (ms_snapshots st)))"

definition history_inv :: "store_env \<Rightarrow> memory_store \<Rightarrow> bool" where
  "history_inv env st \<longleftrightarrow> wf_map (ms_snapshots st) \<and>
     (\<forall>(k, s) \<in> set (ms_snapshots st). k = sn_id (bu_snapshot (mp_bundle s)) \<and> k \<noteq> [] \<and> stored_ok env s \<and>
        map_of (ms_affinity st) (repository_of s) = Some (repository_of s)) \<and>
     (\<forall>r. [] # log_ids (log_of st r) = log_parents (log_of st r) @ [lookup_text (ms_current st) r]) \<and>
     (\<forall>r. log_of st r = [] \<longleftrightarrow> map_of (ms_current st) r = None) \<and>
     (\<forall>r a. map_of (ms_affinity st) r = Some a \<longrightarrow> a = r) \<and>
     (\<forall>k b. map_of (ms_builds st) k = Some b \<and> mb_state b = BuildOpen \<longrightarrow> build_based st b)"

lemma log_of_append:
  "ms_snapshots st' = ms_snapshots st @ [(k, s)] \<Longrightarrow>
   log_of st' r = (if repository_of s = r then log_of st r @ [s] else log_of st r)"
  by (simp add: log_of_def)

lemma lookup_text_update: "lookup_text (AList.update k v m) r = (if r = k then v else lookup_text m r)"
  by (simp add: lookup_text_def)

text \<open>The change of a commit: the log of one repository grows by one snapshot.\<close>

lemma commit_changeE:
  assumes "commit_change env st st'" and codecs: "stable_codecs env" and lower: "lower_stable (se_fold_case env)"
  obtains k build stored where "map_of (ms_builds st) k = Some build" "mb_state build = BuildOpen" "stored_ok env stored"
    "sn_id (bu_snapshot (mp_bundle stored)) \<noteq> []" "sn_id (bu_snapshot (mp_bundle stored)) \<notin> set (keys (ms_snapshots st))"
    "repository_of stored = bo_repository_id (mb_options build)"
    "sn_parent_snapshot_id (bu_snapshot (mp_bundle stored)) = bo_parent_snapshot_id (mb_options build)"
    "lookup_text (ms_current st) (repository_of stored) = mb_base_current build"
    "ms_snapshots st' = ms_snapshots st @ [(sn_id (bu_snapshot (mp_bundle stored)), stored)]"
    "ms_current st' = AList.update (repository_of stored) (sn_id (bu_snapshot (mp_bundle stored))) (ms_current st)"
    "map_of (ms_affinity st') = (map_of (ms_affinity st))(repository_of stored \<mapsto> repository_of stored)"
    "ms_builds st' = ms_builds (close_build_locked k build BuildCommitted [] st)"
proof -
  obtain k build s stored s0 where k: "map_of (ms_builds st) k = Some build" "mb_state build = BuildOpen"
      "clone_json (se_snapshot env) s0 = Inr s" "\<not> blank (sn_id s)" "checked_commit env st k build s = Inr stored"
      "st' = publish k build s stored st"
    using assms(1) by (auto simp: commit_change_def)
  from k(5) obtain b u where b: "snapshot_matches st k build s = Inr u" "bundle_from_build env s build = Inr b"
    "\<not> has_errors (validate_bundle (validation_env_of env) b strict_options)"
    "map_of (ms_affinity st) (bo_repository_id (mb_options build)) \<in> {None, Some (sn_repository_id s)}"
    "mp_bundle stored = sort_bundle (se_fold_case env) b"
    "clone_json (se_coverage env) (build_coverage (coverage_env_of env) b) = Inr (mp_coverage stored)"
    by (rule checked_commitE)
  note m = snapshot_matchesD [OF b(1)]
  obtain b0 b1 where b01: "clone_json (se_bundle env) b0 = Inr b1" "bu_snapshot b0 = s" "b = sort_bundle (se_fold_case env) b1"
    using bundle_from_buildD [OF b(2)] by blast
  have "bu_snapshot b1 = s" using codecs k(3) b01(1,2) unfolding stable_codecs_def by blast
  then have s: "bu_snapshot (mp_bundle stored) = s" by (simp add: b(5) b01(3) sort_bundle_def)
  have sb: "mp_bundle stored = b" by (simp add: b(5) b01(3) sort_bundle_idem [OF lower])
  have "mp_coverage stored = build_coverage (coverage_env_of env) b"
    using codecs b01(1,3) b(6) unfolding stable_codecs_def by blast
  then have ok: "stored_ok env stored"
    using b(3) m(4) s by (simp add: stored_ok_def sb) (simp add: b01(3) sort_bundle_idem [OF lower])
  have "map_of (ms_affinity st') = (map_of (ms_affinity st))(repository_of stored \<mapsto> repository_of stored)"
    using b(4) m(1) by (auto simp: k(6) publish_def repository_of_def s Let_def fun_eq_iff set_keys_map_of)
  then show ?thesis
    using k(4) m s ok publish_builds(1) [of k build s stored st]
    by (intro that [OF k(1,2)]) (auto simp: repository_of_def k(6), simp_all add: publish_def update_fresh Let_def)
qed

lemma history_inv_builds_only:
  assumes "history_inv env st" and "ms_snapshots st' = ms_snapshots st" "ms_current st' = ms_current st" "ms_affinity st' = ms_affinity st"
    and "\<And>k b. map_of (ms_builds st') k = Some b \<Longrightarrow> mb_state b = BuildOpen \<Longrightarrow> build_based st b"
  shows "history_inv env st'"
proof -
  have "build_based st' = build_based st" by (simp add: build_based_def assms(2) fun_eq_iff)
  then show ?thesis using assms by (simp add: history_inv_def log_of_def) blast
qed

lemma history_inv_open: "history_inv env st \<Longrightarrow> map_of (ms_builds st) k = Some b \<Longrightarrow> mb_state b = BuildOpen \<Longrightarrow> build_based st b"
  by (simp add: history_inv_def)

lemma current_published:
  assumes "history_inv env st"
  shows "lookup_text (ms_current st) r \<in> insert [] (set (keys (ms_snapshots st)))"
proof -
  have "[] # log_ids (log_of st r) = log_parents (log_of st r) @ [lookup_text (ms_current st) r]"
    using assms by (simp add: history_inv_def)
  then have "lookup_text (ms_current st) r = last ([] # log_ids (log_of st r))" by simp
  also have "\<dots> \<in> set ([] # log_ids (log_of st r))" by (rule last_in_set) simp
  finally have "lookup_text (ms_current st) r \<in> insert [] (set (log_ids (log_of st r)))" by simp
  moreover have "set (log_ids (log_of st r)) \<subseteq> set (keys (ms_snapshots st))"
  proof
    fix i
    assume "i \<in> set (log_ids (log_of st r))"
    then obtain k s where s: "(k, s) \<in> set (ms_snapshots st)" "i = sn_id (bu_snapshot (mp_bundle s))"
      by (auto simp: log_ids_def log_of_def)
    then have "i = k" using assms by (auto simp: history_inv_def)
    then show "i \<in> set (keys (ms_snapshots st))" using s(1) by (force simp: keys_def)
  qed
  ultimately show ?thesis by blast
qed

lemma history_inv_open_change:
  assumes "history_inv env st" "open_change st st'"
  shows "history_inv env st'"
proof -
  obtain k opts where k: "k \<notin> set (keys (ms_builds st))"
      "lookup_text (ms_current st) (bo_repository_id opts) = bo_parent_snapshot_id opts"
      "st' = st\<lparr>ms_builds := ms_builds st @ [(k, opened_build opts)], ms_open_builds := ms_open_builds st + 1\<rparr>"
    using assms(2) by (auto simp: open_change_def)
  have "ms_builds st' = ms_builds st @ [(k, opened_build opts)]" by (simp add: k(3))
  then have m: "map_of (ms_builds st') = (map_of (ms_builds st))(k \<mapsto> opened_build opts)" by (simp only: map_of_append_fresh [OF k(1)])
  have o: "build_based st (opened_build opts)"
    using current_published [OF assms(1), of "bo_repository_id opts"] k(2) by (simp add: build_based_def opened_build_def empty_build_def)
  have "build_based st b" if "map_of (ms_builds st') j = Some b" "mb_state b = BuildOpen" for j b
  proof (cases "j = k")
    case True
    then show ?thesis using that o by (simp add: m)
  next
    case False
    then have "map_of (ms_builds st) j = Some b" using that(1) by (simp add: m)
    then show ?thesis using that(2) by (rule history_inv_open [OF assms(1)])
  qed
  then show ?thesis by (intro history_inv_builds_only [OF assms(1)]) (simp_all add: k(3))
qed

lemma history_inv_stage_change:
  assumes "history_inv env st" "stage_change st st'"
  shows "history_inv env st'"
proof -
  obtain k build build' where k: "map_of (ms_builds st) k = Some build" "mb_state build = BuildOpen" "replaces build build'"
      "st' = update_build k build' st"
    using assms(2) by (auto simp: stage_change_def)
  have "build_based st build'"
    using history_inv_open [OF assms(1) k(1,2)] k(3) unfolding build_based_def replaces_def by metis
  then have "build_based st b" if "map_of (ms_builds st') j = Some b" "mb_state b = BuildOpen" for j b
    using that history_inv_open [OF assms(1), of j b] by (simp add: k(4) update_build_def split: if_split_asm)
  then show ?thesis by (intro history_inv_builds_only [OF assms(1)]) (simp_all add: k(4) update_build_def)
qed

lemma history_inv_close_base:
  assumes "builds_inv st" "history_inv env st" "map_of (ms_builds st) k = Some build" "mb_state build = BuildOpen"
    and "map_of (ms_builds (close_build_locked k build state reason st)) j = Some b" "mb_state b = BuildOpen" "state \<noteq> BuildOpen"
  shows "build_based st b"
  using close_build_builds(5) [OF assms(1,3,4,7,5,6)] assms(6) by (rule history_inv_open [OF assms(2)])

lemma history_inv_close_change:
  assumes "builds_inv st" "history_inv env st" "close_change st st'"
  shows "history_inv env st'"
proof -
  obtain k build reason where k: "map_of (ms_builds st) k = Some build" "mb_state build = BuildOpen"
      "st' = close_build_locked k build BuildAborted reason st"
    using assms(3) by (auto simp: close_change_def)
  have "build_based st b" if "map_of (ms_builds st') j = Some b" "mb_state b = BuildOpen" for j b
    using history_inv_close_base [OF assms(1,2) k(1,2)] that by (simp add: k(3))
  then show ?thesis by (intro history_inv_builds_only [OF assms(2)]) (simp_all add: k(3))
qed

lemma history_inv_commit_change:
  assumes inv: "builds_inv st" "history_inv env st" and change: "commit_change env st st'"
    and codecs: "stable_codecs env" and lower: "lower_stable (se_fold_case env)"
  shows "history_inv env st'"
  using change codecs lower
proof (rule commit_changeE)
  fix k build and stored :: memory_snapshot
  let ?id = "sn_id (bu_snapshot (mp_bundle stored))"
  assume build: "map_of (ms_builds st) k = Some build" "mb_state build = BuildOpen" and ok: "stored_ok env stored" "?id \<noteq> []"
    and fresh: "?id \<notin> set (keys (ms_snapshots st))" and repo: "repository_of stored = bo_repository_id (mb_options build)"
    and parent: "sn_parent_snapshot_id (bu_snapshot (mp_bundle stored)) = bo_parent_snapshot_id (mb_options build)"
    and cur: "lookup_text (ms_current st) (repository_of stored) = mb_base_current build"
    and st': "ms_snapshots st' = ms_snapshots st @ [(?id, stored)]"
      "ms_current st' = AList.update (repository_of stored) ?id (ms_current st)"
      "map_of (ms_affinity st') = (map_of (ms_affinity st))(repository_of stored \<mapsto> repository_of stored)"
      "ms_builds st' = ms_builds (close_build_locked k build BuildCommitted [] st)"
  note i = inv(2) [unfolded history_inv_def]
  have log: "log_of st' r = (if repository_of stored = r then log_of st r @ [stored] else log_of st r)" for r
    by (rule log_of_append [OF st'(1)])
  have chain: "[] # log_ids (log_of st r) = log_parents (log_of st r) @ [lookup_text (ms_current st) r]" for r using i by blast
  have "mb_base_current build = bo_parent_snapshot_id (mb_options build)"
    using history_inv_open [OF inv(2) build] by (simp add: build_based_def)
  then have parent': "sn_parent_snapshot_id (bu_snapshot (mp_bundle stored)) = lookup_text (ms_current st) (repository_of stored)"
    using cur parent by simp
  have "[] # log_ids (log_of st' r) = log_parents (log_of st' r) @ [lookup_text (ms_current st') r]" for r
  proof (cases "r = repository_of stored")
    case True
    have "[] # log_ids (log_of st r @ [stored]) = ([] # log_ids (log_of st r)) @ [?id]" by (simp add: log_ids_def)
    also have "\<dots> = log_parents (log_of st r @ [stored]) @ [?id]"
      unfolding chain [of r] by (simp add: log_parents_def parent' True)
    finally show ?thesis by (simp add: log st'(2) lookup_text_update True)
  next
    case False
    then show ?thesis using chain [of r] by (simp add: log st'(2) lookup_text_update)
  qed
  moreover have "log_of st' r = [] \<longleftrightarrow> map_of (ms_current st') r = None" for r using i by (simp add: log st'(2))
  moreover have "wf_map (ms_snapshots st')" using i fresh by (simp add: st'(1) wf_map_append_fresh)
  moreover have "\<forall>j b. map_of (ms_builds st') j = Some b \<and> mb_state b = BuildOpen \<longrightarrow> build_based st' b"
    using history_inv_close_base [OF inv build] by (fastforce simp: st'(1,4) build_based_def keys_def)
  moreover have "\<forall>(j, s) \<in> set (ms_snapshots st'). j = sn_id (bu_snapshot (mp_bundle s)) \<and> j \<noteq> [] \<and> stored_ok env s \<and>
      map_of (ms_affinity st') (repository_of s) = Some (repository_of s)"
    using i ok by (auto simp: st'(1,3))
  moreover have "\<forall>r a. map_of (ms_affinity st') r = Some a \<longrightarrow> a = r" using i by (auto simp: st'(3))
  ultimately show ?thesis unfolding history_inv_def by blast
qed

lemma store_run_history:
  assumes "store_run env st" and "stable_codecs env" and "lower_stable (se_fold_case env)"
  shows "history_inv env st"
  using assms(1)
proof (rule store_run_invariant)
  fix random opts s
  assume "new_memory_store_with_options random opts = Inr s"
  then show "history_inv env s"
    by (auto simp: new_memory_store_with_options_def res_simps history_inv_def log_of_def log_ids_def log_parents_def
      lookup_text_def split: sum.splits)
next
  fix s s'
  assume "builds_inv s" "history_inv env s" "open_change s s' \<or> stage_change s s' \<or> close_change s s' \<or> commit_change env s s'"
  then show "history_inv env s'"
    using history_inv_open_change history_inv_stage_change history_inv_close_change history_inv_commit_change assms(2,3) by metis
qed

section \<open>Properties of every run\<close>

text \<open>
  C21. In every run of the store the snapshots of a repository form one chain in commit order: the first has no
  parent, the parent of each other one is its predecessor, and the current snapshot is the last one.
\<close>

theorem store_linear_history:
  assumes "store_run env st" and "stable_codecs env" and "lower_stable (se_fold_case env)"
  shows "[] # log_ids (log_of st r) = log_parents (log_of st r) @ [lookup_text (ms_current st) r]"
  using store_run_history [OF assms] by (auto simp: history_inv_def)

text \<open>
  C22. Whatever is published is valid under the strict vocabulary, has status committed, is in canonical order,
  carries exactly the coverage of its bundle, and is found under its own identifier.
\<close>

theorem store_publishes_valid:
  assumes "store_run env st" and "stable_codecs env" and "lower_stable (se_fold_case env)"
    and "map_of (ms_snapshots st) k = Some s"
  shows "sn_id (bu_snapshot (mp_bundle s)) = k \<and> sn_status (bu_snapshot (mp_bundle s)) = ''committed'' \<and>
    \<not> has_errors (validate_bundle (validation_env_of env) (mp_bundle s) strict_options) \<and>
    sort_bundle (se_fold_case env) (mp_bundle s) = mp_bundle s \<and> mp_coverage s = build_coverage (coverage_env_of env) (mp_bundle s)"
  using store_run_history [OF assms(1-3)] map_of_SomeD [OF assms(4)] by (auto simp: history_inv_def stored_ok_def)

text \<open>
  Published snapshots are immutable and never lost: an operation leaves the list of snapshots as it is or
  appends one of a new identifier.
\<close>

theorem store_snapshots_append_only:
  assumes "store_step env st st'"
  shows "\<exists>new. ms_snapshots st' = ms_snapshots st @ new \<and> length new \<le> 1 \<and>
    (\<forall>k \<in> set (keys new). k \<notin> set (keys (ms_snapshots st)))"
proof -
  have same: ?thesis if "ms_snapshots st' = ms_snapshots st" using that by (intro exI [of _ "[]"]) (simp add: keys_def)
  have commit: ?thesis if "commit_change env st st'"
  proof -
    obtain k build s stored where "checked_commit env st k build s = Inr stored" "st' = publish k build s stored st"
      using \<open>commit_change env st st'\<close> by (auto simp: commit_change_def)
    moreover from this(1) obtain u where "snapshot_matches st k build s = Inr u" by (rule checked_commitE)
    then have "sn_id s \<notin> set (keys (ms_snapshots st))" by (rule snapshot_matchesD)
    ultimately show ?thesis by (intro exI [of _ "[(sn_id s, stored)]"]) (simp add: publish_def update_fresh Let_def, simp add: keys_def)
  qed
  have "ms_snapshots (fold recover_one ks s) = ms_snapshots s" for ks s
    by (induction ks arbitrary: s) (auto simp: recover_one_def split: option.splits)
  then have recover: "ms_snapshots (fst (recover_builds ctx st)) = ms_snapshots st" for ctx
    by (auto simp: recover_builds_def split: sum.splits)
  from store_step_changes [OF assms] show ?thesis
    using same commit recover by (auto simp: open_change_def stage_change_def close_change_def update_build_def)
qed

end
