(* ===== verification/StoreLimits.thy ===== *)
theory StoreLimits
  imports StoreHistory
begin

text \<open>
  What every run of the store bounds, and what happens to the losers of a race: the limits of
  \<open>MemoryOptions\<close> hold of every store that a run reaches, closed builds retain nothing, and of two builds
  of one repository only the first to commit is published.
\<close>

section \<open>Limits\<close>

definition payload_free :: "memory_build \<Rightarrow> bool" where
  "payload_free b \<longleftrightarrow> retained_records b = 0 \<and> mb_record_count b = 0 \<and> mb_record_bytes b = 0 \<and> bo_metadata (mb_options b) = []"

definition limits_inv :: "memory_store \<Rightarrow> bool" where
  "limits_inv st \<longleftrightarrow> (\<forall>k b. map_of (ms_builds st) k = Some b \<longrightarrow>
     (if mb_state b = BuildOpen then within_limits (ms_options st) b else payload_free b))"

lemma limits_inv_update:
  assumes "limits_inv st" and "ms_options st' = ms_options st"
    and "\<And>k b. map_of (ms_builds st') k = Some b \<Longrightarrow> map_of (ms_builds st) k = Some b \<or>
      (if mb_state b = BuildOpen then within_limits (ms_options st) b else payload_free b)"
  shows "limits_inv st'"
  using assms unfolding limits_inv_def by metis

lemma clear_payload_free: "mb_state build \<noteq> BuildOpen \<Longrightarrow> mb_state (clear_payload build) \<noteq> BuildOpen \<and> payload_free (clear_payload build)"
  by (simp add: clear_payload_def payload_free_def retained_records_def)

lemma limits_inv_close:
  assumes "builds_inv st" "limits_inv st" "map_of (ms_builds st) k = Some build" "mb_state build = BuildOpen" "state \<noteq> BuildOpen"
  shows "limits_inv (close_build_locked k build state reason st)"
proof (rule limits_inv_update [OF assms(2)])
  fix j b
  assume "map_of (ms_builds (close_build_locked k build state reason st)) j = Some b"
  from close_build_builds(4) [OF assms(1,3-5) this]
  show "map_of (ms_builds st) j = Some b \<or> (if mb_state b = BuildOpen then within_limits (ms_options st) b else payload_free b)"
    using clear_payload_free [of "build\<lparr>mb_state := state, mb_abort_reason := reason\<rparr>"] assms(5) by auto
qed simp

lemma limits_inv_cong: "ms_builds st' = ms_builds st \<Longrightarrow> ms_options st' = ms_options st \<Longrightarrow> limits_inv st' = limits_inv st"
  by (simp add: limits_inv_def)

lemma limits_inv_changes:
  assumes "builds_inv st" "limits_inv st"
    and "open_change st st' \<or> stage_change st st' \<or> close_change st st' \<or> commit_change env st st'"
  shows "limits_inv st'"
  using assms(3)
proof (elim disjE)
  assume "open_change st st'"
  then obtain k opts where k: "k \<notin> set (keys (ms_builds st))"
      "st' = st\<lparr>ms_builds := ms_builds st @ [(k, opened_build opts)], ms_open_builds := ms_open_builds st + 1\<rparr>"
    by (auto simp: open_change_def)
  have "ms_builds st' = ms_builds st @ [(k, opened_build opts)]" by (simp add: k(2))
  then have m: "map_of (ms_builds st') = (map_of (ms_builds st))(k \<mapsto> opened_build opts)" by (simp only: map_of_append_fresh [OF k(1)])
  have "within_limits (ms_options st) (opened_build opts)"
    using assms(1) positive_limits [of "ms_options st"]
    by (simp add: builds_inv_def within_limits_def opened_build_def empty_build_def retained_records_def)
  moreover have "mb_state (opened_build opts) = BuildOpen" by (simp add: opened_build_def empty_build_def)
  ultimately show ?thesis by (intro limits_inv_update [OF assms(2)]) (auto simp: m k(2) split: if_split_asm)
next
  assume "stage_change st st'"
  then obtain k build build' where k: "map_of (ms_builds st) k = Some build" "mb_state build = BuildOpen" "replaces build build'"
      "within_limits (ms_options st) build \<longrightarrow> within_limits (ms_options st) build'" "st' = update_build k build' st"
    by (auto simp: stage_change_def)
  have "within_limits (ms_options st) build" using assms(2) k(1,2) unfolding limits_inv_def by metis
  then show ?thesis
    using k(2,3,4) by (intro limits_inv_update [OF assms(2)]) (auto simp: k(5) update_build_def replaces_def split: if_split_asm)
next
  assume "close_change st st'"
  then show ?thesis using limits_inv_close [OF assms(1,2)] by (auto simp: close_change_def)
next
  assume "commit_change env st st'"
  then obtain k build s stored where k: "map_of (ms_builds st) k = Some build" "mb_state build = BuildOpen"
      "st' = publish k build s stored st"
    by (auto simp: commit_change_def)
  then show ?thesis
    using limits_inv_close [OF assms(1,2) k(1,2), of BuildCommitted "[]"] limits_inv_cong [OF publish_builds(1,4) [THEN trans]]
    by (simp add: publish_builds limits_inv_def)
qed

lemma store_run_limits: "store_run env st \<Longrightarrow> limits_inv st"
proof (erule store_run_invariant)
  show "limits_inv s" if "new_memory_store_with_options random opts = Inr s" for random opts s
    using that by (auto simp: new_memory_store_with_options_def res_simps limits_inv_def split: sum.splits)
qed (rule limits_inv_changes)

lemma builds_length:
  assumes "builds_inv st"
  shows "length (ms_builds st) = card (open_ids st) + length (ms_closed_order st)"
proof -
  have "length (ms_builds st) = card (set (keys (ms_builds st)))"
    using assms distinct_card [of "keys (ms_builds st)"] by (simp add: builds_inv_def wf_map_def keys_def)
  also have "set (keys (ms_builds st)) = open_ids st \<union> closed_ids st"
    by (auto simp: open_ids_def closed_ids_def set_keys_map_of)
  also have "card (open_ids st \<union> closed_ids st) = card (open_ids st) + card (closed_ids st)"
  proof (rule card_Un_disjoint)
    show "finite (closed_ids st)" using assms List.finite_set by (metis builds_inv_def)
  qed (simp, auto simp: open_ids_def closed_ids_def)
  also have "card (closed_ids st) = length (ms_closed_order st)"
    using assms distinct_card [of "ms_closed_order st"] by (simp add: builds_inv_def)
  finally show ?thesis .
qed

text \<open>
  C24. In every run the number of open builds is counted exactly and stays within MaxOpenBuilds, closed builds are
  kept as at most MaxClosedBuildTombstones tombstones that retain no record, and every open build retains at most the
  records it is charged for, within MaxBuildRecords and MaxBuildBytes.
\<close>

theorem store_within_limits:
  assumes "store_run env st"
  shows "ms_open_builds st = int (card (open_ids st)) \<and> ms_open_builds st \<le> mo_max_open_builds (ms_options st) \<and>
    length (ms_builds st) = card (open_ids st) + length (ms_closed_order st) \<and>
    int (length (ms_closed_order st)) \<le> mo_max_closed_build_tombstones (ms_options st) \<and>
    (\<forall>(k, b) \<in> set (ms_builds st). if mb_state b = BuildOpen then within_limits (ms_options st) b else payload_free b)"
proof -
  have b: "builds_inv st" by (rule store_run_builds [OF assms])
  have "if mb_state x = BuildOpen then within_limits (ms_options st) x else payload_free x" if "(k, x) \<in> set (ms_builds st)" for k x
  proof -
    have "map_of (ms_builds st) k = Some x" using that b by (simp add: builds_inv_def wf_map_map_of)
    then show ?thesis using store_run_limits [OF assms] unfolding limits_inv_def by blast
  qed
  then show ?thesis using b builds_length [OF b] unfolding builds_inv_def by blast
qed

section \<open>Races\<close>

text \<open>The error of a commit whose request matches its build but whose base is no longer current.\<close>

definition matching_request :: "store_env \<Rightarrow> memory_build \<Rightarrow> go_value snapshot \<Rightarrow> bool" where
  "matching_request env build snapshot \<longleftrightarrow> (case clone_json (se_snapshot env) snapshot of
     Inl e \<Rightarrow> False
   | Inr s \<Rightarrow> valid_identifier ''commit build'' ''snapshot_id'' (sn_id s) = Inr () \<and>
       sn_repository_id s = bo_repository_id (mb_options build) \<and>
       sn_parent_snapshot_id s = bo_parent_snapshot_id (mb_options build) \<and>
       sn_schema_version s = bo_expected_schema (mb_options build) \<and> sn_status s = ''committed'')"

lemma stale_checked_commit:
  assumes "lookup_text (ms_current st) (bo_repository_id (mb_options build)) \<noteq> mb_base_current build"
  shows "\<exists>e. checked_commit env st k build s = Inl e \<and>
    (sn_repository_id s = bo_repository_id (mb_options build) \<and> sn_parent_snapshot_id s = bo_parent_snapshot_id (mb_options build) \<and>
     sn_schema_version s = bo_expected_schema (mb_options build) \<and> sn_status s = ''committed'' \<longrightarrow> is_code e CodeConflict)"
proof (cases "snapshot_matches st k build s")
  case (Inl e)
  then show ?thesis
    using assms by (auto simp: checked_commit_def snapshot_matches_def Let_def guard_def error_defs split: if_split_asm)
next
  case (Inr u)
  then show ?thesis using assms by (simp add: snapshot_matches_def res_simps Let_def)
qed

lemma stale_commit:
  assumes "map_of (ms_builds st) k = Some build"
    and "lookup_text (ms_current st) (bo_repository_id (mb_options build)) \<noteq> mb_base_current build"
  shows "\<exists>e. commit_build env ctx k s st = (st, Inl e) \<and>
    (ctx = background \<and> mb_state build = BuildOpen \<and> k \<noteq> [] \<and> matching_request env build s \<longrightarrow> is_code e CodeConflict)"
proof (cases "commit_checks env ctx k s st")
  case (Inr r)
  obtain b s' stored where "r = (b, s', stored)" by (cases r)
  then have "checked_commit env st k b s' = Inr stored" "open_build_locked ctx 1 ''commit build'' k st = Inr b"
    using Inr by (auto simp: commit_checks_def res_simps split: sum.splits)
  then show ?thesis
    using open_build_lockedD [of ctx 1 "''commit build''" k st b] assms stale_checked_commit [OF assms(2), of env k s'] by auto
next
  case (Inl e)
  have "is_code e CodeConflict" if "ctx = background" "mb_state build = BuildOpen" "k \<noteq> []" "matching_request env build s"
  proof -
    note matching = that(4)
    obtain s' where s': "clone_json (se_snapshot env) s = Inr s'" "valid_identifier ''commit build'' ''snapshot_id'' (sn_id s') = Inr ()"
        "sn_repository_id s' = bo_repository_id (mb_options build) \<and> sn_parent_snapshot_id s' = bo_parent_snapshot_id (mb_options build) \<and>
         sn_schema_version s' = bo_expected_schema (mb_options build) \<and> sn_status s' = ''committed''"
      using matching by (auto simp: matching_request_def split: sum.splits)
    have "open_build_locked ctx 1 ''commit build'' k st = Inr build"
      using that assms(1) by (simp add: open_build_locked_def)
    then show ?thesis
      using stale_checked_commit [OF assms(2), of env k s'] s' Inl that(1) by (auto simp: commit_checks_def)
  qed
  then show ?thesis using Inl by (auto simp: commit_build_def)
qed

text \<open>
  C23. No lost update: once a build of a repository has committed, every other build of that repository that was
  open is refused when it commits, the store is left as it is, and the error is a conflict when the request itself matches
  the build.
\<close>

theorem store_no_lost_update:
  assumes run: "store_run env st" and codecs: "stable_codecs env" and lower: "lower_stable (se_fold_case env)"
    and commit: "commit_build env ctx k s st = (st', Inr ())"
    and other: "j \<noteq> k" "map_of (ms_builds st) j = Some b" "mb_state b = BuildOpen"
    and same: "map_of (ms_builds st) k = Some a" "bo_repository_id (mb_options a) = bo_repository_id (mb_options b)"
  shows "\<exists>e. commit_build env ctx' j s' st' = (st', Inl e) \<and>
    (ctx' = background \<and> j \<noteq> [] \<and> matching_request env b s' \<longrightarrow> is_code e CodeConflict)"
proof -
  obtain s1 stored where c: "commit_checks env ctx k s st = Inr (a, s1, stored)" "st' = publish k a s1 stored st"
  proof -
    obtain r where r: "commit_checks env ctx k s st = Inr r" using commit by (cases "commit_checks env ctx k s st") (auto simp: commit_build_def)
    obtain a' s1 stored where "r = (a', s1, stored)" by (cases r)
    moreover from this have "open_build_locked ctx 1 ''commit build'' k st = Inr a'"
      using r by (auto simp: commit_checks_def res_simps split: sum.splits)
    ultimately show ?thesis using that [of s1 stored] r commit same(1) open_build_lockedD by (fastforce simp: commit_build_def)
  qed
  then have o: "checked_commit env st k a s1 = Inr stored" "mb_state a = BuildOpen" "\<not> blank (sn_id s1)"
    using open_build_lockedD [of ctx 1 "''commit build''" k st a]
    by (auto simp: commit_checks_def res_simps valid_identifier_def split: sum.splits if_split_asm)
  obtain u where "snapshot_matches st k a s1 = Inr u" using o(1) by (rule checked_commitE)
  then have fresh: "sn_id s1 \<notin> set (keys (ms_snapshots st))" by (rule snapshot_matchesD)
  have "build_based st b" by (rule history_inv_open [OF store_run_history [OF run codecs lower] other(2,3)])
  then have "mb_base_current b \<noteq> sn_id s1" using fresh o(3) by (auto simp: build_based_def)
  moreover have "lookup_text (ms_current st') (bo_repository_id (mb_options b)) = sn_id s1"
    by (simp add: c(2) publish_def Let_def lookup_text_update same(2))
  moreover have "map_of (ms_builds st') j = Some b"
    using close_build_builds(3) [OF store_run_builds [OF run] same(1) o(2), of BuildCommitted j] other
    by (simp add: c(2) publish_builds open_ids_def)
  ultimately show ?thesis using stale_commit [of st' j b env ctx' s'] other(3) by auto
qed

end
