(* ===== verification/StageBundle.thy ===== *)
theory StageBundle
  imports StoreLimits
begin

text \<open>
  \<open>StageBundle\<close>, \<open>pkg/rkcstore/bundle.go\<close>: every record family of a bundle is written in atomic batches of
  at most \<open>MaxBatchSize\<close> records, and a batch that exhausts a limit is halved. The client makes a sequence of
  requests; \<open>err n\<close> is the result of \<open>ctx.Err()\<close> before the \<open>n\<close>-th one and \<open>put n\<close> the request
  itself, so that the context may be cancelled at any point.
\<close>

section \<open>Batches\<close>

type_synonym 's staging = "nat \<times> 's \<Rightarrow> (nat \<times> 's) \<times> (store_failure + unit)"

definition stage_then :: "'s staging \<Rightarrow> 's staging \<Rightarrow> 's staging" where
  "stage_then f g s = (case f s of (s', Inl e) \<Rightarrow> (s', Inl e) | (s', Inr u) \<Rightarrow> g s')"

function stage_adaptive ::
  "(nat \<Rightarrow> string option) \<Rightarrow> (nat \<Rightarrow> 'r list \<Rightarrow> 's \<Rightarrow> 's \<times> (store_failure + unit)) \<Rightarrow> 'r list \<Rightarrow> 's staging" where
  "stage_adaptive err put vs (n, st) =
     (case err n of
        Some e \<Rightarrow> ((n, st), Inl (store_error CodeCanceled ''stage bundle'' [] [] [] (Some (e, []))))
      | None \<Rightarrow> (case put n vs st of
          (st', Inr u) \<Rightarrow> ((n + 1, st'), Inr ())
        | (st', Inl e) \<Rightarrow>
            if length vs < 2 \<or> \<not> is_code e CodeResourceExhausted then ((n + 1, st'), Inl e)
            else let middle = length vs div 2 in
              (case stage_adaptive err put (take middle vs) (n + 1, st') of
                 (s, Inl e') \<Rightarrow> (s, Inl e')
               | (s, Inr u) \<Rightarrow> stage_adaptive err put (drop middle vs) s)))"
  by pat_completeness auto

termination
  by (relation "measure (\<lambda>(err, put, vs, s). length vs)") auto

declare stage_adaptive.simps [simp del]

function stage_slice ::
  "(nat \<Rightarrow> string option) \<Rightarrow> (nat \<Rightarrow> 'r list \<Rightarrow> 's \<Rightarrow> 's \<times> (store_failure + unit)) \<Rightarrow> 'r list \<Rightarrow> 's staging" where
  "stage_slice err put vs s =
     (if vs = [] then (s, Inr ())
      else stage_then (stage_adaptive err put (take (nat max_batch_size) vs))
             (stage_slice err put (drop (nat max_batch_size) vs)) s)"
  by pat_completeness auto

termination
  by (relation "measure (\<lambda>(err, put, vs, s). length vs)") (auto simp: max_batch_size_def)

declare stage_slice.simps [simp del]

section \<open>What a writer of batches guarantees\<close>

text \<open>
  A request either stages the whole batch or changes nothing; \<open>extends vs v v'\<close> says how staging \<open>vs\<close>
  shows in a view of the state.
\<close>

locale batch_writer =
  fixes put :: "nat \<Rightarrow> 'r list \<Rightarrow> 's \<Rightarrow> 's \<times> (store_failure + unit)"
    and view :: "'s \<Rightarrow> 'v"
    and extends :: "'r list \<Rightarrow> 'v \<Rightarrow> 'v \<Rightarrow> bool"
  assumes put_ok: "put n vs st = (st', Inr u) \<Longrightarrow> extends vs (view st) (view st')"
    and put_fail: "put n vs st = (st', Inl e) \<Longrightarrow> st' = st"
    and extends_Nil: "extends [] v v"
    and extends_append: "extends vs v1 v2 \<Longrightarrow> extends ws v2 v3 \<Longrightarrow> extends (vs @ ws) v1 v3"
begin

definition staged :: "'r list \<Rightarrow> 's \<Rightarrow> 's \<Rightarrow> store_failure + unit \<Rightarrow> bool" where
  "staged vs st st' r \<longleftrightarrow> (case r of Inr _ \<Rightarrow> extends vs (view st) (view st')
     | Inl e \<Rightarrow> \<exists>m \<le> length vs. extends (take m vs) (view st) (view st'))"

lemma staged_none: "staged vs st st (Inl e)"
  unfolding staged_def using extends_Nil [of "view st"] by (auto intro: exI [of _ 0])

lemma staged_split:
  assumes "staged (take i vs) st st1 r1" and "r1 = Inr u \<Longrightarrow> staged (drop i vs) st1 st2 r2"
    and "i \<le> length vs" and "(st', r) = (case r1 of Inl e \<Rightarrow> (st1, Inl e) | Inr _ \<Rightarrow> (st2, r2))"
  shows "staged vs st st' r"
proof (cases r1)
  case (Inl e)
  then obtain m where "m \<le> length (take i vs)" "extends (take m (take i vs)) (view st) (view st1)"
    using assms(1) by (auto simp: staged_def)
  then show ?thesis using assms(3,4) Inl by (auto simp: staged_def min_def intro!: exI [of _ m] split: if_split_asm)
next
  case (Inr u')
  have first: "extends (take i vs) (view st) (view st1)" using assms(1) Inr by (simp add: staged_def)
  have second: "staged (drop i vs) st1 st2 r2" using assms(2) Inr by simp
  show ?thesis
  proof (cases r2)
    case (Inl e)
    then obtain m where "m \<le> length vs - i" "extends (take m (drop i vs)) (view st1) (view st2)"
      using second by (auto simp: staged_def)
    then have "extends (take (i + m) vs) (view st) (view st2)" "i + m \<le> length vs"
      using extends_append [OF first] assms(3) by (simp_all add: take_add)
    then show ?thesis using assms(4) Inr Inl by (auto simp: staged_def)
  next
    case (Inr u'')
    then have "extends (drop i vs) (view st1) (view st2)" using second by (simp add: staged_def)
    from extends_append [OF first this] have "extends vs (view st) (view st2)" by (simp only: append_take_drop_id)
    then show ?thesis using assms(4) \<open>r1 = Inr u'\<close> Inr by (simp add: staged_def)
  qed
qed

lemma stage_adaptive_staged: "stage_adaptive err put vs (n, st) = ((n', st'), r) \<Longrightarrow> staged vs st st' r"
proof (induction vs arbitrary: n st n' st' r rule: measure_induct_rule [of length])
  case (less vs)
  note step = less.prems [unfolded stage_adaptive.simps [of err put vs n st]]
  obtain st1 r1 where put: "put n vs st = (st1, r1)" by fastforce
  show ?case
  proof (cases "err n")
    case None
    show ?thesis
    proof (cases r1)
      case (Inl e)
      then have st1: "st1 = st" using put put_fail by blast
      show ?thesis
      proof (cases "length vs < 2 \<or> \<not> is_code e CodeResourceExhausted")
        case True
        then show ?thesis using step None put Inl st1 staged_none by auto
      next
        case False
        let ?i = "length vs div 2"
        obtain n2 st2 r2 where first: "stage_adaptive err put (take ?i vs) (n + 1, st) = ((n2, st2), r2)" by (metis prod_cases3 surj_pair)
        obtain n3 st3 r3 where second: "stage_adaptive err put (drop ?i vs) (n2, st2) = ((n3, st3), r3)" by (metis surj_pair)
        have "0 < ?i \<and> ?i < length vs" using False by linarith
        then have "length (take ?i vs) < length vs" "length (drop ?i vs) < length vs"
          unfolding length_take length_drop by linarith+
        then have "staged (take ?i vs) st st2 r2" "staged (drop ?i vs) st2 st3 r3"
          using less.IH first second by blast+
        moreover have "(st', r) = (case r2 of Inl e \<Rightarrow> (st2, Inl e) | Inr _ \<Rightarrow> (st3, r3))"
          using step None put Inl st1 False first second by (auto simp: Let_def split: sum.splits)
        ultimately show ?thesis by (intro staged_split [of ?i vs]) auto
      qed
    next
      case (Inr u)
      then show ?thesis using step None put put_ok by (auto simp: staged_def)
    qed
  qed (use step staged_none in auto)
qed

lemma stage_slice_staged: "stage_slice err put vs (n, st) = ((n', st'), r) \<Longrightarrow> staged vs st st' r"
proof (induction vs arbitrary: n st n' st' r rule: measure_induct_rule [of length])
  case (less vs)
  note step = less.prems [unfolded stage_slice.simps [of err put vs "(n, st)"]]
  show ?case
  proof (cases "vs = []")
    case True
    then show ?thesis using step extends_Nil by (auto simp: staged_def)
  next
    case False
    let ?i = "nat max_batch_size"
    obtain n2 st2 r2 where first: "stage_adaptive err put (take ?i vs) (n, st) = ((n2, st2), r2)" by (metis surj_pair)
    obtain n3 st3 r3 where second: "stage_slice err put (drop ?i vs) (n2, st2) = ((n3, st3), r3)" by (metis surj_pair)
    have "length (drop ?i vs) < length vs" using False by (simp add: max_batch_size_def)
    then have "staged (drop ?i vs) st2 st3 r3" using less.IH second by blast
    moreover have "drop (min ?i (length vs)) vs = drop ?i vs" "take (min ?i (length vs)) vs = take ?i vs" by (auto simp: min_def)
    ultimately have second': "staged (drop (min ?i (length vs)) vs) st2 st3 r3" and first': "staged (take (min ?i (length vs)) vs) st st2 r2"
      using stage_adaptive_staged [OF first] by simp_all
    have "(st', r) = (case r2 of Inl e \<Rightarrow> (st2, Inl e) | Inr _ \<Rightarrow> (st3, r3))"
      using step False first second by (auto simp: stage_then_def split: sum.splits)
    then show ?thesis by (intro staged_split [OF first' second']) auto
  qed
qed

end

section \<open>The families of the store as writers\<close>

definition clones :: "'r codec \<Rightarrow> 'r list \<Rightarrow> 'r list \<Rightarrow> bool" where
  "clones c vs ws \<longleftrightarrow> list_all2 (\<lambda>v w. clone_json c v = Inr w) vs ws"

text \<open>A build without the records of one family and without its counters.\<close>

definition strip_family :: "'r family \<Rightarrow> memory_build \<Rightarrow> memory_build" where
  "strip_family fa b = (fa_put fa [] b)\<lparr>mb_record_count := 0, mb_record_bytes := 0\<rparr>"

definition family_extends :: "store_env \<Rightarrow> 'r family \<Rightarrow> 'r list \<Rightarrow> memory_build option \<Rightarrow> memory_build option \<Rightarrow> bool" where
  "family_extends env fa vs v v' \<longleftrightarrow> (vs = [] \<and> v' = v) \<or> (\<exists>b b' ws. v = Some b \<and> v' = Some b' \<and> mb_state b = BuildOpen \<and>
     clones (fa_codec fa env) vs ws \<and> strip_family fa b' = strip_family fa b \<and>
     fa_get fa b' = insert_records (fa_ident fa) ws (fa_get fa b) \<and>
     (\<forall>w \<in> set ws. fa_ident fa w \<notin> set (keys (fa_get fa b))) \<and> (ws = vs \<longrightarrow> distinct (map (fa_ident fa) vs)))"

definition put_family ::
  "'r family \<Rightarrow> store_env \<Rightarrow> (nat \<Rightarrow> context_value) \<Rightarrow> string \<Rightarrow> nat \<Rightarrow> 'r list \<Rightarrow> memory_store \<Rightarrow> memory_store \<times> (store_failure + unit)" where
  "put_family fa env ctx k n vs st = put_records fa env (ctx n) k vs st"

definition build_view :: "string \<Rightarrow> memory_store \<Rightarrow> memory_build option" where
  "build_view k st = map_of (ms_builds st) k"

lemma insert_records_append: "insert_records ident (vs @ ws) m = insert_records ident ws (insert_records ident vs m)"
  by (simp add: insert_records_def)

lemma keys_insert_records: "set (keys (insert_records ident vs m)) = set (keys m) \<union> ident ` set vs"
  by (induction vs arbitrary: m) (auto simp: insert_records_def)

lemma clones_append: "clones c vs ws \<Longrightarrow> clones c vs' ws' \<Longrightarrow> clones c (vs @ vs') (ws @ ws')"
  by (simp add: clones_def list_all2_appendI)

lemma prepare_limited_record_clone:
  "prepare_limited_record operation field c v opts = Inr (cloned, bytes) \<Longrightarrow> clone_json c v = Inr cloned"
  by (auto simp: prepare_limited_record_def clone_json_def Let_def split: sum.splits if_split_asm)

lemma prepare_records_clones:
  "prepare_records operation c ident opts seen p vs = Inr q \<Longrightarrow>
   \<exists>ws. pb_values q = pb_values p @ ws \<and> clones c vs ws \<and> distinct (map ident vs) \<and> ident ` set vs \<inter> set seen = {}"
proof (induction vs arbitrary: seen p)
  case (Cons v vs)
  from Cons.prems obtain cloned bytes where s: "prepare_limited_record operation ''values'' c v opts = Inr (cloned, bytes)" "ident v \<notin> set seen"
      "prepare_records operation c ident opts (ident v # seen)
        (p\<lparr>pb_values := pb_values p @ [cloned], pb_bytes := pb_bytes p + bytes\<rparr>) vs = Inr q"
    unfolding prepare_records_Cons_iff by blast
  from Cons.IH [OF s(3)] obtain ws where "pb_values q = pb_values p @ cloned # ws" "clones c vs ws" "distinct (map ident vs)"
      "ident ` set vs \<inter> set (ident v # seen) = {}"
    by auto
  then show ?case
    using s(2) prepare_limited_record_clone [OF s(1)] by (intro exI [of _ "cloned # ws"]) (auto simp: clones_def)
qed (simp add: clones_def)

lemma prepare_limited_batch_clones:
  assumes "prepare_limited_batch ctx operation c ident opts vs = Inr p"
  shows "clones c vs (pb_values p) \<and> distinct (map ident vs)"
proof -
  have "prepare_records operation c ident opts [] \<lparr>pb_values = [], pb_records = int (length vs), pb_bytes = 0\<rparr> vs = Inr p"
    using assms by (auto simp: prepare_limited_batch_def res_simps)
  from prepare_records_clones [OF this] show ?thesis by auto
qed

lemma family_extends_append:
  assumes "family_extends env fa vs v1 v2" and "family_extends env fa vs' v2 v3"
  shows "family_extends env fa (vs @ vs') v1 v3"
proof (cases "(vs = [] \<and> v2 = v1) \<or> (vs' = [] \<and> v3 = v2)")
  case False
  let ?id = "fa_ident fa"
  obtain b1 b2 ws where 1: "v1 = Some b1" "v2 = Some b2" "mb_state b1 = BuildOpen" "clones (fa_codec fa env) vs ws"
      "strip_family fa b2 = strip_family fa b1" "fa_get fa b2 = insert_records ?id ws (fa_get fa b1)"
      "\<forall>w \<in> set ws. ?id w \<notin> set (keys (fa_get fa b1))" "ws = vs \<longrightarrow> distinct (map ?id vs)"
    using assms(1) False unfolding family_extends_def by blast
  obtain b3 ws' where 2: "v3 = Some b3" "clones (fa_codec fa env) vs' ws'"
      "strip_family fa b3 = strip_family fa b2" "fa_get fa b3 = insert_records ?id ws' (fa_get fa b2)"
      "\<forall>w \<in> set ws'. ?id w \<notin> set (keys (fa_get fa b2))" "ws' = vs' \<longrightarrow> distinct (map ?id vs')"
    using assms(2) False 1(2) unfolding family_extends_def by blast
  have "length ws = length vs" using 1(4) by (simp add: clones_def list_all2_lengthD [symmetric])
  then have d: "ws @ ws' = vs @ vs' \<longrightarrow> distinct (map ?id (vs @ vs'))"
    using 1(8) 2(5,6) by (auto simp: 1(6) keys_insert_records) (metis image_eqI)
  have f: "\<forall>w \<in> set (ws @ ws'). ?id w \<notin> set (keys (fa_get fa b1))"
    using 1(7) 2(5) by (auto simp: 1(6) keys_insert_records)
  have "fa_get fa b3 = insert_records ?id (ws @ ws') (fa_get fa b1)" "strip_family fa b3 = strip_family fa b1"
    by (simp_all add: 2(3,4) 1(5,6) insert_records_append)
  then show ?thesis
    using 1(1,3) 2(1) clones_append [OF 1(4) 2(2)] d f unfolding family_extends_def by blast
qed (use assms in auto)

text \<open>Writing a family's field leaves the other families alone.\<close>

locale staged_family = build_family +
  assumes strip_put: "strip_family fa ((fa_put fa m b)\<lparr>mb_record_count := c, mb_record_bytes := y\<rparr>) = strip_family fa b"
    and get_counters: "fa_get fa (b\<lparr>mb_record_count := c, mb_record_bytes := y\<rparr>) = fa_get fa b"
begin

lemma put_family_ok:
  assumes "put_family fa env ctx k n vs st = (st', Inr u)"
  shows "family_extends env fa vs (build_view k st) (build_view k st')"
proof -
  let ?r = "res_bind (prepare_limited_batch (ctx n) (fa_operation fa) (fa_codec fa env) (fa_ident fa) (ms_options st) vs)
    (\<lambda>batch. res_bind (open_build_locked (ctx n) 2 (fa_operation fa) k st) (\<lambda>build. merge_batch fa k build batch (ms_options st)))"
  obtain build' where r: "?r = Inr build'" "st' = update_build k build' st"
    using assms by (cases ?r) (auto simp: put_family_def put_records_def)
  then obtain batch build where b: "prepare_limited_batch (ctx n) (fa_operation fa) (fa_codec fa env) (fa_ident fa) (ms_options st) vs = Inr batch"
      "open_build_locked (ctx n) 2 (fa_operation fa) k st = Inr build" "merge_batch fa k build batch (ms_options st) = Inr build'"
    by (auto simp: res_simps)
  have fresh: "\<forall>w \<in> set (pb_values batch). fa_ident fa w \<notin> set (keys (fa_get fa build))"
    using b(3) by (auto simp: merge_batch_def res_simps)
  note m = merge_batchD(1) [OF b(3)]
  show ?thesis
    using open_build_lockedD [OF b(2)] prepare_limited_batch_clones [OF b(1)] fresh
    unfolding family_extends_def build_view_def r(2) update_build_def
    by (auto simp: m strip_put get_counters get_put)
qed

lemma put_family_fail: "put_family fa env ctx k n vs st = (st', Inl e) \<Longrightarrow> st' = st"
  by (auto simp: put_family_def put_records_def split: sum.splits)

end

sublocale staged_family \<subseteq> batch_writer "put_family fa env ctx k" "build_view k" "family_extends env fa" for env ctx k
  by unfold_locales (auto simp: family_extends_def [of _ _ "[]"] intro: put_family_ok put_family_fail family_extends_append)

interpretation artifact_writer: staged_family artifact_family
  by unfold_locales (simp_all add: artifact_family_def strip_family_def)

interpretation node_writer: staged_family node_family
  by unfold_locales (simp_all add: node_family_def strip_family_def)

interpretation edge_writer: staged_family edge_family
  by unfold_locales (simp_all add: edge_family_def strip_family_def)

interpretation evidence_writer: staged_family evidence_family
  by unfold_locales (simp_all add: evidence_family_def strip_family_def)

interpretation diagnostic_writer: staged_family diagnostic_family
  by unfold_locales (simp_all add: diagnostic_family_def strip_family_def)

interpretation conflict_writer: staged_family conflict_family
  by unfold_locales (simp_all add: conflict_family_def strip_family_def)

interpretation document_writer: staged_family document_family
  by unfold_locales (simp_all add: document_family_def strip_family_def)

interpretation claim_writer: staged_family claim_family
  by unfold_locales (simp_all add: claim_family_def strip_family_def)

interpretation path_writer: staged_family path_family
  by unfold_locales (simp_all add: path_family_def strip_family_def)

section \<open>Staging a bundle\<close>

definition stage_coverage_of :: "store_env \<Rightarrow> (nat \<Rightarrow> context_value) \<Rightarrow> string \<Rightarrow> go_value model_bundle \<Rightarrow> memory_store staging" where
  "stage_coverage_of env ctx k b = (\<lambda>(n, st).
     case put_coverage env (ctx n) k (build_coverage (coverage_env_of env) b) st of (st', r) \<Rightarrow> ((n + 1, st'), r))"

text \<open>The writer is the in-memory store, so it is never nil.\<close>

definition stage_bundle ::
  "store_env \<Rightarrow> (nat \<Rightarrow> string option) \<Rightarrow> (nat \<Rightarrow> context_value) \<Rightarrow> string \<Rightarrow> go_value model_bundle \<Rightarrow> memory_store staging" where
  "stage_bundle env err ctx k b s =
     (if ctx (fst s) = NoContext then (s, Inl (invalid_argument ''stage bundle'' ''context'' ''context is required''))
      else if k = [] then (s, Inl (invalid_argument ''stage bundle'' ''build_id'' ''build identifier is required''))
      else stage_then (stage_slice err (put_family artifact_family env ctx k) (bu_artifacts b))
        (stage_then (stage_slice err (put_family evidence_family env ctx k) (bu_evidence b))
        (stage_then (stage_slice err (put_family node_family env ctx k) (bu_nodes b))
        (stage_then (stage_slice err (put_family edge_family env ctx k) (bu_edges b))
        (stage_then (stage_slice err (put_family diagnostic_family env ctx k) (bu_diagnostics b))
        (stage_then (stage_slice err (put_family claim_family env ctx k) (bu_claims b))
        (stage_then (stage_slice err (put_family conflict_family env ctx k) (bu_conflicts b))
        (stage_then (stage_slice err (put_family document_family env ctx k) (bu_documents b))
        (stage_then (stage_slice err (put_family path_family env ctx k) (bu_paths b))
        (stage_coverage_of env ctx k b))))))))) s)"

end
