(* ===== verification/Base64.thy ===== *)
theory Base64
  imports GoStrings
begin

text \<open>
  \<open>base64.RawURLEncoding\<close>, \<open>strings.Split\<close> at a one-byte separator, and the big-endian bytes of
  \<open>binary.BigEndian.PutUint64\<close>, with the round trips that the cursors of \<open>pkg/rkcstore\<close> rest on.
\<close>

section \<open>Digits\<close>

definition b64_alphabet :: string where
  "b64_alphabet = ''ABCDEFGHIJKLMNOPQRSTUVWXYZabcdefghijklmnopqrstuvwxyz0123456789-_''"

definition b64_digit :: "nat \<Rightarrow> char" where
  "b64_digit n = b64_alphabet ! n"

fun position_of :: "'a \<Rightarrow> 'a list \<Rightarrow> nat option" where
  "position_of x [] = None"
| "position_of x (y # ys) = (if x = y then Some 0 else map_option Suc (position_of x ys))"

definition b64_value :: "char \<Rightarrow> nat option" where
  "b64_value c = position_of c b64_alphabet"

lemma position_of_nth: "distinct xs \<Longrightarrow> i < length xs \<Longrightarrow> position_of (xs ! i) xs = Some i"
  by (induction xs arbitrary: i) (auto simp: nth_Cons split: nat.splits)

lemma position_of_Some_iff: "position_of x xs = Some i \<Longrightarrow> i < length xs \<and> xs ! i = x"
  by (induction xs arbitrary: i) (auto split: if_split_asm)

lemma position_of_None_iff: "position_of x xs = None \<longleftrightarrow> x \<notin> set xs"
  by (induction xs) auto

lemma alphabet_distinct: "distinct b64_alphabet"
  by (simp add: b64_alphabet_def)

lemma alphabet_length: "length b64_alphabet = 64"
  by (simp add: b64_alphabet_def)

lemma b64_value_digit [simp]: "n < 64 \<Longrightarrow> b64_value (b64_digit n) = Some n"
  by (simp add: b64_value_def b64_digit_def position_of_nth alphabet_distinct alphabet_length)

lemma b64_digit_alphabet: "n < 64 \<Longrightarrow> b64_digit n \<in> set b64_alphabet"
  by (simp add: b64_digit_def alphabet_length)

section \<open>Encoding and decoding\<close>

fun b64_digits :: "string \<Rightarrow> nat list" where
  "b64_digits [] = []"
| "b64_digits [a] = [code a div 4, code a mod 4 * 16]"
| "b64_digits [a, b] = [code a div 4, code a mod 4 * 16 + code b div 16, code b mod 16 * 4]"
| "b64_digits (a # b # c # s) =
     [code a div 4, code a mod 4 * 16 + code b div 16, code b mod 16 * 4 + code c div 64, code c mod 64] @ b64_digits s"

definition b64_encode :: "string \<Rightarrow> string" where
  "b64_encode s = map b64_digit (b64_digits s)"

text \<open>A group of one digit is an error; the unused low bits of the last digit are ignored.\<close>

fun b64_bytes :: "nat list \<Rightarrow> string option" where
  "b64_bytes [] = Some []"
| "b64_bytes [x] = None"
| "b64_bytes [x, y] = Some [byte (x * 4 + y div 16)]"
| "b64_bytes [x, y, z] = Some [byte (x * 4 + y div 16), byte (y mod 16 * 16 + z div 4)]"
| "b64_bytes (x # y # z # w # ds) =
     map_option (\<lambda>s. byte (x * 4 + y div 16) # byte (y mod 16 * 16 + z div 4) # byte (z mod 4 * 64 + w) # s) (b64_bytes ds)"

text \<open>The decoder skips carriage returns and line feeds.\<close>

definition b64_decode :: "string \<Rightarrow> string option" where
  "b64_decode s = Option.bind (those (map b64_value (filter (\<lambda>c. c \<noteq> CHR 0x0A \<and> c \<noteq> CHR 0x0D) s))) b64_bytes"

lemma code_less [simp]: "code c < (256 :: nat)"
  using nat_of_char_less_256 .

lemma byte_code [simp]: "byte (code c) = c"
  by (simp add: byte_def)

lemma two_bytes: "n < 256 \<Longrightarrow> n div 4 * 4 + (n mod 4 * 16 + m) div 16 = n + m div (16 :: nat)" for n m :: nat
  by (simp add: div_mult_mod_eq)

lemma b64_bytes_digits: "b64_bytes (b64_digits s) = Some s"
proof (induction s rule: b64_digits.induct)
  case (2 a)
  show ?case by simp
next
  case (3 a b)
  have "code b div 16 < (16 :: nat)" using code_less [of b] by linarith
  then show ?case by (simp add: two_bytes) 
next
  case (4 a b c s)
  have "code b div 16 < (16 :: nat)" "code c div 64 < (4 :: nat)" using code_less [of b] code_less [of c] by linarith+
  then show ?case using 4 by (simp add: two_bytes)
qed simp

lemma b64_digits_less: "d \<in> set (b64_digits s) \<Longrightarrow> d < 64"
proof (induction s rule: b64_digits.induct)
  case (2 a)
  then show ?case using code_less [of a] by (auto simp del: code_less)
next
  case (3 a b)
  then show ?case using code_less [of a] code_less [of b] by (auto simp del: code_less)
next
  case (4 a b c s)
  then show ?case using code_less [of a] code_less [of b] code_less [of c] by (auto simp del: code_less)
qed simp

lemma those_digits: "\<forall>d \<in> set ds. d < 64 \<Longrightarrow> those (map b64_value (map b64_digit ds)) = Some ds"
  by (induction ds) auto

lemma b64_encode_alphabet: "set (b64_encode s) \<subseteq> set b64_alphabet"
  using b64_digits_less b64_digit_alphabet by (auto simp: b64_encode_def)

lemma alphabet_excludes: "CHR 0x0A \<notin> set b64_alphabet" "CHR 0x0D \<notin> set b64_alphabet" "CHR ''.'' \<notin> set b64_alphabet"
  by (simp_all add: b64_alphabet_def)

lemma b64_encode_no_dot [simp]: "CHR ''.'' \<notin> set (b64_encode s)"
  using b64_encode_alphabet alphabet_excludes(3) by blast

lemma b64_decode_encode [simp]: "b64_decode (b64_encode s) = Some s"
proof -
  have "filter (\<lambda>c. c \<noteq> CHR 0x0A \<and> c \<noteq> CHR 0x0D) (b64_encode s) = b64_encode s"
    using b64_encode_alphabet [of s] alphabet_excludes(1,2) by (intro filter_True) blast
  moreover have "those (map b64_value (b64_encode s)) = Some (b64_digits s)"
    unfolding b64_encode_def by (rule those_digits) (use b64_digits_less in blast)
  ultimately show ?thesis by (simp add: b64_decode_def b64_bytes_digits)
qed

lemma b64_digits_Nil_iff: "b64_digits s = [] \<longleftrightarrow> s = []"
  by (cases s rule: b64_digits.cases) auto

lemma b64_encode_Nil_iff [simp]: "b64_encode s = [] \<longleftrightarrow> s = []"
  by (simp add: b64_encode_def b64_digits_Nil_iff)

section \<open>Splitting at a separator\<close>

fun split_byte :: "char \<Rightarrow> string \<Rightarrow> string list" where
  "split_byte c [] = [[]]"
| "split_byte c (x # s) = (if x = c then [] # split_byte c s
     else case split_byte c s of p # ps \<Rightarrow> (x # p) # ps | [] \<Rightarrow> [[x]])"

lemma split_byte_none: "c \<notin> set s \<Longrightarrow> split_byte c s = [s]"
  by (induction s) auto

lemma split_byte_two: "c \<notin> set a \<Longrightarrow> c \<notin> set b \<Longrightarrow> split_byte c (a @ c # b) = [a, b]"
  by (induction a) (auto simp: split_byte_none)

lemma split_byte_not_Nil [simp]: "split_byte c s \<noteq> []"
  by (cases s) (auto split: list.splits)

lemma split_byte_one: "split_byte c s = [p] \<Longrightarrow> s = p"
  by (induction s arbitrary: p) (auto split: if_split_asm list.splits)

lemma split_byte_join: "split_byte c s = [p, q] \<Longrightarrow> s = p @ c # q"
  by (induction s arbitrary: p) (auto dest: split_byte_one split: if_split_asm list.splits)

section \<open>Length-prefixed frames\<close>

definition be64 :: "nat \<Rightarrow> string" where
  "be64 n = map (\<lambda>i. byte (n div 256 ^ i mod 256)) [7, 6, 5, 4, 3, 2, 1, 0]"

definition framed :: "string \<Rightarrow> string" where
  "framed s = be64 (length s) @ s"

lemma be64_length [simp]: "length (be64 n) = 8"
  by (simp add: be64_def)

lemma byte_inj: "byte a = byte b \<Longrightarrow> a < 256 \<Longrightarrow> b < 256 \<Longrightarrow> a = b"
  unfolding byte_def by (metis mod_less of_char_of)

lemma digits_eq:
  fixes m n :: nat
  shows "(\<And>i. i < k \<Longrightarrow> m div b ^ i mod b = n div b ^ i mod b) \<Longrightarrow> m mod b ^ k = n mod b ^ k"
proof (induction k)
  case (Suc k)
  have "x mod b ^ Suc k = b ^ k * (x div b ^ k mod b) + x mod b ^ k" for x :: nat
    using mod_mult2_eq [of x "b ^ k" b] by (simp add: mult.commute)
  then show ?case using Suc by simp
qed simp

lemma be64_inj: "be64 m = be64 n \<Longrightarrow> m < 2 ^ 64 \<Longrightarrow> n < 2 ^ 64 \<Longrightarrow> m = n"
proof -
  assume e: "be64 m = be64 n" and less: "m < 2 ^ 64" "n < 2 ^ 64"
  have "byte (m div 256 ^ i mod 256) = byte (n div 256 ^ i mod 256)" if "i < 8" for i
  proof -
    have "i \<in> set [7, 6, 5, 4, 3, 2, 1, 0 :: nat]" using that by auto
    then show ?thesis using e unfolding be64_def map_eq_conv by blast
  qed
  then have "m mod 256 ^ 8 = n mod 256 ^ 8" by (intro digits_eq byte_inj) auto
  then show ?thesis using less by simp
qed

lemma framed_inj:
  assumes "length a < 2 ^ 64" "length b < 2 ^ 64" and e: "framed a @ s = framed b @ t"
  shows "a = b \<and> s = t"
proof -
  have "be64 (length a) = be64 (length b)" "a @ s = b @ t" using e by (simp_all add: framed_def)
  then show ?thesis using be64_inj assms(1,2) by simp
qed

lemma framed_not_Nil: "framed a \<noteq> []"
proof
  assume "framed a = []"
  then have "length (framed a) = 0" by simp
  then show False by (simp add: framed_def)
qed

lemma frames_inj:
  "\<forall>v \<in> set vs \<union> set ws. length v < 2 ^ 64 \<Longrightarrow> concat (map framed vs) = concat (map framed ws) \<Longrightarrow> vs = ws"
proof (induction vs arbitrary: ws)
  case Nil
  then show ?case by (cases ws) (auto simp: framed_not_Nil)
next
  case (Cons v vs)
  obtain w ws' where ws: "ws = w # ws'" using Cons.prems(2) by (cases ws) (simp_all add: framed_not_Nil)
  have "framed v @ concat (map framed vs) = framed w @ concat (map framed ws')" using Cons.prems(2) by (simp add: ws)
  then have "v = w \<and> concat (map framed vs) = concat (map framed ws')"
    by (rule framed_inj [rotated 2]) (use Cons.prems(1) ws in auto)
  moreover from this have "vs = ws'" using Cons.prems(1) by (intro Cons.IH) (auto simp: ws)
  ultimately show ?case by (simp add: ws)
qed

end
