(* ===== verification/Cursor.thy ===== *)
theory Cursor
  imports Base64 StoreTypes
begin

text \<open>
  Continuation cursors and page requests of \<open>pkg/rkcstore\<close> (\<open>cursor.go\<close>, \<open>query.go\<close>): a cursor is
  the encoded JSON of a payload and its keyed hash, and is bound to the kind of the query and to a fingerprint of
  its filters. SHA-256, HMAC, the JSON of a payload and the text of a time are parameters.
\<close>

record cursor_payload =
  cp_version :: int
  cp_kind :: string
  cp_scope :: string
  cp_primary :: string
  cp_id :: string

definition no_payload :: cursor_payload where
  "no_payload = \<lparr>cp_version = 0, cp_kind = [], cp_scope = [], cp_primary = [], cp_id = []\<rparr>"

text \<open>What the strict decoder makes of a text: an error, a value followed by more data, or just a value.\<close>

datatype cursor_json = CursorMalformed | CursorTrailing cursor_payload | CursorDecoded cursor_payload

record cursor_env =
  cu_marshal :: "cursor_payload \<Rightarrow> string + string"
  cu_decode :: "string \<Rightarrow> cursor_json"
  cu_hmac :: "string \<Rightarrow> string \<Rightarrow> string"
  cu_sha256 :: "string \<Rightarrow> string"
  cu_format_time :: "int \<Rightarrow> string"

definition cursor_version :: int where "cursor_version = 1"
definition max_cursor_len :: nat where "max_cursor_len = 4096"

definition cursor_for :: "string \<Rightarrow> string \<Rightarrow> string \<Rightarrow> string \<Rightarrow> cursor_payload" where
  "cursor_for kind scope primary ident =
     \<lparr>cp_version = cursor_version, cp_kind = kind, cp_scope = scope, cp_primary = primary, cp_id = ident\<rparr>"

definition signed_cursor :: "cursor_env \<Rightarrow> string \<Rightarrow> string \<Rightarrow> string" where
  "signed_cursor cu secret data = b64_encode data @ CHR ''.'' # b64_encode (cu_hmac cu secret data)"

definition seal_cursor :: "cursor_env \<Rightarrow> string \<Rightarrow> string \<Rightarrow> string \<Rightarrow> string \<Rightarrow> string \<Rightarrow> store_failure + string" where
  "seal_cursor cu secret kind scope primary ident =
     (case cu_marshal cu (cursor_for kind scope primary ident) of
        Inl e \<Rightarrow> Inl (WrappedError [] e)
      | Inr data \<Rightarrow> Inr (signed_cursor cu secret data))"

definition check_payload :: "string \<Rightarrow> string \<Rightarrow> string \<Rightarrow> cursor_json \<Rightarrow> store_failure + cursor_payload" where
  "check_payload operation kind scope decoded =
     (case decoded of
        CursorMalformed \<Rightarrow> Inl (invalid_cursor operation ''invalid cursor payload'')
      | CursorTrailing p \<Rightarrow> Inl (invalid_cursor operation ''cursor has trailing data'')
      | CursorDecoded p \<Rightarrow>
          if cp_version p \<noteq> cursor_version \<or> cp_kind p \<noteq> kind \<or> cp_scope p \<noteq> scope \<or> cp_id p = []
          then Inl (invalid_cursor operation ''cursor does not belong to this query'')
          else Inr p)"

text \<open>The two parts of a cursor, decoded.\<close>

definition cursor_parts :: "string \<Rightarrow> string \<Rightarrow> store_failure + string \<times> string" where
  "cursor_parts operation cursor =
     (case split_byte (CHR ''.'') cursor of
        [payload, signature] \<Rightarrow>
          if payload = [] \<or> signature = [] then Inl (invalid_cursor operation ''malformed cursor'')
          else case b64_decode payload of
            None \<Rightarrow> Inl (invalid_cursor operation ''malformed cursor payload'')
          | Some data \<Rightarrow> (case b64_decode signature of
              None \<Rightarrow> Inl (invalid_cursor operation ''malformed cursor signature'')
            | Some sig \<Rightarrow> Inr (data, sig))
      | _ \<Rightarrow> Inl (invalid_cursor operation ''malformed cursor''))"

definition open_cursor :: "cursor_env \<Rightarrow> string \<Rightarrow> string \<Rightarrow> string \<Rightarrow> string \<Rightarrow> string \<Rightarrow> store_failure + cursor_payload" where
  "open_cursor cu secret operation cursor kind scope =
     (if cursor = [] then Inr no_payload
      else res_bind (guard (max_cursor_len < length cursor) (invalid_cursor operation ''cursor exceeds the safety limit'')) (\<lambda>_.
        res_bind (cursor_parts operation cursor) (\<lambda>(data, sig).
        res_bind (guard (sig \<noteq> cu_hmac cu secret data) (invalid_cursor operation ''cursor authentication failed'')) (\<lambda>_.
        check_payload operation kind scope (cu_decode cu data)))))"

definition scope_fingerprint :: "cursor_env \<Rightarrow> string list \<Rightarrow> string" where
  "scope_fingerprint cu vs = cu_sha256 cu (concat (map framed vs))"

section \<open>Pages\<close>

definition default_page_size :: int where "default_page_size = 50"
definition max_page_size :: int where "max_page_size = 200"

record page_request =
  pr_limit :: int
  pr_cursor :: string

record 'r page =
  pg_items :: "'r list"
  pg_next :: string

definition page_limit :: "string \<Rightarrow> page_request \<Rightarrow> store_failure + nat" where
  "page_limit operation request =
     res_bind (guard (pr_limit request < 0) (invalid_query operation ''limit'' ''limit must not be negative'')) (\<lambda>_.
     res_bind (guard (max_page_size < pr_limit request) (invalid_query operation ''limit'' ''limit exceeds MaxPageSize'')) (\<lambda>_.
     res_bind (guard (max_cursor_len < length (pr_cursor request))
       (invalid_cursor operation ''cursor exceeds the safety limit'')) (\<lambda>_.
     Inr (nat (if pr_limit request = 0 then default_page_size else pr_limit request)))))"

section \<open>Round trip and authenticity\<close>

lemma split_signed: "split_byte (CHR ''.'') (signed_cursor cu secret data) = [b64_encode data, b64_encode (cu_hmac cu secret data)]"
  by (simp add: signed_cursor_def split_byte_two)

lemma signed_not_Nil [simp]: "signed_cursor cu secret data \<noteq> []"
  by (simp add: signed_cursor_def)

lemma cursor_parts_signed:
  "data \<noteq> [] \<Longrightarrow> cu_hmac cu secret data \<noteq> [] \<Longrightarrow>
   cursor_parts operation (signed_cursor cu secret data) = Inr (data, cu_hmac cu secret data)"
  by (simp add: cursor_parts_def split_signed)

lemma open_signed:
  assumes "data \<noteq> []" "cu_hmac cu secret data \<noteq> []" "length (signed_cursor cu secret data) \<le> max_cursor_len"
  shows "open_cursor cu secret operation (signed_cursor cu secret data) kind scope =
    check_payload operation kind scope (cu_decode cu data)"
  using assms by (simp add: open_cursor_def cursor_parts_signed)

lemma page_limit_Inr:
  "page_limit operation request = Inr n \<Longrightarrow> 0 < n \<and> n \<le> 200 \<and> int n = (if pr_limit request = 0 then 50 else pr_limit request)"
  by (auto simp: page_limit_def res_simps default_page_size_def max_page_size_def)

lemma page_limit_cong:
  "pr_limit request' = pr_limit request \<Longrightarrow> length (pr_cursor request') \<le> max_cursor_len \<Longrightarrow>
   page_limit operation request = Inr n \<Longrightarrow> page_limit operation request' = Inr n"
  by (auto simp: page_limit_def res_simps)

text \<open>
  C26. Cursors are authentic and bound to their query: whatever non-empty cursor is accepted carries data whose keyed
  hash is the signature it carries, and that data decodes to a payload of this version, this kind and this scope.
\<close>

theorem cursor_authentic:
  assumes "open_cursor cu secret operation cursor kind scope = Inr p" and "cursor \<noteq> []"
  shows "\<exists>payload signature data. cursor = payload @ CHR ''.'' # signature \<and> b64_decode payload = Some data \<and>
    b64_decode signature = Some (cu_hmac cu secret data) \<and> cu_decode cu data = CursorDecoded p \<and>
    cp_version p = 1 \<and> cp_kind p = kind \<and> cp_scope p = scope \<and> cp_id p \<noteq> []"
proof -
  obtain data sig where d: "cursor_parts operation cursor = Inr (data, sig)" "sig = cu_hmac cu secret data"
      "check_payload operation kind scope (cu_decode cu data) = Inr p"
    using assms by (auto simp: open_cursor_def res_simps)
  obtain payload signature where s: "split_byte (CHR ''.'') cursor = [payload, signature]" "b64_decode payload = Some data"
      "b64_decode signature = Some sig"
    using d(1) by (auto simp: cursor_parts_def split: list.splits if_split_asm option.splits)
  have "cursor = payload @ CHR ''.'' # signature" using split_byte_join [OF s(1)] .
  moreover have "cu_decode cu data = CursorDecoded p \<and> cp_version p = 1 \<and> cp_kind p = kind \<and> cp_scope p = scope \<and> cp_id p \<noteq> []"
    using d(3) by (auto simp: check_payload_def cursor_version_def split: cursor_json.splits if_split_asm)
  ultimately show ?thesis using s d(2) by blast
qed

text \<open>
  The fingerprint of a query hashes a text from which the filters can be read back: unless SHA-256 collides on
  the two texts, two queries share a cursor scope exactly if they have the same filters.
\<close>

theorem scope_fingerprint_binding:
  assumes "inj_on (cu_sha256 cu) {concat (map framed vs), concat (map framed ws)}"
    and "\<forall>v \<in> set vs \<union> set ws. length v < 2 ^ 64"
  shows "scope_fingerprint cu vs = scope_fingerprint cu ws \<longleftrightarrow> vs = ws"
  using frames_inj [OF assms(2)] inj_onD [OF assms(1)] by (auto simp: scope_fingerprint_def)

end
