(* ===== verification/StoreReader.thy ===== *)
theory StoreReader
  imports Cursor Store
begin

text \<open>
  The read operations of the in-memory store, \<open>pkg/rkcstore/memory_reader.go\<close>. They leave the store as it
  is, so each one is a function from the store to its result.
\<close>

section \<open>Lookups\<close>

definition valid_read_id :: "context_value \<Rightarrow> string \<Rightarrow> string \<Rightarrow> string \<Rightarrow> store_failure + unit" where
  "valid_read_id ctx operation field v = res_bind (check_context ctx 0 operation) (\<lambda>_. valid_identifier operation field v)"

definition valid_lookup :: "context_value \<Rightarrow> string \<Rightarrow> string \<Rightarrow> string \<Rightarrow> string \<Rightarrow> store_failure + unit" where
  "valid_lookup ctx operation k field v =
     res_bind (valid_read_id ctx operation ''snapshot_id'' k) (\<lambda>_. valid_identifier operation field v)"

text \<open>A stored snapshot is never nil here.\<close>

definition check_affinity :: "memory_store \<Rightarrow> string \<Rightarrow> string \<Rightarrow> string \<Rightarrow> memory_snapshot \<Rightarrow> store_failure + unit" where
  "check_affinity st operation k expected s =
     (let repository = sn_repository_id (bu_snapshot (mp_bundle s));
          bad = store_error CodeValidation operation [] k ''repository_id''
            (Some (''stored snapshot repository affinity is inconsistent'', []))
      in res_bind (guard (expected \<noteq> [] \<and> repository \<noteq> expected) bad) (\<lambda>_.
         guard (map_of (ms_affinity st) repository \<noteq> Some repository) bad))"

definition find_snapshot :: "memory_store \<Rightarrow> string \<Rightarrow> string \<Rightarrow> string \<Rightarrow> string \<Rightarrow> store_failure + memory_snapshot" where
  "find_snapshot st operation k field expected =
     (case map_of (ms_snapshots st) k of
        None \<Rightarrow> Inl (store_error CodeSnapshotNotFound operation [] k field None)
      | Some s \<Rightarrow> res_bind (check_affinity st operation k expected s) (\<lambda>_. Inr s))"

text \<open>The error of the final clone is passed on unchanged.\<close>

definition clone_result :: "'r codec \<Rightarrow> 'r \<Rightarrow> store_failure + 'r" where
  "clone_result c v = (case clone_json c v of Inl e \<Rightarrow> Inl (WrappedError [] e) | Inr w \<Rightarrow> Inr w)"

definition read_snapshot :: "store_env \<Rightarrow> context_value \<Rightarrow> string \<Rightarrow> memory_store \<Rightarrow> store_failure + go_value snapshot" where
  "read_snapshot env ctx k st =
     res_bind (valid_read_id ctx ''read snapshot'' ''snapshot_id'' k) (\<lambda>_.
     res_bind (find_snapshot st ''read snapshot'' k [] []) (\<lambda>s. clone_result (se_snapshot env) (bu_snapshot (mp_bundle s))))"

definition read_bundle :: "store_env \<Rightarrow> context_value \<Rightarrow> string \<Rightarrow> memory_store \<Rightarrow> store_failure + go_value model_bundle" where
  "read_bundle env ctx k st =
     res_bind (valid_read_id ctx ''read bundle'' ''snapshot_id'' k) (\<lambda>_.
     res_bind (find_snapshot st ''read bundle'' k [] []) (\<lambda>s. clone_result (se_bundle env) (mp_bundle s)))"

definition read_coverage :: "store_env \<Rightarrow> context_value \<Rightarrow> string \<Rightarrow> memory_store \<Rightarrow> store_failure + coverage" where
  "read_coverage env ctx k st =
     res_bind (valid_read_id ctx ''read coverage'' ''snapshot_id'' k) (\<lambda>_.
     res_bind (find_snapshot st ''read coverage'' k [] []) (\<lambda>s. clone_result (se_coverage env) (mp_coverage s)))"

definition read_current :: "store_env \<Rightarrow> context_value \<Rightarrow> string \<Rightarrow> memory_store \<Rightarrow> store_failure + go_value snapshot" where
  "read_current env ctx repository st =
     res_bind (valid_read_id ctx ''read current snapshot'' ''repository_id'' repository) (\<lambda>_.
     case map_of (ms_current st) repository of
       None \<Rightarrow> Inl (store_error CodeSnapshotNotFound ''read current snapshot'' [] [] ''repository_id'' None)
     | Some k \<Rightarrow> res_bind (find_snapshot st ''read current snapshot'' k ''current'' repository) (\<lambda>s.
         clone_result (se_snapshot env) (bu_snapshot (mp_bundle s))))"

text \<open>The body that \<open>Artifact\<close>, \<open>Node\<close> and \<open>Evidence\<close> share.\<close>

definition read_record ::
  "string \<Rightarrow> string \<Rightarrow> ('r \<Rightarrow> string) \<Rightarrow> 'r codec \<Rightarrow> (go_value model_bundle \<Rightarrow> 'r list) \<Rightarrow>
     context_value \<Rightarrow> string \<Rightarrow> string \<Rightarrow> memory_store \<Rightarrow> store_failure + 'r" where
  "read_record operation field ident c records ctx k v st =
     res_bind (valid_lookup ctx operation k field v) (\<lambda>_.
     res_bind (find_snapshot st operation k [] []) (\<lambda>s.
     case find (\<lambda>r. ident r = v) (records (mp_bundle s)) of
       None \<Rightarrow> Inl (store_error CodeRecordNotFound operation [] k field (Some (v, [])))
     | Some r \<Rightarrow> clone_result c r))"

definition read_artifact where
  "read_artifact env = read_record ''read artifact'' ''artifact_id'' a_id (se_artifact env) bu_artifacts"

definition read_node where
  "read_node env = read_record ''read node'' ''node_id'' n_id (se_node env) bu_nodes"

definition read_evidence where
  "read_evidence env = read_record ''read evidence'' ''evidence_id'' evd_id (se_evidence env) bu_evidence"

section \<open>Pages\<close>

text \<open>\<open>json\<close> encodes a slice element by element.\<close>

fun clone_list :: "'r codec \<Rightarrow> 'r list \<Rightarrow> store_failure + 'r list" where
  "clone_list c [] = Inr []"
| "clone_list c (v # vs) = res_bind (clone_result c v) (\<lambda>w. res_bind (clone_list c vs) (\<lambda>ws. Inr (w # ws)))"

definition id_start :: "string \<Rightarrow> string list \<Rightarrow> cursor_payload \<Rightarrow> store_failure + nat" where
  "id_start operation idents payload =
     (if cp_id payload = [] then Inr 0
      else if cp_primary payload \<noteq> [] then Inl (invalid_cursor operation ''cursor sort key is invalid'')
      else case position_of (cp_id payload) idents of
        None \<Rightarrow> Inl (invalid_cursor operation ''cursor position no longer exists'')
      | Some i \<Rightarrow> Inr (i + 1))"

definition snapshot_start :: "cursor_env \<Rightarrow> string \<Rightarrow> 'v snapshot list \<Rightarrow> cursor_payload \<Rightarrow> store_failure + nat" where
  "snapshot_start cu operation vs payload =
     (if cp_id payload = [] then Inr 0
      else case position_of (cp_id payload, cp_primary payload) (map (\<lambda>v. (sn_id v, cu_format_time cu (sn_created_at v))) vs) of
        None \<Rightarrow> Inl (invalid_cursor operation ''cursor position no longer exists'')
      | Some i \<Rightarrow> Inr (i + 1))"

definition bounded_end :: "nat \<Rightarrow> nat \<Rightarrow> nat \<Rightarrow> nat" where
  "bounded_end start limit len = (if len < start + limit then len else start + limit)"

text \<open>
  The slice from the start, its clone, and the cursor after its last element; \<open>seal\<close> seals the cursor of an
  element.
\<close>

definition slice_page ::
  "'r codec \<Rightarrow> 'r list \<Rightarrow> nat \<Rightarrow> nat \<Rightarrow> ('r \<Rightarrow> store_failure + string) \<Rightarrow> store_failure + 'r page" where
  "slice_page c vs start limit seal =
     (let stop = bounded_end start limit (length vs) in
      res_bind (clone_list c (take (stop - start) (drop start vs))) (\<lambda>items.
      if stop < length vs
      then res_bind (seal (vs ! (stop - 1))) (\<lambda>next. Inr \<lparr>pg_items = items, pg_next = next\<rparr>)
      else Inr \<lparr>pg_items = items, pg_next = []\<rparr>))"

text \<open>\<open>nodePage\<close>, \<open>edgePage\<close> and \<open>diagnosticPage\<close>.\<close>

definition record_page ::
  "cursor_env \<Rightarrow> string \<Rightarrow> string \<Rightarrow> ('r \<Rightarrow> string) \<Rightarrow> 'r codec \<Rightarrow> string \<Rightarrow> 'r list \<Rightarrow> nat \<Rightarrow> cursor_payload \<Rightarrow> string \<Rightarrow>
     store_failure + 'r page" where
  "record_page cu secret kind ident c operation vs limit payload scope =
     res_bind (id_start operation (map ident vs) payload) (\<lambda>start.
     slice_page c vs start limit (\<lambda>v. seal_cursor cu secret kind scope [] (ident v)))"

section \<open>Queries\<close>

definition query_snapshot :: "context_value \<Rightarrow> string \<Rightarrow> string \<Rightarrow> page_request \<Rightarrow> memory_store \<Rightarrow> store_failure + nat \<times> memory_snapshot" where
  "query_snapshot ctx operation k request st =
     res_bind (valid_read_id ctx operation ''snapshot_id'' k) (\<lambda>_.
     res_bind (page_limit operation request) (\<lambda>limit.
     res_bind (find_snapshot st operation k [] []) (\<lambda>s. Inr (limit, s))))"

text \<open>An empty filter matches everything.\<close>

definition matches :: "string \<Rightarrow> string \<Rightarrow> bool" where
  "matches wanted v \<longleftrightarrow> wanted = [] \<or> v = wanted"

record node_query =
  nq_snapshot_id :: string
  nq_kind :: string
  nq_language :: string
  nq_artifact_id :: string
  nq_visibility :: string
  nq_page :: page_request

definition node_matches :: "node_query \<Rightarrow> 'v node \<Rightarrow> bool" where
  "node_matches q v \<longleftrightarrow> matches (nq_kind q) (n_kind v) \<and> matches (nq_language q) (n_language v) \<and>
     matches (nq_artifact_id q) (n_artifact_id v) \<and> matches (nq_visibility q) (n_visibility v)"

definition query_nodes ::
  "store_env \<Rightarrow> cursor_env \<Rightarrow> context_value \<Rightarrow> node_query \<Rightarrow> memory_store \<Rightarrow> store_failure + go_value node page" where
  "query_nodes env cu ctx q st =
     res_bind (query_snapshot ctx ''query nodes'' (nq_snapshot_id q) (nq_page q) st) (\<lambda>(limit, s).
     let scope = scope_fingerprint cu [nq_snapshot_id q, nq_kind q, nq_language q, nq_artifact_id q, nq_visibility q] in
     res_bind (open_cursor cu (ms_secret st) ''query nodes'' (pr_cursor (nq_page q)) ''nodes'' scope) (\<lambda>payload.
     record_page cu (ms_secret st) ''nodes'' n_id (se_node env) ''query nodes''
       (filter (node_matches q) (bu_nodes (mp_bundle s))) limit payload scope))"

record edge_query =
  eq_snapshot_id :: string
  eq_kind :: string
  eq_from :: string
  eq_to :: string
  eq_resolution :: string
  eq_page :: page_request

definition query_resolution :: "store_env \<Rightarrow> string \<Rightarrow> store_failure + string" where
  "query_resolution env v =
     (if v = [] then Inr []
      else let resolution = normalize_resolution (se_fold_case env) v in
        res_bind (guard (\<not> is_known_resolution (se_fold_case env) resolution)
          (invalid_query ''query edges'' ''resolution'' ''unknown resolution'')) (\<lambda>_. Inr resolution))"

definition edge_matches :: "edge_query \<Rightarrow> string \<Rightarrow> 'v edge \<Rightarrow> bool" where
  "edge_matches q resolution v \<longleftrightarrow> matches (eq_kind q) (e_kind v) \<and> matches (eq_from q) (e_from v) \<and>
     matches (eq_to q) (e_to v) \<and> matches resolution (e_resolution v)"

definition query_edges ::
  "store_env \<Rightarrow> cursor_env \<Rightarrow> context_value \<Rightarrow> edge_query \<Rightarrow> memory_store \<Rightarrow> store_failure + go_value edge page" where
  "query_edges env cu ctx q st =
     res_bind (query_snapshot ctx ''query edges'' (eq_snapshot_id q) (eq_page q) st) (\<lambda>(limit, s).
     res_bind (query_resolution env (eq_resolution q)) (\<lambda>resolution.
     let scope = scope_fingerprint cu [eq_snapshot_id q, eq_kind q, eq_from q, eq_to q, resolution] in
     res_bind (open_cursor cu (ms_secret st) ''query edges'' (pr_cursor (eq_page q)) ''edges'' scope) (\<lambda>payload.
     record_page cu (ms_secret st) ''edges'' e_id (se_edge env) ''query edges''
       (filter (edge_matches q resolution) (bu_edges (mp_bundle s))) limit payload scope)))"

record diagnostic_query =
  dq_snapshot_id :: string
  dq_severity :: string
  dq_code :: string
  dq_stage :: string
  dq_page :: page_request

definition diagnostic_matches :: "diagnostic_query \<Rightarrow> 'v diagnostic \<Rightarrow> bool" where
  "diagnostic_matches q v \<longleftrightarrow> matches (dq_severity q) (dg_severity v) \<and> matches (dq_code q) (dg_code v) \<and>
     matches (dq_stage q) (dg_stage v)"

definition query_diagnostics ::
  "store_env \<Rightarrow> cursor_env \<Rightarrow> context_value \<Rightarrow> diagnostic_query \<Rightarrow> memory_store \<Rightarrow> store_failure + go_value diagnostic page" where
  "query_diagnostics env cu ctx q st =
     res_bind (query_snapshot ctx ''query diagnostics'' (dq_snapshot_id q) (dq_page q) st) (\<lambda>(limit, s).
     let scope = scope_fingerprint cu [dq_snapshot_id q, dq_severity q, dq_code q, dq_stage q] in
     res_bind (open_cursor cu (ms_secret st) ''query diagnostics'' (pr_cursor (dq_page q)) ''diagnostics'' scope) (\<lambda>payload.
     record_page cu (ms_secret st) ''diagnostics'' dg_id (se_diagnostic env) ''query diagnostics''
       (filter (diagnostic_matches q) (bu_diagnostics (mp_bundle s))) limit payload scope))"

section \<open>Listing snapshots\<close>

record snapshot_query =
  sq_repository_id :: string
  sq_page :: page_request

text \<open>The selected snapshots, newest first, then by identifier.\<close>

definition selected_snapshots :: "snapshot_query \<Rightarrow> memory_store \<Rightarrow> (string \<times> memory_snapshot) list" where
  "selected_snapshots q st = filter (\<lambda>(k, s). sq_repository_id q = [] \<or>
     sn_repository_id (bu_snapshot (mp_bundle s)) = sq_repository_id q) (ms_snapshots st)"

definition newest_first :: "'v snapshot list \<Rightarrow> 'v snapshot list" where
  "newest_first = sort_key (\<lambda>s. (- sn_created_at s, sn_id s))"

definition list_snapshots ::
  "store_env \<Rightarrow> cursor_env \<Rightarrow> context_value \<Rightarrow> snapshot_query \<Rightarrow> memory_store \<Rightarrow> store_failure + go_value snapshot page" where
  "list_snapshots env cu ctx q st =
     res_bind (check_context ctx 0 ''list snapshots'') (\<lambda>_.
     res_bind (page_limit ''list snapshots'' (sq_page q)) (\<lambda>limit.
     res_bind (if sq_repository_id q = [] then Inr () else valid_identifier ''list snapshots'' ''repository_id'' (sq_repository_id q)) (\<lambda>_.
     let scope = scope_fingerprint cu [sq_repository_id q] in
     res_bind (open_cursor cu (ms_secret st) ''list snapshots'' (pr_cursor (sq_page q)) ''snapshots'' scope) (\<lambda>payload.
     res_bind (first_error (\<lambda>(k, s). check_affinity st ''list snapshots'' k (sq_repository_id q) s) (selected_snapshots q st)) (\<lambda>_.
     let vs = newest_first (map (\<lambda>(k, s). bu_snapshot (mp_bundle s)) (selected_snapshots q st)) in
     res_bind (snapshot_start cu ''list snapshots'' vs payload) (\<lambda>start.
     slice_page (se_snapshot env) vs start limit (\<lambda>v.
       seal_cursor cu (ms_secret st) ''snapshots'' scope (cu_format_time cu (sn_created_at v)) (sn_id v))))))))"

end
