(* ===== verification/StoreReading.thy ===== *)
theory StoreReading
  imports StoreReader StoreHistory ValidateTheorems
begin

text \<open>
  What readers of the in-memory store see: following the cursors of a query returns every matching record exactly
  once and in canonical order, and a committed snapshot is read back as it was published.
\<close>

section \<open>Following cursors\<close>

text \<open>A client that asks for the next page until there is none; the fuel bounds the number of requests.\<close>

fun follow_pages :: "nat \<Rightarrow> (string \<Rightarrow> 'e + 'r page) \<Rightarrow> string \<Rightarrow> ('e + 'r list) option" where
  "follow_pages 0 ask cursor = None"
| "follow_pages (Suc n) ask cursor =
     (case ask cursor of
        Inl e \<Rightarrow> Some (Inl e)
      | Inr p \<Rightarrow> if pg_next p = [] then Some (Inr (pg_items p))
          else map_option (\<lambda>r. res_bind r (\<lambda>rest. Inr (pg_items p @ rest))) (follow_pages n ask (pg_next p)))"

text \<open>
  A paged query: \<open>vs\<close> are all its results, and \<open>cursor_at i\<close> is the cursor at which the first \<open>i\<close> of
  them have been returned.
\<close>

definition page_at :: "'r list \<Rightarrow> (nat \<Rightarrow> string) \<Rightarrow> nat \<Rightarrow> nat \<Rightarrow> 'r page" where
  "page_at vs cursor_at limit start = \<lparr>pg_items = take limit (drop start vs),
     pg_next = (if start + limit < length vs then cursor_at (start + limit) else [])\<rparr>"

lemma follow_pages_all:
  assumes limit: "0 < limit" and cursor: "\<And>i. 0 < i \<Longrightarrow> i < length vs \<Longrightarrow> cursor_at i \<noteq> []"
    and ask: "\<And>i. i = 0 \<or> i < length vs \<Longrightarrow> ask (cursor_at i) = Inr (page_at vs cursor_at limit i)"
  shows "length vs < n + start \<Longrightarrow> start = 0 \<or> start < length vs \<Longrightarrow> 0 < n \<Longrightarrow>
    follow_pages n ask (cursor_at start) = Some (Inr (drop start vs))"
proof (induction n arbitrary: start)
  case (Suc n)
  show ?case
  proof (cases "start + limit < length vs")
    case True
    then have "follow_pages n ask (cursor_at (start + limit)) = Some (Inr (drop (start + limit) vs))"
      using limit Suc.prems by (intro Suc.IH) auto
    moreover have "cursor_at (start + limit) \<noteq> []" using cursor limit True by simp
    ultimately show ?thesis
      using ask [OF Suc.prems(2)] True by (simp add: page_at_def) (metis append_take_drop_id drop_drop add.commute)
  next
    case False
    then show ?thesis using ask [OF Suc.prems(2)] by (simp add: page_at_def)
  qed
qed simp

lemma clone_list_id: "\<forall>v \<in> set vs. clone_json c v = Inr v \<Longrightarrow> clone_list c vs = Inr vs"
  by (induction vs) (auto simp: clone_result_def)

text \<open>The page of a slice; \<open>seal\<close> succeeds with the cursors of the positions.\<close>

lemma slice_page_at:
  assumes clone: "\<forall>v \<in> set vs. clone_json c v = Inr v" and "0 < limit"
    and seal: "\<And>i. i < length vs \<Longrightarrow> seal (vs ! i) = Inr (cursor_at (Suc i))"
  shows "slice_page c vs start limit seal = Inr (page_at vs cursor_at limit start)"
proof -
  have items: "take (bounded_end start limit (length vs) - start) (drop start vs) = take limit (drop start vs)"
    by (simp add: bounded_end_def)
  have "clone_list c (take limit (drop start vs)) = Inr (take limit (drop start vs))"
    using clone by (intro clone_list_id) (blast dest: in_set_takeD in_set_dropD)
  moreover have "seal (vs ! (start + limit - 1)) = Inr (cursor_at (start + limit))" if "start + limit < length vs"
    using seal [of "start + limit - 1"] that \<open>0 < limit\<close> by simp
  ultimately show ?thesis
    unfolding slice_page_def Let_def items by (auto simp: page_at_def bounded_end_def)
qed

text \<open>What paging relies on for one cursor: it is sealed, fits, and its payload is decoded again.\<close>

definition cursor_ok :: "cursor_env \<Rightarrow> string \<Rightarrow> string \<Rightarrow> string \<Rightarrow> string \<Rightarrow> string \<Rightarrow> bool" where
  "cursor_ok cu secret kind scope primary ident \<longleftrightarrow> (\<exists>data.
     cu_marshal cu (cursor_for kind scope primary ident) = Inr data \<and> data \<noteq> [] \<and>
     cu_decode cu data = CursorDecoded (cursor_for kind scope primary ident) \<and> cu_hmac cu secret data \<noteq> [] \<and>
     length (signed_cursor cu secret data) \<le> max_cursor_len)"

definition sealed :: "cursor_env \<Rightarrow> string \<Rightarrow> string \<Rightarrow> string \<Rightarrow> string \<Rightarrow> string \<Rightarrow> string" where
  "sealed cu secret kind scope primary ident =
     (case seal_cursor cu secret kind scope primary ident of Inl e \<Rightarrow> [] | Inr cursor \<Rightarrow> cursor)"

lemma cursor_okD:
  assumes "cursor_ok cu secret kind scope primary ident" and "ident \<noteq> []"
  shows "seal_cursor cu secret kind scope primary ident = Inr (sealed cu secret kind scope primary ident)"
    "sealed cu secret kind scope primary ident \<noteq> []" "length (sealed cu secret kind scope primary ident) \<le> max_cursor_len"
    "open_cursor cu secret operation (sealed cu secret kind scope primary ident) kind scope = Inr (cursor_for kind scope primary ident)"
  using assms by (auto simp: cursor_ok_def seal_cursor_def sealed_def open_signed check_payload_def cursor_for_def)

definition position_cursor :: "('r \<Rightarrow> string) \<Rightarrow> 'r list \<Rightarrow> nat \<Rightarrow> string" where
  "position_cursor cursor vs i = (if i = 0 then [] else cursor (vs ! (i - 1)))"

lemma id_start_position:
  assumes "distinct (map ident vs)" "i < length vs" "ident (vs ! i) \<noteq> []"
  shows "id_start operation (map ident vs) (cursor_for kind scope [] (ident (vs ! i))) = Inr (Suc i)"
  using assms position_of_nth [of "map ident vs" i] by (simp add: id_start_def cursor_for_def)

lemma record_page_at:
  fixes ident :: "'r \<Rightarrow> string"
  assumes "distinct (map ident vs)" "\<forall>v \<in> set vs. ident v \<noteq> []" "\<forall>v \<in> set vs. clone_json c v = Inr v" "0 < limit"
    and cursors: "\<forall>v \<in> set vs. cursor_ok cu secret kind scope [] (ident v)"
    and "i = 0 \<or> i < length vs"
  shows "res_bind (open_cursor cu secret operation (position_cursor (\<lambda>v. sealed cu secret kind scope [] (ident v)) vs i) kind scope)
      (\<lambda>payload. record_page cu secret kind ident c operation vs limit payload scope) =
    Inr (page_at vs (position_cursor (\<lambda>v. sealed cu secret kind scope [] (ident v)) vs) limit i)"
proof -
  let ?at = "position_cursor (\<lambda>v. sealed cu secret kind scope [] (ident v)) vs"
  have seal: "seal_cursor cu secret kind scope [] (ident (vs ! j)) = Inr (?at (Suc j))" if "j < length vs" for j
    using cursor_okD(1) assms(2) cursors that by (simp add: position_cursor_def)
  note slice = slice_page_at [where cursor_at = ?at and seal = "\<lambda>v. seal_cursor cu secret kind scope [] (ident v)", OF assms(3,4) seal]
  show ?thesis
  proof (cases "i = 0")
    case True
    then show ?thesis using slice by (simp add: position_cursor_def open_cursor_def record_page_def id_start_def no_payload_def)
  next
    case False
    then have j: "i - 1 < length vs" using assms(6) by simp
    then have "open_cursor cu secret operation (?at i) kind scope = Inr (cursor_for kind scope [] (ident (vs ! (i - 1))))"
      using cursor_okD(4) assms(2) cursors False by (simp add: position_cursor_def)
    then show ?thesis
      using slice id_start_position [OF assms(1) j] assms(2) j False by (simp add: record_page_def)
  qed
qed

lemma record_pages_all:
  fixes ident :: "'r \<Rightarrow> string"
  assumes "distinct (map ident vs)" "\<forall>v \<in> set vs. ident v \<noteq> []" "\<forall>v \<in> set vs. clone_json c v = Inr v" "0 < limit"
    and cursors: "\<forall>v \<in> set vs. cursor_ok cu secret kind scope [] (ident v)"
    and ask: "\<And>cursor. length cursor \<le> max_cursor_len \<Longrightarrow> ask cursor = res_bind (open_cursor cu secret operation cursor kind scope)
      (\<lambda>payload. record_page cu secret kind ident c operation vs limit payload scope)"
    and "length vs < n"
  shows "follow_pages n ask [] = Some (Inr vs)"
proof -
  let ?at = "position_cursor (\<lambda>v. sealed cu secret kind scope [] (ident v)) vs"
  have at: "?at i \<noteq> [] \<and> length (?at i) \<le> max_cursor_len" if "0 < i" "i < length vs" for i
    using cursor_okD(2,3) assms(2) cursors that by (simp add: position_cursor_def)
  have "length (?at i) \<le> max_cursor_len" if "i = 0 \<or> i < length vs" for i
    using at [of i] that by (cases i) (auto simp: position_cursor_def)
  then have "ask (?at i) = Inr (page_at vs ?at limit i)" if "i = 0 \<or> i < length vs" for i
    using record_page_at [OF assms(1-5) that] ask that by simp
  then have "follow_pages n ask (?at 0) = Some (Inr (drop 0 vs))"
    using at assms(4,7) by (intro follow_pages_all [where limit = limit and cursor_at = ?at]) auto
  then show ?thesis by (simp add: position_cursor_def)
qed

lemma record_query_complete:
  fixes ident :: "'r \<Rightarrow> string"
  assumes ids: "identified missing ident every" "missing []" and limit: "page_limit operation request = Inr limit"
    and codecs: "\<forall>v \<in> set every. clone_json c v = Inr v \<and> cursor_ok cu secret kind scope [] (ident v)"
    and ask: "\<And>cursor. length cursor \<le> max_cursor_len \<Longrightarrow> ask cursor = res_bind (open_cursor cu secret operation cursor kind scope)
      (\<lambda>payload. record_page cu secret kind ident c operation (filter P every) limit payload scope)"
  shows "follow_pages (length every + 1) ask [] = Some (Inr (filter P every))"
proof (rule record_pages_all)
  show "distinct (map ident (filter P every))" using ids(1) by (simp add: identified_def distinct_map_filter)
  show "\<forall>v \<in> set (filter P every). ident v \<noteq> []" using ids by (auto simp: identified_def)
  show "0 < limit" using page_limit_Inr [OF limit] by simp
  show "length (filter P every) < length every + 1" by (simp add: le_imp_less_Suc)
qed (use codecs ask in auto)

section \<open>Queries of a published snapshot\<close>

lemma query_snapshot_Inr_iff:
  "query_snapshot ctx operation k request st = Inr (limit, s) \<longleftrightarrow> valid_read_id ctx operation ''snapshot_id'' k = Inr () \<and>
     page_limit operation request = Inr limit \<and> find_snapshot st operation k [] [] = Inr s"
  by (simp add: query_snapshot_def res_bind_Inr_iff) 

lemma query_snapshotD:
  assumes "query_snapshot ctx operation k request st = Inr (limit, s)"
  shows "map_of (ms_snapshots st) k = Some s" "page_limit operation request = Inr limit"
  using assms by (auto simp: query_snapshot_Inr_iff find_snapshot_def res_bind_Inr_iff split: option.splits)

lemma query_snapshot_cursor:
  assumes "query_snapshot ctx operation k request st = Inr (limit, s)" and "length cursor \<le> max_cursor_len"
  shows "query_snapshot ctx operation k (request\<lparr>pr_cursor := cursor\<rparr>) st = Inr (limit, s)"
  using assms page_limit_cong [of "request\<lparr>pr_cursor := cursor\<rparr>" request operation limit] by (simp add: query_snapshot_Inr_iff)

lemma published_ids:
  assumes "store_run env st" "stable_codecs env" "lower_stable (se_fold_case env)" "map_of (ms_snapshots st) k = Some s"
  shows "ids_ok (mp_bundle s)"
proof -
  have "stored_ok env s" using store_run_history [OF assms(1-3)] map_of_SomeD [OF assms(4)] by (auto simp: history_inv_def)
  then have "valid_bundle (validation_env_of env) True (mp_bundle s)"
    by (simp add: stored_ok_def no_errors_report valid_bundle_iff strict_options_def)
  then show ?thesis by (simp add: valid_bundle_def)
qed

lemma matches_page [simp]:
  "node_matches (q\<lparr>nq_page := request\<rparr>) = node_matches q"
  "edge_matches (q'\<lparr>eq_page := request\<rparr>) = edge_matches q'"
  "diagnostic_matches (q''\<lparr>dq_page := request\<rparr>) = diagnostic_matches q''"
  by (simp_all add: fun_eq_iff node_matches_def edge_matches_def diagnostic_matches_def)

definition node_scope :: "cursor_env \<Rightarrow> node_query \<Rightarrow> string" where
  "node_scope cu q = scope_fingerprint cu [nq_snapshot_id q, nq_kind q, nq_language q, nq_artifact_id q, nq_visibility q]"

definition ask_nodes ::
  "store_env \<Rightarrow> cursor_env \<Rightarrow> node_query \<Rightarrow> memory_store \<Rightarrow> string \<Rightarrow> store_failure + go_value node page" where
  "ask_nodes env cu q st cursor = query_nodes env cu background (q\<lparr>nq_page := (nq_page q)\<lparr>pr_cursor := cursor\<rparr>\<rparr>) st"

text \<open>
  C25. Paging through a query of nodes visits every node of the published snapshot that matches the filters exactly once,
  in the canonical order, and stops after at most as many requests as there are nodes, plus one.
\<close>

theorem query_nodes_complete:
  assumes run: "store_run env st" "stable_codecs env" "lower_stable (se_fold_case env)"
    and q: "query_snapshot background ''query nodes'' (nq_snapshot_id q) (nq_page q) st = Inr (limit, s)"
    and codecs: "\<forall>v \<in> set (bu_nodes (mp_bundle s)). clone_json (se_node env) v = Inr v \<and>
      cursor_ok cu (ms_secret st) ''nodes'' (node_scope cu q) [] (n_id v)"
  shows "follow_pages (length (bu_nodes (mp_bundle s)) + 1) (ask_nodes env cu q st) [] =
    Some (Inr (filter (node_matches q) (bu_nodes (mp_bundle s))))"
proof (rule record_query_complete)
  show "identified (\<lambda>k. k = []) n_id (bu_nodes (mp_bundle s))"
    using published_ids [OF run query_snapshotD(1) [OF q]] by (simp add: ids_ok_def)
  show "page_limit ''query nodes'' (nq_page q) = Inr limit" by (rule query_snapshotD(2) [OF q])
  show "\<forall>v \<in> set (bu_nodes (mp_bundle s)). clone_json (se_node env) v = Inr v \<and>
      cursor_ok cu (ms_secret st) ''nodes'' (node_scope cu q) [] (n_id v)" by (rule codecs)
  fix cursor :: string
  assume "length cursor \<le> max_cursor_len"
  from query_snapshot_cursor [OF q this]
  show "ask_nodes env cu q st cursor = res_bind (open_cursor cu (ms_secret st) ''query nodes'' cursor ''nodes'' (node_scope cu q))
      (\<lambda>payload. record_page cu (ms_secret st) ''nodes'' n_id (se_node env) ''query nodes'' (filter (node_matches q) (bu_nodes (mp_bundle s))) limit payload (node_scope cu q))"
    by (simp add: ask_nodes_def query_nodes_def node_scope_def Let_def)
qed simp

definition edge_scope :: "cursor_env \<Rightarrow> edge_query \<Rightarrow> string \<Rightarrow> string" where
  "edge_scope cu q resolution = scope_fingerprint cu [eq_snapshot_id q, eq_kind q, eq_from q, eq_to q, resolution]"

definition ask_edges ::
  "store_env \<Rightarrow> cursor_env \<Rightarrow> edge_query \<Rightarrow> memory_store \<Rightarrow> string \<Rightarrow> store_failure + go_value edge page" where
  "ask_edges env cu q st cursor = query_edges env cu background (q\<lparr>eq_page := (eq_page q)\<lparr>pr_cursor := cursor\<rparr>\<rparr>) st"

text \<open>The same of a query of edges, whose resolution is normalized first, and of a query of diagnostics.\<close>

theorem query_edges_complete:
  assumes run: "store_run env st" "stable_codecs env" "lower_stable (se_fold_case env)"
    and q: "query_snapshot background ''query edges'' (eq_snapshot_id q) (eq_page q) st = Inr (limit, s)"
    and resolution: "query_resolution env (eq_resolution q) = Inr resolution"
    and codecs: "\<forall>v \<in> set (bu_edges (mp_bundle s)). clone_json (se_edge env) v = Inr v \<and>
      cursor_ok cu (ms_secret st) ''edges'' (edge_scope cu q resolution) [] (e_id v)"
  shows "follow_pages (length (bu_edges (mp_bundle s)) + 1) (ask_edges env cu q st) [] =
    Some (Inr (filter (edge_matches q resolution) (bu_edges (mp_bundle s))))"
proof (rule record_query_complete)
  show "identified (\<lambda>k. k = []) e_id (bu_edges (mp_bundle s))"
    using published_ids [OF run query_snapshotD(1) [OF q]] by (simp add: ids_ok_def)
  show "page_limit ''query edges'' (eq_page q) = Inr limit" by (rule query_snapshotD(2) [OF q])
  show "\<forall>v \<in> set (bu_edges (mp_bundle s)). clone_json (se_edge env) v = Inr v \<and>
      cursor_ok cu (ms_secret st) ''edges'' (edge_scope cu q resolution) [] (e_id v)" by (rule codecs)
  fix cursor :: string
  assume "length cursor \<le> max_cursor_len"
  from query_snapshot_cursor [OF q this]
  show "ask_edges env cu q st cursor = res_bind (open_cursor cu (ms_secret st) ''query edges'' cursor ''edges'' (edge_scope cu q resolution))
      (\<lambda>payload. record_page cu (ms_secret st) ''edges'' e_id (se_edge env) ''query edges'' (filter (edge_matches q resolution) (bu_edges (mp_bundle s))) limit payload (edge_scope cu q resolution))"
    by (simp add: ask_edges_def query_edges_def edge_scope_def resolution Let_def)
qed simp

definition diagnostic_scope :: "cursor_env \<Rightarrow> diagnostic_query \<Rightarrow> string" where
  "diagnostic_scope cu q = scope_fingerprint cu [dq_snapshot_id q, dq_severity q, dq_code q, dq_stage q]"

definition ask_diagnostics ::
  "store_env \<Rightarrow> cursor_env \<Rightarrow> diagnostic_query \<Rightarrow> memory_store \<Rightarrow> string \<Rightarrow> store_failure + go_value diagnostic page" where
  "ask_diagnostics env cu q st cursor = query_diagnostics env cu background (q\<lparr>dq_page := (dq_page q)\<lparr>pr_cursor := cursor\<rparr>\<rparr>) st"

theorem query_diagnostics_complete:
  assumes run: "store_run env st" "stable_codecs env" "lower_stable (se_fold_case env)"
    and q: "query_snapshot background ''query diagnostics'' (dq_snapshot_id q) (dq_page q) st = Inr (limit, s)"
    and codecs: "\<forall>v \<in> set (bu_diagnostics (mp_bundle s)). clone_json (se_diagnostic env) v = Inr v \<and>
      cursor_ok cu (ms_secret st) ''diagnostics'' (diagnostic_scope cu q) [] (dg_id v)"
  shows "follow_pages (length (bu_diagnostics (mp_bundle s)) + 1) (ask_diagnostics env cu q st) [] =
    Some (Inr (filter (diagnostic_matches q) (bu_diagnostics (mp_bundle s))))"
proof (rule record_query_complete)
  show "identified blank dg_id (bu_diagnostics (mp_bundle s))"
    using published_ids [OF run query_snapshotD(1) [OF q]] by (simp add: ids_ok_def)
  show "page_limit ''query diagnostics'' (dq_page q) = Inr limit" by (rule query_snapshotD(2) [OF q])
  show "\<forall>v \<in> set (bu_diagnostics (mp_bundle s)). clone_json (se_diagnostic env) v = Inr v \<and>
      cursor_ok cu (ms_secret st) ''diagnostics'' (diagnostic_scope cu q) [] (dg_id v)" by (rule codecs)
  fix cursor :: string
  assume "length cursor \<le> max_cursor_len"
  from query_snapshot_cursor [OF q this]
  show "ask_diagnostics env cu q st cursor =
      res_bind (open_cursor cu (ms_secret st) ''query diagnostics'' cursor ''diagnostics'' (diagnostic_scope cu q))
      (\<lambda>payload. record_page cu (ms_secret st) ''diagnostics'' dg_id (se_diagnostic env) ''query diagnostics'' (filter (diagnostic_matches q) (bu_diagnostics (mp_bundle s))) limit payload
        (diagnostic_scope cu q))"
    by (simp add: ask_diagnostics_def query_diagnostics_def diagnostic_scope_def Let_def)
qed simp

end
