(* ===== verification/StorePublish.thy ===== *)
theory StorePublish
  imports StageBundle StoreReading
begin

text \<open>
  From a bundle to a published snapshot and back: beginning a build, staging a bundle and committing it publishes
  exactly that bundle, in canonical order, under its snapshot identifier.
\<close>

section \<open>The staged families\<close>

definition keeps :: "'r codec \<Rightarrow> 'r list \<Rightarrow> bool" where
  "keeps c vs \<longleftrightarrow> (\<forall>v \<in> set vs. clone_json c v = Inr v)"

lemma clones_keeps: "keeps c vs \<Longrightarrow> clones c vs ws \<Longrightarrow> ws = vs"
  unfolding clones_def keeps_def by (induction vs arbitrary: ws) (auto simp: list_all2_Cons1)

lemma insert_records_distinct:
  "distinct (map ident vs) \<Longrightarrow> ident ` set vs \<inter> set (keys m) = {} \<Longrightarrow> insert_records ident vs m = m @ map (\<lambda>v. (ident v, v)) vs"
  by (induction vs arbitrary: m) (auto simp: insert_records_def update_fresh keys_def)

lemma family_extends_keeps:
  assumes "family_extends env fa vs (Some b) v" and "keeps (fa_codec fa env) vs" and "fa_get fa b = []"
  shows "\<exists>b'. v = Some b' \<and> map snd (fa_get fa b') = vs \<and> strip_family fa b' = strip_family fa b"
proof (cases "vs = [] \<and> v = Some b")
  case False
  then obtain b' ws where b': "v = Some b'" "clones (fa_codec fa env) vs ws" "strip_family fa b' = strip_family fa b"
      "fa_get fa b' = insert_records (fa_ident fa) ws (fa_get fa b)" "ws = vs \<longrightarrow> distinct (map (fa_ident fa) vs)"
    using assms(1) unfolding family_extends_def by blast
  then have "insert_records (fa_ident fa) ws [] = map (\<lambda>v. (fa_ident fa v, v)) vs"
    using clones_keeps [OF assms(2) b'(2)] insert_records_distinct [of "fa_ident fa" vs "[]"] by (simp add: keys_def)
  then show ?thesis using b' assms(3) by (simp add: comp_def)
qed (use assms in auto)

text \<open>Staging one family leaves the others as they are.\<close>

definition all_families where
  "all_families b = (mb_artifacts b, mb_evidence b, mb_nodes b, mb_edges b, mb_diagnostics b, mb_claims b, mb_conflicts b,
     mb_documents b, mb_paths b)"

lemma strip_families:
  "strip_family artifact_family b' = strip_family artifact_family b \<Longrightarrow> all_families b' = all_families (b\<lparr>mb_artifacts := mb_artifacts b'\<rparr>)"
  "strip_family evidence_family b' = strip_family evidence_family b \<Longrightarrow> all_families b' = all_families (b\<lparr>mb_evidence := mb_evidence b'\<rparr>)"
  "strip_family node_family b' = strip_family node_family b \<Longrightarrow> all_families b' = all_families (b\<lparr>mb_nodes := mb_nodes b'\<rparr>)"
  "strip_family edge_family b' = strip_family edge_family b \<Longrightarrow> all_families b' = all_families (b\<lparr>mb_edges := mb_edges b'\<rparr>)"
  "strip_family diagnostic_family b' = strip_family diagnostic_family b \<Longrightarrow> all_families b' = all_families (b\<lparr>mb_diagnostics := mb_diagnostics b'\<rparr>)"
  "strip_family claim_family b' = strip_family claim_family b \<Longrightarrow> all_families b' = all_families (b\<lparr>mb_claims := mb_claims b'\<rparr>)"
  "strip_family conflict_family b' = strip_family conflict_family b \<Longrightarrow> all_families b' = all_families (b\<lparr>mb_conflicts := mb_conflicts b'\<rparr>)"
  "strip_family document_family b' = strip_family document_family b \<Longrightarrow> all_families b' = all_families (b\<lparr>mb_documents := mb_documents b'\<rparr>)"
  "strip_family path_family b' = strip_family path_family b \<Longrightarrow> all_families b' = all_families (b\<lparr>mb_paths := mb_paths b'\<rparr>)"
  by (cases b; cases b'; simp add: strip_family_def family_defs all_families_def)+

lemma stage_then_Inr_iff:
  "stage_then f g s = (s', Inr u) \<longleftrightarrow> (\<exists>s1. f s = (s1, Inr ()) \<and> g s1 = (s', Inr u))"
  by (auto simp: stage_then_def split: prod.splits sum.splits)

context staged_family
begin

lemma stage_slice_keeps:
  assumes "stage_slice err (put_family fa env ctx k) vs s = (s', Inr u)" and "build_view k (snd s) = Some b"
    and "keeps (fa_codec fa env) vs" "fa_get fa b = []"
  shows "\<exists>b'. build_view k (snd s') = Some b' \<and> map snd (fa_get fa b') = vs \<and> strip_family fa b' = strip_family fa b"
proof -
  have "staged k env vs (snd s) (snd s') (Inr u)"
    using stage_slice_staged [of err env ctx k vs "fst s" "snd s" "fst s'" "snd s'" "Inr u"] assms(1) by simp
  then have "family_extends env fa vs (Some b) (build_view k (snd s'))" using assms(2) by (simp add: staged_def)
  then show ?thesis using assms(3,4) by (rule family_extends_keeps)
qed

end

definition keeps_records :: "store_env \<Rightarrow> go_value model_bundle \<Rightarrow> bool" where
  "keeps_records env b \<longleftrightarrow> keeps (se_artifact env) (bu_artifacts b) \<and> keeps (se_evidence env) (bu_evidence b) \<and>
     keeps (se_node env) (bu_nodes b) \<and> keeps (se_edge env) (bu_edges b) \<and> keeps (se_diagnostic env) (bu_diagnostics b) \<and>
     keeps (se_claim env) (bu_claims b) \<and> keeps (se_conflict env) (bu_conflicts b) \<and> keeps (se_document env) (bu_documents b) \<and>
     keeps (se_path env) (bu_paths b)"

definition staged_records where
  "staged_records b = (map snd (mb_artifacts b), map snd (mb_evidence b), map snd (mb_nodes b), map snd (mb_edges b),
     map snd (mb_diagnostics b), map snd (mb_claims b), map snd (mb_conflicts b), map snd (mb_documents b), map snd (mb_paths b))"

definition bundle_records where
  "bundle_records b = (bu_artifacts b, bu_evidence b, bu_nodes b, bu_edges b, bu_diagnostics b, bu_claims b, bu_conflicts b,
     bu_documents b, bu_paths b)"

lemma put_coverage_keeps_families:
  assumes "put_coverage env ctx k c st = (st', Inr u)" and "build_view k st = Some b"
  shows "\<exists>b'. build_view k st' = Some b' \<and> all_families b' = all_families b"
proof -
  let ?r = "res_bind (check_context ctx 0 ''put coverage'') (\<lambda>_.
    res_bind (prepare_limited_record ''put coverage'' ''coverage'' (se_coverage env) c (ms_options st)) (\<lambda>prepared.
    res_bind (open_build_locked ctx 1 ''put coverage'' k st) (\<lambda>mb. stage_coverage (ms_options st) k mb prepared)))"
  obtain b' where r: "?r = Inr b'" "st' = update_build k b' st"
    using assms(1) by (cases ?r) (auto simp: put_coverage_def)
  then obtain mb prepared where "open_build_locked ctx 1 ''put coverage'' k st = Inr mb"
      "stage_coverage (ms_options st) k mb prepared = Inr b'"
    by (auto simp: res_simps)
  moreover from this(1) have "mb = b" using open_build_lockedD assms(2) by (auto simp: build_view_def)
  ultimately have "all_families b' = all_families b"
    by (cases prepared) (auto simp: stage_coverage_def res_simps Let_def all_families_def)
  then show ?thesis by (simp add: r(2) build_view_def update_build_def)
qed

lemma stage_bundle_steps:
  assumes "stage_bundle env err ctx k b s = (s', Inr u)"
  shows "\<exists>s1 s2 s3 s4 s5 s6 s7 s8 s9.
    stage_slice err (put_family artifact_family env ctx k) (bu_artifacts b) s = (s1, Inr ()) \<and>
    stage_slice err (put_family evidence_family env ctx k) (bu_evidence b) s1 = (s2, Inr ()) \<and>
    stage_slice err (put_family node_family env ctx k) (bu_nodes b) s2 = (s3, Inr ()) \<and>
    stage_slice err (put_family edge_family env ctx k) (bu_edges b) s3 = (s4, Inr ()) \<and>
    stage_slice err (put_family diagnostic_family env ctx k) (bu_diagnostics b) s4 = (s5, Inr ()) \<and>
    stage_slice err (put_family claim_family env ctx k) (bu_claims b) s5 = (s6, Inr ()) \<and>
    stage_slice err (put_family conflict_family env ctx k) (bu_conflicts b) s6 = (s7, Inr ()) \<and>
    stage_slice err (put_family document_family env ctx k) (bu_documents b) s7 = (s8, Inr ()) \<and>
    stage_slice err (put_family path_family env ctx k) (bu_paths b) s8 = (s9, Inr ()) \<and>
    stage_coverage_of env ctx k b s9 = (s', Inr u)"
proof -
  have "ctx (fst s) \<noteq> NoContext" "k \<noteq> []" using assms unfolding stage_bundle_def by (simp_all split: if_split_asm)
  then have "stage_bundle env err ctx k b s = (s', Inr u) \<longleftrightarrow> ?thesis"
    unfolding stage_bundle_def by (simp only: if_False stage_then_Inr_iff) blast
  then show ?thesis using assms by blast
qed

lemma stage_bundle_records:
  assumes "stage_bundle env err ctx k b s = (s', Inr u)" and "build_view k (snd s) = Some b0"
    and "all_families b0 = ([], [], [], [], [], [], [], [], [])" and "keeps_records env b"
  shows "\<exists>b'. build_view k (snd s') = Some b' \<and> staged_records b' = bundle_records b"
proof -
  note keep = assms(4) [unfolded keeps_records_def]
  obtain s1 s2 s3 s4 s5 s6 s7 s8 s9 where s:
      "stage_slice err (put_family artifact_family env ctx k) (bu_artifacts b) s = (s1, Inr ())"
      "stage_slice err (put_family evidence_family env ctx k) (bu_evidence b) s1 = (s2, Inr ())"
      "stage_slice err (put_family node_family env ctx k) (bu_nodes b) s2 = (s3, Inr ())"
      "stage_slice err (put_family edge_family env ctx k) (bu_edges b) s3 = (s4, Inr ())"
      "stage_slice err (put_family diagnostic_family env ctx k) (bu_diagnostics b) s4 = (s5, Inr ())"
      "stage_slice err (put_family claim_family env ctx k) (bu_claims b) s5 = (s6, Inr ())"
      "stage_slice err (put_family conflict_family env ctx k) (bu_conflicts b) s6 = (s7, Inr ())"
      "stage_slice err (put_family document_family env ctx k) (bu_documents b) s7 = (s8, Inr ())"
      "stage_slice err (put_family path_family env ctx k) (bu_paths b) s8 = (s9, Inr ())"
      "stage_coverage_of env ctx k b s9 = (s', Inr u)"
    using stage_bundle_steps [OF assms(1)] by blast
  note f0 = assms(3) [unfolded all_families_def, simplified]
  obtain b1 where 1: "build_view k (snd s1) = Some b1" "map snd (mb_artifacts b1) = bu_artifacts b"
      "strip_family artifact_family b1 = strip_family artifact_family b0"
    using artifact_writer.stage_slice_keeps [OF s(1) assms(2)] keep f0 by (auto simp: artifact_family_def)
  note f1 = strip_families(1) [OF 1(3), unfolded all_families_def, simplified, simplified f0]
  obtain b2 where 2: "build_view k (snd s2) = Some b2" "map snd (mb_evidence b2) = bu_evidence b"
      "strip_family evidence_family b2 = strip_family evidence_family b1"
    using evidence_writer.stage_slice_keeps [OF s(2) 1(1)] keep f1 by (auto simp: evidence_family_def)
  note f2 = strip_families(2) [OF 2(3), unfolded all_families_def, simplified, simplified f1]
  obtain b3 where 3: "build_view k (snd s3) = Some b3" "map snd (mb_nodes b3) = bu_nodes b"
      "strip_family node_family b3 = strip_family node_family b2"
    using node_writer.stage_slice_keeps [OF s(3) 2(1)] keep f2 by (auto simp: node_family_def)
  note f3 = strip_families(3) [OF 3(3), unfolded all_families_def, simplified, simplified f2]
  obtain b4 where 4: "build_view k (snd s4) = Some b4" "map snd (mb_edges b4) = bu_edges b"
      "strip_family edge_family b4 = strip_family edge_family b3"
    using edge_writer.stage_slice_keeps [OF s(4) 3(1)] keep f3 by (auto simp: edge_family_def)
  note f4 = strip_families(4) [OF 4(3), unfolded all_families_def, simplified, simplified f3]
  obtain b5 where 5: "build_view k (snd s5) = Some b5" "map snd (mb_diagnostics b5) = bu_diagnostics b"
      "strip_family diagnostic_family b5 = strip_family diagnostic_family b4"
    using diagnostic_writer.stage_slice_keeps [OF s(5) 4(1)] keep f4 by (auto simp: diagnostic_family_def)
  note f5 = strip_families(5) [OF 5(3), unfolded all_families_def, simplified, simplified f4]
  obtain b6 where 6: "build_view k (snd s6) = Some b6" "map snd (mb_claims b6) = bu_claims b"
      "strip_family claim_family b6 = strip_family claim_family b5"
    using claim_writer.stage_slice_keeps [OF s(6) 5(1)] keep f5 by (auto simp: claim_family_def)
  note f6 = strip_families(6) [OF 6(3), unfolded all_families_def, simplified, simplified f5]
  obtain b7 where 7: "build_view k (snd s7) = Some b7" "map snd (mb_conflicts b7) = bu_conflicts b"
      "strip_family conflict_family b7 = strip_family conflict_family b6"
    using conflict_writer.stage_slice_keeps [OF s(7) 6(1)] keep f6 by (auto simp: conflict_family_def)
  note f7 = strip_families(7) [OF 7(3), unfolded all_families_def, simplified, simplified f6]
  obtain b8 where 8: "build_view k (snd s8) = Some b8" "map snd (mb_documents b8) = bu_documents b"
      "strip_family document_family b8 = strip_family document_family b7"
    using document_writer.stage_slice_keeps [OF s(8) 7(1)] keep f7 by (auto simp: document_family_def)
  note f8 = strip_families(8) [OF 8(3), unfolded all_families_def, simplified, simplified f7]
  obtain b9 where 9: "build_view k (snd s9) = Some b9" "map snd (mb_paths b9) = bu_paths b"
      "strip_family path_family b9 = strip_family path_family b8"
    using path_writer.stage_slice_keeps [OF s(9) 8(1)] keep f8 by (auto simp: path_family_def)
  have "put_coverage env (ctx (fst s9)) k (build_coverage (coverage_env_of env) b) (snd s9) = (snd s', Inr u)"
    using s(10) by (auto simp: stage_coverage_of_def split: prod.splits)
  from put_coverage_keeps_families [OF this 9(1)] obtain b' where b': "build_view k (snd s') = Some b'" "all_families b' = all_families b9"
    by blast
  have "staged_records b' = bundle_records b"
    using b'(2) 1(2) 2(2) 3(2) 4(2) 5(2) 6(2) 7(2) 8(2) 9(2) strip_families(9) [OF 9(3)] f8 by (simp add: staged_records_def bundle_records_def all_families_def)
  then show ?thesis using b'(1) by blast
qed

section \<open>Publishing\<close>

text \<open>The records of a bundle that JSON returns unchanged, one by one and together, as staged and in canonical order.\<close>

definition keeps_bundle :: "store_env \<Rightarrow> go_value model_bundle \<Rightarrow> bool" where
  "keeps_bundle env b \<longleftrightarrow> keeps_records env b \<and> clone_json (se_snapshot env) (bu_snapshot b) = Inr (bu_snapshot b) \<and>
     keeps (se_bundle env) [b, sort_bundle (se_fold_case env) b]"

lemma bundle_eqI:
  fixes b b' :: "'v model_bundle"
  assumes "bu_snapshot b' = bu_snapshot b" "bundle_records b' = bundle_records b"
  shows "b' = b"
  using assms by (cases b; cases b') (simp add: bundle_records_def)

lemma commit_build_Inr:
  assumes "commit_build env ctx k s st = (st', Inr u)"
  obtains mb s' stored where "commit_checks env ctx k s st = Inr (mb, s', stored)" "st' = publish k mb s' stored st"
    "map_of (ms_builds st) k = Some mb" "clone_json (se_snapshot env) s = Inr s'" "checked_commit env st k mb s' = Inr stored"
    "\<not> blank (sn_id s')" "int (length (sn_id s')) \<le> max_identifier_size"
proof -
  obtain r where r: "commit_checks env ctx k s st = Inr r"
    using assms by (cases "commit_checks env ctx k s st") (auto simp: commit_build_def)
  obtain mb s' stored where e: "r = (mb, s', stored)" by (cases r)
  have "clone_json (se_snapshot env) s = Inr s'" "checked_commit env st k mb s' = Inr stored"
      "valid_identifier ''commit build'' ''snapshot_id'' (sn_id s') = Inr ()" "open_build_locked ctx 1 ''commit build'' k st = Inr mb"
    using r by (auto simp: e commit_checks_def res_bind_Inr_iff split: sum.splits)
  then show ?thesis
    using assms r open_build_lockedD [of ctx 1 "''commit build''" k st mb]
    by (intro that [of mb s' stored]) (auto simp: e commit_build_def valid_identifier_def split: if_split_asm)
qed

lemma publish_finds:
  assumes "checked_commit env st k mb s = Inr stored" and "sn_repository_id (bu_snapshot (mp_bundle stored)) = sn_repository_id s"
  shows "find_snapshot (publish k mb s stored st) operation (sn_id s) [] [] = Inr stored"
proof -
  obtain u where m: "snapshot_matches st k mb s = Inr u"
      "map_of (ms_affinity st) (bo_repository_id (mb_options mb)) \<in> {None, Some (sn_repository_id s)}"
    using assms(1) by (rule checked_commitE)
  have r: "bo_repository_id (mb_options mb) = sn_repository_id s" using snapshot_matchesD(1) [OF m(1)] by simp
  have "map_of (ms_affinity (publish k mb s stored st)) (sn_repository_id s) = Some (sn_repository_id s)"
    using m(2) by (auto simp: publish_def r Let_def set_keys_map_of)
  moreover have "map_of (ms_snapshots (publish k mb s stored st)) (sn_id s) = Some stored"
    by (simp add: publish_def Let_def)
  ultimately show ?thesis using assms(2) by (simp add: find_snapshot_def check_affinity_def Let_def)
qed

text \<open>
  C20. Beginning a build, staging a bundle into it and committing it with the bundle's snapshot publishes exactly that
  bundle: read back under its snapshot identifier it is the canonically ordered bundle, and the coverage read back is the
  coverage of it.
\<close>

theorem publish_roundtrip:
  assumes opened: "begin_build ctx0 draws opts st = (st1, Inr k)"
    and stage: "stage_bundle env err ctx k b (n, st1) = ((n', st2), Inr ())"
    and commit: "commit_build env ctx1 k (bu_snapshot b) st2 = (st3, Inr ())"
    and keeps: "keeps_bundle env b" and lower: "lower_stable (se_fold_case env)"
    and coverage: "keeps (se_coverage env) [build_coverage (coverage_env_of env) (sort_bundle (se_fold_case env) b)]"
  shows "read_bundle env background (sn_id (bu_snapshot b)) st3 = Inr (sort_bundle (se_fold_case env) b) \<and>
    read_coverage env background (sn_id (bu_snapshot b)) st3 =
      Inr (build_coverage (coverage_env_of env) (sort_bundle (se_fold_case env) b))"
proof -
  let ?s = "bu_snapshot b" and ?sorted = "sort_bundle (se_fold_case env) b"
  have clone: "clone_json (se_bundle env) b = Inr b" "clone_json (se_bundle env) ?sorted = Inr ?sorted"
      "clone_json (se_snapshot env) ?s = Inr ?s" "keeps_records env b"
      "clone_json (se_coverage env) (build_coverage (coverage_env_of env) ?sorted) = Inr (build_coverage (coverage_env_of env) ?sorted)"
    using keeps coverage by (simp_all add: keeps_bundle_def keeps_def)
  have "map_of (ms_builds st1) k = Some (opened_build opts)"
    using opened by (cases rule: begin_buildE) (auto simp: map_of_append_fresh simp del: map_of_append)
  then have "build_view k (snd (n, st1)) = Some (opened_build opts)" by (simp add: build_view_def)
  moreover have "all_families (opened_build opts) = ([], [], [], [], [], [], [], [], [])"
    by (simp add: all_families_def opened_build_def empty_build_def)
  ultimately obtain b' where b': "build_view k st2 = Some b'" "staged_records b' = bundle_records b"
    using stage_bundle_records [OF stage _ _ clone(4)] by auto
  from commit obtain mb s' stored where c: "st3 = publish k mb s' stored st2" "map_of (ms_builds st2) k = Some mb"
      "clone_json (se_snapshot env) ?s = Inr s'" "checked_commit env st2 k mb s' = Inr stored"
      "\<not> blank (sn_id s')" "int (length (sn_id s')) \<le> max_identifier_size"
    by (rule commit_build_Inr)
  have s': "s' = ?s" using c(3) clone(3) by simp
  have mb: "mb = b'" using c(2) b'(1) by (simp add: build_view_def)
  obtain bb where bb: "bundle_from_build env ?s b' = Inr bb" "mp_bundle stored = sort_bundle (se_fold_case env) bb"
      "clone_json (se_coverage env) (build_coverage (coverage_env_of env) bb) = Inr (mp_coverage stored)"
    using c(4) unfolding s' mb by (rule checked_commitE)
  have "\<lparr>bu_snapshot = ?s, bu_artifacts = map snd (mb_artifacts b'), bu_nodes = map snd (mb_nodes b'),
        bu_edges = map snd (mb_edges b'), bu_evidence = map snd (mb_evidence b'),
        bu_diagnostics = map snd (mb_diagnostics b'), bu_conflicts = map snd (mb_conflicts b'),
        bu_documents = map snd (mb_documents b'), bu_claims = map snd (mb_claims b'),
        bu_paths = map snd (mb_paths b')\<rparr> = b"
    using b'(2) by (intro bundle_eqI) (simp_all add: staged_records_def bundle_records_def)
  then have "bb = ?sorted" using bb(1) clone(1) by (simp add: bundle_from_build_def)
  then have stored: "mp_bundle stored = ?sorted" "mp_coverage stored = build_coverage (coverage_env_of env) ?sorted"
    using bb(2,3) clone(5) by (simp_all add: sort_bundle_idem [OF lower])
  have "find_snapshot st3 operation (sn_id ?s) [] [] = Inr stored" for operation
    using publish_finds [OF c(4)] by (simp add: c(1) s' stored(1) sort_bundle_def)
  then show ?thesis
    using c(5,6) clone(2,5) unfolding s'
    by (simp add: read_bundle_def read_coverage_def valid_read_id_def valid_identifier_def clone_result_def stored)
qed

end
