(* ===== verification/StoreWitnesses.thy ===== *)
theory StoreWitnesses
  imports StorePublish CoverageWitnesses
begin

text \<open>
  A run of the in-memory store that publishes a snapshot of two functions and a call, on which the properties of
  the store hold. Its codecs keep the values of a table and refuse all others.
\<close>

section \<open>Codecs\<close>

definition table_codec :: "'r list \<Rightarrow> 'r codec" where
  "table_codec xs = \<lparr>cd_marshal = (\<lambda>v. case position_of v xs of None \<Rightarrow> Inl ''unsupported value'' | Some i \<Rightarrow> Inr (replicate (Suc i) CHR ''x'')),
     cd_unmarshal = (\<lambda>s. if s \<noteq> [] \<and> length s \<le> length xs then Inr (xs ! (length s - 1)) else Inl ''malformed text'')\<rparr>"

lemma table_clone: "clone_json (table_codec xs) v = (if v \<in> set xs then Inr v else Inl ''unsupported value'')"
proof (cases "position_of v xs")
  case None
  moreover from this have "v \<notin> set xs" by (simp add: position_of_None_iff)
  ultimately show ?thesis by (simp add: clone_json_def table_codec_def)
next
  case (Some i)
  then have "v \<in> set xs" by (metis position_of_None_iff option.distinct(1))
  then show ?thesis using Some position_of_Some_iff [OF Some] by (simp add: clone_json_def table_codec_def)
qed

section \<open>The bundle\<close>

definition pub_node :: "string \<Rightarrow> go_value node" where
  "pub_node k = zero_node\<lparr>n_id := k, n_kind := ''function'', n_name := k\<rparr>"

definition pub_edge :: "go_value edge" where
  "pub_edge = zero_edge\<lparr>e_id := ''e'', e_kind := ''calls'', e_from := ''b'', e_to := ''a'', e_resolution := ''declared''\<rparr>"

definition pub_bundle :: "go_value model_bundle" where
  "pub_bundle = cov_bundle\<lparr>bu_nodes := [pub_node ''a'', pub_node ''b''], bu_edges := [pub_edge]\<rparr>"

definition pub_base :: store_env where
  "pub_base = \<lparr>se_fold_case = map ascii_lower, se_sha12 = id, se_canonical_origin = (\<lambda>_. True), se_parse_float = (\<lambda>_. 0),
     se_hash = (\<lambda>_. ''d''), se_artifact = table_codec [], se_node = table_codec (bu_nodes pub_bundle),
     se_edge = table_codec (bu_edges pub_bundle), se_evidence = table_codec [], se_diagnostic = table_codec [],
     se_conflict = table_codec [], se_document = table_codec [], se_claim = table_codec [], se_path = table_codec [],
     se_coverage = table_codec [], se_snapshot = table_codec [bu_snapshot pub_bundle], se_bundle = table_codec [pub_bundle]\<rparr>"

definition pub_coverage :: coverage where
  "pub_coverage = build_coverage (coverage_env_of pub_base) pub_bundle"

definition pub_env :: store_env where
  "pub_env = pub_base\<lparr>se_coverage := table_codec [pub_coverage]\<rparr>"

lemma pub_sorted: "sort_bundle (map ascii_lower) pub_bundle = pub_bundle"
  by code_simp

lemma pub_valid: "\<not> has_errors (validate_bundle (validation_env_of pub_base) pub_bundle strict_options)"
  by code_simp

lemma pub_env_simps:
  "coverage_env_of pub_env = coverage_env_of pub_base" "validation_env_of pub_env = validation_env_of pub_base"
  "se_fold_case pub_env = map ascii_lower" "se_snapshot pub_env = table_codec [bu_snapshot pub_bundle]"
  "se_bundle pub_env = table_codec [pub_bundle]" "se_coverage pub_env = table_codec [pub_coverage]"
  "se_node pub_env = table_codec (bu_nodes pub_bundle)" "se_edge pub_env = table_codec (bu_edges pub_bundle)"
  by (simp_all add: pub_env_def pub_base_def coverage_env_of_def validation_env_of_def)

section \<open>The run\<close>

definition pub_opts :: build_options where
  "pub_opts = \<lparr>bo_repository_id = ''r'', bo_parent_snapshot_id = [], bo_expected_schema = [], bo_metadata = [(''host'', ''h'')]\<rparr>"

definition pub_store0 :: memory_store where
  "pub_store0 = \<lparr>ms_secret = ''secret'', ms_options = default_memory_options, ms_builds = [], ms_snapshots = [], ms_current = [],
     ms_affinity = [], ms_open_builds = 0, ms_closed_order = []\<rparr>"

definition pub_build :: memory_build where
  "pub_build = opened_build pub_opts"

definition pub_build1 :: memory_build where
  "pub_build1 = pub_build\<lparr>mb_nodes := [(''a'', pub_node ''a''), (''b'', pub_node ''b'')], mb_record_count := 2, mb_record_bytes := 3\<rparr>"

definition pub_build2 :: memory_build where
  "pub_build2 = pub_build1\<lparr>mb_edges := [(''e'', pub_edge)], mb_record_count := 3, mb_record_bytes := 4\<rparr>"

definition pub_build3 :: memory_build where
  "pub_build3 = pub_build2\<lparr>mb_coverage := Some pub_coverage, mb_record_count := 4, mb_record_bytes := 5, mb_coverage_bytes := 1\<rparr>"

definition pub_open :: "memory_build \<Rightarrow> memory_store" where
  "pub_open b = pub_store0\<lparr>ms_builds := [(''build_0'', b)], ms_open_builds := 1\<rparr>"

lemmas pub_build_defs = pub_build_def pub_build1_def pub_build2_def pub_build3_def opened_build_def empty_build_def pub_opts_def

lemma not_blank_letters: "\<not> blank ''a''" "\<not> blank ''b''" "\<not> blank ''e''" "\<not> blank ''r''" "\<not> blank ''s''"
  by code_simp+

lemma pub_ids: "valid_identifier operation field ''a'' = Inr ()" "valid_identifier operation field ''b'' = Inr ()"
  "valid_identifier operation field ''e'' = Inr ()" "valid_identifier operation field ''r'' = Inr ()"
  "valid_identifier operation field ''s'' = Inr ()"
  by (simp_all add: valid_identifier_def not_blank_letters max_identifier_size_def)

lemma pub_new: "new_memory_store (Inr ''secret'') = Inr pub_store0"
  by (simp add: new_memory_store_def new_memory_store_with_options_def pub_store0_def validate_memory_options_def
    positive_limit_def default_memory_options_def)

lemma pub_begin: "begin_build background [Inr ''0''] pub_opts pub_store0 = (pub_open pub_build, Inr ''build_0'')"
  by (simp add: begin_build_def begin_checks_def checked_build_options_def pub_opts_def pub_ids Let_def validate_metadata_def
    pub_store0_def default_memory_options_def check_parent_def lookup_text_def pub_open_def pub_build_def opened_build_def keys_def)

lemma pub_node_simps [simp]: "n_id (pub_node k) = k" "pub_node k = pub_node j \<longleftrightarrow> k = j" "e_id pub_edge = ''e''"
proof -
  show "n_id (pub_node k) = k" for k by (simp add: pub_node_def)
  then show "pub_node k = pub_node j \<longleftrightarrow> k = j" by metis
qed (simp add: pub_edge_def)

lemmas pub_put_simps = put_records_def prepare_limited_batch_def max_batch_size_def pub_open_def pub_store0_def
  default_memory_options_def pub_ids prepare_limited_record_def pub_env_simps table_codec_def open_build_locked_def
  merge_batch_def keys_def ensure_build_capacity_def insert_records_def update_build_def pub_build_defs pub_bundle_def

lemma pub_put_nodes: "put_nodes pub_env background ''build_0'' (bu_nodes pub_bundle) (pub_open pub_build) = (pub_open pub_build1, Inr ())"
  by (simp add: pub_put_simps put_nodes_def node_family_def)

lemma pub_put_edges: "put_edges pub_env background ''build_0'' (bu_edges pub_bundle) (pub_open pub_build1) = (pub_open pub_build2, Inr ())"
  by (simp add: pub_put_simps put_edges_def edge_family_def)

lemma pub_put_coverage: "put_coverage pub_env background ''build_0'' pub_coverage (pub_open pub_build2) = (pub_open pub_build3, Inr ())"
  by (simp add: pub_put_simps put_coverage_def stage_coverage_def)

lemma stage_slice_single:
  assumes "vs \<noteq> []" "length vs \<le> 10000" "err n = None" "put n vs st = (st', Inr u)"
  shows "stage_slice err put vs (n, st) = ((n + 1, st'), Inr ())"
  using assms by (simp add: stage_slice.simps [of err put vs] stage_slice.simps [of err put "[]"] stage_then_def max_batch_size_def
    stage_adaptive.simps [of err put vs])

lemma stage_slice_none: "stage_slice err put [] s = (s, Inr ())"
  by (simp add: stage_slice.simps)

lemma pub_stage:
  "stage_bundle pub_env (\<lambda>_. None) (\<lambda>_. background) ''build_0'' pub_bundle (0, pub_open pub_build) = ((3, pub_open pub_build3), Inr ())"
proof -
  have "stage_slice (\<lambda>_. None) (put_family node_family pub_env (\<lambda>_. background) ''build_0'') (bu_nodes pub_bundle) (0, pub_open pub_build) =
      ((0 + 1, pub_open pub_build1), Inr ())"
    by (rule stage_slice_single) (use pub_put_nodes in \<open>simp_all add: put_family_def put_nodes_def pub_bundle_def\<close>)
  moreover have "stage_slice (\<lambda>_. None) (put_family edge_family pub_env (\<lambda>_. background) ''build_0'') (bu_edges pub_bundle) (1, pub_open pub_build1) =
      ((1 + 1, pub_open pub_build2), Inr ())"
    by (rule stage_slice_single) (use pub_put_edges in \<open>simp_all add: put_family_def put_edges_def pub_bundle_def\<close>)
  moreover have "stage_coverage_of pub_env (\<lambda>_. background) ''build_0'' pub_bundle (2, pub_open pub_build2) = ((3, pub_open pub_build3), Inr ())"
    using pub_put_coverage by (simp add: stage_coverage_of_def pub_env_simps pub_coverage_def)
  moreover have "bu_artifacts pub_bundle = []" "bu_evidence pub_bundle = []" "bu_diagnostics pub_bundle = []" "bu_claims pub_bundle = []"
      "bu_conflicts pub_bundle = []" "bu_documents pub_bundle = []" "bu_paths pub_bundle = []"
    by (simp_all add: pub_bundle_def cov_bundle_def)
  ultimately show ?thesis by (simp add: stage_bundle_def stage_then_def stage_slice_none) (simp add: background_def numeral_2_eq_2)
qed

definition pub_stored :: memory_snapshot where
  "pub_stored = \<lparr>mp_bundle = pub_bundle, mp_coverage = pub_coverage\<rparr>"

definition pub_store :: memory_store where
  "pub_store = publish ''build_0'' pub_build3 (bu_snapshot pub_bundle) pub_stored (pub_open pub_build3)"

lemma pub_bundle_from_build: "bundle_from_build pub_env (bu_snapshot pub_bundle) pub_build3 = Inr pub_bundle"
proof -
  have "\<lparr>bu_snapshot = bu_snapshot pub_bundle, bu_artifacts = [], bu_nodes = [pub_node ''a'', pub_node ''b''], bu_edges = [pub_edge],
      bu_evidence = [], bu_diagnostics = [], bu_conflicts = [], bu_documents = [], bu_claims = [], bu_paths = []\<rparr> = pub_bundle"
    by (simp add: pub_bundle_def cov_bundle_def)
  then show ?thesis
    by (simp add: bundle_from_build_def pub_env_simps table_clone pub_sorted) (simp add: pub_build_defs)
qed

lemma pub_commit: "commit_build pub_env background ''build_0'' (bu_snapshot pub_bundle) (pub_open pub_build3) = (pub_store, Inr ())"
proof -
  have "snapshot_matches (pub_open pub_build3) ''build_0'' pub_build3 (bu_snapshot pub_bundle) = Inr ()"
    by (simp add: snapshot_matches_def pub_bundle_def cov_bundle_def cov_snapshot_def pub_build_defs pub_open_def pub_store0_def
      lookup_text_def Let_def keys_def)
  moreover have "mb_coverage pub_build3 = Some pub_coverage" by (simp add: pub_build3_def)
  moreover have "map_of (ms_affinity (pub_open pub_build3)) k = None" for k by (simp add: pub_open_def pub_store0_def)
  ultimately have "checked_commit pub_env (pub_open pub_build3) ''build_0'' pub_build3 (bu_snapshot pub_bundle) = Inr pub_stored"
    using pub_valid by (simp add: checked_commit_def pub_bundle_from_build validate_staged_def pub_env_simps clone_coverage_def
      table_clone exact_coverage_def pub_coverage_def [symmetric] pub_sorted pub_stored_def)
  moreover have "open_build_locked background 1 ''commit build'' ''build_0'' (pub_open pub_build3) = Inr pub_build3"
    by (simp add: open_build_locked_def pub_open_def) (simp add: pub_build_defs)
  moreover have "sn_id (bu_snapshot pub_bundle) = ''s''" by (simp add: pub_bundle_def cov_bundle_def cov_snapshot_def)
  ultimately show ?thesis
    by (simp add: commit_build_def commit_checks_def pub_env_simps table_clone pub_ids pub_store_def)
qed

lemma pub_stable: "stable_codecs pub_env" "lower_stable (se_fold_case pub_env)"
  by (auto simp: stable_codecs_def pub_env_simps table_clone lower_stable_ascii split: if_split_asm)

lemma pub_run_open: "store_run pub_env (pub_open pub_build)" "store_run pub_env (pub_open pub_build3)"
proof -
  have "store_run pub_env pub_store0" using pub_new unfolding new_memory_store_def by (rule store_run.New)
  from store_run.Step [OF this store_step.Begin [of _ _ background "[Inr ''0'']" pub_opts]]
  show b: "store_run pub_env (pub_open pub_build)" by (simp add: pub_begin)
  from store_run.Step [OF this store_step.Nodes [of _ _ background "''build_0''" "bu_nodes pub_bundle"]]
  have "store_run pub_env (pub_open pub_build1)" by (simp add: pub_put_nodes)
  from store_run.Step [OF this store_step.Edges [of _ _ background "''build_0''" "bu_edges pub_bundle"]]
  have "store_run pub_env (pub_open pub_build2)" by (simp add: pub_put_edges)
  from store_run.Step [OF this store_step.Coverage [of _ _ background "''build_0''" pub_coverage]]
  show "store_run pub_env (pub_open pub_build3)" by (simp add: pub_put_coverage)
qed

lemma pub_run: "store_run pub_env pub_store"
  using store_run.Step [OF pub_run_open(2) store_step.Commit [of _ _ background "''build_0''" "bu_snapshot pub_bundle"]]
  by (simp add: pub_commit)

lemma pub_snapshot_ids: "sn_id (bu_snapshot pub_bundle) = ''s''" "sn_repository_id (bu_snapshot pub_bundle) = ''r''"
  "sn_parent_snapshot_id (bu_snapshot pub_bundle) = []"
  by (simp_all add: pub_bundle_def cov_bundle_def cov_snapshot_def)

lemma pub_published: "ms_snapshots pub_store = [(''s'', pub_stored)]" "lookup_text (ms_current pub_store) ''r'' = ''s''"
  "map_of (ms_affinity pub_store) ''r'' = Some ''r''" "ms_secret pub_store = ''secret''"
proof -
  have "bo_repository_id (mb_options pub_build3) = ''r''" by (simp add: pub_build_defs)
  then show "ms_snapshots pub_store = [(''s'', pub_stored)]" "lookup_text (ms_current pub_store) ''r'' = ''s''"
      "map_of (ms_affinity pub_store) ''r'' = Some ''r''" "ms_secret pub_store = ''secret''"
    by (simp_all add: pub_store_def publish_def Let_def pub_snapshot_ids lookup_text_def, simp_all add: pub_open_def pub_store0_def keys_def)
qed

section \<open>Witnesses\<close>

theorem store_linear_history_witness:
  "[] # log_ids (log_of pub_store ''r'') = log_parents (log_of pub_store ''r'') @ [''s'']"
  using store_linear_history [OF pub_run pub_stable, of "''r''"] by (simp add: pub_published)

theorem store_publishes_valid_witness:
  "\<not> has_errors (validate_bundle (validation_env_of pub_env) (mp_bundle pub_stored) strict_options)"
  using store_publishes_valid [OF pub_run pub_stable, of "''s''" pub_stored] by (simp add: pub_published)

theorem store_snapshots_append_only_witness:
  "\<exists>new. ms_snapshots pub_store = ms_snapshots (pub_open pub_build3) @ new \<and> length new \<le> 1"
  using store_snapshots_append_only [OF store_step.Commit [of pub_env "pub_open pub_build3" background "''build_0''" "bu_snapshot pub_bundle"]]
  by (auto simp: pub_commit)

theorem store_within_limits_witness: "length (ms_builds pub_store) = card (open_ids pub_store) + length (ms_closed_order pub_store)"
  using store_within_limits [OF pub_run] by blast

theorem publish_roundtrip_witness: "read_bundle pub_env background ''s'' pub_store = Inr pub_bundle"
proof -
  have "keeps_bundle pub_env pub_bundle"
    by (simp add: keeps_bundle_def keeps_records_def keeps_def pub_env_simps table_clone pub_sorted) (simp add: pub_bundle_def cov_bundle_def)
  moreover have "keeps (se_coverage pub_env) [build_coverage (coverage_env_of pub_env) (sort_bundle (se_fold_case pub_env) pub_bundle)]"
    by (simp add: keeps_def pub_env_simps table_clone pub_sorted pub_coverage_def)
  ultimately show ?thesis
    using publish_roundtrip [OF pub_begin pub_stage pub_commit] pub_stable(2) by (simp add: pub_env_simps pub_sorted pub_snapshot_ids)
qed

text \<open>A second build of the same repository, opened before the first one commits.\<close>

definition pub_race :: memory_store where
  "pub_race = fst (begin_build background [Inr ''1''] pub_opts (pub_open pub_build3))"

lemma pub_race: "pub_race = (pub_open pub_build3)\<lparr>ms_builds := [(''build_0'', pub_build3), (''build_1'', pub_build)], ms_open_builds := 2\<rparr>"
  by (simp add: pub_race_def begin_build_def begin_checks_def checked_build_options_def pub_opts_def pub_ids Let_def validate_metadata_def
    check_parent_def lookup_text_def pub_open_def pub_store0_def default_memory_options_def pub_build_def opened_build_def keys_def)

lemma pub_race_run: "store_run pub_env pub_race"
  unfolding pub_race_def by (rule store_run.Step [OF pub_run_open(2) store_step.Begin])

lemma checked_commit_cong:
  assumes "ms_current st' = ms_current st" "ms_snapshots st' = ms_snapshots st" "ms_affinity st' = ms_affinity st"
  shows "checked_commit env st' k b s = checked_commit env st k b s"
  unfolding checked_commit_def snapshot_matches_def assms ..

lemma pub_race_commit: "\<exists>st'. commit_build pub_env background ''build_0'' (bu_snapshot pub_bundle) pub_race = (st', Inr ())"
proof -
  obtain b s stored where c: "commit_checks pub_env background ''build_0'' (bu_snapshot pub_bundle) (pub_open pub_build3) = Inr (b, s, stored)"
    using pub_commit by (cases "commit_checks pub_env background ''build_0'' (bu_snapshot pub_bundle) (pub_open pub_build3)")
      (auto simp: commit_build_def)
  have "checked_commit pub_env pub_race k b s = checked_commit pub_env (pub_open pub_build3) k b s" for k b s
    by (rule checked_commit_cong) (simp_all add: pub_race pub_open_def)
  moreover have "open_build_locked ctx i op ''build_0'' pub_race = open_build_locked ctx i op ''build_0'' (pub_open pub_build3)" for ctx i op
    by (simp add: open_build_locked_def pub_race pub_open_def)
  ultimately have "commit_checks pub_env background ''build_0'' (bu_snapshot pub_bundle) pub_race =
      commit_checks pub_env background ''build_0'' (bu_snapshot pub_bundle) (pub_open pub_build3)"
    by (simp add: commit_checks_def split: sum.split)
  then show ?thesis using c by (simp add: commit_build_def)
qed

theorem store_no_lost_update_witness:
  "\<exists>st' e. snd (commit_build pub_env background ''build_0'' (bu_snapshot pub_bundle) pub_race) = Inr () \<and>
    commit_build pub_env background ''build_1'' (bu_snapshot pub_bundle) st' = (st', Inl e) \<and> is_code e CodeConflict"
proof -
  obtain st' where c: "commit_build pub_env background ''build_0'' (bu_snapshot pub_bundle) pub_race = (st', Inr ())"
    using pub_race_commit by blast
  have o: "map_of (ms_builds pub_race) ''build_1'' = Some pub_build" "mb_state pub_build = BuildOpen"
      "map_of (ms_builds pub_race) ''build_0'' = Some pub_build3"
      "bo_repository_id (mb_options pub_build3) = bo_repository_id (mb_options pub_build)"
    by (simp_all add: pub_race pub_build_defs)
  have "matching_request pub_env pub_build (bu_snapshot pub_bundle)"
    by (simp add: matching_request_def pub_env_simps table_clone pub_snapshot_ids pub_ids)
      (simp add: pub_build_defs pub_bundle_def cov_bundle_def cov_snapshot_def)
  then show ?thesis
    using store_no_lost_update [OF pub_race_run pub_stable c _ o, of background "bu_snapshot pub_bundle"] c by auto
qed

section \<open>Reading it page by page\<close>

definition pub_cursors :: cursor_env where
  "pub_cursors = \<lparr>cu_marshal = (\<lambda>p. Inr (CHR ''j'' # cp_id p)), cu_decode = (\<lambda>d. CursorDecoded (cursor_for ''nodes'' ''f'' [] (tl d))),
     cu_hmac = (\<lambda>secret d. ''m''), cu_sha256 = (\<lambda>_. ''f''), cu_format_time = (\<lambda>_. ''t'')\<rparr>"

definition pub_query :: node_query where
  "pub_query = \<lparr>nq_snapshot_id = ''s'', nq_kind = ''function'', nq_language = [], nq_artifact_id = [], nq_visibility = [],
     nq_page = \<lparr>pr_limit = 1, pr_cursor = []\<rparr>\<rparr>"

lemma pub_cursor_ok: "length k \<le> 1 \<Longrightarrow> cursor_ok pub_cursors secret ''nodes'' ''f'' [] k"
proof -
  assume "length k \<le> 1"
  then have "length (b64_digits (CHR ''j'' # k)) \<le> 3" by (cases k) auto
  then show ?thesis
    by (simp add: cursor_ok_def pub_cursors_def cursor_for_def signed_cursor_def b64_encode_def max_cursor_len_def)
qed

lemma pub_query_snapshot: "query_snapshot background ''query nodes'' (nq_snapshot_id pub_query) (nq_page pub_query) pub_store = Inr (1, pub_stored)"
  by (simp add: query_snapshot_def valid_read_id_def pub_query_def pub_ids page_limit_def max_page_size_def max_cursor_len_def
    find_snapshot_def check_affinity_def pub_published Let_def) (simp add: pub_stored_def pub_snapshot_ids pub_published)

theorem query_nodes_complete_witness:
  "follow_pages 3 (ask_nodes pub_env pub_cursors pub_query pub_store) [] = Some (Inr [pub_node ''a'', pub_node ''b''])"
proof -
  have n: "bu_nodes (mp_bundle pub_stored) = [pub_node ''a'', pub_node ''b'']" by (simp add: pub_stored_def pub_bundle_def)
  have f: "node_matches pub_query (pub_node k)" for k
    by (simp add: node_matches_def pub_query_def matches_def pub_node_def)
  have s: "node_scope pub_cursors pub_query = ''f''" by (simp add: node_scope_def scope_fingerprint_def pub_cursors_def)
  show ?thesis
    using query_nodes_complete [OF pub_run pub_stable pub_query_snapshot, of pub_cursors]
    by (simp add: n f s pub_cursor_ok pub_env_simps table_clone pub_bundle_def numeral_3_eq_3 del: follow_pages.simps)
qed

theorem cursor_authentic_witness:
  "\<exists>data. b64_decode ''bQ'' = Some (cu_hmac pub_cursors ''secret'' data) \<and> cu_decode pub_cursors data = CursorDecoded (cursor_for ''nodes'' ''f'' [] ''a'')"
proof -
  have "open_cursor pub_cursors ''secret'' ''query nodes'' ''amE.bQ'' ''nodes'' ''f'' = Inr (cursor_for ''nodes'' ''f'' [] ''a'')"
    by code_simp
  from cursor_authentic [OF this] obtain payload signature data where d: "''amE.bQ'' = payload @ CHR ''.'' # signature"
      "b64_decode signature = Some (cu_hmac pub_cursors ''secret'' data)" "cu_decode pub_cursors data = CursorDecoded (cursor_for ''nodes'' ''f'' [] ''a'')"
    by auto
  then show ?thesis using d by (auto simp: append_eq_Cons_conv Cons_eq_append_conv)
qed

end
