(* ===== verification/RecordIndex.thy ===== *)
theory RecordIndex
  imports GraphTheorems
begin

text \<open>
  Indexing records by a key as Go code does it, with a map that a loop fills: the last record of a key wins.
  Shared by the semantic diff, the merging of fragments and the resolution of heuristic edges.
\<close>

text \<open>\<open>for _, r := range rs { m[key(r)] = r }\<close>.\<close>

definition index_by :: "('r \<Rightarrow> string) \<Rightarrow> 'r list \<Rightarrow> (string \<times> 'r) list" where
  "index_by key rs = fold (\<lambda>r. AList.update (key r) r) rs []"

lemma index_by_Some: "distinct (map key rs) \<Longrightarrow> map_of (index_by key rs) k = Some r \<longleftrightarrow> r \<in> set rs \<and> key r = k"
  unfolding index_by_def by (rule map_of_fold_set)

lemma map_of_fold_update_in:
  "map_of (fold (\<lambda>r. AList.update (key r) r) rs m) k = Some r \<Longrightarrow> map_of m k = Some r \<or> r \<in> set rs \<and> key r = k"
proof (induction rs arbitrary: m)
  case (Cons x rs)
  then show ?case using Cons.IH [of "AList.update (key x) x m"] by (auto split: if_splits)
qed simp

lemma index_by_in: "map_of (index_by key rs) k = Some r \<Longrightarrow> r \<in> set rs \<and> key r = k"
  unfolding index_by_def using map_of_fold_update_in by fastforce

lemma set_keys_fold_update: "set (keys (fold (\<lambda>r. AList.update (key r) r) rs m)) = key ` set rs \<union> set (keys m)"
  by (induction rs arbitrary: m) auto

lemma keys_index_by [simp]: "set (keys (index_by key rs)) = key ` set rs"
  unfolding index_by_def by (simp add: set_keys_fold_update) (simp add: keys_def)

lemma index_by_None: "map_of (index_by key rs) k = None \<longleftrightarrow> k \<notin> key ` set rs"
  by (simp add: map_of_None_keys)

end
