(* ===== verification/SemanticDiff.thy ===== *)
theory SemanticDiff
  imports RecordIndex
begin

text \<open>
  \<open>Compare\<close> of \<open>internal/semanticdiff/diff.go\<close>: the structural comparison of two snapshots. Each family is
  indexed by its logical key (the last record of a key wins, as in a Go map), the keys of both sides are
  visited in order, and every key yields at most one change. A locale captures what the three families share.
\<close>

section \<open>Changes and reports\<close>

definition severity_info :: string where "severity_info = ''info''"
definition severity_risk :: string where "severity_risk = ''risk''"
definition severity_breaking :: string where "severity_breaking = ''breaking''"

record artifact_change =
  ac_kind :: string
  ac_before :: "artifact option"
  ac_after :: "artifact option"
  ac_fields :: "string list"

record 'v node_change =
  nc_kind :: string
  nc_severity :: string
  nc_logical_key :: string
  nc_before :: "'v node option"
  nc_after :: "'v node option"
  nc_fields :: "string list"
  nc_reasons :: "string list"

record 'v edge_change =
  ec_kind :: string
  ec_before :: "'v edge option"
  ec_after :: "'v edge option"
  ec_fields :: "string list"

record diff_summary =
  ds_artifacts_added :: nat
  ds_artifacts_removed :: nat
  ds_artifacts_modified :: nat
  ds_nodes_added :: nat
  ds_nodes_removed :: nat
  ds_nodes_modified :: nat
  ds_edges_added :: nat
  ds_edges_removed :: nat
  ds_edges_modified :: nat
  ds_breaking_changes :: nat
  ds_risk_changes :: nat

record 'v diff_report =
  dr_schema_version :: string
  dr_from_snapshot :: string
  dr_to_snapshot :: string
  dr_summary :: diff_summary
  dr_artifacts :: "artifact_change list"
  dr_nodes :: "'v node_change list"
  dr_edges :: "'v edge_change list"

section \<open>Keys and fields\<close>

definition union_keys :: "(string \<times> 'r) list \<Rightarrow> (string \<times> 'r) list \<Rightarrow> string list" where
  "union_keys left right = sorted_keys (keys left @ keys right)"

definition node_key :: "'v node \<Rightarrow> string" where
  "node_key n =
     (if n_logical_id n \<noteq> [] then n_logical_id n
      else if n_qualified_name n \<noteq> [] then n_language n @ nul @ n_kind n @ nul @ n_qualified_name n
      else n_id n)"

definition edge_key :: "'v edge \<Rightarrow> string" where
  "edge_key e = e_kind e @ nul @ e_from e @ nul @ e_to e"

text \<open>\<open>if left != right { fields = append(fields, name) }\<close>; a \<open>NaN\<close> differs from itself.\<close>

definition field :: "bool \<Rightarrow> string \<Rightarrow> string list" where
  "field differs name = (if differs then [name] else [])"

definition float_differs :: "go_float \<Rightarrow> go_float \<Rightarrow> bool" where
  "float_differs x y \<longleftrightarrow> x = NaN \<or> y = NaN \<or> x \<noteq> y"

definition artifact_fields :: "artifact \<Rightarrow> artifact \<Rightarrow> string list" where
  "artifact_fields left right =
     field (a_sha256 left \<noteq> a_sha256 right) ''content'' @
     field (a_status left \<noteq> a_status right) ''status'' @
     field (a_language left \<noteq> a_language right) ''language'' @
     field (a_media_type left \<noteq> a_media_type right) ''media_type'' @
     field (a_generated left \<noteq> a_generated right) ''generated'' @
     field (a_vendored left \<noteq> a_vendored right) ''vendored''"

definition node_fields :: "'v node \<Rightarrow> 'v node \<Rightarrow> string list" where
  "node_fields left right =
     field (n_name left \<noteq> n_name right) ''name'' @
     field (n_qualified_name left \<noteq> n_qualified_name right) ''qualified_name'' @
     field (n_signature left \<noteq> n_signature right) ''signature'' @
     field (n_visibility left \<noteq> n_visibility right) ''visibility'' @
     field (n_public_surface left \<noteq> n_public_surface right) ''public_surface'' @
     field (n_artifact_id left \<noteq> n_artifact_id right) ''artifact'' @
     field (n_semantic_hash left \<noteq> n_semantic_hash right) ''semantic_hash''"

definition edge_fields :: "(string \<Rightarrow> string) \<Rightarrow> 'v edge \<Rightarrow> 'v edge \<Rightarrow> string list" where
  "edge_fields fold_case left right =
     field (normalize_resolution fold_case (e_resolution left) \<noteq> normalize_resolution fold_case (e_resolution right))
       ''resolution'' @
     field (float_differs (e_confidence left) (e_confidence right)) ''confidence'' @
     field (e_producer left \<noteq> e_producer right) ''producer''"

section \<open>Classification\<close>

definition is_public :: "'v node \<Rightarrow> bool" where
  "is_public n \<longleftrightarrow> n_public_surface n \<or> n_visibility n = ''public'' \<or> n_visibility n = ''exported''"

definition classify_removal :: "'v node \<Rightarrow> string \<times> string list" where
  "classify_removal n =
     (if is_public n then (severity_breaking, [''public symbol removed'']) else (severity_info, []))"

text \<open>One function per \<open>if\<close> statement, from the severity and reasons so far to the next ones.\<close>

definition public_signature_rule :: "'v node \<Rightarrow> string list \<Rightarrow> string \<times> string list \<Rightarrow> string \<times> string list" where
  "public_signature_rule before fs s =
     (if is_public before \<and> ''signature'' \<in> set fs
      then (severity_breaking, snd s @ [''public signature changed'']) else s)"

definition visibility_rule :: "'v node \<Rightarrow> 'v node \<Rightarrow> string \<times> string list \<Rightarrow> string \<times> string list" where
  "visibility_rule before after s =
     (if is_public before \<and> \<not> is_public after
      then (severity_breaking, snd s @ [''public symbol became non-public'']) else s)"

definition logical_name_rule :: "string list \<Rightarrow> string \<times> string list \<Rightarrow> string \<times> string list" where
  "logical_name_rule fs s =
     (if ''qualified_name'' \<in> set fs \<and> fst s \<noteq> severity_breaking
      then (severity_risk, snd s @ [''logical name changed'']) else s)"

definition semantics_rule :: "string list \<Rightarrow> string \<times> string list \<Rightarrow> string \<times> string list" where
  "semantics_rule fs s =
     (if ''semantic_hash'' \<in> set fs \<and> fst s = severity_info
      then (severity_risk, snd s @ [''implementation semantics changed'']) else s)"

definition classify_modification :: "'v node \<Rightarrow> 'v node \<Rightarrow> string list \<Rightarrow> string \<times> string list" where
  "classify_modification before after fs =
     semantics_rule fs (logical_name_rule fs
       (visibility_rule before after (public_signature_rule before fs (severity_info, []))))"

definition severity_rank :: "string \<Rightarrow> nat" where
  "severity_rank s = (if s = severity_breaking then 3 else if s = severity_risk then 2 else 1)"

section \<open>Comparison\<close>

text \<open>The change of one key; a key of the union is on one side at least.\<close>

definition artifact_change_at ::
  "(string \<times> artifact) list \<Rightarrow> (string \<times> artifact) list \<Rightarrow> string \<Rightarrow> artifact_change list" where
  "artifact_change_at left right key =
     (case (map_of left key, map_of right key) of
        (None, after) \<Rightarrow> [\<lparr>ac_kind = ''added'', ac_before = None, ac_after = after, ac_fields = []\<rparr>]
      | (Some before, None) \<Rightarrow> [\<lparr>ac_kind = ''removed'', ac_before = Some before, ac_after = None, ac_fields = []\<rparr>]
      | (Some before, Some after) \<Rightarrow>
          (let fs = artifact_fields before after in
           if fs = [] then []
           else [\<lparr>ac_kind = ''modified'', ac_before = Some before, ac_after = Some after, ac_fields = fs\<rparr>]))"

definition compare_artifacts :: "artifact list \<Rightarrow> artifact list \<Rightarrow> artifact_change list" where
  "compare_artifacts before after =
     (let left = index_by a_path before; right = index_by a_path after
      in concat (map (artifact_change_at left right) (union_keys left right)))"

definition node_change_at ::
  "(string \<times> 'v node) list \<Rightarrow> (string \<times> 'v node) list \<Rightarrow> string \<Rightarrow> 'v node_change list" where
  "node_change_at left right key =
     (case (map_of left key, map_of right key) of
        (None, after) \<Rightarrow> [\<lparr>nc_kind = ''added'', nc_severity = severity_info, nc_logical_key = key,
           nc_before = None, nc_after = after, nc_fields = [], nc_reasons = []\<rparr>]
      | (Some before, None) \<Rightarrow>
          (let (severity, reasons) = classify_removal before in
           [\<lparr>nc_kind = ''removed'', nc_severity = severity, nc_logical_key = key,
             nc_before = Some before, nc_after = None, nc_fields = [], nc_reasons = reasons\<rparr>])
      | (Some before, Some after) \<Rightarrow>
          (let fs = node_fields before after in
           if fs = [] then []
           else let (severity, reasons) = classify_modification before after fs in
             [\<lparr>nc_kind = ''modified'', nc_severity = severity, nc_logical_key = key,
               nc_before = Some before, nc_after = Some after, nc_fields = fs, nc_reasons = reasons\<rparr>]))"

definition change_order :: "'v node_change \<Rightarrow> nat \<times> string" where
  "change_order c = (3 - severity_rank (nc_severity c), nc_logical_key c)"

definition compare_nodes :: "'v node list \<Rightarrow> 'v node list \<Rightarrow> 'v node_change list" where
  "compare_nodes before after =
     (let left = index_by node_key before; right = index_by node_key after
      in sort_key change_order (concat (map (node_change_at left right) (union_keys left right))))"

definition edge_change_at ::
  "(string \<Rightarrow> string) \<Rightarrow> (string \<times> 'v edge) list \<Rightarrow> (string \<times> 'v edge) list \<Rightarrow> string \<Rightarrow> 'v edge_change list" where
  "edge_change_at fold_case left right key =
     (case (map_of left key, map_of right key) of
        (None, after) \<Rightarrow> [\<lparr>ec_kind = ''added'', ec_before = None, ec_after = after, ec_fields = []\<rparr>]
      | (Some before, None) \<Rightarrow> [\<lparr>ec_kind = ''removed'', ec_before = Some before, ec_after = None, ec_fields = []\<rparr>]
      | (Some before, Some after) \<Rightarrow>
          (let fs = edge_fields fold_case before after in
           if fs = [] then []
           else [\<lparr>ec_kind = ''modified'', ec_before = Some before, ec_after = Some after, ec_fields = fs\<rparr>]))"

definition compare_edges :: "(string \<Rightarrow> string) \<Rightarrow> 'v edge list \<Rightarrow> 'v edge list \<Rightarrow> 'v edge_change list" where
  "compare_edges fold_case before after =
     (let left = index_by edge_key before; right = index_by edge_key after
      in concat (map (edge_change_at fold_case left right) (union_keys left right)))"

section \<open>The summary\<close>

definition zero_summary :: diff_summary where
  "zero_summary = \<lparr>ds_artifacts_added = 0, ds_artifacts_removed = 0, ds_artifacts_modified = 0,
     ds_nodes_added = 0, ds_nodes_removed = 0, ds_nodes_modified = 0,
     ds_edges_added = 0, ds_edges_removed = 0, ds_edges_modified = 0,
     ds_breaking_changes = 0, ds_risk_changes = 0\<rparr>"

definition count_artifact :: "artifact_change \<Rightarrow> diff_summary \<Rightarrow> diff_summary" where
  "count_artifact c s =
     (if ac_kind c = ''added'' then s\<lparr>ds_artifacts_added := ds_artifacts_added s + 1\<rparr>
      else if ac_kind c = ''removed'' then s\<lparr>ds_artifacts_removed := ds_artifacts_removed s + 1\<rparr>
      else s\<lparr>ds_artifacts_modified := ds_artifacts_modified s + 1\<rparr>)"

definition count_node_kind :: "'v node_change \<Rightarrow> diff_summary \<Rightarrow> diff_summary" where
  "count_node_kind c s =
     (if nc_kind c = ''added'' then s\<lparr>ds_nodes_added := ds_nodes_added s + 1\<rparr>
      else if nc_kind c = ''removed'' then s\<lparr>ds_nodes_removed := ds_nodes_removed s + 1\<rparr>
      else s\<lparr>ds_nodes_modified := ds_nodes_modified s + 1\<rparr>)"

definition count_severity :: "'v node_change \<Rightarrow> diff_summary \<Rightarrow> diff_summary" where
  "count_severity c s =
     (if nc_severity c = severity_breaking then s\<lparr>ds_breaking_changes := ds_breaking_changes s + 1\<rparr>
      else if nc_severity c = severity_risk then s\<lparr>ds_risk_changes := ds_risk_changes s + 1\<rparr>
      else s)"

definition count_edge :: "'v edge_change \<Rightarrow> diff_summary \<Rightarrow> diff_summary" where
  "count_edge c s =
     (if ec_kind c = ''added'' then s\<lparr>ds_edges_added := ds_edges_added s + 1\<rparr>
      else if ec_kind c = ''removed'' then s\<lparr>ds_edges_removed := ds_edges_removed s + 1\<rparr>
      else s\<lparr>ds_edges_modified := ds_edges_modified s + 1\<rparr>)"

definition compare :: "(string \<Rightarrow> string) \<Rightarrow> 'v model_bundle \<Rightarrow> 'v model_bundle \<Rightarrow> 'v diff_report" where
  "compare fold_case before after =
     (let artifacts = compare_artifacts (bu_artifacts before) (bu_artifacts after);
          nodes = compare_nodes (bu_nodes before) (bu_nodes after);
          edges = compare_edges fold_case (bu_edges before) (bu_edges after)
      in \<lparr>dr_schema_version = ''1'', dr_from_snapshot = sn_id (bu_snapshot before),
          dr_to_snapshot = sn_id (bu_snapshot after),
          dr_summary = fold count_edge edges
            (fold (\<lambda>c s. count_severity c (count_node_kind c s)) nodes (fold count_artifact artifacts zero_summary)),
          dr_artifacts = artifacts, dr_nodes = nodes, dr_edges = edges\<rparr>)"

end
