(* ===== verification/GoText.thy ===== *)
theory GoText
  imports GoStrings Model
begin

text \<open>
  Functions of Go's \<open>strings\<close>, \<open>unicode/utf8\<close>, \<open>path\<close> and \<open>strconv\<close> packages on byte strings that several components
  call: decimal numbers, UTF-8 validity, control characters, suffixes and \<open>path.Clean\<close>.
\<close>

section \<open>Numbers and suffixes\<close>

text \<open>The decimal form of a count.\<close>

fun decimal :: "nat \<Rightarrow> string" where
  "decimal n = (if n < 10 then [byte (48 + n)] else decimal (n div 10) @ [byte (48 + n mod 10)])"

declare decimal.simps [simp del]

definition signed_decimal :: "int \<Rightarrow> string" where
  "signed_decimal i = (if i < 0 then ''-'' @ decimal (nat (- i)) else decimal (nat i))"

definition has_suffix :: "string \<Rightarrow> string \<Rightarrow> bool" where
  "has_suffix s x \<longleftrightarrow> has_prefix (rev s) (rev x)"

definition trim_suffix :: "string \<Rightarrow> string \<Rightarrow> string" where
  "trim_suffix s x = (if has_suffix s x then take (length s - length x) s else s)"

section \<open>Unicode\<close>

text \<open>\<open>utf8.ValidString\<close>: the accepted byte ranges of the Unicode standard.\<close>

definition continuation :: "char \<Rightarrow> bool" where
  "continuation c \<longleftrightarrow> 128 \<le> code c \<and> code c \<le> (191::nat)"

fun valid_utf8 :: "string \<Rightarrow> bool" where
  "valid_utf8 [] = True"
| "valid_utf8 (a # s) =
     (if code a < (128::nat) then valid_utf8 s
      else case s of
        [] \<Rightarrow> False
      | b # s1 \<Rightarrow>
          if 194 \<le> code a \<and> code a \<le> (223::nat) then continuation b \<and> valid_utf8 s1
          else case s1 of
            [] \<Rightarrow> False
          | c # s2 \<Rightarrow>
              if 224 \<le> code a \<and> code a \<le> (239::nat)
              then continuation b \<and> continuation c \<and> (code a = (224::nat) \<longrightarrow> 160 \<le> code b) \<and>
                (code a = (237::nat) \<longrightarrow> code b \<le> (159::nat)) \<and> valid_utf8 s2
              else case s2 of
                [] \<Rightarrow> False
              | d # s3 \<Rightarrow> 240 \<le> code a \<and> code a \<le> (244::nat) \<and> continuation b \<and> continuation c \<and> continuation d \<and>
                  (code a = (240::nat) \<longrightarrow> 144 \<le> code b) \<and> (code a = (244::nat) \<longrightarrow> code b \<le> (143::nat)) \<and> valid_utf8 s3)"

text \<open>\<open>unicode.IsControl\<close> of some code point of a valid string: U+0000 to U+001F and U+007F to U+009F.\<close>

fun has_control :: "string \<Rightarrow> bool" where
  "has_control [] = False"
| "has_control (a # s) =
     (code a < (32::nat) \<or> code a = (127::nat) \<or>
      (code a = (194::nat) \<and> (case s of [] \<Rightarrow> False | b # _ \<Rightarrow> code b < (160::nat))) \<or> has_control s)"

definition contains_control :: "string \<Rightarrow> bool" where
  "contains_control s \<longleftrightarrow> \<not> valid_utf8 s \<or> has_control s"

section \<open>Paths\<close>

fun split_slash :: "string \<Rightarrow> string list" where
  "split_slash [] = [[]]"
| "split_slash (c # s) =
     (if c = CHR ''/'' then [] # split_slash s
      else case split_slash s of [] \<Rightarrow> [[c]] | p # ps \<Rightarrow> (c # p) # ps)"

text \<open>\<open>path.Clean\<close> on the elements of a path, the last element kept first.\<close>

fun clean_elements :: "bool \<Rightarrow> string list \<Rightarrow> string list \<Rightarrow> string list" where
  "clean_elements rooted done [] = rev done"
| "clean_elements rooted done (p # ps) =
     (if p = [] \<or> p = ''.'' then clean_elements rooted done ps
      else if p = ''..'' then
        (case done of
           [] \<Rightarrow> if rooted then clean_elements rooted [] ps else clean_elements rooted [''..''] ps
         | q # qs \<Rightarrow> if q = ''..'' then clean_elements rooted (''..'' # done) ps else clean_elements rooted qs ps)
      else clean_elements rooted (p # done) ps)"

definition path_clean :: "string \<Rightarrow> string" where
  "path_clean p =
     (let rooted = has_prefix p ''/''; body = join ''/'' (clean_elements rooted [] (split_slash p))
      in if rooted then ''/'' @ body else if body = [] then ''.'' else body)"

end
