(* ===== verification/GraphPatch.thy ===== *)
theory GraphPatch
  imports GoText ValidateTheorems StoreTypes
begin

text \<open>
  \<open>Validate\<close> and \<open>Apply\<close> of \<open>pkg/graphpatch/graphpatch.go\<close>, the contract under which plugins change the graph.
  A report is threaded through the checks in the order of the source. Parameters are the environment of
  \<open>ValidateBundle\<close>, the JSON codec of bundles, and the order in which Go iterates over the map of patch
  identifiers.
\<close>

section \<open>Patches, options and reports\<close>

definition protocol_version :: string where "protocol_version = ''1.0''"
definition model_schema_version :: string where "model_schema_version = ''0.2.0''"

record producer =
  pr_plugin_id :: string
  pr_version :: string
  pr_runtime :: string
  pr_instance_id :: string

record 'v patch =
  pa_protocol_version :: string
  pa_schema_version :: string
  pa_snapshot_id :: string
  pa_producer :: producer
  pa_generated_at :: int
  pa_input_digest :: string
  pa_fragment :: "'v fragment"
  pa_metadata :: "string attributes"

record patch_limits =
  pl_max_artifacts :: int
  pl_max_nodes :: int
  pl_max_edges :: int
  pl_max_evidence :: int
  pl_max_diagnostics :: int
  pl_max_documents :: int
  pl_max_claims :: int

record patch_options =
  po_expected_snapshot_id :: string
  po_allowed_plugin_id :: string
  po_strict_vocabulary :: bool
  po_require_evidence :: bool
  po_limits :: patch_limits

record patch_issue =
  is_severity :: string
  is_rule :: string
  is_message :: string
  is_object_id :: string

record patch_report =
  pp_accepted :: bool
  pp_issues :: "patch_issue list"

record 'v patch_env =
  pe_validation :: "'v validation_env"
  pe_codec :: "'v model_bundle codec"
  pe_arrange :: "(string \<times> string) list \<Rightarrow> (string \<times> string) list"

definition add_issue :: "string \<Rightarrow> string \<Rightarrow> string \<Rightarrow> string \<Rightarrow> patch_report \<Rightarrow> patch_report" where
  "add_issue severity rule message object r = \<lparr>
     pp_accepted = (if severity = ''error'' \<or> severity = ''fatal'' then False else pp_accepted r),
     pp_issues = pp_issues r @
       [\<lparr>is_severity = severity, is_rule = rule, is_message = message, is_object_id = object\<rparr>]\<rparr>"

text \<open>\<open>if b { report.add("error", ...) }\<close>, and a sequence of statements.\<close>

definition refuse :: "bool \<Rightarrow> string \<Rightarrow> string \<Rightarrow> string \<Rightarrow> patch_report \<Rightarrow> patch_report" where
  "refuse b rule message object r = (if b then add_issue ''error'' rule message object r else r)"

definition in_order :: "('s \<Rightarrow> 's) list \<Rightarrow> 's \<Rightarrow> 's" where
  "in_order fs s = fold (\<lambda>f. f) fs s"

section \<open>Validate\<close>

definition check_limit :: "string \<Rightarrow> nat \<Rightarrow> int \<Rightarrow> patch_report \<Rightarrow> patch_report" where
  "check_limit name n limit =
     refuse (0 < limit \<and> limit < int n) ''RKC-PATCH-006''
       (name @ '' count '' @ nat_digits n @ '' exceeds limit '' @ int_digits limit) []"

definition check_envelope :: "patch_options \<Rightarrow> 'v patch \<Rightarrow> patch_report \<Rightarrow> patch_report" where
  "check_envelope opts p = in_order
     [refuse (pa_protocol_version p \<noteq> protocol_version) ''RKC-PATCH-001''
        ''unsupported GraphPatch protocol version'' (pa_protocol_version p),
      refuse (pa_schema_version p \<noteq> model_schema_version) ''RKC-PATCH-002''
        ''GraphPatch schema version does not match host'' (pa_schema_version p),
      refuse (po_expected_snapshot_id opts \<noteq> [] \<and> pa_snapshot_id p \<noteq> po_expected_snapshot_id opts)
        ''RKC-PATCH-003'' ''GraphPatch snapshot does not match active build'' (pa_snapshot_id p),
      refuse (pr_plugin_id (pa_producer p) = []) ''RKC-PATCH-004'' ''producer plugin_id is required'' [],
      refuse (po_allowed_plugin_id opts \<noteq> [] \<and> pr_plugin_id (pa_producer p) \<noteq> po_allowed_plugin_id opts)
        ''RKC-PATCH-005'' ''producer does not match installed plugin'' (pr_plugin_id (pa_producer p))]"

definition check_limits :: "patch_options \<Rightarrow> 'v patch \<Rightarrow> patch_report \<Rightarrow> patch_report" where
  "check_limits opts p = (let f = pa_fragment p; l = po_limits opts in in_order
     [check_limit ''artifacts'' (length (fr_artifacts f)) (pl_max_artifacts l),
      check_limit ''nodes'' (length (fr_nodes f)) (pl_max_nodes l),
      check_limit ''edges'' (length (fr_edges f)) (pl_max_edges l),
      check_limit ''evidence'' (length (fr_evidence f)) (pl_max_evidence l),
      check_limit ''diagnostics'' (length (fr_diagnostics f)) (pl_max_diagnostics l),
      check_limit ''documents'' (length (fr_documents f)) (pl_max_documents l),
      check_limit ''claims'' (length (fr_claims f)) (pl_max_claims l)])"

text \<open>The map \<open>seen\<close> from identifiers to kinds is shared by the loops over nodes, edges and evidence.\<close>

type_synonym seen_state = "patch_report \<times> (string \<times> string) list"

definition validate_unique :: "string \<Rightarrow> string \<Rightarrow> seen_state \<Rightarrow> seen_state" where
  "validate_unique k kind s =
     (if blank k then (add_issue ''error'' ''RKC-PATCH-020'' (kind @ '' id is empty'') [] (fst s), snd s)
      else case map_of (snd s) k of
        Some prior \<Rightarrow>
          (add_issue ''error'' ''RKC-PATCH-021'' (''duplicate id shared by '' @ prior @ '' and '' @ kind) k (fst s), snd s)
      | None \<Rightarrow> (fst s, AList.update k kind (snd s)))"

definition validate_node :: "patch_options \<Rightarrow> 'v node \<Rightarrow> seen_state \<Rightarrow> seen_state" where
  "validate_node opts n s = apfst (in_order
     [refuse (po_strict_vocabulary opts \<and> \<not> is_known_node_kind (n_kind n)) ''RKC-PATCH-010'' ''unknown node kind'' (n_kind n),
      refuse (n_id n = [] \<or> n_name n = []) ''RKC-PATCH-011'' ''node id and name are required'' (n_id n)])
     (validate_unique (n_id n) ''node'' s)"

definition validate_edge :: "(string \<Rightarrow> string) \<Rightarrow> patch_options \<Rightarrow> 'v edge \<Rightarrow> seen_state \<Rightarrow> seen_state" where
  "validate_edge fold_case opts e s = apfst (in_order
     [refuse (e_from e = [] \<or> e_to e = []) ''RKC-PATCH-012'' ''edge endpoints are required'' (e_id e),
      refuse (po_strict_vocabulary opts \<and> \<not> is_known_edge_kind (e_kind e)) ''RKC-PATCH-013'' ''unknown edge kind'' (e_kind e),
      refuse (\<not> is_known_resolution fold_case (e_resolution e)) ''RKC-PATCH-014'' ''unknown edge resolution'' (e_resolution e)])
     (validate_unique (e_id e) ''edge'' s)"

definition validate_evidence :: "'v evidence \<Rightarrow> seen_state \<Rightarrow> seen_state" where
  "validate_evidence e s = apfst
     (refuse (evd_confidence e < 0 \<or> 1 < evd_confidence e) ''RKC-PATCH-015'' ''evidence confidence must be in [0,1]'' (evd_id e))
     (validate_unique (evd_id e) ''evidence'' s)"

definition evidence_warnings :: "'v fragment \<Rightarrow> 'v node \<Rightarrow> patch_report \<Rightarrow> patch_report" where
  "evidence_warnings f n r =
     fold (\<lambda>k. if k \<in> evd_id ` set (fr_evidence f) then id
             else add_issue ''warning'' ''RKC-PATCH-017'' ''node references evidence outside patch; host must resolve it'' k)
       (n_evidence_ids n)
       (if is_symbol_kind (n_kind n) \<and> n_evidence_ids n = []
        then add_issue ''warning'' ''RKC-PATCH-016'' ''symbol has no evidence in patch'' (n_id n) r else r)"

definition issue_order :: "patch_issue \<Rightarrow> string" where
  "issue_order i = is_rule i @ nul @ is_object_id i @ nul @ is_message i"

definition validate_patch :: "(string \<Rightarrow> string) \<Rightarrow> 'v patch \<Rightarrow> patch_options \<Rightarrow> patch_report" where
  "validate_patch fold_case p opts =
     (let f = pa_fragment p;
          r0 = check_limits opts p (check_envelope opts p \<lparr>pp_accepted = True, pp_issues = []\<rparr>);
          (r1, seen) = fold validate_evidence (fr_evidence f)
            (fold (validate_edge fold_case opts) (fr_edges f) (fold (validate_node opts) (fr_nodes f) (r0, [])));
          r2 = (if po_require_evidence opts then fold (evidence_warnings f) (fr_nodes f) r1 else r1)
      in r2\<lparr>pp_issues := sort_key issue_order (pp_issues r2)\<rparr>)"

section \<open>Apply\<close>

definition label_ids :: "string \<Rightarrow> string list \<Rightarrow> (string \<times> string) list \<Rightarrow> (string \<times> string) list" where
  "label_ids kind ks m = fold (\<lambda>k. AList.update k kind) ks m"

definition existing_ids :: "'v model_bundle \<Rightarrow> (string \<times> string) list" where
  "existing_ids b = in_order
     [label_ids ''artifact'' (map a_id (bu_artifacts b)), label_ids ''node'' (map n_id (bu_nodes b)),
      label_ids ''edge'' (map e_id (bu_edges b)), label_ids ''evidence'' (map evd_id (bu_evidence b)),
      label_ids ''document'' (map doc_id (bu_documents b)), label_ids ''claim'' (map cl_id (bu_claims b))] []"

definition patch_ids :: "'v patch \<Rightarrow> (string \<times> string) list" where
  "patch_ids p = (let f = pa_fragment p in in_order
     [label_ids ''artifact'' (map a_id (fr_artifacts f)), label_ids ''node'' (map n_id (fr_nodes f)),
      label_ids ''edge'' (map e_id (fr_edges f)), label_ids ''evidence'' (map evd_id (fr_evidence f)),
      label_ids ''document'' (map doc_id (fr_documents f)), label_ids ''claim'' (map cl_id (fr_claims f))] [])"

definition report_collision :: "(string \<times> string) list \<Rightarrow> string \<times> string \<Rightarrow> patch_report \<Rightarrow> patch_report" where
  "report_collision existing entry r =
     (case map_of existing (fst entry) of
        None \<Rightarrow> r
      | Some prior \<Rightarrow> add_issue ''error'' ''RKC-PATCH-030''
          (''patch '' @ snd entry @ '' id collides with host '' @ prior) (fst entry) r)"

text \<open>The host bundle followed by the fragment, family by family.\<close>

definition candidate_input :: "'v model_bundle \<Rightarrow> 'v fragment \<Rightarrow> 'v model_bundle" where
  "candidate_input b f = b\<lparr>
     bu_artifacts := bu_artifacts b @ fr_artifacts f, bu_nodes := bu_nodes b @ fr_nodes f,
     bu_edges := bu_edges b @ fr_edges f, bu_evidence := bu_evidence b @ fr_evidence f,
     bu_diagnostics := bu_diagnostics b @ fr_diagnostics f, bu_conflicts := bu_conflicts b @ fr_conflicts f,
     bu_documents := bu_documents b @ fr_documents f, bu_claims := bu_claims b @ fr_claims f,
     bu_paths := bu_paths b @ fr_paths f\<rparr>"

definition report_diagnostic :: "'v diagnostic \<Rightarrow> patch_report \<Rightarrow> patch_report" where
  "report_diagnostic d =
     add_issue (if dg_severity d = ''fatal'' then ''error'' else dg_severity d) (dg_code d) (dg_message d) (dg_id d)"

text \<open>From the report so far to the final report and the bundle.\<close>

definition commit_candidate ::
  "'v patch_env \<Rightarrow> 'v model_bundle \<Rightarrow> 'v patch \<Rightarrow> patch_options \<Rightarrow> patch_report \<Rightarrow> patch_report \<times> 'v model_bundle" where
  "commit_candidate env b p opts r =
     (case cd_marshal (pe_codec env) (candidate_input b (pa_fragment p)) of
        Inl e \<Rightarrow> (add_issue ''error'' ''RKC-PATCH-031'' (''candidate is not representable as canonical JSON: '' @ e) [] r, b)
      | Inr encoded \<Rightarrow>
          (case cd_unmarshal (pe_codec env) encoded of
             Inl e \<Rightarrow> (add_issue ''error'' ''RKC-PATCH-032'' (''candidate canonical JSON could not be decoded: '' @ e) [] r, b)
           | Inr decoded \<Rightarrow>
               (let candidate = sort_bundle (ve_fold_case (pe_validation env)) decoded;
                    host = validate_bundle (pe_validation env) candidate
                      \<lparr>vo_strict_vocabulary = po_strict_vocabulary opts, vo_require_evidence = po_require_evidence opts\<rparr>;
                    r' = fold report_diagnostic (vr_diagnostics host) r
                in (r', if pp_accepted r' then candidate else b))))"

definition apply_patch ::
  "'v patch_env \<Rightarrow> 'v model_bundle \<Rightarrow> 'v patch \<Rightarrow> patch_options \<Rightarrow> patch_report \<times> 'v model_bundle" where
  "apply_patch env b p opts =
     (let r = validate_patch (ve_fold_case (pe_validation env)) p opts
      in if \<not> pp_accepted r then (r, b)
         else let r' = fold (report_collision (existing_ids b)) (pe_arrange env (patch_ids p)) r
              in if \<not> pp_accepted r' then (r', b) else commit_candidate env b p opts r')"

end
