(* ===== verification/GraphPatchTheorems.thy ===== *)
theory GraphPatchTheorems
  imports GraphPatch
begin

text \<open>
  What the patch contract promises: \<open>Validate\<close> accepts exactly the well-formed patches, and \<open>Apply\<close> is a
  transaction that never overwrites a host record and only commits valid bundles. The loops of \<open>Validate\<close> over
  nodes, edges and evidence are interpretations of one locale.
\<close>

section \<open>Validation is exact\<close>

lemma accepted_add [simp]: "pp_accepted (add_issue severity rule message object r) \<longleftrightarrow>
    pp_accepted r \<and> severity \<noteq> ''error'' \<and> severity \<noteq> ''fatal''"
  by (simp add: add_issue_def)

lemma accepted_refuse [simp]: "pp_accepted (refuse b rule message object r) \<longleftrightarrow> pp_accepted r \<and> \<not> b"
  by (simp add: refuse_def)

lemma in_order_simps [simp]: "in_order [] s = s" "in_order (f # fs) s = in_order fs (f s)"
  by (simp_all add: in_order_def)

lemma validate_unique_accepted:
  "pp_accepted (fst (validate_unique k kind s)) \<longleftrightarrow> pp_accepted (fst s) \<and> \<not> blank k \<and> k \<notin> set (keys (snd s))"
  using map_of_None_keys [of "snd s" k] by (auto simp: validate_unique_def split: option.splits)

lemma validate_unique_seen:
  "\<not> blank k \<Longrightarrow> k \<notin> set (keys (snd s)) \<Longrightarrow> set (keys (snd (validate_unique k kind s))) = insert k (set (keys (snd s)))"
  using map_of_None_keys [of "snd s" k] by (auto simp: validate_unique_def split: option.splits)

text \<open>A loop over records whose identifiers must not occur before.\<close>

locale unique_loop =
  fixes check :: "'r \<Rightarrow> seen_state \<Rightarrow> seen_state"
    and ident :: "'r \<Rightarrow> string"
    and own :: "'r \<Rightarrow> bool"
  assumes check_accepted: "pp_accepted (fst (check x s)) \<longleftrightarrow>
      pp_accepted (fst s) \<and> \<not> blank (ident x) \<and> ident x \<notin> set (keys (snd s)) \<and> own x"
    and check_seen: "\<not> blank (ident x) \<Longrightarrow> ident x \<notin> set (keys (snd s)) \<Longrightarrow>
      set (keys (snd (check x s))) = insert (ident x) (set (keys (snd s)))"
begin

lemma accepted_mono: "pp_accepted (fst (fold check xs s)) \<Longrightarrow> pp_accepted (fst s)"
proof (induction xs arbitrary: s)
  case (Cons x xs)
  then have "pp_accepted (fst (check x s))" by simp
  then show ?case by (simp add: check_accepted)
qed simp

lemma loop_accepted:
  "pp_accepted (fst (fold check xs s)) \<longleftrightarrow> pp_accepted (fst s) \<and> identified blank ident xs \<and>
     ident ` set xs \<inter> set (keys (snd s)) = {} \<and> (\<forall>x \<in> set xs. own x)"
proof (induction xs arbitrary: s)
  case (Cons x xs)
  show ?case
  proof (cases "pp_accepted (fst (check x s))")
    case True
    then show ?thesis using Cons.IH [of "check x s"] check_accepted [of x s] check_seen [of x s]
      by (auto simp: identified_def)
  next
    case False
    then show ?thesis using accepted_mono [of xs "check x s"] check_accepted [of x s]
      by (auto simp: identified_def)
  qed
qed (simp add: identified_def)

lemma loop_seen:
  "pp_accepted (fst (fold check xs s)) \<Longrightarrow> set (keys (snd (fold check xs s))) = ident ` set xs \<union> set (keys (snd s))"
proof (induction xs arbitrary: s)
  case (Cons x xs)
  then have "pp_accepted (fst (check x s))" using accepted_mono by auto
  then show ?case using Cons check_accepted [of x s] check_seen [of x s] by auto
qed simp

end

interpretation patch_nodes: unique_loop "validate_node opts" n_id
    "\<lambda>n. n_name n \<noteq> [] \<and> n_id n \<noteq> [] \<and> (po_strict_vocabulary opts \<longrightarrow> is_known_node_kind (n_kind n))" for opts
  by unfold_locales (auto simp: validate_node_def validate_unique_accepted validate_unique_seen)

interpretation patch_edges: unique_loop "validate_edge fold_case opts" e_id
    "\<lambda>e. e_from e \<noteq> [] \<and> e_to e \<noteq> [] \<and> (po_strict_vocabulary opts \<longrightarrow> is_known_edge_kind (e_kind e)) \<and>
       is_known_resolution fold_case (e_resolution e)" for fold_case opts
  by unfold_locales (auto simp: validate_edge_def validate_unique_accepted validate_unique_seen)

interpretation patch_evidence: unique_loop validate_evidence evd_id
    "\<lambda>e. \<not> evd_confidence e < 0 \<and> \<not> 1 < evd_confidence e"
  by unfold_locales (auto simp: validate_evidence_def validate_unique_accepted validate_unique_seen)

lemma accepted_warning_loop:
  "pp_accepted (fold (\<lambda>k. if P k then id else add_issue ''warning'' rule message k) ks r) \<longleftrightarrow> pp_accepted r"
  by (induction ks arbitrary: r) auto

lemma accepted_node_warnings [simp]: "pp_accepted (evidence_warnings f n r) \<longleftrightarrow> pp_accepted r"
  by (simp add: evidence_warnings_def accepted_warning_loop)

lemma accepted_evidence_warnings [simp]: "pp_accepted (fold (evidence_warnings f) ns r) \<longleftrightarrow> pp_accepted r"
  by (induction ns arbitrary: r) auto

lemma validate_patch_code:
  "validate_patch fold_case p opts = (let f = pa_fragment p;
     s = fold validate_evidence (fr_evidence f) (fold (validate_edge fold_case opts) (fr_edges f)
       (fold (validate_node opts) (fr_nodes f)
         (check_limits opts p (check_envelope opts p \<lparr>pp_accepted = True, pp_issues = []\<rparr>), [])));
     r2 = (if po_require_evidence opts then fold (evidence_warnings f) (fr_nodes f) (fst s) else fst s)
   in r2\<lparr>pp_issues := sort_key issue_order (pp_issues r2)\<rparr>)"
  by (simp add: validate_patch_def Let_def split_beta)

text \<open>A patch that the host may consider.\<close>

definition fits :: "int \<Rightarrow> 'r list \<Rightarrow> bool" where
  "fits limit rs \<longleftrightarrow> limit \<le> 0 \<or> int (length rs) \<le> limit"

definition well_formed_patch :: "(string \<Rightarrow> string) \<Rightarrow> patch_options \<Rightarrow> 'v patch \<Rightarrow> bool" where
  "well_formed_patch fold_case opts p \<longleftrightarrow> (let f = pa_fragment p; l = po_limits opts in
     pa_protocol_version p = protocol_version \<and> pa_schema_version p = model_schema_version \<and>
     po_expected_snapshot_id opts \<in> {[], pa_snapshot_id p} \<and>
     pr_plugin_id (pa_producer p) \<noteq> [] \<and> po_allowed_plugin_id opts \<in> {[], pr_plugin_id (pa_producer p)} \<and>
     fits (pl_max_artifacts l) (fr_artifacts f) \<and> fits (pl_max_nodes l) (fr_nodes f) \<and>
     fits (pl_max_edges l) (fr_edges f) \<and> fits (pl_max_evidence l) (fr_evidence f) \<and>
     fits (pl_max_diagnostics l) (fr_diagnostics f) \<and> fits (pl_max_documents l) (fr_documents f) \<and>
     fits (pl_max_claims l) (fr_claims f) \<and>
     identified blank id (map n_id (fr_nodes f) @ map e_id (fr_edges f) @ map evd_id (fr_evidence f)) \<and>
     (\<forall>n \<in> set (fr_nodes f). n_name n \<noteq> [] \<and> (po_strict_vocabulary opts \<longrightarrow> is_known_node_kind (n_kind n))) \<and>
     (\<forall>e \<in> set (fr_edges f). e_from e \<noteq> [] \<and> e_to e \<noteq> [] \<and> is_known_resolution fold_case (e_resolution e) \<and>
        (po_strict_vocabulary opts \<longrightarrow> is_known_edge_kind (e_kind e))) \<and>
     (\<forall>e \<in> set (fr_evidence f). \<not> evd_confidence e < 0 \<and> \<not> 1 < evd_confidence e))"

lemma accepted_envelope:
  "pp_accepted (check_envelope opts p r) \<longleftrightarrow> pp_accepted r \<and> pa_protocol_version p = protocol_version \<and>
     pa_schema_version p = model_schema_version \<and> po_expected_snapshot_id opts \<in> {[], pa_snapshot_id p} \<and>
     pr_plugin_id (pa_producer p) \<noteq> [] \<and> po_allowed_plugin_id opts \<in> {[], pr_plugin_id (pa_producer p)}"
  by (auto simp: check_envelope_def)

lemma accepted_limit [simp]: "pp_accepted (check_limit name (length rs) limit r) \<longleftrightarrow> pp_accepted r \<and> fits limit rs"
  by (auto simp: check_limit_def fits_def)

lemma blank_Nil [simp]: "blank []"
  by (simp add: blank_def trim_space_def trim_right_def)

lemma identified_families:
  "identified blank id (map f xs @ map g ys @ map h zs) \<longleftrightarrow>
     identified blank f xs \<and> (identified blank g ys \<and> g ` set ys \<inter> f ` set xs = {}) \<and>
     (identified blank h zs \<and> h ` set zs \<inter> (f ` set xs \<union> g ` set ys) = {})"
  by (auto simp: identified_def)

text \<open>
  \<open>Validate\<close> accepts a patch exactly when it is well formed: the envelope matches the host, every record
  count is within its limit, the identifiers of nodes, edges and evidence are non-blank and unique across the
  three families, and every record has its required fields. Missing evidence is only a warning.
\<close>

lemma validate_exact:
  "pp_accepted (validate_patch fold_case p opts) \<longleftrightarrow> well_formed_patch fold_case opts p"
proof -
  let ?f = "pa_fragment p"
  let ?r0 = "check_limits opts p (check_envelope opts p \<lparr>pp_accepted = True, pp_issues = []\<rparr>)"
  let ?s1 = "fold (validate_node opts) (fr_nodes ?f) (?r0, [])"
  let ?s2 = "fold (validate_edge fold_case opts) (fr_edges ?f) ?s1"
  have seen1: "set (keys (snd ?s1)) = n_id ` set (fr_nodes ?f)" if "pp_accepted (fst ?s1)"
    using patch_nodes.loop_seen [OF that] by (simp add: keys_def)
  have seen2: "set (keys (snd ?s2)) = e_id ` set (fr_edges ?f) \<union> n_id ` set (fr_nodes ?f)" if "pp_accepted (fst ?s2)"
    using patch_edges.loop_seen [OF that] seen1 patch_edges.accepted_mono [OF that] by simp
  have blank: "k \<noteq> []" if "\<not> blank k" for k using that by auto
  have "pp_accepted (validate_patch fold_case p opts) \<longleftrightarrow>
      pp_accepted (fst (fold validate_evidence (fr_evidence ?f) ?s2))"
    by (simp add: validate_patch_code Let_def)
  also have "\<dots> \<longleftrightarrow> pp_accepted ?r0 \<and>
      identified blank id (map n_id (fr_nodes ?f) @ map e_id (fr_edges ?f) @ map evd_id (fr_evidence ?f)) \<and>
      (\<forall>n \<in> set (fr_nodes ?f). n_name n \<noteq> [] \<and> (po_strict_vocabulary opts \<longrightarrow> is_known_node_kind (n_kind n))) \<and>
      (\<forall>e \<in> set (fr_edges ?f). e_from e \<noteq> [] \<and> e_to e \<noteq> [] \<and> is_known_resolution fold_case (e_resolution e) \<and>
        (po_strict_vocabulary opts \<longrightarrow> is_known_edge_kind (e_kind e))) \<and>
      (\<forall>e \<in> set (fr_evidence ?f). \<not> evd_confidence e < 0 \<and> \<not> 1 < evd_confidence e)" (is "_ \<longleftrightarrow> ?spec")
  proof (cases "pp_accepted (fst ?s2)")
    case True
    then have "pp_accepted (fst ?s1)" by (rule patch_edges.accepted_mono)
    then show ?thesis
      using True seen1 seen2 blank
        patch_nodes.loop_accepted [of opts "fr_nodes ?f" "(?r0, [])"]
        patch_edges.loop_accepted [of fold_case opts "fr_edges ?f" ?s1]
        patch_evidence.loop_accepted [of "fr_evidence ?f" ?s2]
      unfolding identified_families by (simp add: Un_commute)
  next
    case False
    have "\<not> ?spec"
    proof (cases "pp_accepted (fst ?s1)")
      case True
      then show ?thesis
        using False seen1 patch_edges.loop_accepted [of fold_case opts "fr_edges ?f" ?s1]
        unfolding identified_families by (simp add: Un_commute) blast
    next
      case False
      then show ?thesis
        using blank patch_nodes.loop_accepted [of opts "fr_nodes ?f" "(?r0, [])"]
        unfolding identified_families by (simp add: keys_def identified_def) blast
    qed
    then show ?thesis using False patch_evidence.accepted_mono [of "fr_evidence ?f" ?s2] by blast
  qed
  finally show ?thesis
    by (simp add: well_formed_patch_def Let_def check_limits_def accepted_envelope)
qed

section \<open>Applying a patch\<close>

lemma keys_Nil [simp]: "keys [] = []"
  by (simp add: keys_def)

lemma keys_label_ids [simp]: "set (keys (label_ids kind ks m)) = set ks \<union> set (keys m)"
  unfolding label_ids_def by (induction ks arbitrary: m) auto

text \<open>The identifiers that the collision check compares.\<close>

definition host_id_set :: "'v model_bundle \<Rightarrow> string set" where
  "host_id_set b = all_artifacts b \<union> all_nodes b \<union> e_id ` set (bu_edges b) \<union> all_evidence b \<union>
     doc_id ` set (bu_documents b) \<union> all_claims b"

definition patch_id_set :: "'v patch \<Rightarrow> string set" where
  "patch_id_set p = (let f = pa_fragment p in a_id ` set (fr_artifacts f) \<union> n_id ` set (fr_nodes f) \<union>
     e_id ` set (fr_edges f) \<union> evd_id ` set (fr_evidence f) \<union> doc_id ` set (fr_documents f) \<union>
     cl_id ` set (fr_claims f))"

lemma keys_existing [simp]: "set (keys (existing_ids b)) = host_id_set b"
  by (auto simp: existing_ids_def host_id_set_def all_ids_defs)

lemma keys_patch [simp]: "set (keys (patch_ids p)) = patch_id_set p"
  by (auto simp: patch_ids_def patch_id_set_def Let_def)

lemma accepted_collisions:
  "pp_accepted (fold (report_collision existing) entries r) \<longleftrightarrow>
     pp_accepted r \<and> set (keys entries) \<inter> set (keys existing) = {}"
proof (induction entries arbitrary: r)
  case (Cons e es)
  have "pp_accepted (report_collision existing e r) \<longleftrightarrow> pp_accepted r \<and> fst e \<notin> set (keys existing)"
    using map_of_None_keys [of existing "fst e"] by (auto simp: report_collision_def split: option.splits)
  then show ?case by (auto simp: Cons.IH keys_def)
qed (simp add: keys_def)

lemma accepted_diagnostic [simp]:
  "pp_accepted (report_diagnostic d r) \<longleftrightarrow> pp_accepted r \<and> dg_severity d \<noteq> ''error'' \<and> dg_severity d \<noteq> ''fatal''"
  by (auto simp: report_diagnostic_def)

lemma accepted_diagnostics:
  "pp_accepted (fold report_diagnostic ds r) \<longleftrightarrow> pp_accepted r \<and> no_errors ds"
  by (induction ds arbitrary: r) (auto simp: no_errors_set)

text \<open>Go visits every entry of a map once, in some order.\<close>

definition visits_all :: "'v patch_env \<Rightarrow> bool" where
  "visits_all env \<longleftrightarrow> (\<forall>m. mset (pe_arrange env m) = mset m)"

lemma visits_all_keys: "visits_all env \<Longrightarrow> set (keys (pe_arrange env m)) = set (keys m)"
  unfolding visits_all_def keys_def by (metis image_set set_mset_mset)

text \<open>The candidate after its JSON round trip, sorted.\<close>

definition candidate_of :: "'v patch_env \<Rightarrow> 'v model_bundle \<Rightarrow> 'v patch \<Rightarrow> 'v model_bundle option" where
  "candidate_of env b p = (case clone_json (pe_codec env) (candidate_input b (pa_fragment p)) of
     Inl e \<Rightarrow> None | Inr c \<Rightarrow> Some (sort_bundle (ve_fold_case (pe_validation env)) c))"

lemma no_errors_of_report: "no_errors (vr_diagnostics r) \<longleftrightarrow> \<not> has_errors r"
  by (simp add: no_errors_def has_errors_def)

lemma no_errors_validate:
  "no_errors (vr_diagnostics (validate_bundle env b opts)) \<longleftrightarrow> valid_bundle env (vo_strict_vocabulary opts) b"
  unfolding no_errors_of_report no_errors_report by (rule valid_bundle_iff)

lemma commit_candidate_exact:
  assumes "pp_accepted r"
  shows "pp_accepted (fst (commit_candidate env b p opts r)) \<longleftrightarrow>
      (\<exists>c. candidate_of env b p = Some c \<and> valid_bundle (pe_validation env) (po_strict_vocabulary opts) c)"
    and "snd (commit_candidate env b p opts r) =
      (if pp_accepted (fst (commit_candidate env b p opts r)) then the (candidate_of env b p) else b)"
  using assms
  by (auto simp: commit_candidate_def candidate_of_def clone_json_def Let_def accepted_diagnostics
      no_errors_validate split: sum.splits)

lemma apply_patch_cases:
  assumes "visits_all env"
  shows "(pp_accepted (fst (apply_patch env b p opts)) \<longleftrightarrow>
      well_formed_patch (ve_fold_case (pe_validation env)) opts p \<and> patch_id_set p \<inter> host_id_set b = {} \<and>
      (\<exists>c. candidate_of env b p = Some c \<and> valid_bundle (pe_validation env) (po_strict_vocabulary opts) c)) \<and>
    snd (apply_patch env b p opts) =
      (if pp_accepted (fst (apply_patch env b p opts)) then the (candidate_of env b p) else b)"
proof -
  let ?r = "validate_patch (ve_fold_case (pe_validation env)) p opts"
  let ?r' = "fold (report_collision (existing_ids b)) (pe_arrange env (patch_ids p)) ?r"
  have r': "pp_accepted ?r' \<longleftrightarrow> pp_accepted ?r \<and> patch_id_set p \<inter> host_id_set b = {}"
    by (simp add: accepted_collisions visits_all_keys [OF assms])
  show ?thesis
  proof (cases "pp_accepted ?r'")
    case True
    then have "apply_patch env b p opts = commit_candidate env b p opts ?r'"
      using r' by (simp add: apply_patch_def Let_def)
    then show ?thesis using True r' commit_candidate_exact [OF True, of env b p opts]
      by (simp add: validate_exact)
  next
    case False
    then have "\<not> pp_accepted (fst (apply_patch env b p opts))" "snd (apply_patch env b p opts) = b"
      by (simp_all add: apply_patch_def Let_def)
    then show ?thesis using False r' by (auto simp: validate_exact)
  qed
qed

text \<open>
  C28. \<open>Apply\<close> is a transaction: a patch is accepted exactly when it is well formed, none of its identifiers
  exists in the host, and host and patch together form a valid bundle after the JSON round trip; the bundle
  becomes that candidate when the patch is accepted and stays what it was otherwise.
\<close>

theorem apply_patch_transactional:
  assumes "visits_all env"
  shows "(pp_accepted (fst (apply_patch env b p opts)) \<longleftrightarrow>
      well_formed_patch (ve_fold_case (pe_validation env)) opts p \<and> patch_id_set p \<inter> host_id_set b = {} \<and>
      (\<exists>c. candidate_of env b p = Some c \<and> valid_bundle (pe_validation env) (po_strict_vocabulary opts) c)) \<and>
    snd (apply_patch env b p opts) =
      (if pp_accepted (fst (apply_patch env b p opts)) then the (candidate_of env b p) else b)"
  using assms by (rule apply_patch_cases)

text \<open>
  C29. What an accepted patch does: every record of the host and of the patch is in the new bundle, unchanged
  but for the order of its reference lists and the spelling of its resolution, and nothing else; the snapshot
  is the same.
\<close>

theorem apply_patch_records:
  fixes env :: "'v patch_env"
  assumes "visits_all env" and "pp_accepted (fst (apply_patch env b p opts))"
    and "clone_json (pe_codec env) (candidate_input b (pa_fragment p)) = Inr (candidate_input b (pa_fragment p))"
  defines "b' \<equiv> snd (apply_patch env b p opts)" and "f \<equiv> pa_fragment p"
  shows "bu_snapshot b' = bu_snapshot b \<and>
    mset (bu_artifacts b') = mset (bu_artifacts b) + mset (fr_artifacts f) \<and>
    mset (bu_nodes b') = image_mset sort_node (mset (bu_nodes b) + mset (fr_nodes f)) \<and>
    mset (bu_edges b') =
      image_mset (sort_edge (ve_fold_case (pe_validation env))) (mset (bu_edges b) + mset (fr_edges f)) \<and>
    mset (bu_evidence b') = mset (bu_evidence b) + mset (fr_evidence f) \<and>
    mset (bu_diagnostics b') = mset (bu_diagnostics b) + mset (fr_diagnostics f) \<and>
    mset (bu_conflicts b') = image_mset sort_conflict (mset (bu_conflicts b) + mset (fr_conflicts f)) \<and>
    mset (bu_documents b') = image_mset sort_document (mset (bu_documents b) + mset (fr_documents f)) \<and>
    mset (bu_claims b') = image_mset sort_claim (mset (bu_claims b) + mset (fr_claims f)) \<and>
    mset (bu_paths b') = mset (bu_paths b) + mset (fr_paths f)"
proof -
  have "b' = sort_bundle (ve_fold_case (pe_validation env)) (candidate_input b f)"
    using apply_patch_cases [OF assms(1), of b p opts] assms(2,3)
    by (auto simp: b'_def f_def candidate_of_def)
  then show ?thesis by (simp add: sort_bundle_def candidate_input_def)
qed

text \<open>
  The issues of colliding identifiers are listed in the order in which Go happens to visit the map: two runs
  on the same input may return different reports.
\<close>

lemma collision_order_visible:
  "map is_object_id (pp_issues (fold (report_collision [(''a'', ''node''), (''b'', ''node'')])
       [(''a'', ''node''), (''b'', ''edge'')] \<lparr>pp_accepted = True, pp_issues = []\<rparr>)) = [''a'', ''b''] \<and>
   map is_object_id (pp_issues (fold (report_collision [(''a'', ''node''), (''b'', ''node'')])
       [(''b'', ''edge''), (''a'', ''node'')] \<lparr>pp_accepted = True, pp_issues = []\<rparr>)) = [''b'', ''a'']"
  by (simp add: report_collision_def add_issue_def)

end
