(* ===== verification/PatchWitnesses.thy ===== *)
theory PatchWitnesses
  imports SemanticDiffTheorems GraphPatchTheorems ValidateWitnesses
begin

text \<open>Concrete snapshots and a patch to which the properties of the semantic diff and of the patch contract apply.\<close>

section \<open>Two snapshots\<close>

definition ex_before :: "nat model_bundle" where
  "ex_before = ex_bundle [ex_node ''a'', (ex_node ''b'')\<lparr>n_public_surface := True\<rparr>, (ex_node ''c'')\<lparr>n_visibility := ''public''\<rparr>] ex_edges 1"

definition ex_after :: "nat model_bundle" where
  "ex_after = ex_bundle [ex_node ''a'', (ex_node ''b'')\<lparr>n_public_surface := True, n_signature := ''new''\<rparr>] [] 2"

lemma ex_keyed: "keyed ex_before" "keyed ex_after"
  by (simp_all add: keyed_def ex_before_def ex_after_def ex_bundle_def ex_edges_def ex_edge_def ex_node_def node_key_def
      edge_key_def zero_node_def zero_edge_def nul_def)

definition ex_lost :: "nat node" where
  "ex_lost = (ex_node ''c'')\<lparr>n_visibility := ''public''\<rparr>"

lemma ex_lost_facts:
  "ex_lost \<in> set (bu_nodes ex_before)" "node_key ex_lost \<notin> node_key ` set (bu_nodes ex_after)" "node_key ex_lost = ''c''"
  by (simp_all add: ex_lost_def ex_before_def ex_after_def ex_bundle_def ex_node_def node_key_def zero_node_def)

theorem compare_exact_witness:
  "node_removed ''c'' ex_lost \<in> set (dr_nodes (compare id ex_before ex_after))"
proof -
  note nodes = compare_exact [OF ex_keyed, of id, THEN conjunct2, THEN conjunct1]
  have "node_removed (node_key ex_lost) ex_lost \<in> set (dr_nodes (compare id ex_before ex_after))"
    unfolding nodes using ex_lost_facts(1,2) by blast
  then show ?thesis by (simp add: ex_lost_facts(3))
qed

theorem compare_empty_iff_witness:
  "matched same_node (bu_nodes ex_before) (bu_nodes ex_before)"
proof -
  have "dr_artifacts (compare id ex_before ex_before) = [] \<and> dr_nodes (compare id ex_before ex_before) = [] \<and>
      dr_edges (compare id ex_before ex_before) = []"
    by code_simp
  then show ?thesis using compare_empty_iff [OF ex_keyed(1,1), of id] by blast
qed

theorem breaking_changes_witness:
  "\<exists>x \<in> set (dr_nodes (compare id ex_before ex_after)). nc_logical_key x = ''c'' \<and> nc_severity x = severity_breaking"
proof -
  have "node_removed ''c'' ex_lost \<in> set (dr_nodes (compare id ex_before ex_after))" (is "?c \<in> _")
    by code_simp
  moreover from this have "nc_severity ?c = severity_breaking"
    using breaking_changes [of id ex_before ex_after, THEN conjunct1, rule_format, of ?c]
    by (simp add: node_removed_def is_public_def ex_lost_def)
  ultimately show ?thesis by (force simp: node_removed_def)
qed

text \<open>
  Two nodes of one logical key hide each other: the public one is removed, and nothing is reported.
\<close>

lemma shadowed_removal:
  "compare_nodes [(ex_node ''a'')\<lparr>n_logical_id := ''k'', n_public_surface := True\<rparr>, (ex_node ''b'')\<lparr>n_logical_id := ''k''\<rparr>]
     [(ex_node ''b'')\<lparr>n_logical_id := ''k''\<rparr>] = []"
  by code_simp

section \<open>A patch\<close>

definition ex_fragment :: "nat fragment" where
  "ex_fragment = \<lparr>fr_artifacts = [], fr_nodes = [ex_node ''d''], fr_edges = [ex_edge ''ad'' ''a'' ''d''], fr_evidence = [],
     fr_diagnostics = [], fr_conflicts = [], fr_documents = [], fr_claims = [], fr_paths = []\<rparr>"

definition ex_patch :: "nat patch" where
  "ex_patch = \<lparr>pa_protocol_version = ''1.0'', pa_schema_version = ''0.2.0'', pa_snapshot_id = ''s'',
     pa_producer = \<lparr>pr_plugin_id = ''p'', pr_version = ''1'', pr_runtime = [], pr_instance_id = []\<rparr>,
     pa_generated_at = 0, pa_input_digest = [], pa_fragment = ex_fragment, pa_metadata = []\<rparr>"

definition ex_patch_options :: patch_options where
  "ex_patch_options = \<lparr>po_expected_snapshot_id = ''s'', po_allowed_plugin_id = ''p'', po_strict_vocabulary = True,
     po_require_evidence = True, po_limits = \<lparr>pl_max_artifacts = 0, pl_max_nodes = 1, pl_max_edges = 1, pl_max_evidence = 0,
       pl_max_diagnostics = 0, pl_max_documents = 0, pl_max_claims = 0\<rparr>\<rparr>"

definition ex_patch_env :: "nat patch_env" where
  "ex_patch_env = \<lparr>pe_validation = ex_env, pe_codec = \<lparr>cd_marshal = (\<lambda>_. Inr ''b''),
     cd_unmarshal = (\<lambda>_. Inr (candidate_input ex_walked ex_fragment))\<rparr>, pe_arrange = rev\<rparr>"

lemma ex_visits_all: "visits_all ex_patch_env"
  by (simp add: visits_all_def ex_patch_env_def)

lemma ex_patch_well_formed: "well_formed_patch (map ascii_lower) ex_patch_options ex_patch"
  unfolding validate_exact [symmetric] by code_simp

lemma ex_patch_valid: "valid_bundle ex_env True (sort_bundle (map ascii_lower) (candidate_input ex_walked ex_fragment))"
proof -
  have "\<not> has_errors (validate_bundle ex_env (sort_bundle (map ascii_lower) (candidate_input ex_walked ex_fragment)) ex_strict)"
    by code_simp
  then show ?thesis unfolding no_errors_report valid_bundle_iff by (simp add: ex_strict_def)
qed

lemma ex_patch_accepted: "pp_accepted (fst (apply_patch ex_patch_env ex_walked ex_patch ex_patch_options))"
  by code_simp

theorem apply_patch_transactional_witness:
  "snd (apply_patch ex_patch_env ex_walked ex_patch ex_patch_options) =
     sort_bundle (map ascii_lower) (candidate_input ex_walked ex_fragment) \<and>
   snd (apply_patch ex_patch_env (candidate_input ex_walked ex_fragment) ex_patch ex_patch_options) =
     candidate_input ex_walked ex_fragment"
proof
  show "snd (apply_patch ex_patch_env ex_walked ex_patch ex_patch_options) =
      sort_bundle (map ascii_lower) (candidate_input ex_walked ex_fragment)"
    using apply_patch_transactional [OF ex_visits_all, of ex_walked ex_patch ex_patch_options] ex_patch_accepted
    by (simp add: candidate_of_def clone_json_def ex_patch_env_def ex_env_def ex_patch_def)
  have "''d'' \<in> patch_id_set ex_patch \<inter> host_id_set (candidate_input ex_walked ex_fragment)"
    by (simp add: patch_id_set_def host_id_set_def ex_patch_def ex_fragment_def candidate_input_def all_ids_defs ex_node_def)
  then show "snd (apply_patch ex_patch_env (candidate_input ex_walked ex_fragment) ex_patch ex_patch_options) =
      candidate_input ex_walked ex_fragment"
    using apply_patch_transactional [OF ex_visits_all, of "candidate_input ex_walked ex_fragment" ex_patch ex_patch_options]
    by (auto split: if_splits)
qed

theorem apply_patch_records_witness:
  "mset (bu_nodes (snd (apply_patch ex_patch_env ex_walked ex_patch ex_patch_options))) =
   image_mset sort_node (mset ex_nodes + {#ex_node ''d''#})"
proof -
  have "clone_json (pe_codec ex_patch_env) (candidate_input ex_walked (pa_fragment ex_patch)) =
      Inr (candidate_input ex_walked (pa_fragment ex_patch))"
    by (simp add: clone_json_def ex_patch_env_def ex_patch_def)
  from apply_patch_records [OF ex_visits_all ex_patch_accepted this] show ?thesis
    by (simp add: ex_patch_def ex_fragment_def ex_walked_def ex_bundle_def)
qed

end
