(* ===== verification/Merge.thy ===== *)
theory Merge
  imports ValidateTheorems RecordIndex
begin

text \<open>
  Merging the fragments of the stages, \<open>internal/pipeline/pipeline.go\<close>: \<open>mergeFragment\<close>,
  \<open>updateArtifactNodes\<close> and \<open>dedupeBundle\<close>. A Go map is filled by one fold per family; Go then lists it in
  an arbitrary order, but \<open>SortBundle\<close> follows, and with unique identifiers its result does not depend on it.
\<close>

definition unique_nonempty :: "string list \<Rightarrow> string list" where
  "unique_nonempty values = sorted_keys (filter (\<lambda>v. v \<noteq> []) values)"

section \<open>Appending a fragment\<close>

definition merge_fragment :: "'v model_bundle \<Rightarrow> 'v fragment \<Rightarrow> 'v model_bundle" where
  "merge_fragment b f = b\<lparr>
     bu_artifacts := bu_artifacts b @ fr_artifacts f, bu_nodes := bu_nodes b @ fr_nodes f,
     bu_edges := bu_edges b @ fr_edges f, bu_evidence := bu_evidence b @ fr_evidence f,
     bu_diagnostics := bu_diagnostics b @ fr_diagnostics f, bu_conflicts := bu_conflicts b @ fr_conflicts f,
     bu_documents := bu_documents b @ fr_documents f, bu_claims := bu_claims b @ fr_claims f,
     bu_paths := bu_paths b @ fr_paths f\<rparr>"

definition adapter_error :: "(string \<Rightarrow> string) \<Rightarrow> string \<Rightarrow> string \<Rightarrow> string \<Rightarrow> 'v diagnostic" where
  "adapter_error sha12 rule plugin message = \<lparr>dg_id = stable_id sha12 ''diagnostic'' [rule, plugin, message],
     dg_severity = ''error'', dg_code = rule, dg_message = message, dg_source = None, dg_stage = ''analysis'',
     dg_plugin = plugin, dg_help_uri = [], dg_attributes = []\<rparr>"

text \<open>The result of an adapter is an error text or a fragment.\<close>

definition handle_fragment ::
  "(string \<Rightarrow> string) \<Rightarrow> string \<Rightarrow> string \<Rightarrow> string + 'v fragment \<Rightarrow> 'v model_bundle \<Rightarrow> 'v model_bundle" where
  "handle_fragment sha12 rule plugin result b =
     (case result of
        Inl e \<Rightarrow> b\<lparr>bu_diagnostics := bu_diagnostics b @ [adapter_error sha12 rule plugin e]\<rparr>
      | Inr f \<Rightarrow> merge_fragment b f)"

text \<open>\<open>of_text\<close> and \<open>of_number\<close> are the values of type \<open>any\<close> that a string and an integer become.\<close>

definition update_artifact_node ::
  "(string \<Rightarrow> 'v) \<Rightarrow> (int \<Rightarrow> 'v) \<Rightarrow> (string \<times> artifact) list \<Rightarrow> 'v node \<Rightarrow> 'v node" where
  "update_artifact_node of_text of_number by_id n =
     (case map_of by_id (n_id n) of
        None \<Rightarrow> n
      | Some a \<Rightarrow> n\<lparr>n_attributes := AList.update ''sha256'' (of_text (a_sha256 a))
          (AList.update ''size_bytes'' (of_number (a_size_bytes a))
            (AList.update ''status'' (of_text (a_status a)) (n_attributes n)))\<rparr>)"

definition update_artifact_nodes :: "(string \<Rightarrow> 'v) \<Rightarrow> (int \<Rightarrow> 'v) \<Rightarrow> 'v model_bundle \<Rightarrow> 'v model_bundle" where
  "update_artifact_nodes of_text of_number b =
     (let by_id = index_by a_id (bu_artifacts b)
      in b\<lparr>bu_nodes := map (update_artifact_node of_text of_number by_id) (bu_nodes b)\<rparr>)"

section \<open>Ranks\<close>

definition artifact_rank :: "string \<Rightarrow> nat" where
  "artifact_rank status =
     (if status = ''semantic_parsed'' then 5
      else if status = ''syntax_parsed'' \<or> status = ''parsed'' then 4
      else if status = ''text'' then 3
      else if status = ''recorded'' \<or> status = ''included'' then 2
      else 1)"

definition resolution_rank :: "(string \<Rightarrow> string) \<Rightarrow> string \<Rightarrow> nat" where
  "resolution_rank fold_case value =
     (let r = normalize_resolution fold_case value in
      if r = ''compiler_resolved'' then 7
      else if r = ''runtime_observed'' then 6
      else if r = ''declared'' then 5
      else if r = ''syntax_inferred'' then 4
      else if r = ''documentation_asserted'' then 3
      else if r = ''model_inferred'' then 2
      else 1)"

section \<open>Merging two records\<close>

text \<open>\<open>for k, v := range item.Attributes { if _, exists := current.Attributes[k]; !exists { ... } }\<close>.\<close>

definition merge_attributes :: "'v attributes \<Rightarrow> 'v attributes \<Rightarrow> 'v attributes" where
  "merge_attributes current item =
     fold (\<lambda>(k, v) m. if map_of m k = None then AList.update k v m else m) item current"

definition stronger_artifact :: "artifact \<Rightarrow> artifact \<Rightarrow> artifact" where
  "stronger_artifact current item =
     (if artifact_rank (a_status current) < artifact_rank (a_status item) then item else current)"

definition first_node :: "'v node \<Rightarrow> 'v node" where
  "first_node n = n\<lparr>n_evidence_ids := unique_nonempty (n_evidence_ids n)\<rparr>"

text \<open>A source range and its artifact are taken over together.\<close>

definition merge_source :: "'v node \<Rightarrow> 'v node \<Rightarrow> 'v node" where
  "merge_source current item =
     (case n_source current of
        Some s \<Rightarrow> current
      | None \<Rightarrow> (case n_source item of
          None \<Rightarrow> current
        | Some s \<Rightarrow> current\<lparr>n_source := Some s, n_artifact_id :=
            (if sr_artifact_id s \<noteq> [] then sr_artifact_id s
             else if n_artifact_id item \<noteq> [] then n_artifact_id item else n_artifact_id current)\<rparr>))"

definition merge_owner :: "'v node \<Rightarrow> 'v node \<Rightarrow> 'v node" where
  "merge_owner current item =
     (if n_artifact_id current \<noteq> [] then current
      else current\<lparr>n_artifact_id := (case n_source current of
          Some s \<Rightarrow> if sr_artifact_id s \<noteq> [] then sr_artifact_id s else n_artifact_id item
        | None \<Rightarrow> n_artifact_id item)\<rparr>)"

definition merge_node :: "'v node \<Rightarrow> 'v node \<Rightarrow> 'v node" where
  "merge_node current item =
     (let named = current\<lparr>n_evidence_ids := unique_nonempty (n_evidence_ids current @ n_evidence_ids item),
            n_logical_id := (if n_logical_id current = [] then n_logical_id item else n_logical_id current),
            n_signature := (if n_signature current = [] then n_signature item else n_signature current)\<rparr>;
          owned = merge_owner (merge_source named item) item
      in owned\<lparr>n_attributes := merge_attributes (n_attributes owned) (n_attributes item),
           n_public_surface := n_public_surface owned \<or> n_public_surface item\<rparr>)"

text \<open>An edge gets its normalised resolution and, without an identifier, a stable one.\<close>

definition normal_edge :: "(string \<Rightarrow> string) \<Rightarrow> (string \<Rightarrow> string) \<Rightarrow> 'v edge \<Rightarrow> 'v edge" where
  "normal_edge fold_case sha12 e = e\<lparr>
     e_resolution := normalize_resolution fold_case (e_resolution e),
     e_id := (if e_id e = [] then stable_id sha12 ''edge'' [e_kind e, e_from e, e_to e] else e_id e)\<rparr>"

definition first_edge :: "'v edge \<Rightarrow> 'v edge" where
  "first_edge e = e\<lparr>e_evidence_ids := unique_nonempty (e_evidence_ids e)\<rparr>"

definition merge_edge :: "(string \<Rightarrow> string) \<Rightarrow> 'v edge \<Rightarrow> 'v edge \<Rightarrow> 'v edge" where
  "merge_edge fold_case current item =
     (let supported = current\<lparr>e_evidence_ids := unique_nonempty (e_evidence_ids current @ e_evidence_ids item)\<rparr>;
          resolved = (if resolution_rank fold_case (e_resolution supported) < resolution_rank fold_case (e_resolution item)
            then supported\<lparr>e_resolution := e_resolution item, e_confidence := e_confidence item,
              e_producer := e_producer item\<rparr>
            else supported)
      in resolved\<lparr>e_attributes := merge_attributes (e_attributes resolved) (e_attributes item)\<rparr>)"

section \<open>Deduplication\<close>

text \<open>
  \<open>for _, item := range items { if current, ok := m[key]; ok { m[key] = combine } else { m[key] = first } }\<close>,
  and the values of the map.
\<close>

definition merge_records :: "('r \<Rightarrow> string) \<Rightarrow> ('r \<Rightarrow> 'r) \<Rightarrow> ('r \<Rightarrow> 'r \<Rightarrow> 'r) \<Rightarrow> 'r list \<Rightarrow> (string \<times> 'r) list" where
  "merge_records key first combine items =
     fold (\<lambda>item m. AList.update (key item)
        (case map_of m (key item) of None \<Rightarrow> first item | Some current \<Rightarrow> combine current item) m) items []"

definition keep_first :: "'r \<Rightarrow> 'r \<Rightarrow> 'r" where "keep_first current item = current"
definition keep_last :: "'r \<Rightarrow> 'r \<Rightarrow> 'r" where "keep_last current item = item"

definition dedupe_edges :: "(string \<Rightarrow> string) \<Rightarrow> (string \<Rightarrow> string) \<Rightarrow> 'v edge list \<Rightarrow> 'v edge list" where
  "dedupe_edges fold_case sha12 edges =
     map snd (merge_records e_id first_edge (merge_edge fold_case) (map (normal_edge fold_case sha12) edges))"

definition dedupe_bundle :: "(string \<Rightarrow> string) \<Rightarrow> (string \<Rightarrow> string) \<Rightarrow> 'v model_bundle \<Rightarrow> 'v model_bundle" where
  "dedupe_bundle fold_case sha12 b = sort_bundle fold_case (b\<lparr>
     bu_artifacts := map snd (merge_records a_id id stronger_artifact (bu_artifacts b)),
     bu_evidence := map snd (merge_records evd_id id keep_first (bu_evidence b)),
     bu_nodes := map snd (merge_records n_id first_node merge_node (bu_nodes b)),
     bu_edges := dedupe_edges fold_case sha12 (bu_edges b),
     bu_diagnostics := map snd (merge_records dg_id id keep_first (bu_diagnostics b)),
     bu_documents := map snd (merge_records doc_id id keep_last (bu_documents b)),
     bu_claims := map snd (merge_records cl_id id keep_last (bu_claims b)),
     bu_conflicts := map snd (merge_records cf_id id keep_last (bu_conflicts b)),
     bu_paths := map snd (merge_records ep_id id keep_last (bu_paths b))\<rparr>)"

end
