(* ===== verification/Resolve.thy ===== *)
theory Resolve
  imports Merge
begin

text \<open>
  \<open>resolveHeuristicEdges\<close> of \<open>internal/pipeline/pipeline.go\<close>: an unresolved edge to an
  \<open>unresolved_symbol\<close> node is redirected to the only symbol that its spelling can mean in the language of the
  caller. The enclosing packages and modules of a node come from a memoised recursive search with a set of the
  nodes being visited; the cache is threaded through all queries, as the code shares it.
\<close>

record 'v resolve_env =
  re_fold_case :: "string \<Rightarrow> string"
  re_sha12 :: "string \<Rightarrow> string"
  re_as_string :: "'v \<Rightarrow> string option"
  re_of_text :: "string \<Rightarrow> 'v"

section \<open>Scopes\<close>

record scope_result =
  so_ids :: "string list"
  so_valid :: bool

record 'v scope_index =
  si_nodes :: "(string \<times> 'v node) list"
  si_parents :: "(string \<times> string list) list"

type_synonym scope_cache = "(string \<times> scope_result) list"

definition parents_of :: "(string \<times> string list) list \<Rightarrow> string \<Rightarrow> string list" where
  "parents_of m k = (case map_of m k of None \<Rightarrow> [] | Some ps \<Rightarrow> ps)"

definition scope_edge :: "(string \<Rightarrow> string) \<Rightarrow> (string \<times> 'v node) list \<Rightarrow> 'v edge \<Rightarrow> bool" where
  "scope_edge fold_case nodes e \<longleftrightarrow>
     (e_kind e = ''declares'' \<or> e_kind e = ''contains'') \<and>
     normalize_resolution fold_case (e_resolution e) \<in> {''declared'', ''compiler_resolved''} \<and>
     map_of nodes (e_from e) \<noteq> None \<and> map_of nodes (e_to e) \<noteq> None"

definition new_scope_index :: "(string \<Rightarrow> string) \<Rightarrow> 'v model_bundle \<Rightarrow> (string \<times> 'v node) list \<Rightarrow> 'v scope_index" where
  "new_scope_index fold_case b nodes =
     (let parents = fold (\<lambda>e m. AList.update (e_to e) (parents_of m (e_to e) @ [e_from e]) m)
            (filter (scope_edge fold_case nodes) (bu_edges b)) []
      in \<lparr>si_nodes = nodes, si_parents = map (\<lambda>(k, ps). (k, unique_nonempty ps)) parents\<rparr>)"

definition is_scope_kind :: "string \<Rightarrow> bool" where
  "is_scope_kind kind \<longleftrightarrow> kind = ''package'' \<or> kind = ''module''"

text \<open>The nodes that the search has not entered: they bound its depth.\<close>

definition unvisited :: "'v scope_index \<Rightarrow> string list \<Rightarrow> nat" where
  "unvisited idx visiting = card (set (keys (si_nodes idx)) - set visiting)"

lemma unvisited_less:
  assumes "map_of (si_nodes idx) k = Some n" and "k \<notin> set visiting"
  shows "unvisited idx (k # visiting) < unvisited idx visiting"
proof -
  have "k \<in> set (keys (si_nodes idx))" using map_of_in_keys [OF assms(1)] .
  then have "set (keys (si_nodes idx)) - set (k # visiting) \<subset> set (keys (si_nodes idx)) - set visiting"
    using assms(2) by auto
  then show ?thesis unfolding unvisited_def by (intro psubset_card_mono) auto
qed

text \<open>The result and the cache. The visited set grows with the depth, so the recursion ends.\<close>

function resolve_scope ::
    "'v scope_index \<Rightarrow> string \<Rightarrow> string list \<Rightarrow> scope_cache \<Rightarrow> scope_result \<times> scope_cache"
  and resolve_parents ::
    "'v scope_index \<Rightarrow> string list \<Rightarrow> string list \<Rightarrow> string list \<Rightarrow> scope_cache \<Rightarrow> scope_result \<times> scope_cache"
where
  "resolve_scope idx k visiting cache =
     (case map_of cache k of
        Some cached \<Rightarrow> (cached, cache)
      | None \<Rightarrow>
          (case map_of (si_nodes idx) k of
             None \<Rightarrow> (\<lparr>so_ids = [], so_valid = False\<rparr>, cache)
           | Some n \<Rightarrow>
               if is_scope_kind (n_kind n) then
                 (\<lparr>so_ids = [k], so_valid = True\<rparr>, AList.update k \<lparr>so_ids = [k], so_valid = True\<rparr> cache)
               else if k \<in> set visiting then (\<lparr>so_ids = [], so_valid = False\<rparr>, cache)
               else
                 (let (r, cache') = resolve_parents idx (parents_of (si_parents idx) k) (k # visiting) [] cache;
                      r' = r\<lparr>so_ids := unique_nonempty (so_ids r)\<rparr>
                  in (r', AList.update k r' cache'))))"
| "resolve_parents idx [] visiting ids cache = (\<lparr>so_ids = ids, so_valid = True\<rparr>, cache)"
| "resolve_parents idx (p # ps) visiting ids cache =
     (let (r, cache') = resolve_scope idx p visiting cache
      in if \<not> so_valid r then (\<lparr>so_ids = [], so_valid = False\<rparr>, cache')
         else resolve_parents idx ps visiting (ids @ so_ids r) cache')"
  by pat_completeness auto

termination
  by (relation "measures
    [case_sum (\<lambda>(idx, k, visiting, cache). unvisited idx visiting) (\<lambda>(idx, ps, visiting, ids, cache). unvisited idx visiting),
     case_sum (\<lambda>_. 0) (\<lambda>(idx, ps, visiting, ids, cache). Suc (length ps))]")
    (auto simp: unvisited_less)

definition scopes :: "'v scope_index \<Rightarrow> string \<Rightarrow> scope_cache \<Rightarrow> scope_result \<times> scope_cache" where
  "scopes idx k cache = resolve_scope idx k [] cache"

section \<open>Matching\<close>

definition openapi_plugin :: string where "openapi_plugin = ''rkc.openapi''"
definition jsonschema_plugin :: string where "jsonschema_plugin = ''rkc.json-schema''"

definition shared_scope_proof ::
  "'v scope_index \<Rightarrow> 'v edge \<Rightarrow> 'v node \<Rightarrow> 'v node \<Rightarrow> scope_cache \<Rightarrow> string option \<times> scope_cache" where
  "shared_scope_proof idx e caller candidate cache =
     (let (cs, cache1) = scopes idx (n_id caller) cache; (ds, cache2) = scopes idx (n_id candidate) cache1
      in (if \<not> so_valid cs \<or> \<not> so_valid ds then None
          else if length (so_ids cs) = 1 \<and> length (so_ids ds) = 1 then
            (if so_ids cs ! 0 = so_ids ds ! 0 then Some ''shared_language_scope'' else None)
          else if length (so_ids cs) \<noteq> 0 \<or> length (so_ids ds) \<noteq> 0 then None
          else if e_producer e \<noteq> openapi_plugin \<and> e_producer e \<noteq> jsonschema_plugin then None
          else if n_artifact_id caller = [] \<or> n_artifact_id candidate = [] \<or> n_artifact_id caller \<noteq> n_artifact_id candidate
          then None
          else Some ''framework_artifact'', cache2))"

definition resolution_domain :: "(string \<Rightarrow> string) \<Rightarrow> string \<Rightarrow> string" where
  "resolution_domain fold_case language =
     (let normalized = to_lower fold_case (trim_space language)
      in if normalized \<in> {''javascript'', ''js'', ''jsx'', ''typescript'', ''ts'', ''tsx''}
         then ''javascript-typescript'' else normalized)"

definition max_float :: "go_float \<Rightarrow> go_float \<Rightarrow> go_float" where
  "max_float a b = (if b < a then a else b)"

text \<open>The \<open>float64\<close> nearest to 0.65.\<close>

definition match_confidence :: go_float where
  "match_confidence = Finite (5854679515581645 / 9007199254740992)"

text \<open>The nodes under each pair of domain and spelling, in the order of the bundle.\<close>

type_synonym 'v symbol_table = "((string \<times> string) \<times> 'v node list) list"

definition symbols_at :: "'v symbol_table \<Rightarrow> string \<times> string \<Rightarrow> 'v node list" where
  "symbols_at m k = (case map_of m k of None \<Rightarrow> [] | Some ns \<Rightarrow> ns)"

definition is_candidate :: "(string \<Rightarrow> string) \<Rightarrow> 'v node \<Rightarrow> bool" where
  "is_candidate fold_case n \<longleftrightarrow> resolution_domain fold_case (n_language n) \<noteq> [] \<and> is_symbol_kind (n_kind n) \<and>
     n_kind n \<noteq> ''unresolved_symbol''"

definition add_symbol ::
  "(string \<Rightarrow> string) \<Rightarrow> ('v node \<Rightarrow> string) \<Rightarrow> 'v node \<Rightarrow> 'v symbol_table \<Rightarrow> 'v symbol_table" where
  "add_symbol fold_case spelling n m =
     (if is_candidate fold_case n \<and> spelling n \<noteq> []
      then let k = (resolution_domain fold_case (n_language n), spelling n)
           in AList.update k (symbols_at m k @ [n]) m
      else m)"

definition symbol_table :: "(string \<Rightarrow> string) \<Rightarrow> ('v node \<Rightarrow> string) \<Rightarrow> 'v node list \<Rightarrow> 'v symbol_table" where
  "symbol_table fold_case spelling nodes = fold (add_symbol fold_case spelling) nodes []"

record 'v resolver =
  rv_by_id :: "(string \<times> 'v node) list"
  rv_by_name :: "'v symbol_table"
  rv_by_qualified :: "'v symbol_table"
  rv_scopes :: "'v scope_index"

definition new_resolver :: "'v resolve_env \<Rightarrow> 'v model_bundle \<Rightarrow> 'v resolver" where
  "new_resolver env b =
     (let by_id = index_by n_id (bu_nodes b) in
      \<lparr>rv_by_id = by_id, rv_by_name = symbol_table (re_fold_case env) n_name (bu_nodes b),
       rv_by_qualified = symbol_table (re_fold_case env) n_qualified_name (bu_nodes b),
       rv_scopes = new_scope_index (re_fold_case env) b by_id\<rparr>)"

text \<open>The spelling to look up: a non-blank attribute, or else the name of the target.\<close>

definition edge_spelling :: "'v resolve_env \<Rightarrow> 'v edge \<Rightarrow> 'v node \<Rightarrow> string" where
  "edge_spelling env e target =
     (case map_of (e_attributes e) ''spelling'' of
        None \<Rightarrow> n_name target
      | Some v \<Rightarrow> (case re_as_string env v of
          None \<Rightarrow> n_name target
        | Some s \<Rightarrow> if blank s then n_name target else s))"

definition qualified_spelling :: "string \<Rightarrow> bool" where
  "qualified_spelling s \<longleftrightarrow> list_ex (\<lambda>c. c \<in> set ''./:#'') s"

fun scope_matches ::
  "'v scope_index \<Rightarrow> 'v edge \<Rightarrow> 'v node \<Rightarrow> 'v node list \<Rightarrow> scope_cache \<Rightarrow> ('v node \<times> string) list \<times> scope_cache" where
  "scope_matches idx e caller [] cache = ([], cache)"
| "scope_matches idx e caller (c # cs) cache =
     (let (proof, cache1) = shared_scope_proof idx e caller c cache;
          (matches, cache2) = scope_matches idx e caller cs cache1
      in ((case proof of None \<Rightarrow> matches | Some p \<Rightarrow> (c, p) # matches), cache2))"

definition candidate_matches ::
  "'v resolver \<Rightarrow> 'v edge \<Rightarrow> 'v node \<Rightarrow> string \<Rightarrow> string \<Rightarrow> scope_cache \<Rightarrow> ('v node \<times> string) list \<times> scope_cache" where
  "candidate_matches rv e caller domain spelling cache =
     (if qualified_spelling spelling
      then (map (\<lambda>c. (c, ''exact_qualified'')) (symbols_at (rv_by_qualified rv) (domain, spelling)), cache)
      else scope_matches (rv_scopes rv) e caller (symbols_at (rv_by_name rv) (domain, spelling)) cache)"

definition redirect_edge :: "'v resolve_env \<Rightarrow> 'v edge \<Rightarrow> 'v node \<Rightarrow> string \<Rightarrow> 'v edge" where
  "redirect_edge env e target proof = e\<lparr>
     e_to := n_id target, e_resolution := ''syntax_inferred'',
     e_confidence := max_float (e_confidence e) match_confidence,
     e_attributes := AList.update ''resolver_proof'' (re_of_text env proof)
       (AList.update ''resolver'' (re_of_text env ''unique_name_match'') (e_attributes e)),
     e_id := stable_id (re_sha12 env) ''edge'' [e_kind e, e_from e, n_id target]\<rparr>"

text \<open>The body of the loop: every \<open>continue\<close> leaves the edge as it is.\<close>

definition resolve_edge :: "'v resolve_env \<Rightarrow> 'v resolver \<Rightarrow> 'v edge \<Rightarrow> scope_cache \<Rightarrow> 'v edge \<times> scope_cache" where
  "resolve_edge env rv e cache =
     (if normalize_resolution (re_fold_case env) (e_resolution e) \<noteq> ''unresolved'' then (e, cache)
      else case map_of (rv_by_id rv) (e_to e) of
        None \<Rightarrow> (e, cache)
      | Some target \<Rightarrow>
          if n_kind target \<noteq> ''unresolved_symbol'' then (e, cache)
          else case map_of (rv_by_id rv) (e_from e) of
            None \<Rightarrow> (e, cache)
          | Some caller \<Rightarrow>
              (let caller_domain = resolution_domain (re_fold_case env) (n_language caller);
                   target_domain = resolution_domain (re_fold_case env) (n_language target);
                   spelling = edge_spelling env e target
               in if caller_domain = [] \<or> target_domain = [] \<or> caller_domain \<noteq> target_domain then (e, cache)
                  else if blank spelling then (e, cache)
                  else let (matches, cache') = candidate_matches rv e caller target_domain spelling cache
                    in (case matches of
                          [(c, p)] \<Rightarrow> if n_id c \<noteq> e_from e then redirect_edge env e c p else e
                        | _ \<Rightarrow> e, cache')))"

fun resolve_edges :: "'v resolve_env \<Rightarrow> 'v resolver \<Rightarrow> 'v edge list \<Rightarrow> scope_cache \<Rightarrow> 'v edge list" where
  "resolve_edges env rv [] cache = []"
| "resolve_edges env rv (e # es) cache =
     (let (e', cache') = resolve_edge env rv e cache in e' # resolve_edges env rv es cache')"

definition referenced :: "'v edge list \<Rightarrow> 'v node \<Rightarrow> bool" where
  "referenced edges n \<longleftrightarrow> list_ex (\<lambda>e. e_from e = n_id n \<or> e_to e = n_id n) edges"

definition resolve_heuristic_edges :: "'v resolve_env \<Rightarrow> 'v model_bundle \<Rightarrow> 'v model_bundle" where
  "resolve_heuristic_edges env b =
     (let edges = resolve_edges env (new_resolver env b) (bu_edges b) []
      in b\<lparr>bu_edges := edges,
           bu_nodes := filter (\<lambda>n. n_kind n \<noteq> ''unresolved_symbol'' \<or> referenced edges n) (bu_nodes b)\<rparr>)"

text \<open>The part of the scan that fixes the records: artifact nodes, deduplication, resolution, deduplication.\<close>

definition link_records ::
  "'v resolve_env \<Rightarrow> (string \<Rightarrow> 'v) \<Rightarrow> (int \<Rightarrow> 'v) \<Rightarrow> 'v model_bundle \<Rightarrow> 'v model_bundle" where
  "link_records env of_text of_number b =
     dedupe_bundle (re_fold_case env) (re_sha12 env) (resolve_heuristic_edges env
       (dedupe_bundle (re_fold_case env) (re_sha12 env) (update_artifact_nodes of_text of_number b)))"

end
