(* ===== verification/MergeTheorems.thy ===== *)
theory MergeTheorems
  imports Merge
begin

text \<open>
  What deduplication promises. The locale \<open>merging\<close> captures one family: how the first record of an identifier
  enters the map and how a later one is combined with it. Every family is an interpretation; from it follow
  unique identifiers, the same identifiers as before, no lost support, and idempotence.
\<close>

section \<open>Sorted identifier lists\<close>

lemma set_unique_nonempty [simp]: "set (unique_nonempty vs) = set vs - {[]}"
  by (auto simp: unique_nonempty_def)

lemma unique_nonempty_props [simp]: "sorted (unique_nonempty vs)" "distinct (unique_nonempty vs)"
  by (simp_all add: unique_nonempty_def)

lemma unique_nonempty_idem [simp]: "unique_nonempty (unique_nonempty vs) = unique_nonempty vs"
proof -
  have "filter (\<lambda>v. v \<noteq> []) (unique_nonempty vs) = unique_nonempty vs" by (auto simp: filter_id_conv)
  then show ?thesis unfolding unique_nonempty_def [of "unique_nonempty vs"] by (simp add: sorted_keys_id)
qed

lemma unique_nonempty_sorted: "unique_nonempty vs = vs \<Longrightarrow> sort vs = vs"
  by (metis sorted_sort_id unique_nonempty_props(1))

lemma update_nonkey: "k \<notin> set (keys m) \<Longrightarrow> AList.update k v m = m @ [(k, v)]"
  by (induction m) (auto simp: keys_def)

section \<open>One family\<close>

locale merging =
  fixes key :: "'r \<Rightarrow> string"
    and first :: "'r \<Rightarrow> 'r"
    and combine :: "'r \<Rightarrow> 'r \<Rightarrow> 'r"
    and tidy :: "'r \<Rightarrow> bool"
  assumes key_first [simp]: "key (first r) = key r"
    and key_combine: "key c = key r \<Longrightarrow> key (combine c r) = key r"
    and tidy_first: "tidy (first r)"
    and tidy_combine: "tidy c \<Longrightarrow> tidy (combine c r)"
    and first_tidy: "tidy r \<Longrightarrow> first r = r"
begin

definition merged :: "'r list \<Rightarrow> 'r list" where
  "merged rs = map snd (merge_records key first combine rs)"

definition step :: "'r \<Rightarrow> (string \<times> 'r) list \<Rightarrow> (string \<times> 'r) list" where
  "step r m = AList.update (key r) (case map_of m (key r) of None \<Rightarrow> first r | Some c \<Rightarrow> combine c r) m"

lemma merge_records_step: "merge_records key first combine rs = fold step rs []"
  unfolding merge_records_def step_def by (rule refl)

lemma map_of_step:
  "map_of (step r m) k =
     (if k = key r then Some (case map_of m (key r) of None \<Rightarrow> first r | Some c \<Rightarrow> combine c r) else map_of m k)"
  by (simp add: step_def)

lemma wf_fold_step: "wf_map m \<Longrightarrow> wf_map (fold step rs m)"
  by (induction rs arbitrary: m) (simp_all add: step_def)

text \<open>An invariant of all values of the map.\<close>

lemma values_induct:
  assumes "\<forall>(k, v) \<in> set m. P v \<and> key v = k" and "wf_map m"
    and "\<And>r. r \<in> set rs \<Longrightarrow> P (first r)"
    and "\<And>c r. r \<in> set rs \<Longrightarrow> P c \<Longrightarrow> key c = key r \<Longrightarrow> P (combine c r)"
  shows "\<forall>(k, v) \<in> set (fold step rs m). P v \<and> key v = k"
  using assms
proof (induction rs arbitrary: m)
  case (Cons r rs)
  have "\<forall>(k, v) \<in> set (step r m). P v \<and> key v = k"
  proof (clarify)
    fix k v assume "(k, v) \<in> set (step r m)"
    then have "map_of (step r m) k = Some v"
      using wf_map_map_of [of "step r m" k v] Cons.prems(2) by (simp add: step_def)
    then have v: "if k = key r then v = (case map_of m (key r) of None \<Rightarrow> first r | Some c \<Rightarrow> combine c r)
        else map_of m k = Some v"
      by (simp add: map_of_step split: if_splits)
    have old: "P c \<and> key c = k'" if "map_of m k' = Some c" for k' c
      using Cons.prems(1) map_of_SomeD [OF that] by auto
    show "P v \<and> key v = k"
    proof (cases "k = key r")
      case True
      show ?thesis
      proof (cases "map_of m (key r)")
        case None
        then show ?thesis using True v Cons.prems(3) [of r] by simp
      next
        case (Some c)
        then show ?thesis using True v old [OF Some] Cons.prems(4) [of r c] key_combine [of c r] by simp
      qed
    qed (use v old in simp)
  qed
  then show ?case using Cons.IH [of "step r m"] Cons.prems by (simp add: step_def)
qed simp

lemma merged_induct:
  assumes "\<And>r. r \<in> set rs \<Longrightarrow> P (first r)"
    and "\<And>c r. r \<in> set rs \<Longrightarrow> P c \<Longrightarrow> key c = key r \<Longrightarrow> P (combine c r)"
  shows "\<forall>v \<in> set (merged rs). P v"
  using values_induct [of "[]" P rs] assms by (fastforce simp: merged_def merge_records_step)

lemma entries: "\<forall>(k, v) \<in> set (fold step rs []). key v = k"
  using values_induct [of "[]" "\<lambda>_. True" rs] by auto

lemma key_merged: "map key (merged rs) = keys (fold step rs [])"
  using entries [of rs] by (auto simp: merged_def merge_records_step keys_def)

lemma distinct_merged: "distinct (map key (merged rs))"
  using wf_fold_step [of "[]" rs] by (simp add: key_merged flip: wf_map_def)

lemma ids_merged: "key ` set (merged rs) = key ` set rs"
proof -
  have "set (keys (fold step rs m)) = key ` set rs \<union> set (keys m)" for m
    by (induction rs arbitrary: m) (auto simp: step_def)
  then have "set (map key (merged rs)) = key ` set rs" by (simp add: key_merged) (simp add: keys_def)
  then show ?thesis by simp
qed

lemma merged_tidy: "\<forall>v \<in> set (merged rs). tidy v"
  by (rule merged_induct) (auto intro: tidy_first tidy_combine)

text \<open>Tidy records with different identifiers are left alone.\<close>

lemma merged_distinct:
  assumes "distinct (map key rs)" "\<forall>r \<in> set rs. tidy r"
  shows "merged rs = rs"
proof -
  have "fold step rs m = m @ map (\<lambda>r. (key r, r)) rs"
    if "distinct (map key rs)" "\<forall>r \<in> set rs. tidy r" "set (keys m) \<inter> key ` set rs = {}" for rs m
    using that
  proof (induction rs arbitrary: m)
    case (Cons r rs)
    then have new: "key r \<notin> set (keys m)" by auto
    then have "step r m = m @ [(key r, r)]"
      using Cons.prems(2) map_of_None_keys [of m "key r"]
      by (simp add: step_def first_tidy update_nonkey keys_def)
    then show ?case using Cons by (simp add: keys_def)
  qed simp
  from this [of rs "[]"] show ?thesis using assms by (simp add: merged_def merge_records_step keys_def comp_def)
qed

text \<open>What a merged record keeps of every record with its identifier.\<close>

lemma fold_step_keeps:
  assumes "\<And>c r x. key c = key x \<Longrightarrow> covers c r \<Longrightarrow> covers (combine c x) r"
    and "map_of m k = Some c" "covers c r" "\<forall>(k, v) \<in> set m. key v = k" "wf_map m"
  shows "\<exists>v. map_of (fold step xs m) k = Some v \<and> covers v r"
  using assms(2-)
proof (induction xs arbitrary: m c)
  case (Cons x xs)
  have "\<forall>(k, v) \<in> set (step x m). key v = k"
    using values_induct [of m "\<lambda>_. True" "[x]"] Cons.prems(3,4) by simp
  moreover have "key c = k" using Cons.prems(3) map_of_SomeD [OF Cons.prems(1)] by auto
  then have "\<exists>c'. map_of (step x m) k = Some c' \<and> covers c' r"
    using Cons.prems(1,2) assms(1) [of c x r] by (auto simp: map_of_step)
  moreover have "wf_map (step x m)" using Cons.prems(4) by (simp add: step_def)
  ultimately show ?case using Cons.IH by fastforce
qed simp

lemma merged_covers:
  assumes "\<And>r. covers (first r) r" and "\<And>c r. key c = key r \<Longrightarrow> covers (combine c r) r"
    and "\<And>c r x. key c = key x \<Longrightarrow> covers c r \<Longrightarrow> covers (combine c x) r" and "r \<in> set rs"
  shows "\<exists>v \<in> set (merged rs). key v = key r \<and> covers v r"
proof -
  obtain ys zs where rs: "rs = ys @ r # zs" using assms(4) by (auto simp: in_set_conv_decomp)
  let ?m = "step r (fold step ys [])"
  have "key c = key r" if "map_of (fold step ys []) (key r) = Some c" for c
    using entries [of ys] map_of_SomeD [OF that] by auto
  then have "\<exists>c. map_of ?m (key r) = Some c \<and> covers c r"
    using assms(1,2) by (cases "map_of (fold step ys []) (key r)") (auto simp: map_of_step)
  moreover have "\<forall>(k, v) \<in> set ?m. key v = k" using entries [of "ys @ [r]"] by simp
  moreover have "wf_map ?m" using wf_fold_step [of "[]" "ys @ [r]"] by simp
  ultimately obtain v where v: "map_of (fold step zs ?m) (key r) = Some v" "covers v r"
    using fold_step_keeps [of covers ?m "key r" _ r zs] assms(3) by blast
  then have "(key r, v) \<in> set (fold step rs [])" by (simp add: rs map_of_SomeD)
  then have "v \<in> set (merged rs)" "key v = key r"
    using entries [of rs] by (auto simp: merged_def merge_records_step intro: rev_image_eqI)
  then show ?thesis using v(2) by blast
qed

end

section \<open>The families\<close>

lemma merge_node_id [simp]: "n_id (merge_node c r) = n_id c"
  by (simp add: merge_node_def merge_owner_def merge_source_def Let_def split: option.split)

lemma merge_node_fields [simp]:
  "n_evidence_ids (merge_node c r) = unique_nonempty (n_evidence_ids c @ n_evidence_ids r)"
  "n_public_surface (merge_node c r) \<longleftrightarrow> n_public_surface c \<or> n_public_surface r"
  "n_attributes (merge_node c r) = merge_attributes (n_attributes c) (n_attributes r)"
  "n_kind (merge_node c r) = n_kind c" "n_name (merge_node c r) = n_name c"
  "n_logical_id (merge_node c r) = (if n_logical_id c = [] then n_logical_id r else n_logical_id c)"
  "n_source (merge_node c r) = (case n_source c of None \<Rightarrow> n_source r | Some s \<Rightarrow> Some s)"
  by (simp_all add: merge_node_def merge_owner_def merge_source_def Let_def split: option.split)

lemma merge_edge_fields [simp]:
  "e_id (merge_edge fold_case c r) = e_id c" "e_from (merge_edge fold_case c r) = e_from c"
  "e_to (merge_edge fold_case c r) = e_to c" "e_kind (merge_edge fold_case c r) = e_kind c"
  "e_evidence_ids (merge_edge fold_case c r) = unique_nonempty (e_evidence_ids c @ e_evidence_ids r)"
  "e_attributes (merge_edge fold_case c r) = merge_attributes (e_attributes c) (e_attributes r)"
  "e_resolution (merge_edge fold_case c r) =
     (if resolution_rank fold_case (e_resolution c) < resolution_rank fold_case (e_resolution r)
      then e_resolution r else e_resolution c)"
  by (simp_all add: merge_edge_def Let_def)

definition tidy_node :: "'v node \<Rightarrow> bool" where
  "tidy_node n \<longleftrightarrow> unique_nonempty (n_evidence_ids n) = n_evidence_ids n"

definition tidy_edge :: "'v edge \<Rightarrow> bool" where
  "tidy_edge e \<longleftrightarrow> unique_nonempty (e_evidence_ids e) = e_evidence_ids e"

interpretation artifact_merge: merging a_id id stronger_artifact "\<lambda>_. True"
  by unfold_locales (simp_all add: stronger_artifact_def)

interpretation evidence_merge: merging evd_id id keep_first "\<lambda>_. True"
  by unfold_locales (simp_all add: keep_first_def)

interpretation node_merge: merging n_id first_node merge_node tidy_node
  by unfold_locales (simp_all add: first_node_def tidy_node_def)

interpretation edge_merge: merging e_id first_edge "merge_edge fold_case" tidy_edge for fold_case
  by unfold_locales (simp_all add: first_edge_def tidy_edge_def)

interpretation diagnostic_merge: merging dg_id id keep_first "\<lambda>_. True"
  by unfold_locales (simp_all add: keep_first_def)

interpretation document_merge: merging doc_id id keep_last "\<lambda>_. True"
  by unfold_locales (simp_all add: keep_last_def)

interpretation claim_merge: merging cl_id id keep_last "\<lambda>_. True"
  by unfold_locales (simp_all add: keep_last_def)

interpretation conflict_merge: merging cf_id id keep_last "\<lambda>_. True"
  by unfold_locales (simp_all add: keep_last_def)

interpretation path_merge: merging ep_id id keep_last "\<lambda>_. True"
  by unfold_locales (simp_all add: keep_last_def)

lemmas merged_defs = artifact_merge.merged_def evidence_merge.merged_def node_merge.merged_def edge_merge.merged_def
  diagnostic_merge.merged_def document_merge.merged_def claim_merge.merged_def conflict_merge.merged_def
  path_merge.merged_def

lemmas merged_ids = artifact_merge.ids_merged evidence_merge.ids_merged node_merge.ids_merged edge_merge.ids_merged
  diagnostic_merge.ids_merged document_merge.ids_merged claim_merge.ids_merged conflict_merge.ids_merged
  path_merge.ids_merged

lemmas merged_distinct_ids = artifact_merge.distinct_merged evidence_merge.distinct_merged node_merge.distinct_merged
  edge_merge.distinct_merged diagnostic_merge.distinct_merged document_merge.distinct_merged
  claim_merge.distinct_merged conflict_merge.distinct_merged path_merge.distinct_merged

text \<open>The bundle before it is sorted.\<close>

definition merged_bundle :: "(string \<Rightarrow> string) \<Rightarrow> (string \<Rightarrow> string) \<Rightarrow> 'v model_bundle \<Rightarrow> 'v model_bundle" where
  "merged_bundle fold_case sha12 b = b\<lparr>
     bu_artifacts := artifact_merge.merged (bu_artifacts b), bu_evidence := evidence_merge.merged (bu_evidence b),
     bu_nodes := node_merge.merged (bu_nodes b),
     bu_edges := edge_merge.merged fold_case (map (normal_edge fold_case sha12) (bu_edges b)),
     bu_diagnostics := diagnostic_merge.merged (bu_diagnostics b),
     bu_documents := document_merge.merged (bu_documents b), bu_claims := claim_merge.merged (bu_claims b),
     bu_conflicts := conflict_merge.merged (bu_conflicts b), bu_paths := path_merge.merged (bu_paths b)\<rparr>"

lemma dedupe_merged: "dedupe_bundle fold_case sha12 b = sort_bundle fold_case (merged_bundle fold_case sha12 b)"
  by (simp add: dedupe_bundle_def merged_bundle_def dedupe_edges_def merged_defs)

text \<open>The identifier an edge is stored under.\<close>

definition edge_ident :: "(string \<Rightarrow> string) \<Rightarrow> 'v edge \<Rightarrow> string" where
  "edge_ident sha12 e = (if e_id e = [] then stable_id sha12 ''edge'' [e_kind e, e_from e, e_to e] else e_id e)"

lemma normal_edge_id [simp]: "e_id (normal_edge fold_case sha12 e) = edge_ident sha12 e"
  by (simp add: normal_edge_def edge_ident_def)

lemma edge_ident_nonempty [simp]: "edge_ident sha12 e \<noteq> []" "[] \<noteq> edge_ident sha12 e"
  by (auto simp: edge_ident_def stable_id_def split: if_splits)

lemma dedupe_sets:
  "set (bu_artifacts (dedupe_bundle fold_case sha12 b)) = set (artifact_merge.merged (bu_artifacts b))"
  "set (bu_nodes (dedupe_bundle fold_case sha12 b)) = sort_node ` set (node_merge.merged (bu_nodes b))"
  "set (bu_edges (dedupe_bundle fold_case sha12 b)) = sort_edge fold_case `
     set (edge_merge.merged fold_case (map (normal_edge fold_case sha12) (bu_edges b)))"
  by (simp_all add: dedupe_merged sort_bundle_def merged_bundle_def)

lemma distinct_ids_sort: "distinct_ids (sort_bundle fold_case b) \<longleftrightarrow> distinct_ids b"
proof -
  have sorted: "distinct (map k (sort_key k' xs)) \<longleftrightarrow> distinct (map k xs)" for k and k' :: "_ \<Rightarrow> 'b::linorder" and xs
    by (intro mset_eq_imp_distinct_iff) simp
  show ?thesis by (simp add: distinct_ids_def sort_bundle_def comp_def) (simp add: distinct_map)
qed

text \<open>
  After deduplication every identifier occurs once in its family, and the identifiers are exactly those
  that were collected; an edge without one has got a stable identifier.
\<close>

lemma dedupe_unique_ids:
  "distinct_ids (dedupe_bundle fold_case sha12 b) \<and>
   all_artifacts (dedupe_bundle fold_case sha12 b) = all_artifacts b \<and>
   all_nodes (dedupe_bundle fold_case sha12 b) = all_nodes b \<and>
   all_evidence (dedupe_bundle fold_case sha12 b) = all_evidence b \<and>
   all_claims (dedupe_bundle fold_case sha12 b) = all_claims b \<and>
   e_id ` set (bu_edges (dedupe_bundle fold_case sha12 b)) = edge_ident sha12 ` set (bu_edges b) \<and>
   dg_id ` set (bu_diagnostics (dedupe_bundle fold_case sha12 b)) = dg_id ` set (bu_diagnostics b) \<and>
   doc_id ` set (bu_documents (dedupe_bundle fold_case sha12 b)) = doc_id ` set (bu_documents b) \<and>
   cf_id ` set (bu_conflicts (dedupe_bundle fold_case sha12 b)) = cf_id ` set (bu_conflicts b) \<and>
   ep_id ` set (bu_paths (dedupe_bundle fold_case sha12 b)) = ep_id ` set (bu_paths b)"
proof -
  have "distinct_ids (dedupe_bundle fold_case sha12 b)"
    unfolding dedupe_merged distinct_ids_sort by (simp add: distinct_ids_def merged_bundle_def merged_distinct_ids)
  then show ?thesis
    by (simp add: dedupe_merged all_ids_defs sort_bundle_def merged_bundle_def image_image merged_ids)
qed

section \<open>Deduplicating twice\<close>

lemma sort_node_tidy: "tidy_node n \<Longrightarrow> sort_node n = n"
  by (simp add: tidy_node_def sort_node_def unique_nonempty_sorted)

lemma tidy_sort_node: "tidy_node n \<Longrightarrow> tidy_node (sort_node n)"
  by (simp add: sort_node_tidy)

lemma tidy_sort_edge: "tidy_edge e \<Longrightarrow> tidy_edge (sort_edge fold_case e)"
  using unique_nonempty_sorted [of "e_evidence_ids e"] by (simp add: tidy_edge_def sort_edge_def)

lemma normal_sort_edge:
  "lower_stable fold_case \<Longrightarrow> e_id e \<noteq> [] \<Longrightarrow>
   normal_edge fold_case sha12 (sort_edge fold_case e) = sort_edge fold_case e"
  by (simp add: normal_edge_def sort_edge_def normalize_resolution_idem)

lemma merged_bundle_fixed:
  assumes "lower_stable fold_case"
  shows "merged_bundle fold_case sha12 (dedupe_bundle fold_case sha12 b) = dedupe_bundle fold_case sha12 b"
proof -
  let ?d = "dedupe_bundle fold_case sha12 b"
  have ids: "distinct_ids ?d" by (simp add: dedupe_unique_ids)
  note distinct = ids [unfolded distinct_ids_def]
  have nodes: "\<forall>n \<in> set (bu_nodes ?d). tidy_node n"
    using node_merge.merged_tidy by (auto simp: dedupe_sets intro: tidy_sort_node)
  have named: "e_id e \<noteq> []" if "e \<in> set (edge_merge.merged fold_case (map (normal_edge fold_case sha12) (bu_edges b)))" for e
  proof -
    have "e_id e \<in> e_id ` set (map (normal_edge fold_case sha12) (bu_edges b))"
      using imageI [OF that, of e_id] by (simp only: edge_merge.ids_merged)
    then have "\<exists>x \<in> set (bu_edges b). e_id e = edge_ident sha12 x" by auto
    then show ?thesis by auto
  qed
  have "\<forall>e \<in> set (bu_edges ?d). tidy_edge e \<and> normal_edge fold_case sha12 e = e"
    using edge_merge.merged_tidy named by (auto simp: dedupe_sets normal_sort_edge [OF assms] intro: tidy_sort_edge)
  then have "edge_merge.merged fold_case (map (normal_edge fold_case sha12) (bu_edges ?d)) = bu_edges ?d"
    using distinct edge_merge.merged_distinct [of "bu_edges ?d" fold_case] by (simp add: map_idI)
  then show ?thesis
    unfolding merged_bundle_def
    using distinct nodes artifact_merge.merged_distinct [of "bu_artifacts ?d"]
      evidence_merge.merged_distinct [of "bu_evidence ?d"] node_merge.merged_distinct [of "bu_nodes ?d"]
      diagnostic_merge.merged_distinct [of "bu_diagnostics ?d"] document_merge.merged_distinct [of "bu_documents ?d"]
      claim_merge.merged_distinct [of "bu_claims ?d"] conflict_merge.merged_distinct [of "bu_conflicts ?d"]
      path_merge.merged_distinct [of "bu_paths ?d"]
    by simp
qed

text \<open>
  Deduplication is idempotent: the pipeline may run it after every stage without changing what an earlier
  run established.
\<close>

theorem dedupe_idem:
  assumes "lower_stable fold_case"
  shows "dedupe_bundle fold_case sha12 (dedupe_bundle fold_case sha12 b) = dedupe_bundle fold_case sha12 b"
proof -
  have "dedupe_bundle fold_case sha12 (dedupe_bundle fold_case sha12 b) =
      sort_bundle fold_case (dedupe_bundle fold_case sha12 b)"
    unfolding dedupe_merged [of _ _ "dedupe_bundle fold_case sha12 b"] merged_bundle_fixed [OF assms] by (rule refl)
  then show ?thesis unfolding dedupe_merged [of _ _ b] by (simp add: sort_bundle_idem [OF assms])
qed

section \<open>No support is lost\<close>

lemma map_of_merge_attributes:
  "map_of (merge_attributes current item) k =
     (case map_of current k of None \<Rightarrow> map_of item k | Some v \<Rightarrow> Some v)"
  unfolding merge_attributes_def
proof (induction item arbitrary: current)
  case (Cons entry item)
  show ?case by (cases entry; cases "map_of current (fst entry)") (auto simp: Cons.IH split: option.split)
qed (simp split: option.split)

text \<open>What a merged record keeps of a collected one.\<close>

definition node_covers :: "'v node \<Rightarrow> 'v node \<Rightarrow> bool" where
  "node_covers v n \<longleftrightarrow> set (n_evidence_ids n) - {[]} \<subseteq> set (n_evidence_ids v) \<and>
     (n_public_surface n \<longrightarrow> n_public_surface v) \<and> (n_source n \<noteq> None \<longrightarrow> n_source v \<noteq> None) \<and>
     (n_logical_id n \<noteq> [] \<longrightarrow> n_logical_id v \<noteq> []) \<and>
     dom (map_of (n_attributes n)) \<subseteq> dom (map_of (n_attributes v))"

definition edge_covers :: "(string \<Rightarrow> string) \<Rightarrow> 'v edge \<Rightarrow> 'v edge \<Rightarrow> bool" where
  "edge_covers fold_case v e \<longleftrightarrow> set (e_evidence_ids e) - {[]} \<subseteq> set (e_evidence_ids v) \<and>
     resolution_rank fold_case (e_resolution e) \<le> resolution_rank fold_case (e_resolution v) \<and>
     dom (map_of (e_attributes e)) \<subseteq> dom (map_of (e_attributes v))"

text \<open>Resolution, confidence and producer of an edge belong together.\<close>

definition same_support :: "'v edge \<Rightarrow> 'v edge \<Rightarrow> bool" where
  "same_support v e \<longleftrightarrow> e_id v = e_id e \<and> e_resolution v = e_resolution e \<and> e_confidence v = e_confidence e \<and>
     e_producer v = e_producer e"

lemma node_covers_merge:
  "node_covers (merge_node c r) r" "node_covers c r \<Longrightarrow> node_covers (merge_node c x) r" "node_covers (first_node r) r"
  by (auto simp: node_covers_def first_node_def map_of_merge_attributes dom_def split: option.splits if_splits)

lemma edge_covers_merge:
  "edge_covers fold_case (merge_edge fold_case c r) r"
  "edge_covers fold_case c r \<Longrightarrow> edge_covers fold_case (merge_edge fold_case c x) r"
  "edge_covers fold_case (first_edge r) r"
  by (auto simp: edge_covers_def first_edge_def map_of_merge_attributes dom_def split: option.splits)

lemma merged_support:
  "\<forall>v \<in> set (edge_merge.merged fold_case es). \<exists>e \<in> set es. same_support v e"
proof (rule edge_merge.merged_induct)
  fix c r assume "r \<in> set es" "\<exists>e \<in> set es. same_support c e" "e_id c = e_id r"
  then show "\<exists>e \<in> set es. same_support (merge_edge fold_case c r) e"
    by (auto simp: same_support_def merge_edge_def Let_def)
qed (auto simp: same_support_def first_edge_def)

lemma rank_normalize: "lower_stable fold_case \<Longrightarrow>
    resolution_rank fold_case (normalize_resolution fold_case r) = resolution_rank fold_case r"
  by (simp add: resolution_rank_def normalize_resolution_idem)

lemma dedupe_covers_artifact:
  assumes "a \<in> set (bu_artifacts b)"
  shows "\<exists>v \<in> set (bu_artifacts (dedupe_bundle fold_case sha12 b)) \<inter> set (bu_artifacts b).
    a_id v = a_id a \<and> artifact_rank (a_status a) \<le> artifact_rank (a_status v)"
proof -
  have "\<exists>v \<in> set (artifact_merge.merged (bu_artifacts b)). a_id v = a_id a \<and> artifact_rank (a_status a) \<le> artifact_rank (a_status v)"
    by (rule artifact_merge.merged_covers) (auto simp: stronger_artifact_def assms)
  moreover have "\<forall>v \<in> set (artifact_merge.merged (bu_artifacts b)). v \<in> set (bu_artifacts b)"
    by (rule artifact_merge.merged_induct) (auto simp: stronger_artifact_def)
  ultimately show ?thesis by (auto simp: dedupe_sets)
qed

lemma dedupe_covers_node:
  assumes "n \<in> set (bu_nodes b)"
  shows "\<exists>v \<in> set (bu_nodes (dedupe_bundle fold_case sha12 b)). n_id v = n_id n \<and> node_covers v n"
proof -
  have "\<exists>v \<in> set (node_merge.merged (bu_nodes b)). n_id v = n_id n \<and> node_covers v n"
    by (rule node_merge.merged_covers) (auto simp: node_covers_merge assms)
  moreover have "\<forall>v \<in> set (node_merge.merged (bu_nodes b)). sort_node v = v"
    using node_merge.merged_tidy sort_node_tidy by blast
  ultimately show ?thesis by (auto simp: dedupe_sets)
qed

lemma dedupe_covers_edge:
  assumes "lower_stable fold_case" and "e \<in> set (bu_edges b)"
  shows "\<exists>v \<in> set (bu_edges (dedupe_bundle fold_case sha12 b)). e_id v = edge_ident sha12 e \<and> edge_covers fold_case v e"
proof -
  let ?e = "normal_edge fold_case sha12 e"
  have "\<exists>v \<in> set (edge_merge.merged fold_case (map (normal_edge fold_case sha12) (bu_edges b))).
      e_id v = e_id ?e \<and> edge_covers fold_case v ?e"
    by (rule edge_merge.merged_covers) (auto simp: edge_covers_merge assms(2))
  then obtain v where v: "v \<in> set (edge_merge.merged fold_case (map (normal_edge fold_case sha12) (bu_edges b)))"
      "e_id v = edge_ident sha12 e" "edge_covers fold_case v ?e" by auto
  then have "edge_covers fold_case (sort_edge fold_case v) e"
    by (simp add: edge_covers_def sort_edge_def normal_edge_def rank_normalize [OF assms(1)])
  then show ?thesis using v by (force simp: dedupe_sets)
qed

lemma dedupe_edge_support:
  assumes "lower_stable fold_case" and "v \<in> set (bu_edges (dedupe_bundle fold_case sha12 b))"
  shows "\<exists>e \<in> set (bu_edges b). same_support v (normal_edge fold_case sha12 e)"
proof -
  obtain w where w: "w \<in> set (edge_merge.merged fold_case (map (normal_edge fold_case sha12) (bu_edges b)))"
      "v = sort_edge fold_case w" using assms(2) by (auto simp: dedupe_sets)
  then obtain e where e: "e \<in> set (bu_edges b)" "same_support w (normal_edge fold_case sha12 e)"
    using merged_support [of fold_case "map (normal_edge fold_case sha12) (bu_edges b)"] by fastforce
  then have "same_support v (normal_edge fold_case sha12 e)"
    using normalize_resolution_idem [OF assms(1)] by (simp add: w(2) same_support_def sort_edge_def normal_edge_def)
  then show ?thesis using e(1) by blast
qed


end
