(* ===== verification/ResolveTheorems.thy ===== *)
theory ResolveTheorems
  imports Resolve MergeTheorems
begin

text \<open>
  The memoised search for enclosing scopes computes what a declarative description says, whatever earlier queries
  left in the cache; so every edge is resolved as if it were the only one. An edge is redirected only to the
  one symbol its spelling can mean, and linking keeps the graph closed.
\<close>

section \<open>Scopes, declaratively\<close>

definition scope_node :: "'v scope_index \<Rightarrow> string \<Rightarrow> bool" where
  "scope_node idx k \<longleftrightarrow> (\<exists>n. map_of (si_nodes idx) k = Some n \<and> is_scope_kind (n_kind n))"

text \<open>One step up from a node that is no scope.\<close>

definition climbs :: "'v scope_index \<Rightarrow> string \<Rightarrow> string \<Rightarrow> bool" where
  "climbs idx k p \<longleftrightarrow> (\<exists>n. map_of (si_nodes idx) k = Some n \<and> \<not> is_scope_kind (n_kind n)) \<and>
     p \<in> set (parents_of (si_parents idx) k)"

text \<open>Climbing from the node always ends, and never at an unknown node.\<close>

inductive grounded :: "'v scope_index \<Rightarrow> string \<Rightarrow> bool" for idx where
  scope: "scope_node idx k \<Longrightarrow> grounded idx k"
| climb: "map_of (si_nodes idx) k = Some n \<Longrightarrow> \<not> is_scope_kind (n_kind n) \<Longrightarrow>
    (\<And>p. p \<in> set (parents_of (si_parents idx) k) \<Longrightarrow> grounded idx p) \<Longrightarrow> grounded idx k"

definition enclosing :: "'v scope_index \<Rightarrow> string \<Rightarrow> string set" where
  "enclosing idx k = {s. (climbs idx)\<^sup>*\<^sup>* k s \<and> scope_node idx s}"

text \<open>What the search is to return for a node.\<close>

definition scope_correct :: "'v scope_index \<Rightarrow> string \<Rightarrow> scope_result \<Rightarrow> bool" where
  "scope_correct idx k r \<longleftrightarrow> (so_valid r \<longleftrightarrow> grounded idx k) \<and> (\<not> so_valid r \<longrightarrow> so_ids r = []) \<and>
     (so_valid r \<longrightarrow> sorted (so_ids r) \<and> distinct (so_ids r) \<and> set (so_ids r) = enclosing idx k)"

lemma scope_correct_unique: "scope_correct idx k r \<Longrightarrow> scope_correct idx k r' \<Longrightarrow> r = r'"
  by (cases r; cases r') (auto simp: scope_correct_def intro: sorted_distinct_set_unique)

lemma grounded_known: "grounded idx k \<Longrightarrow> map_of (si_nodes idx) k \<noteq> None"
  by (induction rule: grounded.induct) (auto simp: scope_node_def)

lemma scope_no_climb: "scope_node idx k \<Longrightarrow> \<not> climbs idx k p"
  by (auto simp: scope_node_def climbs_def)

lemma grounded_iff_parents:
  "map_of (si_nodes idx) k = Some n \<Longrightarrow> \<not> is_scope_kind (n_kind n) \<Longrightarrow>
   grounded idx k \<longleftrightarrow> (\<forall>p \<in> set (parents_of (si_parents idx) k). grounded idx p)"
  by (auto elim: grounded.cases intro: grounded.climb simp: scope_node_def)

lemma grounded_acyclic: "grounded idx k \<Longrightarrow> \<not> (climbs idx)\<^sup>+\<^sup>+ k k"
proof (induction rule: grounded.induct)
  case (scope k)
  then show ?case by (auto dest: tranclpD scope_no_climb)
next
  case (climb k n)
  show ?case
  proof
    assume "(climbs idx)\<^sup>+\<^sup>+ k k"
    then obtain p where "climbs idx k p" "(climbs idx)\<^sup>*\<^sup>* p k" using tranclpD by fastforce
    then have "(climbs idx)\<^sup>+\<^sup>+ p p" by (rule rtranclp_into_tranclp1 [rotated])
    then show False using climb.IH [of p] \<open>climbs idx k p\<close> unfolding climbs_def [of idx k p] by blast
  qed
qed

lemma climb_star: "(climbs idx)\<^sup>*\<^sup>* k s \<longleftrightarrow> k = s \<or> (\<exists>p. climbs idx k p \<and> (climbs idx)\<^sup>*\<^sup>* p s)"
  by (metis converse_rtranclpE converse_rtranclp_into_rtranclp rtranclp.rtrancl_refl)

lemma enclosing_scope: "scope_node idx k \<Longrightarrow> enclosing idx k = {k}"
proof (intro set_eqI)
  fix s assume k: "scope_node idx k"
  then have "(climbs idx)\<^sup>*\<^sup>* k s \<longleftrightarrow> k = s" using scope_no_climb climb_star [of idx k s] by metis
  then show "s \<in> enclosing idx k \<longleftrightarrow> s \<in> {k}" using k by (auto simp: enclosing_def)
qed

lemma enclosing_climb:
  assumes "map_of (si_nodes idx) k = Some n" "\<not> is_scope_kind (n_kind n)"
  shows "enclosing idx k = (\<Union>p \<in> set (parents_of (si_parents idx) k). enclosing idx p)"
proof -
  have "\<not> scope_node idx k" using assms by (simp add: scope_node_def)
  moreover have "climbs idx k p \<longleftrightarrow> p \<in> set (parents_of (si_parents idx) k)" for p
    using assms by (simp add: climbs_def)
  ultimately show ?thesis
    using climb_star [of idx k] by (auto simp: enclosing_def)
qed

section \<open>The memoised search\<close>

definition cache_ok :: "'v scope_index \<Rightarrow> scope_cache \<Rightarrow> bool" where
  "cache_ok idx cache \<longleftrightarrow> (\<forall>k r. map_of cache k = Some r \<longrightarrow> scope_correct idx k r)"

lemma cache_ok_Nil [simp]: "cache_ok idx []"
  by (simp add: cache_ok_def)

lemma cache_ok_update: "cache_ok idx cache \<Longrightarrow> scope_correct idx k r \<Longrightarrow> cache_ok idx (AList.update k r cache)"
  by (simp add: cache_ok_def)

text \<open>No node has the empty identifier.\<close>

definition named_scopes :: "'v scope_index \<Rightarrow> bool" where
  "named_scopes idx \<longleftrightarrow> map_of (si_nodes idx) [] = None"

lemma enclosing_named: "named_scopes idx \<Longrightarrow> [] \<notin> enclosing idx k"
  by (auto simp: named_scopes_def enclosing_def scope_node_def)

text \<open>The nodes being visited lie below the node in question.\<close>

definition below :: "'v scope_index \<Rightarrow> string list \<Rightarrow> string \<Rightarrow> bool" where
  "below idx visiting k \<longleftrightarrow> (\<forall>v \<in> set visiting. (climbs idx)\<^sup>+\<^sup>+ v k)"

lemma below_climb:
  "below idx visiting k \<Longrightarrow> climbs idx k p \<Longrightarrow> below idx (k # visiting) p"
  by (auto simp: below_def intro: tranclp.trancl_into_trancl)

definition parents_correct :: "'v scope_index \<Rightarrow> string list \<Rightarrow> string list \<Rightarrow> scope_result \<Rightarrow> bool" where
  "parents_correct idx ps ids r \<longleftrightarrow> (so_valid r \<longleftrightarrow> (\<forall>p \<in> set ps. grounded idx p)) \<and>
     (\<not> so_valid r \<longrightarrow> so_ids r = []) \<and>
     (so_valid r \<longrightarrow> set (so_ids r) = set ids \<union> (\<Union>p \<in> set ps. enclosing idx p))"

lemma scope_correct_parents:
  assumes "map_of (si_nodes idx) k = Some n" "\<not> is_scope_kind (n_kind n)" "named_scopes idx"
    and "parents_correct idx (parents_of (si_parents idx) k) [] r"
  shows "scope_correct idx k (r\<lparr>so_ids := unique_nonempty (so_ids r)\<rparr>)"
  using assms(4) enclosing_named [OF assms(3), of k]
  by (auto simp: scope_correct_def parents_correct_def grounded_iff_parents [OF assms(1,2)]
      enclosing_climb [OF assms(1,2)] unique_nonempty_def sorted_keys_def)

lemma search_correct:
  "named_scopes idx \<Longrightarrow> cache_ok idx cache \<Longrightarrow> below idx visiting k \<Longrightarrow>
     scope_correct idx k (fst (resolve_scope idx k visiting cache)) \<and>
     cache_ok idx (snd (resolve_scope idx k visiting cache))"
  "named_scopes idx \<Longrightarrow> cache_ok idx cache \<Longrightarrow> \<forall>p \<in> set ps. below idx visiting p \<Longrightarrow>
     parents_correct idx ps ids (fst (resolve_parents idx ps visiting ids cache)) \<and>
     cache_ok idx (snd (resolve_parents idx ps visiting ids cache))"
proof (induction idx k visiting cache and idx ps visiting ids cache rule: resolve_scope_resolve_parents.induct)
  case (1 idx k visiting cache)
  show ?case
  proof (cases "map_of cache k")
    case (Some r)
    then show ?thesis using "1.prems"(2) by (simp add: cache_ok_def)
  next
    case fresh: None
    show ?thesis
    proof (cases "map_of (si_nodes idx) k")
      case None
      then have "\<not> grounded idx k" using grounded_known by blast
      then show ?thesis using fresh None "1.prems"(2) by (simp add: scope_correct_def)
    next
      case (Some n)
      show ?thesis
      proof (cases "is_scope_kind (n_kind n)")
        case True
        then have s: "scope_node idx k" using Some by (simp add: scope_node_def)
        then have "scope_correct idx k \<lparr>so_ids = [k], so_valid = True\<rparr>"
          using grounded.scope [OF s] by (simp add: scope_correct_def enclosing_scope)
        then show ?thesis using fresh Some True "1.prems"(2) by (simp add: cache_ok_update)
      next
        case climb: False
        show ?thesis
        proof (cases "k \<in> set visiting")
          case True
          then have "\<not> grounded idx k" using "1.prems"(3) grounded_acyclic [of idx k] by (auto simp: below_def)
          then show ?thesis using fresh Some climb True "1.prems"(2) by (simp add: scope_correct_def)
        next
          case new: False
          let ?ps = "parents_of (si_parents idx) k"
          let ?res = "resolve_parents idx ?ps (k # visiting) [] cache"
          have "\<forall>p \<in> set ?ps. below idx (k # visiting) p"
            using below_climb [OF "1.prems"(3)] Some climb by (simp add: climbs_def)
          then have res: "parents_correct idx ?ps [] (fst ?res)" "cache_ok idx (snd ?res)"
            using "1.IH" [OF fresh Some climb new] "1.prems"(1,2) by simp_all
          have "resolve_scope idx k visiting cache =
              (let r' = (fst ?res)\<lparr>so_ids := unique_nonempty (so_ids (fst ?res))\<rparr> in (r', AList.update k r' (snd ?res)))"
            by (subst resolve_scope.simps) (simp add: fresh Some climb new Let_def split_beta)
          then show ?thesis
            using scope_correct_parents [OF Some climb "1.prems"(1) res(1)] res(2) by (simp add: Let_def cache_ok_update)
        qed
      qed
    qed
  qed
next
  case (2 idx visiting ids cache)
  then show ?case by (simp add: parents_correct_def)
next
  case (3 idx p ps visiting ids cache)
  let ?r = "resolve_scope idx p visiting cache"
  have p: "scope_correct idx p (fst ?r)" "cache_ok idx (snd ?r)"
    using "3.IH"(1) "3.prems" by simp_all
  show ?case
  proof (cases "so_valid (fst ?r)")
    case True
    let ?rest = "resolve_parents idx ps visiting (ids @ so_ids (fst ?r)) (snd ?r)"
    have "parents_correct idx ps (ids @ so_ids (fst ?r)) (fst ?rest)" "cache_ok idx (snd ?rest)"
      using "3.IH"(2) [of ?r "fst ?r" "snd ?r"] True p(2) "3.prems" by simp_all
    moreover have "resolve_parents idx (p # ps) visiting ids cache = ?rest"
      using True by (simp add: split_beta)
    ultimately show ?thesis using p(1) True by (auto simp: parents_correct_def scope_correct_def)
  next
    case False
    then have "resolve_parents idx (p # ps) visiting ids cache = (\<lparr>so_ids = [], so_valid = False\<rparr>, snd ?r)"
      by (simp add: split_beta)
    then show ?thesis using p False by (auto simp: parents_correct_def scope_correct_def)
  qed
qed

lemma scopes_correct:
  assumes "named_scopes idx" "cache_ok idx cache"
  shows "scope_correct idx k (fst (scopes idx k cache))" "cache_ok idx (snd (scopes idx k cache))"
  using search_correct(1) [OF assms, of "[]" k] by (simp_all add: scopes_def below_def)

text \<open>The answer does not depend on what earlier queries cached.\<close>

lemma scopes_cache_irrelevant:
  assumes "named_scopes idx" "cache_ok idx cache"
  shows "fst (scopes idx k cache) = fst (scopes idx k [])"
  using scopes_correct(1) [OF assms, of k] scopes_correct(1) [OF assms(1) cache_ok_Nil, of k] by (rule scope_correct_unique)

section \<open>Every edge by itself\<close>

definition proof_of :: "'v scope_index \<Rightarrow> 'v edge \<Rightarrow> 'v node \<Rightarrow> 'v node \<Rightarrow> string option" where
  "proof_of idx e caller c = fst (shared_scope_proof idx e caller c [])"

lemma shared_scope_proof_cache:
  assumes "named_scopes idx" "cache_ok idx cache"
  shows "fst (shared_scope_proof idx e caller c cache) = proof_of idx e caller c"
    and "cache_ok idx (snd (shared_scope_proof idx e caller c cache))"
proof -
  let ?s = "\<lambda>cache. scopes idx (n_id caller) cache"
  have ok: "cache_ok idx (snd (?s cache))" "cache_ok idx (snd (?s []))"
    by (rule scopes_correct(2) [OF assms], rule scopes_correct(2) [OF assms(1) cache_ok_Nil])
  have "snd (shared_scope_proof idx e caller c cache) = snd (scopes idx (n_id c) (snd (?s cache)))"
    by (simp add: shared_scope_proof_def split_beta)
  then show "cache_ok idx (snd (shared_scope_proof idx e caller c cache))"
    using scopes_correct(2) [OF assms(1) ok(1)] by simp
  have "fst (?s cache) = fst (?s [])"
    by (rule scopes_cache_irrelevant [OF assms])
  moreover have "fst (scopes idx (n_id c) (snd (?s cache))) = fst (scopes idx (n_id c) (snd (?s [])))"
    using scopes_cache_irrelevant [OF assms(1) ok(1)] scopes_cache_irrelevant [OF assms(1) ok(2)] by (rule trans [OF _ sym])
  ultimately show "fst (shared_scope_proof idx e caller c cache) = proof_of idx e caller c"
    by (simp add: proof_of_def shared_scope_proof_def split_beta)
qed

lemma scope_matches_cache:
  assumes "named_scopes idx" "cache_ok idx cache"
  shows "fst (scope_matches idx e caller cs cache) =
      concat (map (\<lambda>c. case proof_of idx e caller c of None \<Rightarrow> [] | Some p \<Rightarrow> [(c, p)]) cs) \<and>
    cache_ok idx (snd (scope_matches idx e caller cs cache))"
  using assms(2)
proof (induction cs arbitrary: cache)
  case (Cons c cs)
  show ?case
    using Cons.IH [OF shared_scope_proof_cache(2) [OF assms(1) Cons.prems, of e caller c]]
      shared_scope_proof_cache(1) [OF assms(1) Cons.prems, of e caller c]
    by (simp add: split_beta split: option.split)
qed simp

lemma candidate_matches_cache:
  assumes "named_scopes (rv_scopes rv)" "cache_ok (rv_scopes rv) cache"
  shows "fst (candidate_matches rv e caller domain spelling cache) = fst (candidate_matches rv e caller domain spelling []) \<and>
    cache_ok (rv_scopes rv) (snd (candidate_matches rv e caller domain spelling cache))"
  using scope_matches_cache [OF assms] scope_matches_cache [OF assms(1) cache_ok_Nil] assms(2)
  by (simp add: candidate_matches_def)

lemma resolve_edge_cache:
  assumes "named_scopes (rv_scopes rv)" "cache_ok (rv_scopes rv) cache"
  shows "fst (resolve_edge env rv e cache) = fst (resolve_edge env rv e []) \<and>
    cache_ok (rv_scopes rv) (snd (resolve_edge env rv e cache))"
proof -
  note m = candidate_matches_cache [OF assms]
  show ?thesis
    using m assms(2) by (simp add: resolve_edge_def Let_def split_beta split: option.split)
qed

definition resolved :: "'v resolve_env \<Rightarrow> 'v resolver \<Rightarrow> 'v edge \<Rightarrow> 'v edge" where
  "resolved env rv e = fst (resolve_edge env rv e [])"

lemma resolve_edges_map:
  assumes "named_scopes (rv_scopes rv)" "cache_ok (rv_scopes rv) cache"
  shows "resolve_edges env rv es cache = map (resolved env rv) es"
  using assms(2)
proof (induction es arbitrary: cache)
  case (Cons e es)
  then show ?case using resolve_edge_cache [OF assms(1) Cons.prems, of env e] by (simp add: resolved_def split_beta)
qed simp

section \<open>The tables\<close>

lemma symbols_at_table:
  "symbols_at (symbol_table fold_case spelling nodes) (d, s) = filter (\<lambda>n. is_candidate fold_case n \<and> spelling n \<noteq> [] \<and>
     resolution_domain fold_case (n_language n) = d \<and> spelling n = s) nodes"
proof -
  have "symbols_at (fold (add_symbol fold_case spelling) nodes m) (d, s) = symbols_at m (d, s) @
      filter (\<lambda>n. is_candidate fold_case n \<and> spelling n \<noteq> [] \<and>
        resolution_domain fold_case (n_language n) = d \<and> spelling n = s) nodes" for m
    by (induction nodes arbitrary: m) (auto simp: add_symbol_def symbols_at_def Let_def)
  then show ?thesis by (simp add: symbol_table_def) (simp add: symbols_at_def)
qed

lemma resolver_fields [simp]:
  "rv_by_id (new_resolver env b) = index_by n_id (bu_nodes b)"
  "rv_by_name (new_resolver env b) = symbol_table (re_fold_case env) n_name (bu_nodes b)"
  "rv_by_qualified (new_resolver env b) = symbol_table (re_fold_case env) n_qualified_name (bu_nodes b)"
  "si_nodes (rv_scopes (new_resolver env b)) = index_by n_id (bu_nodes b)"
  by (simp_all add: new_resolver_def new_scope_index_def Let_def)

lemma named_resolver: "[] \<notin> all_nodes b \<Longrightarrow> named_scopes (rv_scopes (new_resolver env b))"
  by (simp add: named_scopes_def index_by_None all_nodes_def)

text \<open>
  C31. Memoising the scopes is sound: with a cache shared by all queries of a run, the edges are resolved as if
  each were the only one, so neither their order nor a cycle met by another query matters; and a scope query
  returns exactly the enclosing packages and modules, sorted, and fails exactly when climbing does not end.
\<close>

theorem resolution_independent_of_cache:
  fixes env :: "'v resolve_env" and b :: "'v model_bundle"
  assumes "[] \<notin> all_nodes b"
  defines "rv \<equiv> new_resolver env b"
  shows "bu_edges (resolve_heuristic_edges env b) = map (\<lambda>e. fst (resolve_edge env rv e [])) (bu_edges b) \<and>
    (\<forall>k. scope_correct (rv_scopes rv) k (fst (scopes (rv_scopes rv) k [])))"
proof -
  have "named_scopes (rv_scopes rv)" using named_resolver [OF assms(1)] by (simp add: rv_def)
  then show ?thesis
    using resolve_edges_map [of rv "[]" env] scopes_correct(1) [of "rv_scopes rv" "[]"]
    by (simp add: resolve_heuristic_edges_def Let_def rv_def resolved_def [abs_def])
qed

section \<open>What a redirected edge means\<close>

text \<open>Two nodes share a scope: the same single package or module, or none at all and one artifact.\<close>

definition shares_scope :: "'v scope_index \<Rightarrow> 'v edge \<Rightarrow> 'v node \<Rightarrow> 'v node \<Rightarrow> bool" where
  "shares_scope idx e caller c \<longleftrightarrow> grounded idx (n_id caller) \<and> grounded idx (n_id c) \<and>
     ((\<exists>s. enclosing idx (n_id caller) = {s} \<and> enclosing idx (n_id c) = {s}) \<or>
      (enclosing idx (n_id caller) = {} \<and> enclosing idx (n_id c) = {} \<and>
       e_producer e \<in> {openapi_plugin, jsonschema_plugin} \<and>
       n_artifact_id caller \<noteq> [] \<and> n_artifact_id caller = n_artifact_id c))"

lemma scope_choice:
  assumes "distinct xs" "distinct ys"
  shows "(if length xs = 1 \<and> length ys = 1 then (if xs ! 0 = ys ! 0 then Some p else None)
      else if length xs \<noteq> 0 \<or> length ys \<noteq> 0 then None
      else if P then None else if Q then None else Some q) \<noteq> None \<longleftrightarrow>
    (\<exists>s. set xs = {s} \<and> set ys = {s}) \<or> (set xs = {} \<and> set ys = {} \<and> \<not> P \<and> \<not> Q)"
proof -
  have one: "length zs = 1 \<longleftrightarrow> (\<exists>s. set zs = {s})" if "distinct zs" for zs :: "'a list"
    using distinct_card [OF that] by (auto simp: card_1_singleton_iff)
  show ?thesis
  proof (cases "length xs = 1 \<and> length ys = 1")
    case True
    then obtain x y where "xs = [x]" "ys = [y]" by (auto simp: length_Suc_conv)
    then show ?thesis by simp
  next
    case False
    then have "\<not> (\<exists>s. set xs = {s} \<and> set ys = {s})" using one [OF assms(1)] one [OF assms(2)] by auto
    then show ?thesis using False by (cases "xs = [] \<and> ys = []") auto
  qed
qed

lemma proof_of_iff:
  assumes "named_scopes idx"
  shows "proof_of idx e caller c \<noteq> None \<longleftrightarrow> shares_scope idx e caller c"
proof -
  let ?c = "fst (scopes idx (n_id caller) [])" and ?d = "fst (scopes idx (n_id c) [])"
  note cs = scopes_correct(1) [OF assms cache_ok_Nil, of "n_id caller"]
  note ds = scopes_correct(1) [OF assms cache_ok_Nil, of "n_id c"]
  have "fst (scopes idx (n_id c) (snd (scopes idx (n_id caller) []))) = ?d"
    by (rule scopes_cache_irrelevant [OF assms scopes_correct(2) [OF assms cache_ok_Nil]])
  then have p: "proof_of idx e caller c =
      (if \<not> so_valid ?c \<or> \<not> so_valid ?d then None
       else if length (so_ids ?c) = 1 \<and> length (so_ids ?d) = 1 then
         (if so_ids ?c ! 0 = so_ids ?d ! 0 then Some ''shared_language_scope'' else None)
       else if length (so_ids ?c) \<noteq> 0 \<or> length (so_ids ?d) \<noteq> 0 then None
       else if e_producer e \<noteq> openapi_plugin \<and> e_producer e \<noteq> jsonschema_plugin then None
       else if n_artifact_id caller = [] \<or> n_artifact_id c = [] \<or> n_artifact_id caller \<noteq> n_artifact_id c then None
       else Some ''framework_artifact'')"
    by (simp add: proof_of_def shared_scope_proof_def split_beta)
  have v: "so_valid ?c \<longleftrightarrow> grounded idx (n_id caller)" "so_valid ?d \<longleftrightarrow> grounded idx (n_id c)"
    using cs ds by (simp_all add: scope_correct_def)
  show ?thesis
  proof (cases "so_valid ?c \<and> so_valid ?d")
    case True
    then have ids: "distinct (so_ids ?c)" "distinct (so_ids ?d)" "set (so_ids ?c) = enclosing idx (n_id caller)"
        "set (so_ids ?d) = enclosing idx (n_id c)"
      using cs ds by (simp_all add: scope_correct_def)
    have "\<not> (\<not> so_valid ?c \<or> \<not> so_valid ?d)" using True by simp
    then show ?thesis
      unfolding p shares_scope_def if_not_P [OF \<open>\<not> (\<not> so_valid ?c \<or> \<not> so_valid ?d)\<close>]
        scope_choice [OF ids(1,2)] ids(3,4)
      using v True by auto
  next
    case False
    then have "\<not> so_valid ?c \<or> \<not> so_valid ?d" by simp
    then show ?thesis unfolding p if_P [OF \<open>\<not> so_valid ?c \<or> \<not> so_valid ?d\<close>] shares_scope_def using v by auto
  qed
qed

text \<open>The symbols a spelling can mean for a caller.\<close>

definition meanings :: "'v resolve_env \<Rightarrow> 'v model_bundle \<Rightarrow> 'v edge \<Rightarrow> 'v node \<Rightarrow> string \<Rightarrow> 'v node list" where
  "meanings env b e caller spelling = filter (\<lambda>n. is_candidate (re_fold_case env) n \<and>
     resolution_domain (re_fold_case env) (n_language n) = resolution_domain (re_fold_case env) (n_language caller) \<and>
     (if qualified_spelling spelling then n_qualified_name n = spelling
      else n_name n = spelling \<and> shares_scope (rv_scopes (new_resolver env b)) e caller n)) (bu_nodes b)"

lemma concat_option_filter:
  "map fst (concat (map (\<lambda>c. case f c of None \<Rightarrow> [] | Some p \<Rightarrow> [(c, p)]) cs)) = filter (\<lambda>c. f c \<noteq> None) cs"
  by (induction cs) (auto split: option.splits)

lemma candidate_matches_meanings:
  assumes "[] \<notin> all_nodes b" and "spelling \<noteq> []"
    and "domain = resolution_domain (re_fold_case env) (n_language caller)"
  shows "map fst (fst (candidate_matches (new_resolver env b) e caller domain spelling [])) = meanings env b e caller spelling"
proof -
  let ?idx = "rv_scopes (new_resolver env b)"
  note named = named_resolver [OF assms(1), of env]
  have "map fst (fst (scope_matches ?idx e caller cs [])) = filter (\<lambda>c. proof_of ?idx e caller c \<noteq> None) cs" for cs
    using scope_matches_cache [OF named cache_ok_Nil, of e caller cs] by (simp add: concat_option_filter)
  then show ?thesis
    using assms(2) unfolding candidate_matches_def meanings_def resolver_fields symbols_at_table proof_of_iff [OF named]
    by (auto simp: comp_def assms(3) intro!: filter_cong)
qed

lemma resolved_cases:
  assumes "[] \<notin> all_nodes b"
  shows "resolved env (new_resolver env b) e = e \<or>
    (\<exists>caller \<in> set (bu_nodes b). \<exists>target \<in> set (bu_nodes b). \<exists>c p.
       normalize_resolution (re_fold_case env) (e_resolution e) = ''unresolved'' \<and>
       n_id caller = e_from e \<and> n_id target = e_to e \<and> n_kind target = ''unresolved_symbol'' \<and>
       resolution_domain (re_fold_case env) (n_language caller) \<noteq> [] \<and>
       resolution_domain (re_fold_case env) (n_language target) = resolution_domain (re_fold_case env) (n_language caller) \<and>
       meanings env b e caller (edge_spelling env e target) = [c] \<and> n_id c \<noteq> e_from e \<and>
       resolved env (new_resolver env b) e = redirect_edge env e c p)"
proof (cases "resolved env (new_resolver env b) e = e")
  case False
  let ?rv = "new_resolver env b" and ?fold = "re_fold_case env"
  have unresolved: "normalize_resolution ?fold (e_resolution e) = ''unresolved''"
  proof (rule ccontr)
    assume "normalize_resolution ?fold (e_resolution e) \<noteq> ''unresolved''"
    then show False using False by (simp add: resolved_def resolve_edge_def)
  qed
  have "map_of (rv_by_id ?rv) (e_to e) \<noteq> None"
  proof
    assume "map_of (rv_by_id ?rv) (e_to e) = None"
    then show False using False by (simp add: resolved_def resolve_edge_def del: resolver_fields)
  qed
  then obtain target where to: "map_of (rv_by_id ?rv) (e_to e) = Some target" by blast
  have kind: "n_kind target = ''unresolved_symbol''"
  proof (rule ccontr)
    assume "n_kind target \<noteq> ''unresolved_symbol''"
    then show False using False to by (simp add: resolved_def resolve_edge_def del: resolver_fields)
  qed
  note target = to kind
  have "map_of (rv_by_id ?rv) (e_from e) \<noteq> None"
  proof
    assume "map_of (rv_by_id ?rv) (e_from e) = None"
    then show False using False target by (simp add: resolved_def resolve_edge_def del: resolver_fields)
  qed
  then obtain caller where caller: "map_of (rv_by_id ?rv) (e_from e) = Some caller" by blast
  let ?s = "edge_spelling env e target" and ?d = "resolution_domain ?fold (n_language target)"
  let ?m = "fst (candidate_matches ?rv e caller ?d ?s [])"
  have "\<not> (resolution_domain ?fold (n_language caller) = [] \<or> ?d = [] \<or> resolution_domain ?fold (n_language caller) \<noteq> ?d) \<and>
      \<not> blank ?s"
  proof (rule ccontr)
    assume "\<not> ?thesis"
    then show False
      using False target caller unresolved by (simp add: resolved_def resolve_edge_def Let_def del: resolver_fields split: if_splits)
  qed
  then have domain: "?d = resolution_domain ?fold (n_language caller)" "?d \<noteq> []" "\<not> blank ?s" by simp_all
  have "resolved env ?rv e = (case ?m of [(c, p)] \<Rightarrow> if n_id c \<noteq> e_from e then redirect_edge env e c p else e | _ \<Rightarrow> e)"
    using target caller domain unresolved by (simp add: resolved_def resolve_edge_def Let_def split_beta del: resolver_fields)
  then obtain c p where m: "?m = [(c, p)]" "n_id c \<noteq> e_from e" "resolved env ?rv e = redirect_edge env e c p"
    using False by (auto split: list.splits if_splits)
  have "?s \<noteq> []" using domain(3) by (auto simp: blank_def trim_space_def trim_right_def)
  then have "meanings env b e caller ?s = [c]"
    using candidate_matches_meanings [OF assms, of ?s ?d env caller e] domain(1) m(1) by simp
  moreover have "caller \<in> set (bu_nodes b) \<and> n_id caller = e_from e" "target \<in> set (bu_nodes b) \<and> n_id target = e_to e"
    using caller target(1) by (simp_all only: resolver_fields index_by_in)
  ultimately show ?thesis using unresolved target(2) domain m by metis
qed simp

text \<open>
  C32. Resolution is sound: an edge is left as it is, or it was unresolved and is redirected to the one symbol that
  its spelling can mean for its caller: in the caller's language domain, with exactly that qualified name, or
  with that name and in the same package or module; it then counts as inferred from syntax, keeps its kind and
  source, and never becomes a self loop.
\<close>

theorem resolution_sound:
  assumes "[] \<notin> all_nodes b" and "e' \<in> set (bu_edges (resolve_heuristic_edges env b))"
  shows "e' \<in> set (bu_edges b) \<or>
    (\<exists>e \<in> set (bu_edges b). \<exists>caller \<in> set (bu_nodes b). \<exists>target \<in> set (bu_nodes b). \<exists>c p.
       normalize_resolution (re_fold_case env) (e_resolution e) = ''unresolved'' \<and>
       n_id caller = e_from e \<and> n_id target = e_to e \<and> n_kind target = ''unresolved_symbol'' \<and>
       resolution_domain (re_fold_case env) (n_language caller) \<noteq> [] \<and>
       resolution_domain (re_fold_case env) (n_language target) = resolution_domain (re_fold_case env) (n_language caller) \<and>
       meanings env b e caller (edge_spelling env e target) = [c] \<and> n_id c \<noteq> e_from e \<and>
       e' = redirect_edge env e c p)"
proof -
  let ?rv = "new_resolver env b"
  have "bu_edges (resolve_heuristic_edges env b) = map (resolved env ?rv) (bu_edges b)"
    using resolve_edges_map [OF named_resolver [OF assms(1), of env] cache_ok_Nil, of env "bu_edges b"]
    by (simp add: resolve_heuristic_edges_def Let_def)
  then obtain e where "e \<in> set (bu_edges b)" "e' = resolved env ?rv e" using assms(2) by auto
  then show ?thesis using resolved_cases [OF assms(1), of env e] by (metis (no_types, lifting))
qed

section \<open>Linking keeps the graph closed\<close>

text \<open>Every edge joins nodes of the bundle.\<close>

definition closed_graph :: "'v model_bundle \<Rightarrow> bool" where
  "closed_graph b \<longleftrightarrow> (\<forall>e \<in> set (bu_edges b). e_from e \<in> all_nodes b \<and> e_to e \<in> all_nodes b)"

lemma resolved_ends:
  assumes "[] \<notin> all_nodes b"
  shows "e_from (resolved env (new_resolver env b) e) = e_from e \<and>
    (e_to (resolved env (new_resolver env b) e) = e_to e \<or> e_to (resolved env (new_resolver env b) e) \<in> all_nodes b)"
proof -
  consider "resolved env (new_resolver env b) e = e"
    | caller s c p where "meanings env b e caller s = [c]" "resolved env (new_resolver env b) e = redirect_edge env e c p"
    using resolved_cases [OF assms, of env e] by blast
  then show ?thesis
  proof cases
    case 2
    then have "c \<in> set (meanings env b e caller s)" by simp
    then have "c \<in> set (bu_nodes b)" by (simp add: meanings_def)
    then show ?thesis using 2(2) by (simp add: redirect_edge_def all_nodes_def)
  qed simp
qed

lemma resolve_closed:
  assumes "[] \<notin> all_nodes b" "closed_graph b"
  shows "closed_graph (resolve_heuristic_edges env b)"
proof -
  let ?b = "resolve_heuristic_edges env b"
  have edges: "bu_edges ?b = map (resolved env (new_resolver env b)) (bu_edges b)"
    using resolve_edges_map [OF named_resolver [OF assms(1), of env] cache_ok_Nil, of env "bu_edges b"]
    by (simp add: resolve_heuristic_edges_def Let_def)
  have keep: "k \<in> all_nodes ?b" if e: "e \<in> set (bu_edges ?b)" and k: "k = e_from e \<or> k = e_to e" "k \<in> all_nodes b" for e k
  proof -
    obtain n where n: "n \<in> set (bu_nodes b)" "n_id n = k" using k(2) by (auto simp: all_nodes_def)
    then have "referenced (bu_edges ?b) n" using e k(1) by (auto simp: referenced_def list_ex_iff)
    then have "n \<in> set (bu_nodes ?b)" using n(1) by (simp add: resolve_heuristic_edges_def Let_def)
    then show ?thesis using n(2) by (auto simp: all_nodes_def)
  qed
  have "e_from e \<in> all_nodes b \<and> e_to e \<in> all_nodes b" if e: "e \<in> set (bu_edges ?b)" for e
  proof -
    obtain d where "d \<in> set (bu_edges b)" "e = resolved env (new_resolver env b) d" using e edges by auto
    then show ?thesis using assms(2) resolved_ends [OF assms(1), of env d] by (auto simp: closed_graph_def)
  qed
  then show ?thesis using keep unfolding closed_graph_def by blast
qed

lemma merged_edge_ends:
  "\<forall>v \<in> set (edge_merge.merged fold_case es). \<exists>e \<in> set es. e_from v = e_from e \<and> e_to v = e_to e"
  by (rule edge_merge.merged_induct) (auto simp: first_edge_def)

lemma dedupe_nodes: "all_nodes (dedupe_bundle fold_case sha12 b) = all_nodes b"
  by (simp add: all_nodes_def dedupe_sets image_image node_merge.ids_merged)

lemma dedupe_closed:
  assumes "closed_graph b"
  shows "closed_graph (dedupe_bundle fold_case sha12 b)"
proof -
  have "e_from e \<in> all_nodes b \<and> e_to e \<in> all_nodes b" if "e \<in> set (bu_edges (dedupe_bundle fold_case sha12 b))" for e
  proof -
    obtain v where v: "v \<in> set (edge_merge.merged fold_case (map (normal_edge fold_case sha12) (bu_edges b)))"
        "e = sort_edge fold_case v" using \<open>e \<in> _\<close> by (auto simp: dedupe_sets)
    then obtain d where "d \<in> set (bu_edges b)" "e_from v = e_from d" "e_to v = e_to d"
      using merged_edge_ends [of fold_case "map (normal_edge fold_case sha12) (bu_edges b)"]
      by (fastforce simp: normal_edge_def)
    then show ?thesis using assms v(2) by (auto simp: closed_graph_def sort_edge_def)
  qed
  then show ?thesis by (simp add: closed_graph_def dedupe_nodes)
qed

lemma update_artifact_nodes_ids:
  "map n_id (bu_nodes (update_artifact_nodes of_text of_number b)) = map n_id (bu_nodes b)"
  "bu_edges (update_artifact_nodes of_text of_number b) = bu_edges b"
  by (simp_all add: update_artifact_nodes_def update_artifact_node_def Let_def split: option.split)

lemma update_artifact_nodes_closed:
  "all_nodes (update_artifact_nodes of_text of_number b) = all_nodes b"
  "closed_graph (update_artifact_nodes of_text of_number b) \<longleftrightarrow> closed_graph b"
proof -
  show nodes: "all_nodes (update_artifact_nodes of_text of_number b) = all_nodes b"
    using update_artifact_nodes_ids(1) [of of_text of_number b, THEN arg_cong, of set] by (simp add: all_nodes_def)
  show "closed_graph (update_artifact_nodes of_text of_number b) \<longleftrightarrow> closed_graph b"
    by (simp add: closed_graph_def nodes update_artifact_nodes_ids(2))
qed

text \<open>
  C33. Linking keeps the graph closed and its records unique: after the artifact nodes are updated, duplicates are
  merged, heuristic edges are resolved, unreferenced symbols are dropped and duplicates are merged again, every
  identifier occurs once in its family, and every edge joins nodes that are still there.
\<close>

theorem link_records_closed:
  assumes "[] \<notin> all_nodes b" and "closed_graph b"
  shows "distinct_ids (link_records env of_text of_number b) \<and> closed_graph (link_records env of_text of_number b)"
proof -
  let ?d = "dedupe_bundle (re_fold_case env) (re_sha12 env) (update_artifact_nodes of_text of_number b)"
  have "closed_graph ?d" "[] \<notin> all_nodes ?d"
    using assms by (simp_all add: dedupe_closed update_artifact_nodes_closed dedupe_nodes)
  then have "closed_graph (resolve_heuristic_edges env ?d)" by (simp add: resolve_closed)
  then show ?thesis by (simp add: link_records_def dedupe_closed dedupe_unique_ids)
qed

end
