(* ===== verification/LinkWitnesses.thy ===== *)
theory LinkWitnesses
  imports ResolveTheorems ValidateWitnesses
begin

text \<open>Collected records to which the properties of deduplication and of heuristic resolution apply.\<close>

section \<open>Merging and linking\<close>

text \<open>A package with two functions; one calls a symbol that only the other can be. The call is recorded twice.\<close>

definition ex_symbol :: "string \<Rightarrow> string \<Rightarrow> string \<Rightarrow> nat node" where
  "ex_symbol k kind name = zero_node\<lparr>n_id := k, n_kind := kind, n_name := name, n_language := ''Go''\<rparr>"

definition ex_link :: "string \<Rightarrow> string \<Rightarrow> string \<Rightarrow> string \<Rightarrow> nat edge" where
  "ex_link kind from to resolution = zero_edge\<lparr>e_kind := kind, e_from := from, e_to := to, e_resolution := resolution\<rparr>"

definition ex_collected :: "nat model_bundle" where
  "ex_collected = ex_bundle
     [ex_symbol ''p'' ''package'' ''p'', ex_symbol ''f'' ''function'' ''f'', ex_symbol ''g'' ''function'' ''g'',
      ex_symbol ''u'' ''unresolved_symbol'' ''g'', ex_symbol ''f'' ''function'' ''f'']
     [ex_link ''contains'' ''p'' ''f'' ''declared'', ex_link ''contains'' ''p'' ''g'' ''declared'',
      ex_link ''calls'' ''f'' ''u'' ''unresolved'', ex_link ''calls'' ''f'' ''u'' ''unresolved''] 1"

definition ex_resolve_env :: "nat resolve_env" where
  "ex_resolve_env = \<lparr>re_fold_case = map ascii_lower, re_sha12 = id, re_as_string = (\<lambda>_. None), re_of_text = length\<rparr>"

lemma ex_collected_closed: "[] \<notin> all_nodes ex_collected" "closed_graph ex_collected"
  by (simp_all add: all_nodes_def closed_graph_def ex_collected_def ex_bundle_def ex_symbol_def ex_link_def zero_node_def)

theorem dedupe_idem_witness:
  "dedupe_bundle (map ascii_lower) id (dedupe_bundle (map ascii_lower) id ex_collected) =
   dedupe_bundle (map ascii_lower) id ex_collected"
  by (rule dedupe_idem [OF lower_stable_ascii])


theorem resolution_independent_of_cache_witness:
  "so_ids (fst (scopes (rv_scopes (new_resolver ex_resolve_env ex_collected)) ''f'' [])) = [''p'']"
proof -
  have "scope_correct (rv_scopes (new_resolver ex_resolve_env ex_collected)) ''f''
      (fst (scopes (rv_scopes (new_resolver ex_resolve_env ex_collected)) ''f'' []))"
    using resolution_independent_of_cache [OF ex_collected_closed(1), of ex_resolve_env] by blast
  moreover have "fst (scopes (rv_scopes (new_resolver ex_resolve_env ex_collected)) ''f'' []) =
      \<lparr>so_ids = [''p''], so_valid = True\<rparr>"
    by code_simp
  ultimately show ?thesis by simp
qed

definition ex_resolved_call :: "nat edge" where
  "ex_resolved_call = redirect_edge ex_resolve_env (ex_link ''calls'' ''f'' ''u'' ''unresolved'')
     (ex_symbol ''g'' ''function'' ''g'') ''shared_language_scope''"

lemma redirect_ends: "e_from (redirect_edge env e c p) = e_from e" "e_to (redirect_edge env e c p) = n_id c"
  by (simp_all add: redirect_edge_def)

theorem resolution_sound_witness:
  "\<exists>caller \<in> set (bu_nodes ex_collected). \<exists>c. n_id caller = ''f'' \<and> n_id c = e_to ex_resolved_call \<and>
     (\<exists>e s. meanings ex_resolve_env ex_collected e caller s = [c])"
proof -
  have "ex_resolved_call \<in> set (bu_edges (resolve_heuristic_edges ex_resolve_env ex_collected))"
    by code_simp
  moreover have "ex_resolved_call \<notin> set (bu_edges ex_collected)" by code_simp
  ultimately obtain e caller target c p where "caller \<in> set (bu_nodes ex_collected)" "n_id caller = e_from e"
      "meanings ex_resolve_env ex_collected e caller (edge_spelling ex_resolve_env e target) = [c]"
      "ex_resolved_call = redirect_edge ex_resolve_env e c p"
    using resolution_sound [OF ex_collected_closed(1), of ex_resolved_call ex_resolve_env] by blast
  moreover from this have "e_from ex_resolved_call = e_from e" "e_to ex_resolved_call = n_id c"
    using redirect_ends by metis+
  moreover have "e_from ex_resolved_call = ''f''" by (simp add: ex_resolved_call_def redirect_edge_def ex_link_def)
  ultimately show ?thesis by metis
qed

theorem link_records_closed_witness:
  "distinct_ids (link_records ex_resolve_env length nat ex_collected) \<and>
   closed_graph (link_records ex_resolve_env length nat ex_collected)"
  by (rule link_records_closed [OF ex_collected_closed])

text \<open>The call has been redirected, its symbol dropped and the duplicate merged.\<close>

lemma ex_linked:
  "map n_id (bu_nodes (link_records ex_resolve_env length nat ex_collected)) = [''f'', ''g'', ''p''] \<and>
   map (\<lambda>e. (e_from e, e_to e)) (bu_edges (link_records ex_resolve_env length nat ex_collected)) =
     [(''f'', ''g''), (''p'', ''f''), (''p'', ''g'')]"
  by code_simp

end
