(* ===== verification/RuntimeTrace.thy ===== *)
theory RuntimeTrace
  imports GoText RecordIndex ValidateTheorems
begin

text \<open>
  The trace records of \<open>internal/runtime/trace.go\<close>, their structural validation, the registry of traces captured by
  this process, and the content affinity of \<open>affinity.go\<close>. Parameters are SHA-256 of a trace's JSON text and of
  the affinity text, and the secret scanner. The three regular expressions are written out as scans of characters.
\<close>

section \<open>Paths\<close>

definition valid_relative_path :: "string \<Rightarrow> bool" where
  "valid_relative_path v \<longleftrightarrow> v \<noteq> [] \<and> valid_utf8 v \<and> \<not> contains_control v \<and> CHR 0x5C \<notin> set v \<and> \<not> has_prefix v ''/'' \<and>
     path_clean v = v \<and> path_clean v \<noteq> ''.'' \<and> path_clean v \<noteq> ''..'' \<and> \<not> has_prefix (path_clean v) ''../''"

section \<open>Traces\<close>

record executed_range =
  xr_start_line :: int
  xr_end_line :: int
  xr_count :: int

record trace_artifact =
  ta_path :: string
  ta_source_sha256 :: string
  ta_source_size_bytes :: int
  ta_statements :: int
  ta_executed_statements :: int
  ta_executed_ranges :: "executed_range list"

record trace_test =
  tt_package :: string
  tt_package_redacted :: bool
  tt_name :: string
  tt_subtests_redacted :: bool
  tt_status :: string
  tt_elapsed :: int

record trace_source =
  ts_kind :: string
  ts_path :: string
  ts_sha256 :: string
  ts_size_bytes :: int

record trace_repository =
  tr_repository_id :: string
  tr_content_digest :: string
  tr_artifact_count :: int
  tr_git_commit :: string
  tr_git_unavailable :: bool

record trace =
  tc_schema_version :: string
  tc_id :: string
  tc_command :: string
  tc_command_redacted :: bool
  tc_command_sha256 :: string
  tc_working_directory :: string
  tc_exit_code :: int
  tc_duration_ms :: int
  tc_environment_keys :: "string list"
  tc_repository :: trace_repository
  tc_artifacts :: "trace_artifact list"
  tc_tests :: "trace_test list"
  tc_sources :: "trace_source list"
  tc_integrity_bound :: bool
  tc_integrity_authenticated :: bool
  tc_integrity_id :: string

text \<open>The identity hashes the JSON text of the portable fields with an empty identifier.\<close>

record runtime_env =
  rt_trace_digest :: "trace \<Rightarrow> string"
  rt_affinity_digest :: "string \<Rightarrow> string"
  rt_secret :: "string \<Rightarrow> bool"
  rt_fold_case :: "string \<Rightarrow> string"
  rt_sha12 :: "string \<Rightarrow> string"

definition id_for :: "runtime_env \<Rightarrow> trace \<Rightarrow> string" where
  "id_for env t = rt_trace_digest env (t\<lparr>tc_id := []\<rparr>)"

text \<open>The message and the value it quotes.\<close>

datatype runtime_error = TraceError string string | ContextError string

section \<open>Validation\<close>

definition name_start :: "char \<Rightarrow> bool" where
  "name_start c \<longleftrightarrow> 65 \<le> code c \<and> code c \<le> (90::nat) \<or> 97 \<le> code c \<and> code c \<le> (122::nat) \<or> c = CHR ''_''"

definition digit_char :: "char \<Rightarrow> bool" where
  "digit_char c \<longleftrightarrow> 48 \<le> code c \<and> code c \<le> (57::nat)"

text \<open>\<open>^[A-Za-z_][A-Za-z0-9_]*$\<close>, for environment keys and test names.\<close>

definition identifier_pattern :: "string \<Rightarrow> bool" where
  "identifier_pattern s = (case s of [] \<Rightarrow> False | c # cs \<Rightarrow> name_start c \<and> list_all (\<lambda>d. name_start d \<or> digit_char d) cs)"

text \<open>\<open>^[A-Za-z0-9][A-Za-z0-9._~+/-]*$\<close>.\<close>

definition package_char :: "char \<Rightarrow> bool" where
  "package_char c \<longleftrightarrow> name_start c \<and> c \<noteq> CHR ''_'' \<or> digit_char c"

definition package_pattern :: "string \<Rightarrow> bool" where
  "package_pattern s =
     (case s of [] \<Rightarrow> False | c # cs \<Rightarrow> package_char c \<and> list_all (\<lambda>d. package_char d \<or> d \<in> set ''._~+/-'') cs)"

definition valid_digest :: "string \<Rightarrow> bool" where
  "valid_digest v \<longleftrightarrow> is_lower_hex v 64"

definition valid_git_commit :: "string \<Rightarrow> bool" where
  "valid_git_commit v \<longleftrightarrow> is_lower_hex v 40 \<or> is_lower_hex v 64"

definition capture_maximum_files :: int where "capture_maximum_files = 500000"

definition valid_repository_identity :: "trace_repository \<Rightarrow> bool" where
  "valid_repository_identity r \<longleftrightarrow> tr_repository_id r \<noteq> [] \<and> length (tr_repository_id r) \<le> 256 \<and>
     \<not> contains_control (tr_repository_id r) \<and> valid_digest (tr_content_digest r) \<and>
     0 \<le> tr_artifact_count r \<and> tr_artifact_count r \<le> capture_maximum_files \<and>
     (if tr_git_unavailable r then tr_git_commit r = [] else valid_git_commit (tr_git_commit r))"

definition redacted_suffix :: string where "redacted_suffix = ''/redacted-subtests''"

definition valid_test_identity :: "runtime_env \<Rightarrow> trace_test \<Rightarrow> bool" where
  "valid_test_identity env t \<longleftrightarrow>
     (let name = (if tt_subtests_redacted t then trim_suffix (tt_name t) redacted_suffix else tt_name t) in
      tt_name t \<noteq> [] \<and> length (tt_name t) \<le> 256 \<and> \<not> contains_control (tt_name t) \<and>
      (if tt_subtests_redacted t then has_suffix (tt_name t) redacted_suffix else CHR ''/'' \<notin> set (tt_name t)) \<and>
      identifier_pattern name \<and> \<not> rt_secret env name \<and>
      length (tt_package t) \<le> 512 \<and> \<not> contains_control (tt_package t) \<and>
      (if tt_package_redacted t then tt_package t = ''redacted-package''
       else (tt_package t = [] \<or> package_pattern (tt_package t)) \<and> \<not> rt_secret env (tt_package t)))"

definition refuse_trace :: "bool \<Rightarrow> string \<Rightarrow> string \<Rightarrow> runtime_error + unit" where
  "refuse_trace b message subject = guard b (TraceError message subject)"

definition envelope_checks :: "runtime_env \<Rightarrow> trace \<Rightarrow> (runtime_error + unit) list" where
  "envelope_checks env t =
     [refuse_trace (tc_schema_version t \<noteq> ''1.3'') ''trace schema_version is unsupported'' (tc_schema_version t),
      refuse_trace (tc_id t = []) ''trace id is missing'' [],
      refuse_trace (length (tc_id t) \<noteq> 64) ''trace id must be a SHA-256 digest'' [],
      refuse_trace (\<not> list_all hex_char (tc_id t)) ''trace id must be lowercase hexadecimal'' [],
      refuse_trace (tc_id t \<noteq> id_for env t) ''trace id does not match its canonical content'' [],
      refuse_trace (tc_command t = [] \<or> 64 < length (tc_command t) \<or> contains_control (tc_command t))
        ''trace command identity is invalid'' [],
      (if tc_command_redacted t
       then refuse_trace (tc_command t \<noteq> ''custom-command'') ''redacted trace command must use the canonical command class'' []
       else refuse_trace (tc_command t \<noteq> ''go'' \<and> tc_command t \<noteq> ''go.exe'')
         ''trace command must be an admitted command class'' []),
      refuse_trace (\<not> valid_digest (tc_command_sha256 t)) ''trace command_sha256 is invalid'' [],
      refuse_trace (tc_working_directory t \<noteq> ''.'') ''trace working_directory must be repository-relative dot'' [],
      refuse_trace (tc_duration_ms t < 0) ''trace duration_ms cannot be negative'' [],
      refuse_trace (\<not> valid_repository_identity (tc_repository t)) ''trace repository affinity is invalid'' [],
      refuse_trace (4096 < length (tc_environment_keys t)) ''trace exceeds the 4096-environment-key bound'' []]"

fun check_environment_keys :: "string list \<Rightarrow> string list \<Rightarrow> runtime_error + unit" where
  "check_environment_keys seen [] = Inr ()"
| "check_environment_keys seen (k # ks) =
     res_bind (refuse_trace (\<not> identifier_pattern k) ''trace environment key is invalid'' k)
       (\<lambda>_. res_bind (refuse_trace (k \<in> set seen) ''trace environment key is duplicated'' k)
         (\<lambda>_. check_environment_keys (k # seen) ks))"

definition count_checks :: "trace \<Rightarrow> (runtime_error + unit) list" where
  "count_checks t =
     [refuse_trace (65536 < length (tc_artifacts t)) ''trace exceeds the 65536-artifact bound'' [],
      refuse_trace (65536 < length (tc_tests t)) ''trace exceeds the 65536-test bound'' [],
      refuse_trace (16 < length (tc_sources t)) ''trace exceeds the 16-source bound'' []]"

definition valid_range :: "executed_range \<Rightarrow> bool" where
  "valid_range r \<longleftrightarrow> 0 < xr_start_line r \<and> xr_start_line r \<le> xr_end_line r \<and> 0 < xr_count r"

text \<open>The artifacts, with the paths seen so far and the number of ranges so far.\<close>

fun check_trace_artifacts :: "string list \<Rightarrow> nat \<Rightarrow> trace_artifact list \<Rightarrow> runtime_error + unit" where
  "check_trace_artifacts seen n [] = Inr ()"
| "check_trace_artifacts seen n (a # as) =
     res_bind (first_error id
       [refuse_trace (\<not> valid_relative_path (ta_path a)) ''trace artifact has an invalid path'' [],
        refuse_trace (ta_statements a < 0 \<or> ta_executed_statements a < 0 \<or> ta_statements a < ta_executed_statements a)
          ''trace artifact has invalid statement counts'' (ta_path a),
        refuse_trace (\<not> valid_digest (ta_source_sha256 a) \<or> ta_source_size_bytes a < 0)
          ''trace artifact has invalid source identity'' (ta_path a),
        refuse_trace (ta_path a \<in> set seen) ''trace artifact is duplicated'' (ta_path a),
        refuse_trace (65536 < length (ta_executed_ranges a)) ''trace artifact exceeds the range bound'' (ta_path a),
        refuse_trace ((ta_executed_statements a = 0) \<noteq> (ta_executed_ranges a = []))
          ''trace artifact has inconsistent executed statements and ranges'' (ta_path a),
        refuse_trace (65536 < length (ta_executed_ranges a) + n) ''trace exceeds the 65536-total-executed-range bound'' [],
        refuse_trace (\<not> list_all valid_range (ta_executed_ranges a))
          ''trace artifact has an invalid executed range'' (ta_path a)])
       (\<lambda>_. check_trace_artifacts (ta_path a # seen) (n + length (ta_executed_ranges a)) as)"

definition maximum_test_elapsed_ms :: int where "maximum_test_elapsed_ms = 7 * 24 * 60 * 60 * 1000"

fun check_tests :: "runtime_env \<Rightarrow> string list \<Rightarrow> trace_test list \<Rightarrow> runtime_error + unit" where
  "check_tests env seen [] = Inr ()"
| "check_tests env seen (t # ts) =
     (let identity = tt_package t @ nul @ tt_name t in
      res_bind (first_error id
        [refuse_trace (\<not> valid_test_identity env t \<or> tt_elapsed t < 0 \<or> maximum_test_elapsed_ms < tt_elapsed t)
           ''trace test has invalid identity or elapsed time'' [],
         refuse_trace (identity \<in> set seen) ''trace test is duplicated''
           (if tt_package t = [] then tt_name t else tt_package t @ ''/'' @ tt_name t),
         refuse_trace (tt_status t \<notin> {''pass'', ''fail'', ''skip''}) ''trace test has an invalid status'' []])
        (\<lambda>_. check_tests env (identity # seen) ts))"

fun check_sources :: "string list \<Rightarrow> trace_source list \<Rightarrow> runtime_error + unit" where
  "check_sources seen [] = Inr ()"
| "check_sources seen (s # ss) =
     (let identity = ts_kind s @ nul @ ts_path s in
      res_bind (first_error id
        [refuse_trace (blank (ts_kind s) \<or> \<not> valid_relative_path (ts_path s) \<or> \<not> valid_digest (ts_sha256 s) \<or>
           ts_size_bytes s < 0) ''trace source is invalid'' [],
         refuse_trace (identity \<in> set seen) ''trace source is duplicated'' (ts_path s)])
        (\<lambda>_. check_sources (identity # seen) ss))"

definition validate_trace :: "runtime_env \<Rightarrow> trace \<Rightarrow> runtime_error + unit" where
  "validate_trace env t = first_error id
     (envelope_checks env t @ [check_environment_keys [] (tc_environment_keys t)] @ count_checks t @
      [check_trace_artifacts [] 0 (tc_artifacts t), check_tests env [] (tc_tests t), check_sources [] (tc_sources t)])"

section \<open>Capture integrity\<close>

text \<open>The identifiers captured by this process, oldest first; at most \<open>maximum_integrities\<close> are kept.\<close>

definition maximum_integrities :: nat where "maximum_integrities = 4096"

record integrity_registry =
  ir_ids :: "string list"
  ir_order :: "string list"

definition mark_integrity :: "trace \<Rightarrow> integrity_registry \<Rightarrow> integrity_registry" where
  "mark_integrity t r =
     (if tc_id t = [] \<or> tc_id t \<in> set (ir_ids r) then r
      else let ids = tc_id t # ir_ids r; order = ir_order r @ [tc_id t]
        in if length order \<le> maximum_integrities then \<lparr>ir_ids = ids, ir_order = order\<rparr>
           else \<lparr>ir_ids = filter (\<lambda>k. k \<noteq> hd order) ids, ir_order = tl order\<rparr>)"

definition capture_integrity :: "integrity_registry \<Rightarrow> trace \<Rightarrow> bool" where
  "capture_integrity r t =
     (if tc_integrity_bound t then tc_integrity_authenticated t \<and> tc_integrity_id t = tc_id t
      else tc_id t \<in> set (ir_ids r))"

section \<open>Content affinity\<close>

definition affinity_ignored :: "string list" where
  "affinity_ignored = [''.rkc-history.json'', ''.rkc-trace.json'']"

definition affinity_line :: "artifact \<Rightarrow> string" where
  "affinity_line a = a_path a @ nul @ a_kind a @ nul @ int_digits (a_size_bytes a) @ nul @ a_sha256 a @ nul @
     a_target a @ [byte 10]"

definition content_affinity :: "runtime_env \<Rightarrow> artifact list \<Rightarrow> string \<times> int" where
  "content_affinity env artifacts =
     (let covered = filter (\<lambda>a. a_path a \<notin> set affinity_ignored) (sort_key a_path artifacts)
      in (rt_affinity_digest env (concat (map affinity_line covered)), int (length covered)))"

definition same_affinity :: "trace_repository \<Rightarrow> trace_repository \<Rightarrow> bool" where
  "same_affinity l r \<longleftrightarrow> tr_repository_id l = tr_repository_id r \<and> tr_content_digest l = tr_content_digest r \<and>
     tr_artifact_count l = tr_artifact_count r \<and> tr_git_commit l = tr_git_commit r \<and>
     tr_git_unavailable l = tr_git_unavailable r"

end
