(* ===== verification/RuntimeImport.thy ===== *)
theory RuntimeImport
  imports RuntimeTrace CoverageRatio
begin

text \<open>
  Importing a trace into a bundle, \<open>internal/runtime/import.go\<close>. Attribute values are the dynamic
  values of \<open>Coverage\<close>. The loop over the nodes changes them in place and appends evidence; it is a recursion
  that threads evidence and statistics. \<open>ctx.Err\<close> is the function from the number of the call to its result.
\<close>

section \<open>Attribute values\<close>

definition text_of :: "go_value option \<Rightarrow> string option" where
  "text_of v = (case v of Some (GoString s) \<Rightarrow> Some s | _ \<Rightarrow> None)"

definition is_true :: "go_value option \<Rightarrow> bool" where
  "is_true v \<longleftrightarrow> v = Some (GoBool True)"

text \<open>The strings of a \<open>[]string\<close>, or those among the elements of an \<open>[]any\<close>.\<close>

definition texts_of :: "go_value option \<Rightarrow> string list" where
  "texts_of v =
     (case v of
        Some (GoStrings ss) \<Rightarrow> ss
      | Some (GoList vs) \<Rightarrow> concat (map (\<lambda>x. case x of GoString s \<Rightarrow> [s] | _ \<Rightarrow> []) vs)
      | _ \<Rightarrow> [])"

definition append_unique :: "string list \<Rightarrow> string \<Rightarrow> string list" where
  "append_unique values addition = (if addition \<in> set values then sort values else sort (values @ [addition]))"

section \<open>Line intervals\<close>

record line_interval =
  li_start :: int
  li_end :: int

fun merge_sorted :: "line_interval list \<Rightarrow> line_interval list \<Rightarrow> line_interval list" where
  "merge_sorted merged [] = rev merged"
| "merge_sorted [] (i # is) = merge_sorted [i] is"
| "merge_sorted (m # ms) (i # is) =
     (if li_end m < li_start i then merge_sorted (i # m # ms) is
      else if li_end m < li_end i then merge_sorted (m\<lparr>li_end := li_end i\<rparr> # ms) is
      else merge_sorted (m # ms) is)"

definition merged_line_intervals :: "executed_range list \<Rightarrow> line_interval list" where
  "merged_line_intervals ranges =
     merge_sorted [] (sort_key (\<lambda>i. (li_start i, li_end i))
       (map (\<lambda>r. \<lparr>li_start = xr_start_line r, li_end = xr_end_line r\<rparr>) ranges))"

text \<open>\<open>sort.Search\<close>: the smallest index at which a monotone predicate holds, by bisection.\<close>

function bisect :: "(nat \<Rightarrow> bool) \<Rightarrow> nat \<Rightarrow> nat \<Rightarrow> nat" where
  "bisect f i j =
     (if i < j then let h = (i + j) div 2 in if f h then bisect f i h else bisect f (h + 1) j else i)"
  by pat_completeness auto

termination
  by (relation "measure (\<lambda>(f, i, j). j - i)") auto

declare bisect.simps [simp del]

definition span_executed :: "line_interval list \<Rightarrow> int \<Rightarrow> int \<Rightarrow> bool" where
  "span_executed intervals start_line end_line =
     (if intervals = [] \<or> start_line \<le> 0 then False
      else let last_line = (if end_line < start_line then start_line else end_line);
               k = bisect (\<lambda>k. start_line \<le> li_end (intervals ! k)) 0 (length intervals)
           in k < length intervals \<and> li_start (intervals ! k) \<le> last_line)"

section \<open>Import\<close>

definition is_function_like :: "string \<Rightarrow> bool" where
  "is_function_like kind \<longleftrightarrow> kind \<in> {''function'', ''method'', ''constructor'', ''test''}"

definition runtime_plugin :: string where "runtime_plugin = ''rkc.runtime''"
definition runtime_version :: string where "runtime_version = ''1.7.0''"

record import_stats =
  im_trace_artifact_claims :: nat
  im_producer_observed_functions :: nat
  im_functions_not_observed :: nat
  im_producer_observed_call_edges :: nat
  im_undemonstrated_call_edges :: nat
  im_call_observation_available :: bool
  im_call_observation_reason :: string
  im_producer_authenticated_evidence :: nat
  im_assertion_evidence :: nat
  im_asserted_functions :: nat
  im_asserted_tests :: nat
  im_producer_authenticated :: bool
  im_producer_authentication :: string
  im_capture_integrity_authenticated :: bool
  im_capture_integrity :: string
  im_producer_authenticated_paths :: nat
  im_trace_test_claims :: nat
  im_digest :: string

definition initial_stats :: "bool \<Rightarrow> trace \<Rightarrow> import_stats" where
  "initial_stats integrity t = \<lparr>im_trace_artifact_claims = length (tc_artifacts t), im_producer_observed_functions = 0,
     im_functions_not_observed = 0, im_producer_observed_call_edges = 0, im_undemonstrated_call_edges = 0,
     im_call_observation_available = False,
     im_call_observation_reason = ''no authenticated call-event producer is admitted'',
     im_producer_authenticated_evidence = 0, im_assertion_evidence = 0, im_asserted_functions = 0,
     im_asserted_tests = 0, im_producer_authenticated = False,
     im_producer_authentication = ''unavailable; current capture integrity and source affinity do not authenticate command output'',
     im_capture_integrity_authenticated = integrity,
     im_capture_integrity = (if integrity
       then ''exact record produced by this RKC process; command output remains producer-unverified''
       else ''portable self-hashed record''),
     im_producer_authenticated_paths = 0, im_trace_test_claims = length (tc_tests t), im_digest = tc_id t\<rparr>"

text \<open>Every piece of evidence is a user assertion of confidence one half.\<close>

definition assertion_evidence ::
  "string \<Rightarrow> string \<Rightarrow> source_range option \<Rightarrow> string \<Rightarrow> string \<Rightarrow> go_value attributes \<Rightarrow> go_value evidence" where
  "assertion_evidence k method source digest detail attributes = \<lparr>evd_id = k, evd_kind = ''user_asserted'',
     evd_method = method, evd_confidence = Finite (1 / 2), evd_source = source, evd_tool = runtime_plugin,
     evd_tool_version = runtime_version, evd_input_digest = digest, evd_observed_at = None, evd_detail = detail,
     evd_attributes = attributes\<rparr>"

text \<open>Binding the claims to the artifacts of the bundle: the intervals and the combined claim of each path.\<close>

record bound_claims =
  bc_executed :: "(string \<times> line_interval list) list"
  bc_bound :: "(string \<times> trace_artifact) list"

definition zero_trace_artifact :: trace_artifact where
  "zero_trace_artifact = \<lparr>ta_path = [], ta_source_sha256 = [], ta_source_size_bytes = 0, ta_statements = 0,
     ta_executed_statements = 0, ta_executed_ranges = []\<rparr>"

definition bind_claim :: "trace_artifact \<Rightarrow> bound_claims \<Rightarrow> bound_claims" where
  "bind_claim observed s =
     (let path = ta_path observed;
          combined = (case map_of (bc_bound s) path of None \<Rightarrow> zero_trace_artifact | Some c \<Rightarrow> c)
      in \<lparr>bc_executed = AList.update path (merged_line_intervals (ta_executed_ranges observed)) (bc_executed s),
          bc_bound = AList.update path (combined\<lparr>ta_path := path,
            ta_statements := ta_statements combined + ta_statements observed,
            ta_executed_statements := ta_executed_statements combined + ta_executed_statements observed,
            ta_executed_ranges := ta_executed_ranges combined @ ta_executed_ranges observed\<rparr>) (bc_bound s)\<rparr>)"

fun bind_claims ::
  "(nat \<Rightarrow> string option) \<Rightarrow> nat \<Rightarrow> (string \<times> artifact) list \<Rightarrow> trace_artifact list \<Rightarrow> bound_claims \<Rightarrow>
   runtime_error + bound_claims" where
  "bind_claims ctx n by_path [] s = Inr s"
| "bind_claims ctx n by_path (x # xs) s =
     (case ctx n of
        Some e \<Rightarrow> Inl (ContextError e)
      | None \<Rightarrow> (case map_of by_path (ta_path x) of
          None \<Rightarrow> Inl (TraceError ''trace source identity does not match the scanned snapshot'' [])
        | Some a \<Rightarrow>
            if a_sha256 a \<noteq> ta_source_sha256 x \<or> a_size_bytes a \<noteq> ta_source_size_bytes x
            then Inl (TraceError ''trace source identity does not match the scanned snapshot'' [])
            else bind_claims ctx (n + 1) by_path xs (bind_claim x s)))"

definition observed_attributes :: "trace \<Rightarrow> bool \<Rightarrow> go_value attributes" where
  "observed_attributes t integrity = [(''trace_id'', GoString (tc_id t)), (''producer_authenticated'', GoBool False),
     (''capture_integrity_authenticated'', GoBool integrity), (''source_stability'', GoString ''pre_post_endpoints_only'')]"

definition add_trace_to :: "string \<Rightarrow> string \<Rightarrow> go_value node \<Rightarrow> go_value node" where
  "add_trace_to key trace_id n = n\<lparr>n_attributes :=
     AList.update key (GoStrings (append_unique (texts_of (map_of (n_attributes n) key)) trace_id)) (n_attributes n)\<rparr>"

definition add_evidence_to :: "string \<Rightarrow> go_value node \<Rightarrow> go_value node" where
  "add_evidence_to k n = n\<lparr>n_evidence_ids := append_unique (n_evidence_ids n) k\<rparr>"

text \<open>One node: a function with a source in a covered file is asserted to be executed or not observed.\<close>

definition observe_node ::
  "runtime_env \<Rightarrow> trace \<Rightarrow> bool \<Rightarrow> (string \<times> line_interval list) list \<Rightarrow> go_value node \<Rightarrow>
   go_value evidence list \<times> import_stats \<Rightarrow> go_value node \<times> go_value evidence list \<times> import_stats" where
  "observe_node env t integrity executed n s =
     (case n_source n of
        None \<Rightarrow> (n, s)
      | Some source \<Rightarrow>
          if \<not> is_function_like (n_kind n) then (n, s)
          else case map_of executed (sr_path source) of
            None \<Rightarrow> (n, s)
          | Some intervals \<Rightarrow>
              if span_executed intervals (sr_start_line source) (sr_end_line source) then
                (let method = ''trace.function.assertion'';
                     k = stable_id (rt_sha12 env) ''evidence'' [runtime_plugin, method, n_id n, tc_id t]
                 in (add_trace_to ''execution_asserted_trace_ids'' (tc_id t) (add_evidence_to k n),
                     fst s @ [assertion_evidence k method (Some source) (tc_id t)
                       ''trace claims that an executed statement span intersects this function''
                       (observed_attributes t integrity)],
                     (snd s)\<lparr>im_asserted_functions := im_asserted_functions (snd s) + 1,
                       im_assertion_evidence := im_assertion_evidence (snd s) + 1\<rparr>))
              else
                (let method = ''trace.function.not_observed.assertion'';
                     k = stable_id (rt_sha12 env) ''evidence'' [runtime_plugin, method, n_id n, tc_id t]
                 in (add_evidence_to k (add_trace_to ''execution_not_observed_trace_ids'' (tc_id t) n),
                     fst s @ [assertion_evidence k method (Some source) (tc_id t)
                       ''trace claims that no executed statement span intersected this function in this capture''
                       (observed_attributes t integrity @ [(''negative_scope'', GoString ''this_trace_only'')])],
                     (snd s)\<lparr>im_functions_not_observed := im_functions_not_observed (snd s) + 1,
                       im_assertion_evidence := im_assertion_evidence (snd s) + 1\<rparr>)))"

fun observe_nodes ::
  "runtime_env \<Rightarrow> trace \<Rightarrow> bool \<Rightarrow> (string \<times> line_interval list) list \<Rightarrow> go_value node list \<Rightarrow>
   go_value evidence list \<times> import_stats \<Rightarrow> go_value node list \<times> go_value evidence list \<times> import_stats" where
  "observe_nodes env t integrity executed [] s = ([], s)"
| "observe_nodes env t integrity executed (n # ns) s =
     (let (n', s1) = observe_node env t integrity executed n s;
          (ns', s2) = observe_nodes env t integrity executed ns s1
      in (n' # ns', s2))"

definition undemonstrated :: "runtime_env \<Rightarrow> go_value edge \<Rightarrow> bool" where
  "undemonstrated env e \<longleftrightarrow> e_kind e = ''calls'' \<and>
     normalize_resolution (rt_fold_case env) (e_resolution e) \<noteq> ''unresolved''"

definition count_edge_claims :: "runtime_env \<Rightarrow> go_value edge list \<Rightarrow> import_stats \<Rightarrow> import_stats" where
  "count_edge_claims env edges s =
     fold (\<lambda>e s. if undemonstrated env e then s\<lparr>im_undemonstrated_call_edges := im_undemonstrated_call_edges s + 1\<rparr> else s)
       edges s"

definition range_start :: "trace_artifact \<Rightarrow> int" where
  "range_start a = (case map xr_start_line (ta_executed_ranges a) of [] \<Rightarrow> 0 | l # ls \<Rightarrow> fold min ls l)"

definition range_end :: "trace_artifact \<Rightarrow> int" where
  "range_end a = (case map xr_end_line (ta_executed_ranges a) of [] \<Rightarrow> 0 | l # ls \<Rightarrow> fold max ls l)"

definition zero_artifact :: artifact where
  "zero_artifact = \<lparr>a_id = [], a_logical_id = [], a_content_id = [], a_path = [], a_kind = [], a_language = [],
     a_media_type = [], a_encoding = [], a_newline = [], a_size_bytes = 0, a_sha256 = [], a_line_count = 0, a_mode = 0,
     a_text = False, a_executable = False, a_generated = False, a_vendored = False, a_status = [],
     a_disposition_reason = [], a_exclusion_reason = [], a_target = [], a_license_expression = [], a_attributes = []\<rparr>"

definition zero_source :: source_range where
  "zero_source = \<lparr>sr_artifact_id = [], sr_path = [], sr_start_byte = 0, sr_end_byte = 0, sr_start_line = 0,
     sr_start_column = 0, sr_end_line = 0, sr_end_column = 0, sr_anchor = []\<rparr>"

text \<open>The evidence of one covered path, none without executed statements.\<close>

definition coverage_evidence ::
  "runtime_env \<Rightarrow> trace \<Rightarrow> bool \<Rightarrow> (string \<times> artifact) list \<Rightarrow> (string \<times> trace_artifact) list \<Rightarrow> string \<Rightarrow>
   go_value evidence list" where
  "coverage_evidence env t integrity by_path bound path =
     (case map_of bound path of
        None \<Rightarrow> []
      | Some observed \<Rightarrow>
          if ta_executed_statements observed \<le> 0 then []
          else let artifact = (case map_of by_path path of None \<Rightarrow> zero_artifact | Some a \<Rightarrow> a);
                   method = ''trace.coverage.assertion''
               in [assertion_evidence (stable_id (rt_sha12 env) ''evidence'' [runtime_plugin, method, path, tc_id t]) method
                     (Some (zero_source\<lparr>sr_artifact_id := a_id artifact, sr_path := path,
                        sr_start_line := range_start observed, sr_end_line := range_end observed\<rparr>))
                     (tc_id t)
                     (''claims '' @ int_digits (ta_executed_statements observed) @ ''/'' @
                        int_digits (ta_statements observed) @ '' statements executed'')
                     (observed_attributes t integrity)])"

definition qualified_test_name :: "trace_test \<Rightarrow> string" where
  "qualified_test_name t = (if tt_package t = [] then tt_name t else tt_package t @ ''/'' @ tt_name t)"

definition test_evidence :: "runtime_env \<Rightarrow> trace \<Rightarrow> bool \<Rightarrow> trace_test \<Rightarrow> go_value evidence" where
  "test_evidence env t integrity test =
     (let method = ''trace.test.assertion'' in
      assertion_evidence (stable_id (rt_sha12 env) ''evidence'' [runtime_plugin, method, tc_id t, tt_package test, tt_name test])
        method None (tc_id t) (qualified_test_name test)
        [(''trace_id'', GoString (tc_id t)), (''package'', GoString (tt_package test)), (''test'', GoString (tt_name test)),
         (''status'', GoString (tt_status test)), (''elapsed_ms'', GoInt (tt_elapsed test)),
         (''producer_authenticated'', GoBool False), (''capture_integrity_authenticated'', GoBool integrity)])"

text \<open>What the evidence and the node of the trace say about its authority.\<close>

definition authority_attributes :: "bool \<Rightarrow> import_stats \<Rightarrow> go_value attributes" where
  "authority_attributes integrity stats =
     [(''producer_authenticated'', GoBool False),
      (''producer_authentication'', GoString (im_producer_authentication stats)),
      (''capture_integrity_authenticated'', GoBool integrity),
      (''capture_integrity'', GoString (im_capture_integrity stats)),
      (''source_stability'', GoString ''pre_post_endpoints_only''),
      (''call_observation_available'', GoBool False),
      (''call_observation_reason'', GoString (im_call_observation_reason stats))]"

definition trace_evidence_id :: "runtime_env \<Rightarrow> trace \<Rightarrow> string" where
  "trace_evidence_id env t = stable_id (rt_sha12 env) ''evidence'' [runtime_plugin, ''trace.capture.assertion'', tc_id t]"

definition trace_evidence :: "runtime_env \<Rightarrow> trace \<Rightarrow> bool \<Rightarrow> import_stats \<Rightarrow> nat \<Rightarrow> go_value evidence" where
  "trace_evidence env t integrity stats n =
     assertion_evidence (trace_evidence_id env t) ''trace.capture.assertion'' None (tc_id t)
       (if integrity
        then ''this RKC process captured assertions for '' @ nat_digits n @ '' bound coverage artifacts and '' @
          nat_digits (length (tc_tests t)) @ '' terminal test-result claims; producer authority is unavailable''
        else ''asserts '' @ nat_digits n @ '' bound coverage artifacts and '' @
          nat_digits (length (tc_tests t)) @ '' terminal test-result claims'')
       ([(''trace_id'', GoString (tc_id t)), (''exit_code'', GoInt (tc_exit_code t))] @ authority_attributes integrity stats)"

definition trace_node :: "runtime_env \<Rightarrow> trace \<Rightarrow> bool \<Rightarrow> import_stats \<Rightarrow> nat \<Rightarrow> go_value node" where
  "trace_node env t integrity stats n = zero_node\<lparr>
     n_id := stable_id (rt_sha12 env) ''node'' [runtime_plugin, ''trace'', tc_id t], n_kind := ''trace'',
     n_name := (if integrity then ''Integrity-authenticated capture assertion '' else ''Unverified runtime assertion '') @
       take 12 (tc_id t),
     n_qualified_name := ''runtime:'' @ tc_id t, n_evidence_ids := [trace_evidence_id env t],
     n_attributes := [(''trace_id'', GoString (tc_id t)), (''command'', GoString (tc_command t)),
       (''exit_code'', GoInt (tc_exit_code t)), (''duration_ms'', GoInt (tc_duration_ms t)),
       (''artifacts'', GoInt (int n)), (''tests'', GoInt (int (length (tc_tests t))))] @
       authority_attributes integrity stats\<rparr>"

definition current_repository :: "runtime_env \<Rightarrow> go_value model_bundle \<Rightarrow> trace_repository" where
  "current_repository env b =
     (let (digest, n) = content_affinity env (bu_artifacts b)
      in \<lparr>tr_repository_id = sn_repository_id (bu_snapshot b), tr_content_digest = digest, tr_artifact_count = n,
          tr_git_commit = gi_commit (sn_git (bu_snapshot b)), tr_git_unavailable = gi_unavailable (sn_git (bu_snapshot b))\<rparr>)"

definition already_imported :: "trace \<Rightarrow> go_value model_bundle \<Rightarrow> bool" where
  "already_imported t b \<longleftrightarrow> list_ex (\<lambda>n. n_kind n = ''trace'' \<and> map_of (n_attributes n) ''trace_id'' = Some (GoString (tc_id t))) (bu_nodes b)"

text \<open>What is done once all checks have passed: the changed bundle and the statistics.\<close>

definition import_claims ::
  "runtime_env \<Rightarrow> trace \<Rightarrow> bool \<Rightarrow> (string \<times> artifact) list \<Rightarrow> bound_claims \<Rightarrow> go_value model_bundle \<Rightarrow>
   import_stats \<times> go_value model_bundle" where
  "import_claims env t integrity by_path claims b =
     (let (nodes, evidence1, stats1) = observe_nodes env t integrity (bc_executed claims) (bu_nodes b)
            (bu_evidence b, initial_stats integrity t);
          stats2 = count_edge_claims env (bu_edges b) stats1;
          covered = concat (map (coverage_evidence env t integrity by_path (bc_bound claims)) (sorted_keys (keys (bc_bound claims))));
          tested = map (test_evidence env t integrity) (tc_tests t);
          bound = length (bc_bound claims);
          stats3 = stats2\<lparr>im_assertion_evidence := im_assertion_evidence stats2 + length covered + length tested + 1,
            im_asserted_tests := im_asserted_tests stats2 + length tested\<rparr>
      in (stats3, b\<lparr>
            bu_evidence := evidence1 @ covered @ tested @ [trace_evidence env t integrity stats2 bound],
            bu_nodes := nodes @ [trace_node env t integrity stats2 bound]\<rparr>))"

text \<open>The result and the bundle, which the code changes in place. A nil context is \<open>None\<close>; the bundle is never nil.\<close>

definition import_trace ::
  "runtime_env \<Rightarrow> integrity_registry \<Rightarrow> (nat \<Rightarrow> string option) option \<Rightarrow> go_value model_bundle \<Rightarrow> trace \<Rightarrow>
   (runtime_error + import_stats) \<times> go_value model_bundle" where
  "import_trace env registry context b t =
     (case context of
        None \<Rightarrow> (Inl (TraceError ''trace import context is required'' []), b)
      | Some ctx \<Rightarrow> (case ctx 0 of
          Some e \<Rightarrow> (Inl (ContextError e), b)
        | None \<Rightarrow> (case validate_trace env t of
            Inl e \<Rightarrow> (Inl e, b)
          | Inr _ \<Rightarrow>
              (let integrity = capture_integrity registry t; current = current_repository env b;
                   by_path = index_by a_path (bu_artifacts b) in
               if \<not> same_affinity (tc_repository t) current
               then (Inl (TraceError ''trace repository affinity does not match the scanned snapshot'' []), b)
               else if already_imported t b then (Inl (TraceError ''trace is already imported'' (tc_id t)), b)
               else case bind_claims ctx 1 by_path (tc_artifacts t) \<lparr>bc_executed = [], bc_bound = []\<rparr> of
                 Inl e \<Rightarrow> (Inl e, b)
               | Inr claims \<Rightarrow>
                   (let (stats, b') = import_claims env t integrity by_path claims b
                    in if content_affinity env (bu_artifacts b') \<noteq>
                          (tr_content_digest current, tr_artifact_count current)
                       then (Inl (TraceError ''snapshot artifacts changed during trace import'' []), b')
                       else (Inr stats, b'))))))"

end
