(* ===== verification/RuntimeDiff.thy ===== *)
theory RuntimeDiff
  imports RuntimeImport
begin

text \<open>
  The static-versus-runtime difference of \<open>internal/runtime/diff.go\<close>. Sets of trace identifiers are maps in the code
  and lists without order here: only membership and the sorted list of the distinct elements are used. Counts are
  \<open>nat\<close>, since a slice has fewer than 2^63 elements; the ratio is rounded to
  binary64.
\<close>

record undemonstrated_call =
  uc_caller :: string
  uc_callee :: string
  uc_kind :: string

record runtime_diff =
  rd_producer_authenticated_trace_ids :: "string list"
  rd_unverified_assertion_ids :: "string list"
  rd_capture_integrity_assertion_ids :: "string list"
  rd_producer_authenticated_tests :: nat
  rd_producer_authenticated_passed :: nat
  rd_producer_authenticated_failed :: nat
  rd_producer_authenticated_skipped :: nat
  rd_producer_observed_functions :: nat
  rd_asserted_functions :: nat
  rd_functions_not_observed :: nat
  rd_static_call_edges :: nat
  rd_resolved_call_edges :: nat
  rd_producer_observed_call_edges :: nat
  rd_undemonstrated_call_edges :: nat
  rd_call_observation_available :: bool
  rd_call_observation_reason :: string
  rd_producer_call_observation_ratio :: go_float
  rd_execution_asserted_functions :: "string list"
  rd_not_observed_functions :: "string list"
  rd_undemonstrated_calls :: "undemonstrated_call list"

section \<open>The trace nodes\<close>

text \<open>The trace identifier of a node, if its attribute is a string that is not empty.\<close>

definition named_trace :: "go_value attributes \<Rightarrow> string option" where
  "named_trace attributes = (case text_of (map_of attributes ''trace_id'') of
     Some k \<Rightarrow> if k = [] then None else Some k | None \<Rightarrow> None)"

definition trace_names :: "(go_value attributes \<Rightarrow> bool) \<Rightarrow> go_value node list \<Rightarrow> string list" where
  "trace_names p nodes = concat (map (\<lambda>n. if n_kind n = ''trace'' \<and> p (n_attributes n)
     then (case named_trace (n_attributes n) of Some k \<Rightarrow> [k] | None \<Rightarrow> []) else []) nodes)"

definition attribute_true :: "string \<Rightarrow> go_value attributes \<Rightarrow> bool" where
  "attribute_true key attributes \<longleftrightarrow> is_true (map_of attributes key)"

definition authenticated_traces :: "go_value node list \<Rightarrow> string list" where
  "authenticated_traces = trace_names (attribute_true ''producer_authenticated'')"

definition call_event_traces :: "go_value node list \<Rightarrow> string list" where
  "call_event_traces = trace_names
     (\<lambda>a. attribute_true ''producer_authenticated'' a \<and> attribute_true ''call_observation_available'' a)"

definition assertion_traces :: "go_value node list \<Rightarrow> string list" where
  "assertion_traces = trace_names (\<lambda>a. \<not> attribute_true ''producer_authenticated'' a)"

definition integrity_assertion_traces :: "go_value node list \<Rightarrow> string list" where
  "integrity_assertion_traces = trace_names
     (\<lambda>a. \<not> attribute_true ''producer_authenticated'' a \<and> attribute_true ''capture_integrity_authenticated'' a)"

text \<open>The first stated reason of a trace node, if any.\<close>

fun stated_reason :: "go_value node list \<Rightarrow> string" where
  "stated_reason [] = []"
| "stated_reason (n # ns) =
     (if n_kind n = ''trace'' then
        (case text_of (map_of (n_attributes n) ''call_observation_reason'') of
           Some r \<Rightarrow> if r \<noteq> [] then r else stated_reason ns
         | None \<Rightarrow> stated_reason ns)
      else stated_reason ns)"

section \<open>Tests and functions\<close>

definition producer_test :: "string list \<Rightarrow> go_value evidence \<Rightarrow> bool" where
  "producer_test traces e \<longleftrightarrow> evd_kind e = ''test_result'' \<and> evd_confidence e = 1 \<and>
     map_of (evd_attributes e) ''producer_authenticated'' = Some (GoBool True) \<and>
     (case named_trace (evd_attributes e) of Some k \<Rightarrow> k \<in> set traces | None \<Rightarrow> False)"

definition count_tests :: "string list \<Rightarrow> string \<Rightarrow> go_value evidence list \<Rightarrow> nat" where
  "count_tests traces status evidence = length (filter (\<lambda>e. producer_test traces e \<and>
     text_of (map_of (evd_attributes e) ''status'') = Some status) evidence)"

definition names_intersect :: "go_value option \<Rightarrow> string list \<Rightarrow> bool" where
  "names_intersect v names \<longleftrightarrow> list_ex (\<lambda>s. s \<in> set names) (texts_of v)"

definition function_nodes :: "go_value node list \<Rightarrow> go_value node list" where
  "function_nodes nodes = filter (\<lambda>n. is_function_like (n_kind n)) nodes"

definition named_functions :: "string \<Rightarrow> string list \<Rightarrow> go_value node list \<Rightarrow> string list" where
  "named_functions key traces nodes =
     map n_qualified_name (filter (\<lambda>n. names_intersect (map_of (n_attributes n) key) traces) (function_nodes nodes))"

definition observed_functions :: "string list \<Rightarrow> go_value node list \<Rightarrow> go_value node list" where
  "observed_functions traces nodes = filter (\<lambda>n. attribute_true ''executed'' (n_attributes n) \<and>
     names_intersect (map_of (n_attributes n) ''executed_trace_ids'') traces) (function_nodes nodes)"

section \<open>Call edges\<close>

definition resolved_calls :: "runtime_env \<Rightarrow> go_value edge list \<Rightarrow> go_value edge list" where
  "resolved_calls env edges = filter (undemonstrated env) edges"

definition producer_call :: "bool \<Rightarrow> string list \<Rightarrow> go_value edge \<Rightarrow> bool" where
  "producer_call available traces e \<longleftrightarrow> attribute_true ''observed'' (e_attributes e) \<and> available \<and>
     names_intersect (map_of (e_attributes e) ''observed_trace_ids'') traces"

definition undemonstrated_of :: "(string \<times> go_value node) list \<Rightarrow> go_value edge \<Rightarrow> undemonstrated_call" where
  "undemonstrated_of by_id e =
     (let node = (\<lambda>k. case map_of by_id k of None \<Rightarrow> zero_node | Some n \<Rightarrow> n)
      in \<lparr>uc_caller = n_qualified_name (node (e_from e)), uc_callee = n_qualified_name (node (e_to e)),
          uc_kind = n_kind (node (e_to e))\<rparr>)"

definition default_reason :: "string list \<Rightarrow> string list \<Rightarrow> string" where
  "default_reason assertions traces =
     (if assertions \<noteq> [] then ''runtime assertions contain no producer-authenticated call-event evidence''
      else if traces \<noteq> [] then ''producer-authenticated traces contain no authenticated call-event evidence''
      else ''no authenticated call-event evidence is imported'')"

definition build_diff :: "runtime_env \<Rightarrow> go_value model_bundle \<Rightarrow> runtime_diff" where
  "build_diff env b =
     (let nodes = bu_nodes b; traces = authenticated_traces nodes; assertions = assertion_traces nodes;
          events = call_event_traces nodes; available = (events \<noteq> []);
          passed = count_tests traces ''pass'' (bu_evidence b);
          failed = count_tests traces ''fail'' (bu_evidence b);
          skipped = count_tests traces ''skip'' (bu_evidence b);
          asserted = named_functions ''execution_asserted_trace_ids'' assertions nodes;
          missed = named_functions ''execution_not_observed_trace_ids'' assertions nodes;
          resolved = resolved_calls env (bu_edges b);
          observed = filter (producer_call available events) resolved;
          open_calls = filter (\<lambda>e. \<not> producer_call available events e) resolved;
          reason = stated_reason nodes
      in \<lparr>rd_producer_authenticated_trace_ids = sorted_keys traces,
          rd_unverified_assertion_ids = sorted_keys assertions,
          rd_capture_integrity_assertion_ids = sorted_keys (integrity_assertion_traces nodes),
          rd_producer_authenticated_tests = passed + failed + skipped,
          rd_producer_authenticated_passed = passed,
          rd_producer_authenticated_failed = failed,
          rd_producer_authenticated_skipped = skipped,
          rd_producer_observed_functions = length (observed_functions traces nodes),
          rd_asserted_functions = length asserted,
          rd_functions_not_observed = length missed,
          rd_static_call_edges = length (filter (\<lambda>e. e_kind e = ''calls'') (bu_edges b)),
          rd_resolved_call_edges = length resolved,
          rd_producer_observed_call_edges = length observed,
          rd_undemonstrated_call_edges = length open_calls,
          rd_call_observation_available = available,
          rd_call_observation_reason =
            (if available then [] else if reason \<noteq> [] then reason else default_reason assertions traces),
          rd_producer_call_observation_ratio = (if available \<and> resolved \<noteq> []
            then float64_quot (length observed) (length resolved) else 0),
          rd_execution_asserted_functions = sort asserted,
          rd_not_observed_functions = sort missed,
          rd_undemonstrated_calls = sort_key (\<lambda>c. (uc_caller c, uc_callee c))
            (map (undemonstrated_of (index_by n_id nodes)) open_calls)\<rparr>)"

end
