(* ===== verification/RuntimeSpans.thy ===== *)
theory RuntimeSpans
  imports RuntimeDiff
begin

text \<open>
  Merged line intervals and the bisection of \<open>spanExecuted\<close>: the optimised test whether a function's lines meet an
  executed range agrees with looking at every range.
\<close>

section \<open>Bisection\<close>

lemma bisect_bounds: "i \<le> j \<Longrightarrow> i \<le> bisect f i j \<and> bisect f i j \<le> j"
proof (induction f i j rule: bisect.induct)
  case (1 f i j)
  show ?case
  proof (cases "i < j")
    case True
    define h where "h = (i + j) div 2"
    have h: "i \<le> h" "h < j"
      using True unfolding h_def by auto
    show ?thesis
      using 1 True h by (subst (1 2) bisect.simps) (auto simp: Let_def h_def [symmetric])
  next
    case False
    then show ?thesis
      using \<open>i \<le> j\<close> by (simp add: bisect.simps)
  qed
qed

text \<open>On a monotone predicate the bisection finds the least index, \<open>j\<close> when there is none.\<close>

lemma bisect_least:
  assumes "\<And>a b. a \<le> b \<Longrightarrow> b < j \<Longrightarrow> f a \<Longrightarrow> f b" and "i \<le> j"
  shows "(bisect f i j < j \<longrightarrow> f (bisect f i j)) \<and> (\<forall>k. i \<le> k \<longrightarrow> k < bisect f i j \<longrightarrow> \<not> f k)"
  using assms
proof (induction f i j rule: bisect.induct)
  case (1 f i j)
  show ?case
  proof (cases "i < j")
    case True
    define h where "h = (i + j) div 2"
    have h: "i \<le> h" "h < j"
      using True unfolding h_def by auto
    show ?thesis
    proof (cases "f h")
      case True
      have eq: "bisect f i j = bisect f i h"
        using \<open>i < j\<close> True by (subst bisect.simps) (simp add: Let_def h_def)
      have "(bisect f i h < h \<longrightarrow> f (bisect f i h)) \<and> (\<forall>k. i \<le> k \<longrightarrow> k < bisect f i h \<longrightarrow> \<not> f k)"
        using 1(1) [OF \<open>i < j\<close> h_def] True h "1.prems"(1) by (meson dual_order.strict_trans order_less_imp_le less_le_trans)
      moreover have "bisect f i h \<le> h"
        using bisect_bounds h by blast
      ultimately show ?thesis
        using eq True by (metis le_neq_implies_less)
    next
      case False
      have eq: "bisect f i j = bisect f (h + 1) j"
        using \<open>i < j\<close> False by (subst bisect.simps) (simp add: Let_def h_def)
      have "(bisect f (h + 1) j < j \<longrightarrow> f (bisect f (h + 1) j)) \<and> (\<forall>k. h + 1 \<le> k \<longrightarrow> k < bisect f (h + 1) j \<longrightarrow> \<not> f k)"
        using 1(2) [OF \<open>i < j\<close> h_def] False h "1.prems"(1) by auto
      moreover have "\<not> f k" if "k \<le> h" for k
        using "1.prems"(1) [OF that h(2)] False by blast
      ultimately show ?thesis
        using eq by (metis Suc_eq_plus1 not_less_eq_eq)
    qed
  next
    case False
    then show ?thesis
      using \<open>i \<le> j\<close> by (simp add: bisect.simps)
  qed
qed

section \<open>Merging\<close>

definition covers :: "line_interval list \<Rightarrow> int \<Rightarrow> bool" where
  "covers xs l \<longleftrightarrow> (\<exists>i \<in> set xs. li_start i \<le> l \<and> l \<le> li_end i)"

definition proper :: "line_interval list \<Rightarrow> bool" where
  "proper xs \<longleftrightarrow> (\<forall>i \<in> set xs. li_start i \<le> li_end i)"

lemma covers_simps [simp]:
  "covers [] l = False"
  "covers (i # xs) l \<longleftrightarrow> li_start i \<le> l \<and> l \<le> li_end i \<or> covers xs l"
  by (auto simp: covers_def)

lemma covers_rev [simp]: "covers (rev xs) l = covers xs l"
  by (simp add: covers_def)

lemma proper_Cons [simp]: "proper (i # xs) \<longleftrightarrow> li_start i \<le> li_end i \<and> proper xs"
  by (auto simp: proper_def)

text \<open>Merging keeps the covered lines and leaves proper intervals with a gap between neighbours.\<close>

definition apart :: "line_interval list \<Rightarrow> bool" where
  "apart xs \<longleftrightarrow> sorted_wrt (\<lambda>a b. li_end b < li_start a) xs"

lemma apart_Cons: "apart (i # xs) \<longleftrightarrow> (\<forall>x \<in> set xs. li_end x < li_start i) \<and> apart xs"
  by (simp add: apart_def)

lemma merge_sorted_covers:
  assumes "sorted (map li_start is)" and "merged \<noteq> [] \<Longrightarrow> \<forall>i \<in> set is. li_start (hd merged) \<le> li_start i"
  shows "covers (merge_sorted merged is) l \<longleftrightarrow> covers merged l \<or> covers is l"
  using assms by (induction merged "is" rule: merge_sorted.induct) auto

lemma merge_sorted_apart:
  assumes "sorted (map li_start is)" and "merged \<noteq> [] \<Longrightarrow> \<forall>i \<in> set is. li_start (hd merged) \<le> li_start i"
    and "apart merged" and "proper merged" and "proper is"
  shows "apart (rev (merge_sorted merged is)) \<and> proper (merge_sorted merged is)"
  using assms
proof (induction merged "is" rule: merge_sorted.induct)
  case (3 m ms i "is")
  consider "li_end m < li_start i" | "\<not> li_end m < li_start i" "li_end m < li_end i"
    | "\<not> li_end m < li_start i" "\<not> li_end m < li_end i" by blast
  then show ?case
  proof cases
    case 1
    have "apart (i # m # ms)"
      using 1 "3.prems"(3,4) by (fastforce simp: apart_Cons)
    then show ?thesis
      using 1 "3.prems" "3.IH"(1) [OF 1] by (auto simp: apart_Cons)
  next
    case 2
    then show ?thesis
      using "3.prems" "3.IH"(2) [OF 2] by (auto simp: apart_Cons)
  next
    case 3
    then show ?thesis
      using "3.prems" "3.IH"(3) [OF 3] by auto
  qed
next
  case (1 merged)
  then show ?case by (simp add: proper_def)
next
  case (2 i "is")
  then show ?case by (simp add: apart_def)
qed

definition interval_of :: "executed_range \<Rightarrow> line_interval" where
  "interval_of r = \<lparr>li_start = xr_start_line r, li_end = xr_end_line r\<rparr>"

lemma sorted_by_start: "sorted (map li_start (sort_key (\<lambda>i. (li_start i, li_end i)) xs))"
proof -
  have "sorted (map (\<lambda>i. (li_start i, li_end i)) (sort_key (\<lambda>i. (li_start i, li_end i)) xs))"
    by simp
  then show ?thesis
    by (simp add: sorted_map) (rule sorted_wrt_mono_rel, auto)
qed

lemma merged_line_intervals_eq:
  "merged_line_intervals rs = merge_sorted [] (sort_key (\<lambda>i. (li_start i, li_end i)) (map interval_of rs))"
  by (simp add: merged_line_intervals_def interval_of_def [abs_def])

lemma merged_lines_covered: "covers (merged_line_intervals rs) l \<longleftrightarrow> covers (map interval_of rs) l"
  using merge_sorted_covers [OF sorted_by_start, of "[]" "map interval_of rs" l]
  by (simp add: merged_line_intervals_eq covers_def)

lemma merged_apart:
  assumes "\<forall>r \<in> set rs. xr_start_line r \<le> xr_end_line r"
  shows "sorted_wrt (\<lambda>a b. li_end a < li_start b) (merged_line_intervals rs)" and "proper (merged_line_intervals rs)"
proof -
  have "proper (sort_key (\<lambda>i. (li_start i, li_end i)) (map interval_of rs))"
    using assms by (auto simp: proper_def interval_of_def)
  then have "apart (rev (merged_line_intervals rs)) \<and> proper (merged_line_intervals rs)"
    using merge_sorted_apart [OF sorted_by_start, of "[]" "map interval_of rs"]
    by (simp add: merged_line_intervals_eq apart_def proper_def)
  then show "sorted_wrt (\<lambda>a b. li_end a < li_start b) (merged_line_intervals rs)" "proper (merged_line_intervals rs)"
    by (simp_all add: apart_def sorted_wrt_rev)
qed

section \<open>The span test\<close>

lemma ordered_intervals:
  assumes "sorted_wrt (\<lambda>a b. li_end a < li_start b) xs" and "proper xs" and "a \<le> b" and "b < length xs"
  shows "li_start (xs ! a) \<le> li_start (xs ! b) \<and> li_end (xs ! a) \<le> li_end (xs ! b)"
proof (cases "a = b")
  case False
  then have "li_end (xs ! a) < li_start (xs ! b)"
    using assms by (simp add: sorted_wrt_iff_nth_less)
  moreover have "li_start (xs ! a) \<le> li_end (xs ! a)" "li_start (xs ! b) \<le> li_end (xs ! b)"
    using assms by (auto simp: proper_def)
  ultimately show ?thesis by auto
qed simp

lemma span_executed_iff:
  assumes "sorted_wrt (\<lambda>a b. li_end a < li_start b) xs" and "proper xs"
  shows "span_executed xs s e \<longleftrightarrow> 0 < s \<and> (\<exists>i \<in> set xs. li_start i \<le> max s e \<and> s \<le> li_end i)"
proof (cases "xs = [] \<or> s \<le> 0")
  case False
  define k where "k = bisect (\<lambda>k. s \<le> li_end (xs ! k)) 0 (length xs)"
  have "(k < length xs \<longrightarrow> s \<le> li_end (xs ! k)) \<and> (\<forall>j. 0 \<le> j \<longrightarrow> j < k \<longrightarrow> \<not> s \<le> li_end (xs ! j))"
    unfolding k_def by (rule bisect_least) (use ordered_intervals [OF assms] in \<open>fastforce+\<close>)
  then have k: "k < length xs \<Longrightarrow> s \<le> li_end (xs ! k)" and least: "\<And>j. s \<le> li_end (xs ! j) \<Longrightarrow> k \<le> j"
    by (auto simp: not_less [symmetric])
  have "span_executed xs s e \<longleftrightarrow> k < length xs \<and> li_start (xs ! k) \<le> max s e"
    using False unfolding span_executed_def Let_def k_def [symmetric] by (auto simp: max_def)
  also have "\<dots> \<longleftrightarrow> (\<exists>j < length xs. li_start (xs ! j) \<le> max s e \<and> s \<le> li_end (xs ! j))"
    using k least ordered_intervals [OF assms] by (meson order.strict_trans1 order_trans)
  also have "\<dots> \<longleftrightarrow> (\<exists>i \<in> set xs. li_start i \<le> max s e \<and> s \<le> li_end i)"
    by (metis in_set_conv_nth)
  finally show ?thesis
    using False by simp
qed (auto simp: span_executed_def)

lemma meets_iff_covers:
  assumes "proper xs"
  shows "(\<exists>i \<in> set xs. li_start i \<le> max s e \<and> s \<le> li_end i) \<longleftrightarrow> (\<exists>l. s \<le> l \<and> l \<le> max s e \<and> covers xs l)"
proof
  assume "\<exists>i \<in> set xs. li_start i \<le> max s e \<and> s \<le> li_end i"
  then obtain i where "i \<in> set xs" "li_start i \<le> max s e" "s \<le> li_end i" by blast
  then show "\<exists>l. s \<le> l \<and> l \<le> max s e \<and> covers xs l"
    using assms unfolding covers_def proper_def by (intro exI [of _ "max s (li_start i)"] conjI bexI [of _ i]) auto
qed (unfold covers_def, meson order_trans)

text \<open>The shared form of the equivalence: the code's test finds exactly the executed ranges that meet the span.\<close>

lemma span_executed_covers:
  assumes "\<forall>r \<in> set rs. xr_start_line r \<le> xr_end_line r"
  shows "span_executed (merged_line_intervals rs) s e \<longleftrightarrow>
    0 < s \<and> (\<exists>r \<in> set rs. xr_start_line r \<le> max s e \<and> s \<le> xr_end_line r)"
proof -
  have "span_executed (merged_line_intervals rs) s e \<longleftrightarrow>
      0 < s \<and> (\<exists>l. s \<le> l \<and> l \<le> max s e \<and> covers (merged_line_intervals rs) l)"
    by (simp add: span_executed_iff [OF merged_apart [OF assms]] meets_iff_covers [OF merged_apart(2) [OF assms]])
  also have "\<dots> \<longleftrightarrow> 0 < s \<and> (\<exists>l. s \<le> l \<and> l \<le> max s e \<and> covers (map interval_of rs) l)"
    by (simp add: merged_lines_covered)
  also have "\<dots> \<longleftrightarrow> 0 < s \<and> (\<exists>r \<in> set rs. xr_start_line r \<le> max s e \<and> s \<le> xr_end_line r)"
    using meets_iff_covers [of "map interval_of rs" s e] assms by (simp add: proper_def interval_of_def)
  finally show ?thesis .
qed

text \<open>
  Whether a trace asserts that a function was executed is decided by bisection in merged line intervals. On ranges
  whose ends are not before their starts this is the same as looking for one executed range that meets the function's
  lines; a function without a line, or whose recorded end precedes its start, is handled as the code does.
\<close>
theorem executed_span_exact:
  assumes "\<forall>r \<in> set rs. xr_start_line r \<le> xr_end_line r"
  shows "span_executed (merged_line_intervals rs) s e \<longleftrightarrow>
    0 < s \<and> (\<exists>r \<in> set rs. xr_start_line r \<le> max s e \<and> s \<le> xr_end_line r)"
  using assms by (rule span_executed_covers)

end
