(* ===== verification/RuntimeTheorems.thy ===== *)
theory RuntimeTheorems
  imports RuntimeSpans
begin

text \<open>
  What an import changes: the verdict on each function, the closed form of the loop over the nodes, the new evidence,
  and that nothing of the bundle is changed when the import fails.
\<close>

section \<open>The loop over the nodes in closed form\<close>

text \<open>What the trace says of a node: nothing, executed, or not observed.\<close>

definition verdict :: "(string \<times> line_interval list) list \<Rightarrow> go_value node \<Rightarrow> bool option" where
  "verdict executed n =
     (case n_source n of
        None \<Rightarrow> None
      | Some r \<Rightarrow>
          if is_function_like (n_kind n)
          then map_option (\<lambda>is. span_executed is (sr_start_line r) (sr_end_line r)) (map_of executed (sr_path r))
          else None)"

definition verdict_id :: "runtime_env \<Rightarrow> trace \<Rightarrow> bool \<Rightarrow> go_value node \<Rightarrow> string" where
  "verdict_id env t v n = stable_id (rt_sha12 env) ''evidence''
     [runtime_plugin, if v then ''trace.function.assertion'' else ''trace.function.not_observed.assertion'', n_id n, tc_id t]"

definition node_after :: "runtime_env \<Rightarrow> trace \<Rightarrow> go_value node \<Rightarrow> bool option \<Rightarrow> go_value node" where
  "node_after env t n v =
     (case v of
        None \<Rightarrow> n
      | Some True \<Rightarrow> add_trace_to ''execution_asserted_trace_ids'' (tc_id t) (add_evidence_to (verdict_id env t True n) n)
      | Some False \<Rightarrow> add_evidence_to (verdict_id env t False n) (add_trace_to ''execution_not_observed_trace_ids'' (tc_id t) n))"

definition verdict_evidence :: "runtime_env \<Rightarrow> trace \<Rightarrow> bool \<Rightarrow> go_value node \<Rightarrow> bool option \<Rightarrow> go_value evidence list" where
  "verdict_evidence env t integrity n v =
     (case v of
        None \<Rightarrow> []
      | Some True \<Rightarrow> [assertion_evidence (verdict_id env t True n) ''trace.function.assertion'' (n_source n) (tc_id t)
          ''trace claims that an executed statement span intersects this function'' (observed_attributes t integrity)]
      | Some False \<Rightarrow> [assertion_evidence (verdict_id env t False n) ''trace.function.not_observed.assertion'' (n_source n)
          (tc_id t) ''trace claims that no executed statement span intersected this function in this capture''
          (observed_attributes t integrity @ [(''negative_scope'', GoString ''this_trace_only'')])])"

definition count_verdict :: "bool option \<Rightarrow> import_stats \<Rightarrow> import_stats" where
  "count_verdict v s =
     (case v of
        None \<Rightarrow> s
      | Some True \<Rightarrow> s\<lparr>im_asserted_functions := im_asserted_functions s + 1, im_assertion_evidence := im_assertion_evidence s + 1\<rparr>
      | Some False \<Rightarrow> s\<lparr>im_functions_not_observed := im_functions_not_observed s + 1,
          im_assertion_evidence := im_assertion_evidence s + 1\<rparr>)"

lemma observe_node_eq:
  "observe_node env t integrity executed n s =
     (node_after env t n (verdict executed n), fst s @ verdict_evidence env t integrity n (verdict executed n),
      count_verdict (verdict executed n) (snd s))"
  by (auto simp: observe_node_def verdict_def node_after_def verdict_evidence_def count_verdict_def verdict_id_def Let_def
      split: option.split)

lemma observe_nodes_eq:
  "observe_nodes env t integrity executed ns s =
     (map (\<lambda>n. node_after env t n (verdict executed n)) ns,
      fst s @ concat (map (\<lambda>n. verdict_evidence env t integrity n (verdict executed n)) ns),
      fold (\<lambda>n. count_verdict (verdict executed n)) ns (snd s))"
  by (induction ns arbitrary: s) (simp_all add: observe_node_eq Let_def)

section \<open>The statistics\<close>

lemma count_verdict_stats [simp]:
  "im_producer_authentication (count_verdict v s) = im_producer_authentication s"
  "im_capture_integrity (count_verdict v s) = im_capture_integrity s"
  "im_call_observation_reason (count_verdict v s) = im_call_observation_reason s"
  by (auto simp: count_verdict_def split: option.split bool.split)

lemma fold_count_verdict_stats [simp]:
  "im_producer_authentication (fold (\<lambda>n. count_verdict (f n)) ns s) = im_producer_authentication s"
  "im_capture_integrity (fold (\<lambda>n. count_verdict (f n)) ns s) = im_capture_integrity s"
  "im_call_observation_reason (fold (\<lambda>n. count_verdict (f n)) ns s) = im_call_observation_reason s"
  by (induction ns arbitrary: s) simp_all

lemma fold_count_verdict:
  "im_asserted_functions (fold (\<lambda>n. count_verdict (f n)) ns s) =
     im_asserted_functions s + length (filter (\<lambda>n. f n = Some True) ns)"
  "im_functions_not_observed (fold (\<lambda>n. count_verdict (f n)) ns s) =
     im_functions_not_observed s + length (filter (\<lambda>n. f n = Some False) ns)"
  "im_assertion_evidence (fold (\<lambda>n. count_verdict (f n)) ns s) =
     im_assertion_evidence s + length (filter (\<lambda>n. f n \<noteq> None) ns)"
  by (induction ns arbitrary: s) (auto simp: count_verdict_def split: option.split bool.split)

lemma length_verdict_evidence:
  "length (concat (map (\<lambda>n. verdict_evidence env t integrity n (f n)) ns)) = length (filter (\<lambda>n. f n \<noteq> None) ns)"
  by (induction ns) (auto simp: verdict_evidence_def split: option.split bool.split)

lemma count_edge_claims_stats [simp]:
  "im_assertion_evidence (count_edge_claims env edges s) = im_assertion_evidence s"
  "im_asserted_functions (count_edge_claims env edges s) = im_asserted_functions s"
  "im_functions_not_observed (count_edge_claims env edges s) = im_functions_not_observed s"
  "im_asserted_tests (count_edge_claims env edges s) = im_asserted_tests s"
  "im_undemonstrated_call_edges (count_edge_claims env edges s) =
     im_undemonstrated_call_edges s + length (resolved_calls env edges)"
  unfolding count_edge_claims_def resolved_calls_def by (induction edges arbitrary: s) auto

section \<open>A successful import\<close>

definition import_claims_of :: "trace \<Rightarrow> bound_claims" where
  "import_claims_of t = fold bind_claim (tc_artifacts t) \<lparr>bc_executed = [], bc_bound = []\<rparr>"

lemma bind_claims_Inr:
  "bind_claims ctx n by_path xs s = Inr s' \<Longrightarrow> s' = fold bind_claim xs s \<and>
     (\<forall>x \<in> set xs. \<exists>a. map_of by_path (ta_path x) = Some a \<and> a_sha256 a = ta_source_sha256 x \<and>
        a_size_bytes a = ta_source_size_bytes x)"
  by (induction ctx n by_path xs s rule: bind_claims.induct) (auto split: option.splits if_splits)

lemma import_claims_frame:
  assumes "import_claims env t integrity by_path claims b = (stats, b')"
  shows "bu_artifacts b' = bu_artifacts b" "bu_snapshot b' = bu_snapshot b" "bu_edges b' = bu_edges b"
    "b' = b\<lparr>bu_evidence := bu_evidence b', bu_nodes := bu_nodes b'\<rparr>"
  using assms by (auto simp: import_claims_def Let_def observe_nodes_eq)

definition import_admitted ::
  "runtime_env \<Rightarrow> (nat \<Rightarrow> string option) \<Rightarrow> go_value model_bundle \<Rightarrow> trace \<Rightarrow> bool" where
  "import_admitted env ctx b t \<longleftrightarrow> ctx 0 = None \<and> validate_trace env t = Inr () \<and>
     same_affinity (tc_repository t) (current_repository env b) \<and> \<not> already_imported t b \<and>
     (\<exists>claims. bind_claims ctx 1 (index_by a_path (bu_artifacts b)) (tc_artifacts t) \<lparr>bc_executed = [], bc_bound = []\<rparr> = Inr claims)"

lemma current_affinity:
  "(tr_content_digest (current_repository env b), tr_artifact_count (current_repository env b)) =
     content_affinity env (bu_artifacts b)"
  by (simp add: current_repository_def split: prod.split)

lemma import_trace_Inr:
  assumes "import_trace env registry context b t = (Inr stats, b')"
  obtains ctx where "context = Some ctx" "import_admitted env ctx b t"
    "import_claims env t (capture_integrity registry t) (index_by a_path (bu_artifacts b)) (import_claims_of t) b = (stats, b')"
  using assms bind_claims_Inr
  by (fastforce simp: import_trace_def import_admitted_def import_claims_of_def Let_def
      split: option.splits sum.splits if_splits prod.splits)

lemma import_admitted_succeeds:
  assumes "import_admitted env ctx b t"
  shows "\<not> isl (fst (import_trace env registry (Some ctx) b t))"
proof -
  obtain claims where claims: "bind_claims ctx 1 (index_by a_path (bu_artifacts b)) (tc_artifacts t)
      \<lparr>bc_executed = [], bc_bound = []\<rparr> = Inr claims"
    and ok: "ctx 0 = None" "validate_trace env t = Inr ()" "same_affinity (tc_repository t) (current_repository env b)"
      "\<not> already_imported t b"
    using assms by (auto simp: import_admitted_def)
  obtain stats b' where closed: "import_claims env t (capture_integrity registry t) (index_by a_path (bu_artifacts b)) claims b = (stats, b')"
    by (cases "import_claims env t (capture_integrity registry t) (index_by a_path (bu_artifacts b)) claims b")
  show ?thesis
    using claims ok closed import_claims_frame(1) [OF closed] current_affinity [of env b] by (simp add: import_trace_def Let_def)
qed

lemma import_trace_Inl:
  assumes "import_trace env registry context b t = (Inl e, b')"
  shows "b' = b"
  using assms import_claims_frame(1) current_affinity
  by (fastforce simp: import_trace_def Let_def split: option.splits sum.splits if_splits prod.splits)

end
