(* ===== verification/RuntimeAssertions.thy ===== *)
theory RuntimeAssertions
  imports RuntimeTheorems
begin

text \<open>
  What validation of a trace accepts, and what an import may say: every new piece of evidence is an unauthenticated
  assertion, and each function gets exactly the verdict that the executed ranges of its file give.
\<close>

section \<open>Accepted traces\<close>

definition well_formed_artifact :: "trace_artifact \<Rightarrow> bool" where
  "well_formed_artifact a \<longleftrightarrow> valid_relative_path (ta_path a) \<and> 0 \<le> ta_executed_statements a \<and>
     ta_executed_statements a \<le> ta_statements a \<and> valid_digest (ta_source_sha256 a) \<and> 0 \<le> ta_source_size_bytes a \<and>
     length (ta_executed_ranges a) \<le> 65536 \<and> (ta_executed_statements a = 0 \<longleftrightarrow> ta_executed_ranges a = []) \<and>
     (\<forall>r \<in> set (ta_executed_ranges a). valid_range r)"

lemma refuse_trace_Inr [simp]: "refuse_trace b m s = Inr u \<longleftrightarrow> \<not> b"
  by (simp add: refuse_trace_def)

lemma check_trace_artifacts_Inr:
  "check_trace_artifacts seen n as = Inr () \<longleftrightarrow> (\<forall>a \<in> set as. well_formed_artifact a) \<and> distinct (map ta_path as) \<and>
     set seen \<inter> ta_path ` set as = {} \<and> (as \<noteq> [] \<longrightarrow> n + (\<Sum>a\<leftarrow>as. length (ta_executed_ranges a)) \<le> 65536)"
proof (induction seen n as rule: check_trace_artifacts.induct)
  case (2 seen n a as)
  have head: "first_error id
       [refuse_trace (\<not> valid_relative_path (ta_path a)) ''trace artifact has an invalid path'' [],
        refuse_trace (ta_statements a < 0 \<or> ta_executed_statements a < 0 \<or> ta_statements a < ta_executed_statements a)
          ''trace artifact has invalid statement counts'' (ta_path a),
        refuse_trace (\<not> valid_digest (ta_source_sha256 a) \<or> ta_source_size_bytes a < 0)
          ''trace artifact has invalid source identity'' (ta_path a),
        refuse_trace (ta_path a \<in> set seen) ''trace artifact is duplicated'' (ta_path a),
        refuse_trace (65536 < length (ta_executed_ranges a)) ''trace artifact exceeds the range bound'' (ta_path a),
        refuse_trace ((ta_executed_statements a = 0) \<noteq> (ta_executed_ranges a = []))
          ''trace artifact has inconsistent executed statements and ranges'' (ta_path a),
        refuse_trace (65536 < length (ta_executed_ranges a) + n) ''trace exceeds the 65536-total-executed-range bound'' [],
        refuse_trace (\<not> list_all valid_range (ta_executed_ranges a))
          ''trace artifact has an invalid executed range'' (ta_path a)] = Inr () \<longleftrightarrow>
     well_formed_artifact a \<and> ta_path a \<notin> set seen \<and> length (ta_executed_ranges a) + n \<le> 65536"
    unfolding first_error_Inr_iff by (auto simp: well_formed_artifact_def list_all_iff not_less)
  show ?case
    unfolding check_trace_artifacts.simps res_bind_Inr_iff
    using 2 head by (cases as) (auto simp: add.commute)
qed simp

lemma check_environment_keys_Inr:
  "check_environment_keys seen ks = Inr () \<longleftrightarrow> (\<forall>k \<in> set ks. identifier_pattern k) \<and> distinct ks \<and> set seen \<inter> set ks = {}"
  by (induction seen ks rule: check_environment_keys.induct) (auto simp: res_bind_Inr_iff)

definition test_identity :: "trace_test \<Rightarrow> string" where
  "test_identity t = tt_package t @ nul @ tt_name t"

definition well_formed_test :: "runtime_env \<Rightarrow> trace_test \<Rightarrow> bool" where
  "well_formed_test env t \<longleftrightarrow> valid_test_identity env t \<and> 0 \<le> tt_elapsed t \<and> tt_elapsed t \<le> maximum_test_elapsed_ms \<and>
     tt_status t \<in> {''pass'', ''fail'', ''skip''}"

lemma check_tests_Inr:
  "check_tests env seen ts = Inr () \<longleftrightarrow> (\<forall>t \<in> set ts. well_formed_test env t) \<and> distinct (map test_identity ts) \<and>
     set seen \<inter> test_identity ` set ts = {}"
  by (induction env seen ts rule: check_tests.induct)
    (auto simp: res_bind_Inr_iff test_identity_def well_formed_test_def Let_def not_less)

definition source_identity :: "trace_source \<Rightarrow> string" where
  "source_identity s = ts_kind s @ nul @ ts_path s"

definition well_formed_source :: "trace_source \<Rightarrow> bool" where
  "well_formed_source s \<longleftrightarrow> \<not> blank (ts_kind s) \<and> valid_relative_path (ts_path s) \<and> valid_digest (ts_sha256 s) \<and>
     0 \<le> ts_size_bytes s"

lemma check_sources_Inr:
  "check_sources seen ss = Inr () \<longleftrightarrow> (\<forall>s \<in> set ss. well_formed_source s) \<and> distinct (map source_identity ss) \<and>
     set seen \<inter> source_identity ` set ss = {}"
  by (induction seen ss rule: check_sources.induct)
    (auto simp: res_bind_Inr_iff source_identity_def well_formed_source_def Let_def not_less)

definition well_formed_envelope :: "runtime_env \<Rightarrow> trace \<Rightarrow> bool" where
  "well_formed_envelope env t \<longleftrightarrow> tc_schema_version t = ''1.3'' \<and> length (tc_id t) = 64 \<and> list_all hex_char (tc_id t) \<and>
     tc_id t = id_for env t \<and> tc_command t = (if tc_command_redacted t then ''custom-command'' else
       if tc_command t = ''go'' then ''go'' else ''go.exe'') \<and>
     valid_digest (tc_command_sha256 t) \<and> tc_working_directory t = ''.'' \<and> 0 \<le> tc_duration_ms t \<and>
     valid_repository_identity (tc_repository t)"

lemma command_classes [simp]:
  "\<not> contains_control ''custom-command''" "\<not> contains_control ''go''" "\<not> contains_control ''go.exe''"
  by code_simp+

lemma envelope_checks_Inr:
  "first_error id (envelope_checks env t) = Inr () \<longleftrightarrow> well_formed_envelope env t \<and> length (tc_environment_keys t) \<le> 4096"
  unfolding first_error_Inr_iff envelope_checks_def by (auto simp: well_formed_envelope_def not_less split: if_splits)

definition well_formed_trace :: "runtime_env \<Rightarrow> trace \<Rightarrow> bool" where
  "well_formed_trace env t \<longleftrightarrow> well_formed_envelope env t \<and>
     length (tc_environment_keys t) \<le> 4096 \<and> length (tc_artifacts t) \<le> 65536 \<and> length (tc_tests t) \<le> 65536 \<and>
     length (tc_sources t) \<le> 16 \<and> (\<Sum>a\<leftarrow>tc_artifacts t. length (ta_executed_ranges a)) \<le> 65536 \<and>
     (\<forall>k \<in> set (tc_environment_keys t). identifier_pattern k) \<and> distinct (tc_environment_keys t) \<and>
     (\<forall>a \<in> set (tc_artifacts t). well_formed_artifact a) \<and> distinct (map ta_path (tc_artifacts t)) \<and>
     (\<forall>s \<in> set (tc_tests t). well_formed_test env s) \<and> distinct (map test_identity (tc_tests t)) \<and>
     (\<forall>s \<in> set (tc_sources t). well_formed_source s) \<and> distinct (map source_identity (tc_sources t))"

lemma validate_trace_Inr: "validate_trace env t = Inr () \<longleftrightarrow> well_formed_trace env t"
proof -
  have "validate_trace env t = Inr () \<longleftrightarrow> first_error id (envelope_checks env t) = Inr () \<and>
      check_environment_keys [] (tc_environment_keys t) = Inr () \<and> first_error id (count_checks t) = Inr () \<and>
      check_trace_artifacts [] 0 (tc_artifacts t) = Inr () \<and> check_tests env [] (tc_tests t) = Inr () \<and>
      check_sources [] (tc_sources t) = Inr ()"
    unfolding validate_trace_def first_error_Inr_iff by auto
  also have "\<dots> \<longleftrightarrow> well_formed_trace env t"
    unfolding envelope_checks_Inr check_environment_keys_Inr check_trace_artifacts_Inr check_tests_Inr check_sources_Inr
      well_formed_trace_def
    by (auto simp: count_checks_def res_bind_Inr_iff not_less)
  finally show ?thesis .
qed

text \<open>
  C38. Trace validation, which stops at its first complaint and keeps sets of what it has seen, accepts exactly the
  well-formed traces: identity, command and affinity in order, every count within its bound including the total number
  of ranges, every record valid, and environment keys, paths, tests and sources without duplicates.
\<close>
theorem validate_trace_exact: "validate_trace env t = Inr () \<longleftrightarrow> well_formed_trace env t"
  by (rule validate_trace_Inr)

section \<open>The claims of a trace\<close>

lemma bind_claim_fields:
  "bc_executed (bind_claim a s) = AList.update (ta_path a) (merged_line_intervals (ta_executed_ranges a)) (bc_executed s)"
  "keys (bc_bound (bind_claim a s)) =
     (if ta_path a \<in> set (keys (bc_bound s)) then keys (bc_bound s) else keys (bc_bound s) @ [ta_path a])"
  by (simp_all add: bind_claim_def Let_def keys_def update_keys)

lemma executed_of_claims:
  "distinct (map ta_path as) \<Longrightarrow> map_of (bc_executed (fold bind_claim as s)) p =
     (case find (\<lambda>a. ta_path a = p) as of
        Some a \<Rightarrow> Some (merged_line_intervals (ta_executed_ranges a)) | None \<Rightarrow> map_of (bc_executed s) p)"
proof (induction as arbitrary: s)
  case (Cons a as)
  moreover have "find (\<lambda>x. ta_path x = p) as = None" if "ta_path a = p"
    using Cons.prems that unfolding find_None_iff by (auto, metis image_eqI)
  ultimately show ?case
    by (auto simp: bind_claim_fields split: option.split)
qed simp

text \<open>The artifact of a trace with a path; there is at most one in an accepted trace.\<close>

definition claims_for :: "trace \<Rightarrow> string \<Rightarrow> trace_artifact \<Rightarrow> bool" where
  "claims_for t p a \<longleftrightarrow> a \<in> set (tc_artifacts t) \<and> ta_path a = p"

definition span_claimed :: "trace_artifact \<Rightarrow> source_range \<Rightarrow> bool" where
  "span_claimed a r \<longleftrightarrow> 0 < sr_start_line r \<and>
     (\<exists>x \<in> set (ta_executed_ranges a). xr_start_line x \<le> max (sr_start_line r) (sr_end_line r) \<and> sr_start_line r \<le> xr_end_line x)"

lemma verdict_iff:
  assumes "well_formed_trace env t"
  shows "verdict (bc_executed (import_claims_of t)) n = Some v \<longleftrightarrow>
    is_function_like (n_kind n) \<and> (\<exists>r a. n_source n = Some r \<and> claims_for t (sr_path r) a \<and> (v \<longleftrightarrow> span_claimed a r))"
proof -
  have dist: "distinct (map ta_path (tc_artifacts t))"
    and ok: "\<And>a. a \<in> set (tc_artifacts t) \<Longrightarrow> well_formed_artifact a"
    using assms by (simp_all add: well_formed_trace_def)
  have span: "span_executed (merged_line_intervals (ta_executed_ranges a)) (sr_start_line r) (sr_end_line r) = span_claimed a r"
    if "a \<in> set (tc_artifacts t)" for a r
    using ok [OF that] unfolding span_claimed_def
    by (intro span_executed_covers) (auto simp: well_formed_artifact_def valid_range_def)
  have found: "find (\<lambda>a. ta_path a = p) (tc_artifacts t) = Some a \<longleftrightarrow> claims_for t p a" for p a
    using dist unfolding claims_for_def
    by (auto simp: find_Some_iff in_set_conv_nth distinct_conv_nth)
  have executed: "map_of (bc_executed (import_claims_of t)) p =
      map_option (\<lambda>a. merged_line_intervals (ta_executed_ranges a)) (find (\<lambda>a. ta_path a = p) (tc_artifacts t))" for p
    unfolding import_claims_of_def by (simp add: executed_of_claims [OF dist] split: option.split)
  show ?thesis
    unfolding verdict_def executed
    using found span by (cases "n_source n") (auto simp: claims_for_def split: if_splits)
qed

end
