(* ===== verification/RuntimeProperties.thy ===== *)
theory RuntimeProperties
  imports RuntimeAssertions
begin

text \<open>
  The contract of an import, from its closed form: failures change nothing, a trace is imported once, its evidence is
  never more than an assertion, and the difference report keeps everything that rests on authenticated producers.
\<close>

section \<open>Nodes and evidence after an import\<close>

definition new_evidence :: "go_value model_bundle \<Rightarrow> go_value model_bundle \<Rightarrow> go_value evidence list" where
  "new_evidence b b' = drop (length (bu_evidence b)) (bu_evidence b')"

definition after_import :: "runtime_env \<Rightarrow> trace \<Rightarrow> go_value node \<Rightarrow> go_value node" where
  "after_import env t n = node_after env t n (verdict (bc_executed (import_claims_of t)) n)"

definition assertion_only :: "trace \<Rightarrow> go_value evidence \<Rightarrow> bool" where
  "assertion_only t e \<longleftrightarrow> evd_kind e = ''user_asserted'' \<and> evd_confidence e = Finite (1 / 2) \<and>
     evd_tool e = runtime_plugin \<and> evd_input_digest e = tc_id t \<and>
     map_of (evd_attributes e) ''producer_authenticated'' = Some (GoBool False) \<and>
     map_of (evd_attributes e) ''trace_id'' = Some (GoString (tc_id t))"

lemma assertion_only_evidence [simp]:
  "e \<in> set (verdict_evidence env t integrity n v) \<Longrightarrow> assertion_only t e"
  "e \<in> set (coverage_evidence env t integrity by_path bound p) \<Longrightarrow> assertion_only t e"
  "assertion_only t (test_evidence env t integrity test)"
  "assertion_only t (trace_evidence env t integrity stats k)"
  by (auto simp: verdict_evidence_def coverage_evidence_def test_evidence_def trace_evidence_def assertion_only_def
      assertion_evidence_def observed_attributes_def authority_attributes_def Let_def split: option.splits bool.splits if_splits)

text \<open>The statistics when the new trace node is written.\<close>

definition node_stats :: "runtime_env \<Rightarrow> trace \<Rightarrow> bool \<Rightarrow> go_value model_bundle \<Rightarrow> import_stats" where
  "node_stats env t integrity b = count_edge_claims env (bu_edges b)
     (fold (\<lambda>n. count_verdict (verdict (bc_executed (import_claims_of t)) n)) (bu_nodes b) (initial_stats integrity t))"

lemma node_stats_simps:
  "im_assertion_evidence (node_stats env t integrity b) =
     length (filter (\<lambda>n. verdict (bc_executed (import_claims_of t)) n \<noteq> None) (bu_nodes b))"
  "im_asserted_functions (node_stats env t integrity b) =
     length (filter (\<lambda>n. verdict (bc_executed (import_claims_of t)) n = Some True) (bu_nodes b))"
  "im_functions_not_observed (node_stats env t integrity b) =
     length (filter (\<lambda>n. verdict (bc_executed (import_claims_of t)) n = Some False) (bu_nodes b))"
  by (simp_all add: node_stats_def fold_count_verdict initial_stats_def)

lemma import_claims_closed:
  "import_claims env t integrity by_path (import_claims_of t) b = (stats, b') \<longleftrightarrow>
     (let s = node_stats env t integrity b; bound = bc_bound (import_claims_of t);
          covered = concat (map (coverage_evidence env t integrity by_path bound) (sorted_keys (keys bound)));
          tested = map (test_evidence env t integrity) (tc_tests t);
          verdicts = concat (map (\<lambda>n. verdict_evidence env t integrity n (verdict (bc_executed (import_claims_of t)) n)) (bu_nodes b))
      in stats = s\<lparr>im_assertion_evidence := im_assertion_evidence s + length covered + length tested + 1,
           im_asserted_tests := im_asserted_tests s + length tested\<rparr> \<and>
         b' = b\<lparr>bu_evidence := (bu_evidence b @ verdicts) @ covered @ tested @ [trace_evidence env t integrity s (length bound)],
           bu_nodes := map (after_import env t) (bu_nodes b) @ [trace_node env t integrity s (length bound)]\<rparr>)"
  by (auto simp: import_claims_def Let_def observe_nodes_eq node_stats_def after_import_def)

lemma import_claims_Inr:
  assumes "import_claims env t integrity by_path (import_claims_of t) b = (stats, b')"
  shows "bu_nodes b' = map (after_import env t) (bu_nodes b) @
      [trace_node env t integrity (node_stats env t integrity b) (length (bc_bound (import_claims_of t)))]"
    and "bu_evidence b' = bu_evidence b @ new_evidence b b'"
    and "e \<in> set (new_evidence b b') \<Longrightarrow> assertion_only t e"
    and "im_assertion_evidence stats = length (new_evidence b b')"
    and "im_asserted_functions stats = length (filter (\<lambda>n. verdict (bc_executed (import_claims_of t)) n = Some True) (bu_nodes b))"
  using assms
  by (auto simp: import_claims_closed Let_def new_evidence_def node_stats_simps length_verdict_evidence)

section \<open>Attributes that an import does not touch\<close>

lemma after_import_fields [simp]:
  "n_id (after_import env t n) = n_id n" "n_kind (after_import env t n) = n_kind n"
  "n_name (after_import env t n) = n_name n" "n_qualified_name (after_import env t n) = n_qualified_name n"
  "n_source (after_import env t n) = n_source n" "n_artifact_id (after_import env t n) = n_artifact_id n"
  by (auto simp: after_import_def node_after_def add_trace_to_def add_evidence_to_def split: option.splits bool.splits)

lemma set_append_unique [simp]: "set (append_unique xs x) = insert x (set xs)"
  by (auto simp: append_unique_def)

lemma after_import_evidence: "set (n_evidence_ids n) \<subseteq> set (n_evidence_ids (after_import env t n))"
  by (auto simp: after_import_def node_after_def add_trace_to_def add_evidence_to_def split: option.splits bool.splits)

lemma after_import_attribute:
  assumes "key \<noteq> ''execution_asserted_trace_ids''" and "key \<noteq> ''execution_not_observed_trace_ids''"
  shows "map_of (n_attributes (after_import env t n)) key = map_of (n_attributes n) key"
  using assms
  by (auto simp: after_import_def node_after_def add_trace_to_def add_evidence_to_def split: option.splits bool.splits)

lemma after_import_other: "\<not> is_function_like (n_kind n) \<Longrightarrow> after_import env t n = n"
  by (auto simp: after_import_def node_after_def verdict_def split: option.splits)

lemma texts_of_texts [simp]: "texts_of (Some (GoStrings ss)) = ss"
  by (simp add: texts_of_def)

lemma after_import_traces:
  "set (texts_of (map_of (n_attributes (after_import env t n)) ''execution_asserted_trace_ids'')) =
     set (texts_of (map_of (n_attributes n) ''execution_asserted_trace_ids'')) \<union>
       (if verdict (bc_executed (import_claims_of t)) n = Some True then {tc_id t} else {})"
  "set (texts_of (map_of (n_attributes (after_import env t n)) ''execution_not_observed_trace_ids'')) =
     set (texts_of (map_of (n_attributes n) ''execution_not_observed_trace_ids'')) \<union>
       (if verdict (bc_executed (import_claims_of t)) n = Some False then {tc_id t} else {})"
  by (auto simp: after_import_def node_after_def add_trace_to_def add_evidence_to_def split: option.splits bool.splits)

lemma trace_node_fields [simp]:
  "n_kind (trace_node env t integrity s k) = ''trace''"
  "map_of (n_attributes (trace_node env t integrity s k)) ''trace_id'' = Some (GoString (tc_id t))"
  "map_of (n_attributes (trace_node env t integrity s k)) ''producer_authenticated'' = Some (GoBool False)"
  "map_of (n_attributes (trace_node env t integrity s k)) ''capture_integrity_authenticated'' = Some (GoBool integrity)"
  "map_of (n_attributes (trace_node env t integrity s k)) ''call_observation_available'' = Some (GoBool False)"
  by (simp_all add: trace_node_def authority_attributes_def)

lemma trace_not_function [simp]: "\<not> is_function_like ''trace''"
  by (simp add: is_function_like_def)

section \<open>The contract\<close>

text \<open>
  An import that fails, whichever of its checks refuses and however often the context was asked, leaves the bundle
  exactly as it was: the only check after the changes, that the artifacts are still the same, never fails.
\<close>
theorem failed_import_changes_nothing:
  assumes "import_trace env registry context b t = (Inl e, b')"
  shows "b' = b"
  using assms by (rule import_trace_Inl)

text \<open>
  C36. A trace that was imported is refused afterwards: importing it again into the resulting bundle fails because it
  is there already, whatever the registry and the context, as long as the context is not cancelled at once.
\<close>
theorem imported_once:
  assumes "import_trace env registry context b t = (Inr stats, b')" and "ctx 0 = None"
  shows "import_trace env registry' (Some ctx) b' t = (Inl (TraceError ''trace is already imported'' (tc_id t)), b')"
proof -
  obtain integrity by_path where claims: "import_claims env t integrity by_path (import_claims_of t) b = (stats, b')"
    and ok: "validate_trace env t = Inr ()" "same_affinity (tc_repository t) (current_repository env b)"
    using assms(1) by (elim import_trace_Inr) (auto simp: import_admitted_def)
  have "current_repository env b' = current_repository env b"
    using import_claims_frame(1,2) [OF claims] by (simp add: current_repository_def)
  moreover have "already_imported t b'"
    using import_claims_Inr(1) [OF claims] by (simp add: already_imported_def)
  ultimately show ?thesis
    using ok assms(2) by (simp add: import_trace_def Let_def)
qed

text \<open>
  C35. An import only asserts. Every record of the bundle other than nodes and evidence is unchanged, the old evidence
  stays in front, and every new piece of evidence is a user assertion of confidence one half whose producer is marked
  as not authenticated; the reported count is the number of new pieces. Nodes keep their identity, their evidence and
  all attributes except the two lists of trace identifiers, and exactly one trace node is added.
\<close>
theorem import_only_asserts:
  assumes "import_trace env registry context b t = (Inr stats, b')"
  shows "b' = b\<lparr>bu_evidence := bu_evidence b @ new_evidence b b', bu_nodes := bu_nodes b'\<rparr> \<and>
    (\<forall>e \<in> set (new_evidence b b'). assertion_only t e) \<and>
    im_assertion_evidence stats = length (new_evidence b b') \<and>
    list_all2 (\<lambda>n n'. n_id n' = n_id n \<and> n_kind n' = n_kind n \<and> n_source n' = n_source n \<and>
      set (n_evidence_ids n) \<subseteq> set (n_evidence_ids n') \<and>
      (\<forall>key. key \<noteq> ''execution_asserted_trace_ids'' \<and> key \<noteq> ''execution_not_observed_trace_ids'' \<longrightarrow>
         map_of (n_attributes n') key = map_of (n_attributes n) key)) (bu_nodes b) (butlast (bu_nodes b')) \<and>
    n_kind (last (bu_nodes b')) = ''trace''"
proof -
  obtain integrity by_path where claims: "import_claims env t integrity by_path (import_claims_of t) b = (stats, b')"
    using assms(1) by (elim import_trace_Inr) auto
  note frame = import_claims_frame(4) [OF claims]
  have "b' = b\<lparr>bu_evidence := bu_evidence b @ new_evidence b b', bu_nodes := bu_nodes b'\<rparr>"
    using frame import_claims_Inr(2) [OF claims] by simp
  moreover have "\<forall>e \<in> set (new_evidence b b'). assertion_only t e" "im_assertion_evidence stats = length (new_evidence b b')"
    "n_kind (last (bu_nodes b')) = ''trace''"
    using import_claims_Inr [OF claims] by simp_all
  moreover have "list_all2 (\<lambda>n n'. n_id n' = n_id n \<and> n_kind n' = n_kind n \<and> n_source n' = n_source n \<and>
      set (n_evidence_ids n) \<subseteq> set (n_evidence_ids n') \<and>
      (\<forall>key. key \<noteq> ''execution_asserted_trace_ids'' \<and> key \<noteq> ''execution_not_observed_trace_ids'' \<longrightarrow>
         map_of (n_attributes n') key = map_of (n_attributes n) key)) (bu_nodes b) (butlast (bu_nodes b'))"
    using import_claims_Inr(1) [OF claims]
    by (simp add: list.rel_map list.rel_refl after_import_evidence after_import_attribute)
  ultimately show ?thesis by blast
qed

text \<open>
  C34. The verdict on a function is exact. After an import a node carries the trace among its asserted executions
  exactly if it did before, or if it is a function, method, constructor or test whose source lies in a file of the
  trace and one of that file's executed ranges meets its lines; it carries the trace as not observed exactly if it did
  before, or if its file is covered and no executed range meets its lines.
\<close>
theorem import_verdicts_exact:
  assumes "import_trace env registry context b t = (Inr stats, b')" and "i < length (bu_nodes b)"
  shows "(tc_id t \<in> set (texts_of (map_of (n_attributes (bu_nodes b' ! i)) ''execution_asserted_trace_ids'')) \<longleftrightarrow>
      tc_id t \<in> set (texts_of (map_of (n_attributes (bu_nodes b ! i)) ''execution_asserted_trace_ids'')) \<or>
      is_function_like (n_kind (bu_nodes b ! i)) \<and>
        (\<exists>r a. n_source (bu_nodes b ! i) = Some r \<and> claims_for t (sr_path r) a \<and> span_claimed a r)) \<and>
    (tc_id t \<in> set (texts_of (map_of (n_attributes (bu_nodes b' ! i)) ''execution_not_observed_trace_ids'')) \<longleftrightarrow>
      tc_id t \<in> set (texts_of (map_of (n_attributes (bu_nodes b ! i)) ''execution_not_observed_trace_ids'')) \<or>
      is_function_like (n_kind (bu_nodes b ! i)) \<and>
        (\<exists>r a. n_source (bu_nodes b ! i) = Some r \<and> claims_for t (sr_path r) a \<and> \<not> span_claimed a r))"
proof -
  obtain integrity by_path where claims: "import_claims env t integrity by_path (import_claims_of t) b = (stats, b')"
    and ok: "well_formed_trace env t"
    using assms(1) by (elim import_trace_Inr) (auto simp: import_admitted_def validate_trace_Inr)
  have node: "bu_nodes b' ! i = after_import env t (bu_nodes b ! i)"
    using import_claims_Inr(1) [OF claims] assms(2) by (simp add: nth_append)
  have verdicts: "verdict (bc_executed (import_claims_of t)) (bu_nodes b ! i) = Some v \<longleftrightarrow>
      is_function_like (n_kind (bu_nodes b ! i)) \<and>
        (\<exists>r a. n_source (bu_nodes b ! i) = Some r \<and> claims_for t (sr_path r) a \<and> (v \<longleftrightarrow> span_claimed a r))" for v
    by (rule verdict_iff [OF ok])
  show ?thesis
    unfolding node after_import_traces verdicts by auto
qed

end
