(* ===== verification/RuntimeAuthority.thy ===== *)
theory RuntimeAuthority
  imports RuntimeProperties
begin

text \<open>
  The difference report over an imported bundle, its accounting, and the registry of traces captured by this process.
\<close>

section \<open>The report after an import\<close>

lemma trace_names_after_import [simp]: "trace_names p (map (after_import env t) ns) = trace_names p ns"
proof -
  have "after_import env t n = n" if "n_kind n = ''trace''" for n
    using that by (simp add: after_import_other)
  then show ?thesis
    unfolding trace_names_def map_map comp_def by (intro arg_cong [where f = concat] map_cong) auto
qed

lemma trace_names_append: "trace_names p (xs @ ys) = trace_names p xs @ trace_names p ys"
  by (simp add: trace_names_def)

lemma trace_names_trace_node:
  "tc_id t \<noteq> [] \<Longrightarrow> trace_names p [trace_node env t integrity s k] =
     (if p (n_attributes (trace_node env t integrity s k)) then [tc_id t] else [])"
  by (simp add: trace_names_def named_trace_def text_of_def)

lemma attribute_true_trace_node [simp]:
  "\<not> attribute_true ''producer_authenticated'' (n_attributes (trace_node env t integrity s k))"
  "\<not> attribute_true ''call_observation_available'' (n_attributes (trace_node env t integrity s k))"
  by (simp_all add: attribute_true_def is_true_def)

lemma function_nodes_after_import:
  "function_nodes (map (after_import env t) ns @ [trace_node env t integrity s k]) = map (after_import env t) (function_nodes ns)"
  by (simp add: function_nodes_def filter_map comp_def)

lemma attribute_true_after_import [simp]:
  "attribute_true ''executed'' (n_attributes (after_import env t n)) = attribute_true ''executed'' (n_attributes n)"
  by (simp add: attribute_true_def after_import_attribute)

lemma observed_functions_after_import:
  "length (observed_functions traces (map (after_import env t) ns @ [trace_node env t integrity s k])) =
     length (observed_functions traces ns)"
  by (simp add: observed_functions_def function_nodes_after_import filter_map comp_def after_import_attribute)

lemma count_tests_append: "count_tests traces status (xs @ ys) = count_tests traces status xs + count_tests traces status ys"
  by (simp add: count_tests_def)

lemma count_tests_assertions: "(\<And>e. e \<in> set es \<Longrightarrow> assertion_only t e) \<Longrightarrow> count_tests traces status es = 0"
  by (auto simp: count_tests_def filter_empty_conv producer_test_def assertion_only_def)

lemma imported_diff:
  assumes "import_trace env registry context b t = (Inr stats, b')"
  shows "authenticated_traces (bu_nodes b') = authenticated_traces (bu_nodes b)"
    and "call_event_traces (bu_nodes b') = call_event_traces (bu_nodes b)"
    and "assertion_traces (bu_nodes b') = assertion_traces (bu_nodes b) @ [tc_id t]"
    and "integrity_assertion_traces (bu_nodes b') = integrity_assertion_traces (bu_nodes b) @
           (if capture_integrity registry t then [tc_id t] else [])"
    and "count_tests traces status (bu_evidence b') = count_tests traces status (bu_evidence b)"
    and "length (observed_functions traces (bu_nodes b')) = length (observed_functions traces (bu_nodes b))"
    and "bu_edges b' = bu_edges b"
proof -
  obtain by_path where claims: "import_claims env t (capture_integrity registry t) by_path (import_claims_of t) b = (stats, b')"
    and ok: "well_formed_trace env t"
    using assms(1) by (elim import_trace_Inr) (auto simp: import_admitted_def validate_trace_Inr)
  have named: "tc_id t \<noteq> []"
    using ok by (auto simp: well_formed_trace_def well_formed_envelope_def)
  note facts = import_claims_Inr [OF claims]
  show "authenticated_traces (bu_nodes b') = authenticated_traces (bu_nodes b)"
    "call_event_traces (bu_nodes b') = call_event_traces (bu_nodes b)"
    "assertion_traces (bu_nodes b') = assertion_traces (bu_nodes b) @ [tc_id t]"
    using named
    by (simp_all add: facts(1) authenticated_traces_def call_event_traces_def assertion_traces_def
        trace_names_append trace_names_trace_node)
  show "integrity_assertion_traces (bu_nodes b') = integrity_assertion_traces (bu_nodes b) @
      (if capture_integrity registry t then [tc_id t] else [])"
    using named
    by (simp add: facts(1) integrity_assertion_traces_def trace_names_append trace_names_trace_node attribute_true_def
        is_true_def)
  show "count_tests traces status (bu_evidence b') = count_tests traces status (bu_evidence b)"
    unfolding facts(2) count_tests_append using count_tests_assertions [OF facts(3)] by simp
  show "length (observed_functions traces (bu_nodes b')) = length (observed_functions traces (bu_nodes b))"
    unfolding facts(1) by (rule observed_functions_after_import)
  show "bu_edges b' = bu_edges b"
    using import_claims_frame(3) [OF claims] .
qed

text \<open>
  C37. No import can manufacture runtime authority. In the difference report of the bundle after an import, everything
  that rests on an authenticated producer is what it was before: the authenticated traces, all test counts, the
  observed functions and calls, the availability of call observation and its ratio. The imported trace appears among
  the unverified assertions, and among those with capture integrity exactly if this process captured it.
\<close>
theorem import_keeps_authority:
  assumes "import_trace env registry context b t = (Inr stats, b')"
  shows "let d = build_diff env b; d' = build_diff env b' in
      rd_producer_authenticated_trace_ids d' = rd_producer_authenticated_trace_ids d \<and>
      rd_producer_authenticated_tests d' = rd_producer_authenticated_tests d \<and>
      rd_producer_authenticated_passed d' = rd_producer_authenticated_passed d \<and>
      rd_producer_authenticated_failed d' = rd_producer_authenticated_failed d \<and>
      rd_producer_authenticated_skipped d' = rd_producer_authenticated_skipped d \<and>
      rd_producer_observed_functions d' = rd_producer_observed_functions d \<and>
      rd_static_call_edges d' = rd_static_call_edges d \<and>
      rd_resolved_call_edges d' = rd_resolved_call_edges d \<and>
      rd_producer_observed_call_edges d' = rd_producer_observed_call_edges d \<and>
      rd_call_observation_available d' = rd_call_observation_available d \<and>
      rd_producer_call_observation_ratio d' = rd_producer_call_observation_ratio d \<and>
      set (rd_unverified_assertion_ids d') = insert (tc_id t) (set (rd_unverified_assertion_ids d)) \<and>
      set (rd_capture_integrity_assertion_ids d') =
        set (rd_capture_integrity_assertion_ids d) \<union> (if capture_integrity registry t then {tc_id t} else {})"
  by (simp add: Let_def build_diff_def imported_diff [OF assms])

section \<open>The accounting of the report\<close>

lemma length_filter_partition: "length (filter p xs) + length (filter (\<lambda>x. \<not> p x) xs) = length xs"
  by (induction xs) auto

lemma resolved_are_static: "length (resolved_calls env es) \<le> length (filter (\<lambda>e. e_kind e = ''calls'') es)"
  unfolding resolved_calls_def by (induction es) (auto simp: undemonstrated_def)

lemma quotient_part:
  assumes "a + c \<le> 2 ^ 53" and "a + c \<noteq> 0"
  shows "0 \<le> float64_quot a (a + c) \<and> float64_quot a (a + c) \<le> 1 \<and> (float64_quot a (a + c) = 1 \<longleftrightarrow> c = 0)"
proof -
  have "ratio (int a) (int (a + c)) = float64_quot a (a + c)"
    using assms(2) unfolding ratio_def nat_int of_nat_eq_0_iff by (rule if_not_P)
  then show ?thesis
    using ratio_part [of "int a" "int (a + c)"] assms(1) by simp
qed

lemma default_reason_stated [simp]: "default_reason as ts \<noteq> []"
  by (simp add: default_reason_def)

text \<open>
  The report accounts for every static call edge: resolved ones are at most all of them and are exactly the
  observed and the undemonstrated ones, each of the latter listed once; the three test outcomes add up. The observation
  ratio, in spite of rounding, is between 0 and 1 and is 1 only if nothing is undemonstrated (for at most \<open>2^53\<close> edges,
  which no memory exceeds). Without an authenticated call-event producer nothing counts as observed, the ratio is
  zero and a reason is stated, so that a missing observation is not read as a complete one.
\<close>
theorem diff_accounting:
  assumes "length (bu_edges b) \<le> 2 ^ 53"
  shows "let d = build_diff env b in
     rd_resolved_call_edges d \<le> rd_static_call_edges d \<and>
     rd_producer_observed_call_edges d + rd_undemonstrated_call_edges d = rd_resolved_call_edges d \<and>
     length (rd_undemonstrated_calls d) = rd_undemonstrated_call_edges d \<and>
     rd_producer_authenticated_tests d =
       rd_producer_authenticated_passed d + rd_producer_authenticated_failed d + rd_producer_authenticated_skipped d \<and>
     length (rd_execution_asserted_functions d) = rd_asserted_functions d \<and>
     length (rd_not_observed_functions d) = rd_functions_not_observed d \<and>
     0 \<le> rd_producer_call_observation_ratio d \<and> rd_producer_call_observation_ratio d \<le> 1 \<and>
     (rd_producer_call_observation_ratio d = 1 \<longrightarrow> rd_undemonstrated_call_edges d = 0) \<and>
     rd_call_observation_available d = (rd_call_observation_reason d = []) \<and>
     (rd_call_observation_available d \<or>
        rd_producer_observed_call_edges d = 0 \<and> rd_producer_call_observation_ratio d = 0)"
proof -
  define d where "d = build_diff env b"
  define events where "events = call_event_traces (bu_nodes b)"
  define resolved where "resolved = resolved_calls env (bu_edges b)"
  have parts: "length (filter (producer_call v es) resolved) + length (filter (\<lambda>e. \<not> producer_call v es e) resolved) =
      length resolved" for v es
    by (rule length_filter_partition)
  have few: "length resolved \<le> 2 ^ 53"
    using assms length_filter_le [of "undemonstrated env" "bu_edges b"] unfolding resolved_def resolved_calls_def
    by (rule order_trans [rotated])
  have "resolved \<noteq> [] \<Longrightarrow> 0 \<le> float64_quot (length (filter (producer_call v es) resolved)) (length resolved) \<and>
      float64_quot (length (filter (producer_call v es) resolved)) (length resolved) \<le> 1 \<and>
      (float64_quot (length (filter (producer_call v es) resolved)) (length resolved) = 1 \<longrightarrow>
        length (filter (\<lambda>e. \<not> producer_call v es e) resolved) = 0)" for v es
    using quotient_part [of "length (filter (producer_call v es) resolved)"
        "length (filter (\<lambda>e. \<not> producer_call v es e) resolved)"] few unfolding parts by simp
  then have ratio: "0 \<le> rd_producer_call_observation_ratio d \<and> rd_producer_call_observation_ratio d \<le> 1 \<and>
      (rd_producer_call_observation_ratio d = 1 \<longrightarrow> rd_undemonstrated_call_edges d = 0)"
    by (auto simp: d_def build_diff_def Let_def resolved_def [symmetric] zero_go_float_def one_go_float_def)
  have unavailable: "rd_call_observation_available d \<or>
      rd_producer_observed_call_edges d = 0 \<and> rd_producer_call_observation_ratio d = 0"
    by (auto simp: d_def build_diff_def Let_def producer_call_def)
  show ?thesis
    unfolding Let_def d_def [symmetric] using ratio unavailable
    by (simp add: d_def build_diff_def Let_def resolved_are_static length_filter_partition)
qed

section \<open>The registry of captures\<close>

definition empty_registry :: integrity_registry where
  "empty_registry = \<lparr>ir_ids = [], ir_order = []\<rparr>"

definition registry_ok :: "integrity_registry \<Rightarrow> bool" where
  "registry_ok r \<longleftrightarrow> set (ir_ids r) = set (ir_order r) \<and> distinct (ir_order r) \<and> length (ir_order r) \<le> maximum_integrities"

lemma registry_ok_empty [inv_intros]: "registry_ok empty_registry"
  by (simp add: registry_ok_def empty_registry_def)

lemma registry_ok_mark [inv_intros]: "registry_ok r \<Longrightarrow> registry_ok (mark_integrity t r)"
proof -
  assume ok: "registry_ok r"
  show ?thesis
  proof (cases "tc_id t = [] \<or> tc_id t \<in> set (ir_ids r)")
    case True
    then show ?thesis using ok by (simp add: mark_integrity_def)
  next
    case False
    moreover have "length (tl (ir_order r @ [tc_id t])) \<le> maximum_integrities"
      using ok by (simp add: registry_ok_def)
    ultimately show ?thesis
      using ok by (cases "ir_order r") (auto simp: mark_integrity_def registry_ok_def Let_def maximum_integrities_def)
  qed
qed

lemma registry_ok_marks: "registry_ok r \<Longrightarrow> registry_ok (fold mark_integrity ts r)"
  by (induction ts arbitrary: r) (auto intro: registry_ok_mark)

text \<open>The identifiers registered after \<open>k\<close>, newest last.\<close>

definition registered_behind :: "string \<Rightarrow> integrity_registry \<Rightarrow> nat \<Rightarrow> bool" where
  "registered_behind k r n \<longleftrightarrow> (\<exists>xs ys. ir_order r = xs @ k # ys \<and> length ys \<le> n)"

lemma mark_registers: "registry_ok r \<Longrightarrow> tc_id t \<noteq> [] \<Longrightarrow> tc_id t \<notin> set (ir_ids r) \<Longrightarrow> registered_behind (tc_id t) (mark_integrity t r) 0"
  by (cases "ir_order r") (auto simp: mark_integrity_def registered_behind_def Let_def maximum_integrities_def)

lemma mark_keeps:
  assumes "registered_behind k r n" and "n + 1 < maximum_integrities"
  shows "registered_behind k (mark_integrity t r) (n + 1)"
proof (cases "tc_id t = [] \<or> tc_id t \<in> set (ir_ids r)")
  case True
  then show ?thesis
    using assms(1) unfolding mark_integrity_def registered_behind_def by (auto, metis le_SucI, metis le_SucI)
next
  case False
  obtain xs ys where parts: "ir_order r = xs @ k # ys" "length ys \<le> n"
    using assms(1) by (auto simp: registered_behind_def)
  show ?thesis
  proof (cases "length (ir_order r @ [tc_id t]) \<le> maximum_integrities")
    case True
    then have "ir_order (mark_integrity t r) = xs @ k # (ys @ [tc_id t])"
      using False parts by (simp add: mark_integrity_def Let_def)
    then show ?thesis
      using parts(2) unfolding registered_behind_def by fastforce
  next
    case full: False
    then obtain x xs' where xs: "xs = x # xs'"
      using parts assms(2) by (cases xs) auto
    then have "ir_order (mark_integrity t r) = xs' @ k # (ys @ [tc_id t])"
      using False full parts by (simp add: mark_integrity_def Let_def)
    then show ?thesis
      using parts(2) unfolding registered_behind_def by fastforce
  qed
qed

lemma marks_keep:
  "registered_behind k r n \<Longrightarrow> n + length ts < maximum_integrities \<Longrightarrow>
     registered_behind k (fold mark_integrity ts r) (n + length ts)"
proof (induction ts arbitrary: r n)
  case (Cons t ts)
  then show ?case
    using Cons.IH [OF mark_keeps [OF Cons.prems(1)]] by simp
qed simp

text \<open>
  The registry of traces captured by this process never holds more than its bound, its set and its queue agree
  and have no duplicates, in every sequence of captures. A newly captured trace is recognised, as a record loaded
  from disk, for as long as fewer captures than the bound have followed.
\<close>
theorem capture_registry:
  shows "registry_ok (fold mark_integrity ts empty_registry)"
    and "\<lbrakk>r = fold mark_integrity ts empty_registry; tc_id t \<noteq> []; tc_id t \<notin> set (ir_ids r); \<not> tc_integrity_bound t;
      length later < maximum_integrities\<rbrakk> \<Longrightarrow> capture_integrity (fold mark_integrity later (mark_integrity t r)) t"
proof -
  show ok: "registry_ok (fold mark_integrity ts empty_registry)" for ts
    by (intro registry_ok_marks inv_intros)
  assume r: "r = fold mark_integrity ts empty_registry" and new: "tc_id t \<noteq> []" "tc_id t \<notin> set (ir_ids r)"
    and free: "\<not> tc_integrity_bound t" and few: "length later < maximum_integrities"
  define r' where "r' = fold mark_integrity later (mark_integrity t r)"
  have "registry_ok r"
    using ok r by simp
  then have "registered_behind (tc_id t) r' (0 + length later)"
    using new few unfolding r'_def by (intro marks_keep mark_registers) simp_all
  then have "tc_id t \<in> set (ir_order r')"
    unfolding registered_behind_def by fastforce
  moreover have "registry_ok r'"
    unfolding r'_def using \<open>registry_ok r\<close> by (intro registry_ok_marks registry_ok_mark)
  ultimately have "tc_id t \<in> set (ir_ids r')"
    by (simp add: registry_ok_def)
  then show "capture_integrity (fold mark_integrity later (mark_integrity t r)) t"
    using free by (simp add: capture_integrity_def r'_def)
qed

end
