(* ===== verification/GoParse.thy ===== *)
theory GoParse
  imports GoText
begin

text \<open>
  The parsing functions of Go's standard library that several components call: \<open>strings.Cut\<close> at a byte,
  \<open>strings.Fields\<close>, \<open>strconv.Atoi\<close> and the lines of \<open>bufio.Scanner\<close>, with the lemmas that a printed number is read back.
\<close>

section \<open>Cutting\<close>

text \<open>\<open>strings.Cut\<close> with a separator of one byte: the text before and after its first occurrence.\<close>

definition cut_at :: "char \<Rightarrow> string \<Rightarrow> (string \<times> string) option" where
  "cut_at c s = (case dropWhile (\<lambda>d. d \<noteq> c) s of [] \<Rightarrow> None | _ # rest \<Rightarrow> Some (takeWhile (\<lambda>d. d \<noteq> c) s, rest))"

lemma cut_at_append [simp]: "c \<notin> set a \<Longrightarrow> cut_at c (a @ c # b) = Some (a, b)"
  by (induction a) (simp_all add: cut_at_def split: list.splits)

lemma cut_at_None [simp]: "cut_at c s = None \<longleftrightarrow> c \<notin> set s"
proof -
  have "cut_at c s = None \<longleftrightarrow> dropWhile (\<lambda>d. d \<noteq> c) s = []"
    by (simp add: cut_at_def split: list.split del: dropWhile_eq_Nil_conv)
  then show ?thesis by (metis (mono_tags, lifting) dropWhile_eq_Nil_conv)
qed

lemma cut_at_Some: "cut_at c s = Some (a, b) \<longleftrightarrow> s = a @ c # b \<and> c \<notin> set a"
proof
  assume some: "cut_at c s = Some (a, b)"
  then obtain x where "dropWhile (\<lambda>d. d \<noteq> c) s = x # b" "a = takeWhile (\<lambda>d. d \<noteq> c) s"
    by (auto simp: cut_at_def split: list.splits)
  then show "s = a @ c # b \<and> c \<notin> set a"
    by (metis (full_types) dropWhile_eq_Cons_conv set_takeWhileD takeWhile_dropWhile_id)
qed auto

section \<open>Fields\<close>

definition flush_field :: "string \<Rightarrow> string list" where
  "flush_field w = (if w = [] then [] else [rev w])"

text \<open>\<open>strings.Fields\<close>, with the bytes of the current field in reverse.\<close>

fun fields_from :: "string \<Rightarrow> string \<Rightarrow> string list" where
  "fields_from w [] = flush_field w"
| "fields_from w (a # s) =
     (if ascii_space a then flush_field w @ fields_from [] s
      else case s of
        [] \<Rightarrow> fields_from (a # w) s
      | b # s1 \<Rightarrow>
          if space2 a b then flush_field w @ fields_from [] s1
          else case s1 of
            [] \<Rightarrow> fields_from (a # w) s
          | c # s2 \<Rightarrow> if space3 a b c then flush_field w @ fields_from [] s2 else fields_from (a # w) s)"

definition go_fields :: "string \<Rightarrow> string list" where
  "go_fields s = fields_from [] s"

text \<open>Text of printable ASCII characters contains no space code point.\<close>

definition plain :: "char \<Rightarrow> bool" where
  "plain c \<longleftrightarrow> 32 < code c \<and> code c < (127::nat)"

lemma plain_no_space [simp]: "plain c \<Longrightarrow> \<not> ascii_space c" "plain a \<Longrightarrow> \<not> space2 a b" "plain a \<Longrightarrow> \<not> space3 a b c"
  by (auto simp: plain_def ascii_space_def space2_def space3_def)

lemma fields_from_plain: "list_all plain s \<Longrightarrow> fields_from w (s @ rest) = fields_from (rev s @ w) rest"
proof (induction s arbitrary: w)
  case (Cons a s)
  have "plain a"
    using Cons.prems by simp
  then have "fields_from w (a # (s @ rest)) = fields_from (a # w) (s @ rest)"
    by (subst fields_from.simps(2)) (simp split: list.split del: fields_from.simps)
  with Cons show ?case by (simp del: fields_from.simps)
qed simp

section \<open>Numbers\<close>

definition decimal_char :: "char \<Rightarrow> bool" where
  "decimal_char c \<longleftrightarrow> 48 \<le> code c \<and> code c \<le> (57::nat)"

definition digits_value :: "string \<Rightarrow> int" where
  "digits_value s = foldl (\<lambda>n c. n * 10 + (int (code c) - 48)) 0 s"

definition sign_and_digits :: "string \<Rightarrow> bool \<times> string" where
  "sign_and_digits s = (case s of [] \<Rightarrow> (False, [])
     | c # cs \<Rightarrow> if c = CHR ''-'' then (True, cs) else if c = CHR ''+'' then (False, cs) else (False, s))"

text \<open>\<open>strconv.Atoi\<close> on a platform with 64-bit \<open>int\<close>; \<^const>\<open>None\<close> is a syntax or range error.\<close>

definition atoi :: "string \<Rightarrow> int option" where
  "atoi s =
     (let (negative, d) = sign_and_digits s; v = (if negative then - digits_value d else digits_value d)
      in if d = [] \<or> \<not> list_all decimal_char d then None
         else if - (2 ^ 63) \<le> v \<and> v < 2 ^ 63 then Some v else None)"

text \<open>Addition on Go's 64-bit \<open>int\<close>.\<close>

definition add64 :: "int \<Rightarrow> int \<Rightarrow> int" where
  "add64 a b = sint (word_of_int (a + b) :: int64)"

lemma add64_exact: "- (2 ^ 63) \<le> a + b \<Longrightarrow> a + b < 2 ^ 63 \<Longrightarrow> add64 a b = a + b"
  unfolding add64_def by (subst sint_sbintrunc') (simp add: signed_take_bit_int_eq_self)

lemma digits_value_append [simp]: "digits_value (s @ [c]) = digits_value s * 10 + (int (code c) - 48)"
  by (simp add: digits_value_def)

lemma code_byte [simp]: "n < 256 \<Longrightarrow> code (byte n) = n"
  by (simp add: byte_def)

lemma nat_digits_value: "digits_value (nat_digits n) = int n"
proof (induction n rule: nat_digits.induct)
  case (1 n)
  show ?case
  proof (cases "n < 10")
    case True
    then show ?thesis
      by (subst nat_digits.simps) (simp add: digits_value_def)
  next
    case False
    then have "nat_digits n = nat_digits (n div 10) @ [byte (48 + n mod 10)]"
      by (subst nat_digits.simps) simp
    moreover have "int (n div 10) * 10 + int (n mod 10) = int n"
      by (metis div_mult_mod_eq of_nat_add of_nat_mult of_nat_numeral)
    ultimately show ?thesis
      using 1 False by simp
  qed
qed

lemma nat_digits_chars: "nat_digits n \<noteq> [] \<and> list_all decimal_char (nat_digits n)"
proof (induction n rule: nat_digits.induct)
  case (1 n)
  have "decimal_char (byte (48 + n mod 10))"
    by (simp add: decimal_char_def)
  then show ?case
    using 1 by (cases "n < 10") (simp_all add: nat_digits.simps [of n])
qed

lemma decimal_plain: "decimal_char c \<Longrightarrow> plain c \<and> c \<noteq> CHR ''.'' \<and> c \<noteq> CHR '','' \<and> c \<noteq> CHR ''-'' \<and> c \<noteq> CHR ''+'' \<and> c \<noteq> CHR '' ''"
  by (auto simp: decimal_char_def plain_def)

lemma nat_digits_plain: "list_all plain (nat_digits n)"
  using nat_digits_chars [of n] decimal_plain by (auto simp: list_all_iff)

text \<open>A printed number is read back.\<close>

lemma atoi_nat_digits:
  assumes "n < 2 ^ 63"
  shows "atoi (nat_digits n) = Some (int n)"
proof -
  obtain c cs where s: "nat_digits n = c # cs" and c: "decimal_char c"
    using nat_digits_chars [of n] by (cases "nat_digits n") auto
  then have "sign_and_digits (nat_digits n) = (False, nat_digits n)"
    using decimal_plain [OF c] by (simp add: sign_and_digits_def)
  then show ?thesis
    using assms nat_digits_chars [of n] by (simp add: atoi_def nat_digits_value)
qed

section \<open>Lines\<close>

text \<open>
  \<open>bufio.Scanner\<close> with \<open>ScanLines\<close>: the raw lines, the text after the last line feed being a line unless it is empty.
  A trailing carriage return is dropped from each. A raw line that does not fit the buffer ends the scan with an error.
\<close>

fun raw_lines :: "string \<Rightarrow> string list" where
  "raw_lines [] = []"
| "raw_lines (c # s) =
     (if code c = (10::nat) then [] # raw_lines s
      else case raw_lines s of [] \<Rightarrow> [[c]] | l # ls \<Rightarrow> (c # l) # ls)"

definition drop_cr :: "string \<Rightarrow> string" where
  "drop_cr l = (if l \<noteq> [] \<and> code (last l) = (13::nat) then butlast l else l)"

text \<open>The lines before the first raw line of \<open>limit\<close> bytes or more, and whether there is none.\<close>

definition scan_lines :: "nat \<Rightarrow> string \<Rightarrow> string list \<times> bool" where
  "scan_lines limit s =
     (map drop_cr (takeWhile (\<lambda>l. length l < limit) (raw_lines s)), list_all (\<lambda>l. length l < limit) (raw_lines s))"

definition newline :: string where "newline = [byte 10]"

lemma byte_newline: "byte 10 = CHR 0x0A"
  by code_simp

lemma raw_lines_line:
  assumes "byte 10 \<notin> set l"
  shows "raw_lines (l @ newline @ s) = l # raw_lines s"
  using assms
proof (induction l)
  case (Cons c l)
  moreover have "code c \<noteq> (10::nat)"
    using Cons.prems by (metis byte_def char_of_char list.set_intros(1))
  ultimately show ?case by simp
qed (simp add: newline_def)

lemma raw_lines_text:
  "(\<And>l. l \<in> set ls \<Longrightarrow> byte 10 \<notin> set l) \<Longrightarrow> raw_lines (concat (map (\<lambda>l. l @ newline) ls)) = ls"
  by (induction ls) (simp_all add: raw_lines_line)

end
