(* ===== verification/RuntimeParse.thy ===== *)
theory RuntimeParse
  imports GoParse RuntimeTrace
begin

text \<open>
  Reading what a captured command leaves behind (\<open>internal/runtime/parse.go\<close>) and binding it to the repository
  (\<open>affinity.go\<close>): statement coverage profiles, the identities of tests, and the artifacts that coverage paths mean.
  The file's bytes are an argument, \<^const>\<open>None\<close> if it cannot be opened. An error is its message and the text it quotes.
\<close>

section \<open>Coverage records\<close>

definition parse_position :: "string \<Rightarrow> runtime_error + int" where
  "parse_position value =
     (let line_text = (case cut_at CHR ''.'' value of None \<Rightarrow> value | Some (a, _) \<Rightarrow> a)
      in case atoi line_text of
           None \<Rightarrow> Inl (TraceError ''invalid coverage position'' value)
         | Some l \<Rightarrow> if l \<le> 0 then Inl (TraceError ''invalid coverage position'' value) else Inr l)"

definition parse_count :: "string \<Rightarrow> string \<Rightarrow> runtime_error + int" where
  "parse_count message text =
     (case atoi text of None \<Rightarrow> Inl (TraceError message text)
      | Some n \<Rightarrow> if n < 0 then Inl (TraceError message text) else Inr n)"

definition covered_artifact :: "string \<Rightarrow> int \<Rightarrow> int \<Rightarrow> int \<Rightarrow> int \<Rightarrow> trace_artifact" where
  "covered_artifact path start_line end_line statements executed =
     \<lparr>ta_path = path, ta_source_sha256 = [], ta_source_size_bytes = 0, ta_statements = statements,
      ta_executed_statements = (if 0 < executed then statements else 0),
      ta_executed_ranges = (if 0 < executed
        then [\<lparr>xr_start_line = start_line, xr_end_line = end_line, xr_count = executed\<rparr>] else [])\<rparr>"

text \<open>A record with an absolute path is checked and then dropped.\<close>

definition parse_coverage_line :: "string \<Rightarrow> runtime_error + trace_artifact option" where
  "parse_coverage_line line =
     (case cut_at CHR '':'' line of
        None \<Rightarrow> Inl (TraceError ''malformed coverage record'' line)
      | Some (path, remainder) \<Rightarrow>
          if path = [] then Inl (TraceError ''malformed coverage record'' line)
          else case cut_at CHR '' '' remainder of
            None \<Rightarrow> Inl (TraceError ''malformed coverage range'' line)
          | Some (extent, rest) \<Rightarrow> (case go_fields rest of
              [statement_text, executed_text] \<Rightarrow> (case cut_at CHR '','' extent of
                None \<Rightarrow> Inl (TraceError ''malformed coverage span'' line)
              | Some (start_text, end_text) \<Rightarrow>
                  res_bind (parse_position start_text) (\<lambda>start_line.
                  res_bind (parse_position end_text) (\<lambda>end_line.
                  res_bind (parse_count ''invalid statement count'' statement_text) (\<lambda>statements.
                  res_bind (parse_count ''invalid executed count'' executed_text) (\<lambda>executed.
                    Inr (if has_prefix path ''/'' then None
                         else Some (covered_artifact path start_line end_line statements executed)))))))
            | _ \<Rightarrow> Inl (TraceError ''malformed coverage counts'' line)))"

section \<open>Coverage profiles\<close>

definition coverage_line_limit :: nat where "coverage_line_limit = 2 ^ 20"

definition is_mode_line :: "nat \<Rightarrow> string \<Rightarrow> bool" where
  "is_mode_line n line \<longleftrightarrow>
     n = 1 \<and> (has_prefix line ''mode: set'' \<or> has_prefix line ''mode: atomic'' \<or> has_prefix line ''mode: count'')"

text \<open>The claims of a path so far, and one more.\<close>

definition combine_claims :: "trace_artifact \<Rightarrow> trace_artifact \<Rightarrow> trace_artifact" where
  "combine_claims current item = current\<lparr>
     ta_statements := add64 (ta_statements current) (ta_statements item),
     ta_executed_statements := add64 (ta_executed_statements current) (ta_executed_statements item),
     ta_executed_ranges := ta_executed_ranges current @ ta_executed_ranges item\<rparr>"

text \<open>\<open>seen\<close> and \<open>order\<close> are one list of the artifacts in the order of their first record.\<close>

fun add_claims :: "trace_artifact \<Rightarrow> trace_artifact list \<Rightarrow> trace_artifact list" where
  "add_claims item [] = [item]"
| "add_claims item (a # as) = (if ta_path a = ta_path item then combine_claims a item # as else a # add_claims item as)"

fun parse_coverage_lines :: "nat \<Rightarrow> string list \<Rightarrow> trace_artifact list \<Rightarrow> runtime_error + trace_artifact list" where
  "parse_coverage_lines n [] as = Inr as"
| "parse_coverage_lines n (text # texts) as =
     (let line = trim_space text in
      if line = [] \<or> is_mode_line n line then parse_coverage_lines (n + 1) texts as
      else case parse_coverage_line line of
        Inl (TraceError message quoted) \<Rightarrow> Inl (TraceError (''coverage line '' @ nat_digits n @ '': '' @ message) quoted)
      | Inl e \<Rightarrow> Inl e
      | Inr None \<Rightarrow> parse_coverage_lines (n + 1) texts as
      | Inr (Some a) \<Rightarrow> parse_coverage_lines (n + 1) texts (add_claims a as))"

definition parse_coverage_file :: "string option \<Rightarrow> runtime_error + trace_artifact list" where
  "parse_coverage_file file =
     (case file of
        None \<Rightarrow> Inl (TraceError ''open'' [])
      | Some contents \<Rightarrow>
          (let (texts, complete) = scan_lines coverage_line_limit contents
           in res_bind (parse_coverage_lines 1 texts [])
                (\<lambda>as. if complete then Inr as else Inl (TraceError ''bufio.Scanner: token too long'' []))))"

section \<open>Test identities\<close>

definition safe_package_identity :: "runtime_env \<Rightarrow> string \<Rightarrow> runtime_error + (string \<times> bool)" where
  "safe_package_identity env value =
     (if value = [] then Inr ([], False)
      else if 512 < length value \<or> contains_control value \<or> \<not> package_pattern value
      then Inl (TraceError ''go test event has an invalid package identity'' [])
      else if rt_secret env value then Inr (''redacted-package'', True)
      else Inr (value, False))"

definition safe_test_identity :: "runtime_env \<Rightarrow> string \<Rightarrow> runtime_error + (string \<times> bool)" where
  "safe_test_identity env value =
     (if value = [] \<or> 256 < length value \<or> contains_control value
      then Inl (TraceError ''go test event has an invalid test identity'' [])
      else let root = (case cut_at CHR ''/'' value of None \<Rightarrow> value | Some (a, _) \<Rightarrow> a) in
        if \<not> identifier_pattern root then Inl (TraceError ''go test event has an invalid test identity'' [])
        else if rt_secret env root
        then Inl (TraceError ''go test event test identity contains credential-shaped material'' [])
        else case cut_at CHR ''/'' value of
          None \<Rightarrow> Inr (root, False)
        | Some (_, suffix) \<Rightarrow>
            if suffix = [] then Inl (TraceError ''go test event has an invalid test identity'' [])
            else Inr (root @ redacted_suffix, True))"

definition status_priority :: "string \<Rightarrow> nat" where
  "status_priority s = (if s = ''skip'' then 1 else if s = ''pass'' then 2 else if s = ''fail'' then 3 else 0)"

definition merge_test_status :: "string \<Rightarrow> string \<Rightarrow> string" where
  "merge_test_status l r = (if status_priority r \<le> status_priority l then l else r)"

section \<open>Binding coverage to artifacts\<close>

record module_binding =
  mb_module :: string
  mb_directory :: string

text \<open>\<open>filepath.ToSlash(filepath.Clean(value))\<close> on a platform whose separator is the slash.\<close>

definition canonical_coverage_path :: "string \<Rightarrow> string" where
  "canonical_coverage_path value = trim_prefix (path_clean value) ''./''"

definition bindable :: "artifact \<Rightarrow> bool" where
  "bindable a \<longleftrightarrow> a_sha256 a \<noteq> [] \<and> a_status a \<noteq> ''excluded''"

definition module_candidate :: "string \<Rightarrow> (string \<times> artifact) list \<Rightarrow> module_binding \<Rightarrow> artifact option" where
  "module_candidate observed candidates b =
     (let prefix = mb_module b @ ''/'' in
      if \<not> has_prefix observed prefix then None
      else let path = trim_prefix observed prefix
        in map_of candidates (if mb_directory b = [] then path else mb_directory b @ ''/'' @ path))"

definition resolve_coverage_artifact ::
  "string \<Rightarrow> (string \<times> artifact) list \<Rightarrow> module_binding list \<Rightarrow> runtime_error + artifact" where
  "resolve_coverage_artifact observed candidates modules =
     (case List.map_filter (module_candidate observed candidates) modules of
        [a] \<Rightarrow> Inr a
      | _ # _ \<Rightarrow> Inl (TraceError ''captured coverage path has multiple Go module bindings'' [])
      | [] \<Rightarrow> (case map_of candidates observed of
          Some a \<Rightarrow> Inr a
        | None \<Rightarrow> Inl (TraceError ''captured coverage path has no exact repository or Go module binding'' [])))"

definition bound_item :: "artifact \<Rightarrow> trace_artifact \<Rightarrow> trace_artifact" where
  "bound_item a item = item\<lparr>ta_path := a_path a, ta_source_sha256 := a_sha256 a, ta_source_size_bytes := a_size_bytes a\<rparr>"

fun bind_items ::
  "(string \<times> artifact) list \<Rightarrow> module_binding list \<Rightarrow> trace_artifact list \<Rightarrow> trace_artifact list \<Rightarrow>
   runtime_error + trace_artifact list" where
  "bind_items candidates modules [] bound = Inr bound"
| "bind_items candidates modules (item # items) bound =
     res_bind (resolve_coverage_artifact (canonical_coverage_path (ta_path item)) candidates modules)
       (\<lambda>a. bind_items candidates modules items (add_claims (bound_item a item) bound))"

text \<open>The module bindings, read from the \<open>go.mod\<close> files of the inventory, are an argument.\<close>

definition bind_trace_artifacts ::
  "module_binding list \<Rightarrow> trace_artifact list \<Rightarrow> artifact list \<Rightarrow> runtime_error + trace_artifact list" where
  "bind_trace_artifacts modules observed inventory =
     res_bind (bind_items (index_by a_path (filter bindable inventory)) modules observed [])
       (\<lambda>bound. Inr (sort_key ta_path bound))"

section \<open>The captured command\<close>

fun insert_new_keys :: "string list \<Rightarrow> string list \<Rightarrow> runtime_error + string list" where
  "insert_new_keys found [] = Inr found"
| "insert_new_keys found (k # ks) =
     (if \<not> identifier_pattern k then Inl (TraceError ''trace environment key is invalid'' k)
      else insert_new_keys (if k \<in> set found then found else found @ [k]) ks)"

definition normalize_environment_keys :: "string list \<Rightarrow> runtime_error + string list" where
  "normalize_environment_keys ks =
     (if 4096 < length ks then Inl (TraceError ''trace capture received too many environment keys'' (nat_digits (length ks)))
      else res_bind (insert_new_keys [] ks) (\<lambda>found. Inr (sort found)))"

text \<open>\<open>base\<close> is \<open>filepath.Base\<close> of the executable.\<close>

definition safe_command_identity :: "runtime_env \<Rightarrow> string \<Rightarrow> string \<times> bool" where
  "safe_command_identity env base =
     (let name = to_lower (rt_fold_case env) base
      in if name = ''go'' \<or> name = ''go.exe'' then (name, False) else (''custom-command'', True))"

definition argument_shape :: "string \<Rightarrow> string" where
  "argument_shape argument =
     (if has_prefix argument ''-'' then (if CHR ''='' \<in> set argument then ''<option=value>'' else ''<option>'')
      else ''<argument>'')"

definition command_shape :: "runtime_env \<Rightarrow> string \<Rightarrow> string list \<Rightarrow> string list" where
  "command_shape env base arguments = fst (safe_command_identity env base) # map argument_shape arguments"

text \<open>The refusal of \<open>prepareCommand\<close> and the arguments it adds, with the path of the temporary file.\<close>

definition instrumented_arguments :: "runtime_env \<Rightarrow> string \<Rightarrow> string list \<Rightarrow> string \<Rightarrow> runtime_error + string list \<times> bool" where
  "instrumented_arguments env base arguments coverage_path =
     (if trim_suffix (to_lower (rt_fold_case env) base) ''.exe'' \<noteq> ''go'' \<or> arguments = [] \<or> hd arguments \<noteq> ''test''
      then Inr (arguments, False)
      else case find (\<lambda>a. a = ''-coverprofile'' \<or> has_prefix a ''-coverprofile='' \<or> a = ''-json'') (tl arguments) of
        Some a \<Rightarrow> Inl (TraceError (if a = ''-json''
          then ''trace capture refuses to overwrite explicit -json output; remove the flag''
          else ''trace capture refuses to overwrite an explicit -coverprofile; remove the flag'') [])
      | None \<Rightarrow> Inr (arguments @ [''-covermode=set'', ''-coverprofile='' @ coverage_path, ''-json''], True))"

record bounded_buffer =
  bb_data :: string
  bb_truncated :: bool

definition maximum_output :: nat where "maximum_output = 4 * 2 ^ 20"

text \<open>The returned count is always the length of the data.\<close>

definition buffer_write :: "string \<Rightarrow> bounded_buffer \<Rightarrow> bounded_buffer" where
  "buffer_write data b =
     (if maximum_output \<le> length (bb_data b) then b\<lparr>bb_truncated := True\<rparr>
      else let room = maximum_output - length (bb_data b) in
        if room < length data then b\<lparr>bb_data := bb_data b @ take room data, bb_truncated := True\<rparr>
        else b\<lparr>bb_data := bb_data b @ data\<rparr>)"

end
