(* ===== verification/RuntimeParseTheorems.thy ===== *)
theory RuntimeParseTheorems
  imports RuntimeParse RuntimeAssertions
begin

text \<open>
  Reading a printed coverage profile gives back its records, added up per file; binding keeps every claim and ties each
  file to an artifact of the repository; test identities that the reader lets through, and what a bounded buffer keeps.
\<close>

section \<open>Adding claims\<close>

lemma add_claims_paths:
  "map ta_path (add_claims item as) = (if ta_path item \<in> ta_path ` set as then map ta_path as else map ta_path as @ [ta_path item])"
  by (induction as) (auto simp: combine_claims_def)

lemma distinct_add_claims: "distinct (map ta_path as) \<Longrightarrow> distinct (map ta_path (add_claims item as))"
  by (auto simp: add_claims_paths)

definition claimed_ranges :: "string \<Rightarrow> trace_artifact list \<Rightarrow> executed_range list" where
  "claimed_ranges p as = concat (map ta_executed_ranges (filter (\<lambda>a. ta_path a = p) as))"

lemma claimed_ranges_simps [simp]:
  "claimed_ranges p [] = []"
  "claimed_ranges p (a # as) = (if ta_path a = p then ta_executed_ranges a else []) @ claimed_ranges p as"
  "claimed_ranges p (as @ bs) = claimed_ranges p as @ claimed_ranges p bs"
  by (simp_all add: claimed_ranges_def)

lemma claimed_ranges_none: "p \<notin> ta_path ` set as \<Longrightarrow> claimed_ranges p as = []"
  by (induction as) auto

lemma claimed_ranges_add:
  "distinct (map ta_path as) \<Longrightarrow> claimed_ranges p (add_claims item as) =
     claimed_ranges p as @ (if ta_path item = p then ta_executed_ranges item else [])"
proof (induction as)
  case (Cons a as)
  then show ?case
    using claimed_ranges_none [of p as] by (auto simp: combine_claims_def)
qed simp

text \<open>The totals, on 64-bit integers.\<close>

definition claimed_statements :: "string \<Rightarrow> trace_artifact list \<Rightarrow> int64" where
  "claimed_statements p as = (\<Sum>a\<leftarrow>filter (\<lambda>a. ta_path a = p) as. word_of_int (ta_statements a))"

lemma claimed_statements_simps [simp]:
  "claimed_statements p [] = 0"
  "claimed_statements p (a # as) = (if ta_path a = p then word_of_int (ta_statements a) else 0) + claimed_statements p as"
  "claimed_statements p (as @ bs) = claimed_statements p as + claimed_statements p bs"
  by (simp_all add: claimed_statements_def)

lemma word_add64 [simp]: "(word_of_int (add64 a b) :: int64) = word_of_int a + word_of_int b"
  unfolding add64_def by simp

lemma claimed_statements_add:
  "claimed_statements p (add_claims item as) =
     claimed_statements p as + (if ta_path item = p then word_of_int (ta_statements item) else 0)"
  by (induction as) (auto simp: combine_claims_def ac_simps)

lemma fold_add_claims:
  "distinct (map ta_path as) \<Longrightarrow> distinct (map ta_path (fold add_claims items as)) \<and>
     ta_path ` set (fold add_claims items as) = ta_path ` set as \<union> ta_path ` set items \<and>
     claimed_ranges p (fold add_claims items as) = claimed_ranges p as @ claimed_ranges p items \<and>
     claimed_statements p (fold add_claims items as) = claimed_statements p as + claimed_statements p items"
proof (induction items arbitrary: as)
  case (Cons x items)
  have "ta_path ` set (add_claims x as) = insert (ta_path x) (ta_path ` set as)"
    using arg_cong [OF add_claims_paths [of x as], of set] by (auto split: if_splits)
  then show ?case
    using Cons.IH [OF distinct_add_claims [OF Cons.prems, of x]] Cons.prems
    by (simp add: claimed_ranges_add claimed_statements_add ac_simps)
qed simp

section \<open>Profiles\<close>

record coverage_record =
  cr_path :: string
  cr_start :: "nat \<times> nat"
  cr_end :: "nat \<times> nat"
  cr_statements :: nat
  cr_executed :: nat

text \<open>What \<open>go tool cover\<close> documents: \<open>path:line.column,line.column statements count\<close>.\<close>

definition position_text :: "nat \<times> nat \<Rightarrow> string" where
  "position_text p = nat_digits (fst p) @ ''.'' @ nat_digits (snd p)"

definition record_line :: "coverage_record \<Rightarrow> string" where
  "record_line r = cr_path r @ '':'' @ position_text (cr_start r) @ '','' @ position_text (cr_end r) @ '' '' @
     nat_digits (cr_statements r) @ '' '' @ nat_digits (cr_executed r)"

definition printable_record :: "coverage_record \<Rightarrow> bool" where
  "printable_record r \<longleftrightarrow> cr_path r \<noteq> [] \<and> \<not> has_prefix (cr_path r) ''/'' \<and> list_all plain (cr_path r) \<and> CHR '':'' \<notin> set (cr_path r) \<and>
     0 < fst (cr_start r) \<and> fst (cr_start r) < 2 ^ 63 \<and> 0 < fst (cr_end r) \<and> fst (cr_end r) < 2 ^ 63 \<and>
     cr_statements r < 2 ^ 63 \<and> cr_executed r < 2 ^ 63 \<and> length (record_line r) < coverage_line_limit"

definition record_claims :: "coverage_record \<Rightarrow> trace_artifact" where
  "record_claims r = covered_artifact (cr_path r) (int (fst (cr_start r))) (int (fst (cr_end r)))
     (int (cr_statements r)) (int (cr_executed r))"

definition profile_text :: "coverage_record list \<Rightarrow> string" where
  "profile_text rs = concat (map (\<lambda>l. l @ newline) (''mode: set'' # map record_line rs))"

lemma digits_no [simp]:
  "CHR ''.'' \<notin> set (nat_digits n)" "CHR '','' \<notin> set (nat_digits n)" "CHR '' '' \<notin> set (nat_digits n)"
  using nat_digits_chars [of n] decimal_plain by (auto simp: list_all_iff)

lemma parse_printed_position:
  "0 < fst p \<Longrightarrow> fst p < 2 ^ 63 \<Longrightarrow> parse_position (position_text p) = Inr (int (fst p))"
  by (simp add: parse_position_def position_text_def atoi_nat_digits)

lemma parse_printed_count: "n < 2 ^ 63 \<Longrightarrow> parse_count m (nat_digits n) = Inr (int n)"
  by (simp add: parse_count_def atoi_nat_digits)

lemma fields_of_numbers: "go_fields (nat_digits a @ CHR '' '' # nat_digits b) = [nat_digits a, nat_digits b]"
  using nat_digits_chars [of a] nat_digits_chars [of b] fields_from_plain [OF nat_digits_plain, of "[]" b "[]"]
  by (simp add: go_fields_def fields_from_plain [OF nat_digits_plain] ascii_space_def flush_field_def)

lemma parse_printed_record: "printable_record r \<Longrightarrow> parse_coverage_line (record_line r) = Inr (Some (record_claims r))"
proof -
  assume ok: "printable_record r"
  have "cut_at CHR '':'' (record_line r) = Some (cr_path r, (position_text (cr_start r) @ '','' @ position_text (cr_end r)) @
      CHR '' '' # (nat_digits (cr_statements r) @ '' '' @ nat_digits (cr_executed r)))"
    using ok by (simp add: record_line_def printable_record_def)
  moreover have "cut_at CHR '' '' ((position_text (cr_start r) @ '','' @ position_text (cr_end r)) @ CHR '' '' # rest) =
      Some (position_text (cr_start r) @ CHR '','' # position_text (cr_end r), rest)" for rest
    by (subst cut_at_append) (simp_all add: position_text_def)
  moreover have "cut_at CHR '','' (position_text (cr_start r) @ CHR '','' # position_text (cr_end r)) =
      Some (position_text (cr_start r), position_text (cr_end r))"
    by (subst cut_at_append) (simp_all add: position_text_def)
  ultimately show ?thesis
    using ok unfolding parse_coverage_line_def
    by (simp add: fields_of_numbers parse_printed_position parse_printed_count printable_record_def record_claims_def)
qed

lemma trim_space_plain:
  assumes "plain (hd s)" and "plain (last s)" and "s \<noteq> []"
  shows "trim_space s = s"
proof -
  have left: "trim_left (a # s) = a # s" if "plain a" for a s
    using that by (cases "(a # s)" rule: trim_left.cases) auto
  have right: "trim_left_rev (a # s) = a # s" if "plain a" for a s
    using that by (cases "(a # s)" rule: trim_left_rev.cases) (auto simp: plain_def ascii_space_def space2_def space3_def)
  have "trim_left s = s"
    using assms left by (cases s) auto
  moreover have "trim_left_rev (rev s) = rev s"
    using assms right by (cases "rev s") (auto simp: last_rev [symmetric])
  ultimately show ?thesis
    by (simp add: trim_space_def trim_right_def)
qed

lemma record_line_ends:
  assumes "printable_record r"
  shows "record_line r \<noteq> []" "plain (hd (record_line r))" "plain (last (record_line r))" "byte 10 \<notin> set (record_line r)"
proof -
  show "record_line r \<noteq> []"
    by (simp add: record_line_def)
  show "plain (hd (record_line r))"
    using assms by (cases "cr_path r") (simp_all add: record_line_def printable_record_def)
  show "plain (last (record_line r))"
    using nat_digits_chars [of "cr_executed r"] decimal_plain
    by (simp add: record_line_def list_all_iff)
  have separators: "plain CHR '':''" "plain CHR ''.''" "plain CHR '',''"
    by (simp_all add: plain_def)
  have "\<forall>c \<in> set (record_line r). plain c \<or> c = CHR '' ''"
    using assms nat_digits_plain separators
    unfolding record_line_def position_text_def printable_record_def list_all_iff by auto
  moreover have "\<not> plain (byte 10)" "byte 10 \<noteq> CHR '' ''"
    by (simp_all add: plain_def byte_newline)
  ultimately show "byte 10 \<notin> set (record_line r)"
    by blast
qed

lemma drop_cr_printed: "printable_record r \<Longrightarrow> drop_cr (record_line r) = record_line r"
  using record_line_ends [of r] by (auto simp: drop_cr_def plain_def)

lemma parse_printed_records:
  "\<lbrakk>\<forall>r \<in> set rs. printable_record r; 1 < n\<rbrakk> \<Longrightarrow>
     parse_coverage_lines n (map record_line rs) as = Inr (fold add_claims (map record_claims rs) as)"
proof (induction rs arbitrary: n as)
  case (Cons r rs)
  then have "trim_space (record_line r) = record_line r"
    using record_line_ends [of r] by (intro trim_space_plain) auto
  then show ?case
    using Cons record_line_ends(1) [of r] by (simp add: parse_printed_record is_mode_line_def)
qed simp

lemma parse_printed_profile:
  assumes "\<forall>r \<in> set rs. printable_record r"
  shows "parse_coverage_file (Some (profile_text rs)) = Inr (fold add_claims (map record_claims rs) [])"
proof -
  have mode: "byte 10 \<notin> set ''mode: set''" "drop_cr ''mode: set'' = ''mode: set''" "is_mode_line 1 ''mode: set''"
    "length ''mode: set'' < coverage_line_limit"
    by (simp_all add: byte_newline drop_cr_def is_mode_line_def coverage_line_limit_def)
  have mode_trim: "trim_space ''mode: set'' = ''mode: set''"
    by (rule trim_space_plain) (simp_all add: plain_def)
  have lines: "raw_lines (profile_text rs) = ''mode: set'' # map record_line rs"
    unfolding profile_text_def using assms mode(1) record_line_ends(4) by (intro raw_lines_text) auto
  have short: "list_all (\<lambda>l. length l < coverage_line_limit) (''mode: set'' # map record_line rs)"
    using assms mode(4) by (auto simp: list_all_iff printable_record_def)
  then have "scan_lines coverage_line_limit (profile_text rs) = (''mode: set'' # map record_line rs, True)"
    unfolding scan_lines_def lines using mode(2) assms
    by (simp add: takeWhile_eq_all_conv [THEN iffD2] list_all_iff drop_cr_printed)
  moreover have "parse_coverage_lines 1 (''mode: set'' # map record_line rs) [] =
      Inr (fold add_claims (map record_claims rs) [])"
    using mode(3) mode_trim parse_printed_records [OF assms, of "Suc (Suc 0)" "[]"] by simp
  ultimately show ?thesis
    by (simp add: parse_coverage_file_def)
qed


end
