(* ===== verification/RuntimeBinding.thy ===== *)
theory RuntimeBinding
  imports RuntimeParseTheorems
begin

text \<open>
  Binding coverage claims to the repository, and what the captured records mean for validation: identities that pass
  the reader, blocks without statements, and the bounded output buffer.
\<close>

section \<open>Binding\<close>

lemma module_candidate_Some: "module_candidate observed candidates b = Some a \<Longrightarrow> \<exists>p. map_of candidates p = Some a"
  unfolding module_candidate_def Let_def by (metis option.distinct(1))

lemma module_matches:
  "a \<in> set (List.map_filter (module_candidate observed candidates) modules) \<Longrightarrow> \<exists>p. map_of candidates p = Some a"
  using module_candidate_Some by (induction modules) (auto simp: List.map_filter_simps split: option.splits)

lemma resolve_coverage_artifact_Inr:
  assumes "resolve_coverage_artifact observed candidates modules = Inr a"
  shows "\<exists>p. map_of candidates p = Some a"
proof (cases "List.map_filter (module_candidate observed candidates) modules")
  case Nil
  then show ?thesis
    using assms by (cases "map_of candidates observed") (auto simp: resolve_coverage_artifact_def)
next
  case (Cons x xs)
  note result = assms [unfolded resolve_coverage_artifact_def Cons]
  have "xs = []"
    using result by (cases xs) simp_all
  moreover from this have "a = x"
    using result by simp
  ultimately show ?thesis
    using module_matches [of a observed candidates modules] Cons by simp
qed

text \<open>A bound claim names a path of the repository with that artifact's digest and size.\<close>

definition bound_to :: "artifact list \<Rightarrow> trace_artifact \<Rightarrow> bool" where
  "bound_to inventory x \<longleftrightarrow> (\<exists>a \<in> set inventory. bindable a \<and> ta_path x = a_path a \<and> ta_source_sha256 x = a_sha256 a \<and>
     ta_source_size_bytes x = a_size_bytes a)"

lemma bound_to_combine [simp]: "bound_to inventory (combine_claims a x) = bound_to inventory a"
  by (simp add: combine_claims_def bound_to_def)

lemma add_claims_bound:
  "\<lbrakk>\<forall>x \<in> set as. bound_to inventory x; bound_to inventory item\<rbrakk> \<Longrightarrow> \<forall>x \<in> set (add_claims item as). bound_to inventory x"
  by (induction as) auto

lemma bind_items_Inr:
  assumes "bind_items (index_by a_path (filter bindable inventory)) modules items bound = Inr bound'"
    and "\<forall>x \<in> set bound. bound_to inventory x" and "distinct (map ta_path bound)"
  shows "(\<forall>x \<in> set bound'. bound_to inventory x) \<and> distinct (map ta_path bound') \<and>
    (\<exists>targets. length targets = length items \<and> bound' = fold add_claims (map2 bound_item targets items) bound)"
  using assms
proof (induction items arbitrary: bound)
  case (Cons item items)
  obtain a where a: "resolve_coverage_artifact (canonical_coverage_path (ta_path item))
      (index_by a_path (filter bindable inventory)) modules = Inr a"
    and rest: "bind_items (index_by a_path (filter bindable inventory)) modules items (add_claims (bound_item a item) bound) = Inr bound'"
    using Cons.prems(1) by (auto simp: res_bind_Inr_iff)
  have "bound_to inventory (bound_item a item)"
    using resolve_coverage_artifact_Inr [OF a] index_by_in by (fastforce simp: bound_to_def bound_item_def)
  then have "(\<forall>x \<in> set bound'. bound_to inventory x) \<and> distinct (map ta_path bound') \<and>
      (\<exists>targets. length targets = length items \<and>
        bound' = fold add_claims (map2 bound_item targets items) (add_claims (bound_item a item) bound))"
    using Cons.IH [OF rest] Cons.prems(2,3) add_claims_bound distinct_add_claims by blast
  then obtain targets where "length targets = length items"
    "bound' = fold add_claims (map2 bound_item targets items) (add_claims (bound_item a item) bound)"
    and parts: "\<forall>x \<in> set bound'. bound_to inventory x" "distinct (map ta_path bound')"
    by blast
  then have "length (a # targets) = length (item # items) \<and>
      bound' = fold add_claims (map2 bound_item (a # targets) (item # items)) bound"
    by simp
  then show ?case
    using parts by blast
qed simp

text \<open>All ranges and the statement total, over all files.\<close>

definition all_ranges :: "trace_artifact list \<Rightarrow> executed_range multiset" where
  "all_ranges as = (\<Sum>a\<leftarrow>as. mset (ta_executed_ranges a))"

definition all_statements :: "trace_artifact list \<Rightarrow> int64" where
  "all_statements as = (\<Sum>a\<leftarrow>as. word_of_int (ta_statements a))"

lemma all_add_claims:
  "all_ranges (add_claims item as) = mset (ta_executed_ranges item) + all_ranges as"
  "all_statements (add_claims item as) = word_of_int (ta_statements item) + all_statements as"
  by (induction as) (auto simp: all_ranges_def all_statements_def combine_claims_def ac_simps)

lemma all_fold_claims:
  "all_ranges (fold add_claims items as) = all_ranges items + all_ranges as"
  "all_statements (fold add_claims items as) = all_statements items + all_statements as"
  by (induction items arbitrary: as) (simp_all add: all_add_claims, simp_all add: all_ranges_def all_statements_def ac_simps)

lemma all_bound_items:
  "length targets = length items \<Longrightarrow> all_ranges (map2 bound_item targets items) = all_ranges items \<and>
     all_statements (map2 bound_item targets items) = all_statements items"
  by (induction targets items rule: list_induct2) (simp_all add: all_ranges_def all_statements_def bound_item_def)

lemma all_sorted: "all_ranges (sort_key f as) = all_ranges as" "all_statements (sort_key f as) = all_statements as"
proof -
  have mset: "mset (map g (sort_key f as)) = mset (map g as)" for g :: "trace_artifact \<Rightarrow> 'b"
    by simp
  show "all_ranges (sort_key f as) = all_ranges as" "all_statements (sort_key f as) = all_statements as"
    unfolding all_ranges_def all_statements_def sum_mset_sum_list [symmetric] mset by simp_all
qed

text \<open>
  C40. Binding captured coverage to the repository invents nothing and loses nothing. When it succeeds, the files are
  distinct and in path order, each is an artifact of the inventory that is not excluded and has a digest, with exactly
  that artifact's digest and size, and all executed ranges and statements that were read are still there.
\<close>
theorem bound_coverage:
  assumes "bind_trace_artifacts modules observed inventory = Inr bound"
  shows "sorted (map ta_path bound) \<and> distinct (map ta_path bound) \<and> (\<forall>x \<in> set bound. bound_to inventory x) \<and>
    all_ranges bound = all_ranges observed \<and> all_statements bound = all_statements observed"
proof -
  obtain items where items: "bind_items (index_by a_path (filter bindable inventory)) modules observed [] = Inr items"
    and bound: "bound = sort_key ta_path items"
    using assms by (auto simp: bind_trace_artifacts_def res_bind_Inr_iff)
  obtain targets where "length targets = length observed" "items = fold add_claims (map2 bound_item targets observed) []"
    and ok: "\<forall>x \<in> set items. bound_to inventory x" "distinct (map ta_path items)"
    using bind_items_Inr [OF items] by auto
  then have "all_ranges items = all_ranges observed" "all_statements items = all_statements observed"
    using all_bound_items by (simp_all add: all_fold_claims) (simp_all add: all_ranges_def all_statements_def)
  then show ?thesis
    using ok by (simp add: bound all_sorted distinct_map)
qed

section \<open>Blocks without statements\<close>

text \<open>
  The Go tool counts an empty function body as a block of no statements. If all executed blocks of a file are of this
  kind, the claim has ranges but no executed statements, and validation refuses the trace that the capture has built.
\<close>

lemma empty_block_refused:
  assumes "0 < executed"
  shows "validate_trace env (t\<lparr>tc_artifacts := [bound_item a (covered_artifact path s e 0 executed)]\<rparr>) \<noteq> Inr ()"
  using assms unfolding validate_trace_Inr
  by (simp add: well_formed_trace_def well_formed_artifact_def bound_item_def covered_artifact_def)

section \<open>Identities of tests\<close>

lemma identifier_no_control: "identifier_pattern s \<Longrightarrow> \<not> contains_control s \<and> CHR ''/'' \<notin> set s"
proof -
  assume id: "identifier_pattern s"
  have "48 \<le> code c \<and> code c < (127::nat)" if "c \<in> set s" for c
    using that id by (auto simp: identifier_pattern_def list_all_iff name_start_def digit_char_def split: list.splits)
  then have small: "\<forall>c \<in> set s. 48 \<le> code c \<and> code c < (127::nat)" by blast
  then have "valid_utf8 s \<and> \<not> has_control s"
    by (induction s) (auto simp: less_imp_le)
  moreover have "CHR ''/'' \<notin> set s"
    using small by auto
  ultimately show ?thesis
    by (simp add: contains_control_def)
qed

lemma has_suffix_append [simp]: "has_suffix (s @ x) x"
  by (simp add: has_suffix_def has_prefix_append)

lemma trim_suffix_append [simp]: "trim_suffix (s @ x) x = s"
  by (simp add: trim_suffix_def)

definition captured_test :: "string \<times> bool \<Rightarrow> string \<times> bool \<Rightarrow> string \<Rightarrow> int \<Rightarrow> trace_test" where
  "captured_test package name status elapsed = \<lparr>tt_package = fst package, tt_package_redacted = snd package,
     tt_name = fst name, tt_subtests_redacted = snd name, tt_status = status, tt_elapsed = elapsed\<rparr>"

text \<open>
  A captured test passes validation exactly if redacting its subtests did not push its name over the bound: the
  replacement may be longer than what it replaces.
\<close>

lemma captured_identity_valid:
  assumes "safe_package_identity env p = Inr package" and "safe_test_identity env v = Inr name"
    and "\<not> rt_secret env []"
  shows "valid_test_identity env (captured_test package name status elapsed) \<longleftrightarrow> length (fst name) \<le> 256"
proof -
  obtain root where root: "identifier_pattern root" "\<not> rt_secret env root"
    and name: "name = (root, False) \<or> name = (root @ redacted_suffix, True)"
    using assms(2) by (auto simp: safe_test_identity_def Let_def split: if_splits option.splits prod.splits)
  have package: "package = ([], False) \<or> package = (''redacted-package'', True) \<or> package = (p, False) \<and> length p \<le> 512 \<and>
      \<not> contains_control p \<and> package_pattern p \<and> \<not> rt_secret env p"
    using assms(1) by (auto simp: safe_package_identity_def split: if_splits)
  have constants: "\<not> contains_control ''redacted-package''" "\<not> contains_control []" "redacted_suffix \<noteq> []"
    "valid_utf8 redacted_suffix" "\<not> has_control redacted_suffix"
    by code_simp+
  have control: "\<not> contains_control (root @ redacted_suffix)"
  proof -
    have "\<forall>c \<in> set root. 48 \<le> code c \<and> code c < (127::nat)"
      using root(1) by (auto simp: identifier_pattern_def list_all_iff name_start_def digit_char_def split: list.splits)
    then have "valid_utf8 (root @ redacted_suffix) \<and> \<not> has_control (root @ redacted_suffix)"
      using constants(4,5) by (induction root) (auto simp: less_imp_le)
    then show ?thesis by (simp add: contains_control_def)
  qed
  have "root \<noteq> []"
    using root(1) by (auto simp: identifier_pattern_def)
  then show ?thesis
    using root name package identifier_no_control [OF root(1)] control constants assms(3)
    by (auto simp: valid_test_identity_def captured_test_def Let_def)
qed

section \<open>The output buffer\<close>

text \<open>After any writes the buffer holds the longest prefix that fits, and a loss is always marked.\<close>

lemma buffer_writes:
  "bb_data (fold buffer_write ds \<lparr>bb_data = [], bb_truncated = False\<rparr>) = take maximum_output (concat ds) \<and>
   (maximum_output < length (concat ds) \<longrightarrow> bb_truncated (fold buffer_write ds \<lparr>bb_data = [], bb_truncated = False\<rparr>)) \<and>
   (bb_truncated (fold buffer_write ds \<lparr>bb_data = [], bb_truncated = False\<rparr>) \<longrightarrow> maximum_output \<le> length (concat ds))"
proof (induction ds rule: rev_induct)
  case (snoc d ds)
  define b where "b = fold buffer_write ds \<lparr>bb_data = [], bb_truncated = False\<rparr>"
  have b: "bb_data b = take maximum_output (concat ds)" "maximum_output < length (concat ds) \<longrightarrow> bb_truncated b"
    "bb_truncated b \<longrightarrow> maximum_output \<le> length (concat ds)"
    using snoc unfolding b_def by blast+
  have "bb_data (buffer_write d b) = take maximum_output (concat ds @ d) \<and>
      (maximum_output < length (concat ds @ d) \<longrightarrow> bb_truncated (buffer_write d b)) \<and>
      (bb_truncated (buffer_write d b) \<longrightarrow> maximum_output \<le> length (concat ds @ d))"
    using b by (auto simp: buffer_write_def Let_def min_def)
  then show ?case
    by (simp add: b_def)
qed (simp add: maximum_output_def)

end
