(* ===== verification/RuntimeWitnesses.thy ===== *)
theory RuntimeWitnesses
  imports RuntimeAuthority RuntimeBinding ValidateWitnesses
begin

text \<open>
  A trace with one covered file imported into a bundle with two functions of that file, one of them executed. The
  digests are constant functions.
\<close>

definition hex64 :: "char \<Rightarrow> string" where
  "hex64 c = replicate 64 c"

definition rt_env :: runtime_env where
  "rt_env = \<lparr>rt_trace_digest = (\<lambda>_. hex64 CHR ''a''), rt_affinity_digest = (\<lambda>_. hex64 CHR ''b''), rt_secret = (\<lambda>_. False),
     rt_fold_case = id, rt_sha12 = id\<rparr>"

definition rt_range :: "int \<Rightarrow> int \<Rightarrow> executed_range" where
  "rt_range s e = \<lparr>xr_start_line = s, xr_end_line = e, xr_count = 1\<rparr>"

definition rt_trace :: trace where
  "rt_trace = \<lparr>tc_schema_version = ''1.3'', tc_id = hex64 CHR ''a'', tc_command = ''go'', tc_command_redacted = False,
     tc_command_sha256 = hex64 CHR ''c'', tc_working_directory = ''.'', tc_exit_code = 0, tc_duration_ms = 5,
     tc_environment_keys = [''HOME''],
     tc_repository = \<lparr>tr_repository_id = ''r'', tr_content_digest = hex64 CHR ''b'', tr_artifact_count = 1,
       tr_git_commit = [], tr_git_unavailable = True\<rparr>,
     tc_artifacts = [\<lparr>ta_path = ''a.go'', ta_source_sha256 = hex64 CHR ''d'', ta_source_size_bytes = 9, ta_statements = 3,
       ta_executed_statements = 2, ta_executed_ranges = [rt_range 7 9, rt_range 2 4, rt_range 3 5]\<rparr>],
     tc_tests = [], tc_sources = [], tc_integrity_bound = False, tc_integrity_authenticated = False, tc_integrity_id = []\<rparr>"

definition rt_function :: "string \<Rightarrow> int \<Rightarrow> int \<Rightarrow> go_value node" where
  "rt_function k s e = zero_node\<lparr>n_id := k, n_kind := ''function'', n_qualified_name := k,
     n_source := Some (zero_source\<lparr>sr_path := ''a.go'', sr_start_line := s, sr_end_line := e\<rparr>)\<rparr>"

definition rt_snapshot :: "go_value snapshot" where
  "rt_snapshot = \<lparr>sn_schema_version = ''0.2.0'', sn_id = ''s'', sn_repository_id = ''r'', sn_parent_snapshot_id = [],
     sn_created_at = 7, sn_status = ''building'', sn_root_name = ''r'', sn_root_path = [], sn_content_digest = [],
     sn_config_digest = [], sn_policy_digest = [], sn_plugin_lock_digest = [], sn_toolchain_digest = [],
     sn_git = \<lparr>gi_commit = [], gi_branch = [], gi_origin = [], gi_dirty = False, gi_working_tree_digest = [], gi_unavailable = True\<rparr>,
     sn_tool = \<lparr>ti_name = ''rkc'', ti_version = ''1'', ti_build = [], ti_runtime = [], ti_attributes = []\<rparr>,
     sn_policy = [], sn_metadata = []\<rparr>"

definition rt_bundle :: "go_value model_bundle" where
  "rt_bundle = \<lparr>bu_snapshot = rt_snapshot,
     bu_artifacts = [zero_artifact\<lparr>a_id := ''f'', a_path := ''a.go'', a_sha256 := hex64 CHR ''d'', a_size_bytes := 9\<rparr>],
     bu_nodes = [rt_function ''x'' 1 3, rt_function ''y'' 6 6], bu_edges = [], bu_evidence = [], bu_diagnostics = [],
     bu_conflicts = [], bu_documents = [], bu_claims = [], bu_paths = []\<rparr>"

definition rt_import :: "(runtime_error + import_stats) \<times> go_value model_bundle" where
  "rt_import = import_trace rt_env empty_registry (Some (\<lambda>_. None)) rt_bundle rt_trace"

lemma rt_trace_parts:
  "well_formed_envelope rt_env rt_trace" "identifier_pattern ''HOME''"
  "valid_relative_path ''a.go''" "valid_digest (hex64 CHR ''d'')"
  by code_simp+

lemma rt_trace_valid: "validate_trace rt_env rt_trace = Inr ()"
  unfolding validate_trace_Inr well_formed_trace_def
  using rt_trace_parts by (simp add: well_formed_artifact_def rt_trace_def rt_range_def valid_range_def)

lemma rt_import_admitted: "import_admitted rt_env (\<lambda>_. None) rt_bundle rt_trace"
proof -
  have "same_affinity (tc_repository rt_trace) (current_repository rt_env rt_bundle)"
    "\<not> already_imported rt_trace rt_bundle"
    "\<not> isl (bind_claims (\<lambda>_. None) 1 (index_by a_path (bu_artifacts rt_bundle)) (tc_artifacts rt_trace) \<lparr>bc_executed = [], bc_bound = []\<rparr>)"
    by code_simp+
  then show ?thesis
    by (auto simp: import_admitted_def rt_trace_valid isl_def) (metis sum.exhaust)
qed

lemma rt_import_succeeds: "\<not> isl (fst rt_import)"
  unfolding rt_import_def by (rule import_admitted_succeeds [OF rt_import_admitted])

lemma rt_import_eq:
  "import_trace rt_env empty_registry (Some (\<lambda>_. None)) rt_bundle rt_trace = (Inr (projr (fst rt_import)), snd rt_import)"
  using rt_import_succeeds by (cases "fst rt_import") (simp_all add: rt_import_def prod_eq_iff)

section \<open>Witnesses\<close>

theorem executed_span_exact_witness:
  "span_executed (merged_line_intervals [rt_range 7 9, rt_range 2 4, rt_range 3 5]) 5 6 \<and>
   \<not> span_executed (merged_line_intervals [rt_range 7 9, rt_range 2 4, rt_range 3 5]) 6 6"
  using executed_span_exact [of "[rt_range 7 9, rt_range 2 4, rt_range 3 5]"] by (simp add: rt_range_def)

theorem failed_import_changes_nothing_witness:
  "snd (import_trace rt_env empty_registry None rt_bundle rt_trace) = rt_bundle"
proof -
  have "import_trace rt_env empty_registry None rt_bundle rt_trace =
      (Inl (TraceError ''trace import context is required'' []), snd (import_trace rt_env empty_registry None rt_bundle rt_trace))"
    by (simp add: import_trace_def)
  then show ?thesis by (rule failed_import_changes_nothing)
qed

theorem imported_once_witness:
  "fst (import_trace rt_env empty_registry (Some (\<lambda>_. None)) (snd rt_import) rt_trace) =
     Inl (TraceError ''trace is already imported'' (hex64 CHR ''a''))"
  using imported_once [OF rt_import_eq, of "\<lambda>_. None" empty_registry] by (simp add: rt_trace_def)

theorem import_only_asserts_witness:
  "n_kind (last (bu_nodes (snd rt_import))) = ''trace'' \<and>
   list_all (assertion_only rt_trace) (new_evidence rt_bundle (snd rt_import))"
  using import_only_asserts [OF rt_import_eq] unfolding list_all_iff by blast

theorem import_verdicts_exact_witness:
  "hex64 CHR ''a'' \<in> set (texts_of (map_of (n_attributes (bu_nodes (snd rt_import) ! 0)) ''execution_asserted_trace_ids''))"
proof -
  have "tc_id rt_trace = hex64 CHR ''a''"
    by (simp add: rt_trace_def)
  then show ?thesis
    using import_verdicts_exact [OF rt_import_eq, of 0, THEN conjunct1]
    by (simp add: rt_bundle_def rt_function_def rt_trace_def claims_for_def span_claimed_def rt_range_def zero_source_def
        zero_node_def is_function_like_def)
qed

theorem import_keeps_authority_witness:
  "rd_producer_authenticated_tests (build_diff rt_env (snd rt_import)) = 0 \<and>
   set (rd_unverified_assertion_ids (build_diff rt_env (snd rt_import))) = {hex64 CHR ''a''}"
proof -
  have before: "rd_producer_authenticated_tests (build_diff rt_env rt_bundle) = 0"
    "rd_unverified_assertion_ids (build_diff rt_env rt_bundle) = []"
    by code_simp+
  show ?thesis
    using import_keeps_authority [OF rt_import_eq] by (simp add: Let_def before rt_trace_def)
qed

text \<open>One call observed by an authenticated producer, one not.\<close>

definition rt_call :: "string \<Rightarrow> go_value attributes \<Rightarrow> go_value edge" where
  "rt_call k attributes = zero_edge\<lparr>e_id := k, e_kind := ''calls'', e_from := ''x'', e_to := ''y'', e_resolution := ''exact'',
     e_attributes := attributes\<rparr>"

definition rt_observed :: "go_value model_bundle" where
  "rt_observed = rt_bundle\<lparr>
     bu_nodes := zero_node\<lparr>n_id := ''t'', n_kind := ''trace'', n_attributes := [(''trace_id'', GoString ''T''),
       (''producer_authenticated'', GoBool True), (''call_observation_available'', GoBool True)]\<rparr> # bu_nodes rt_bundle,
     bu_edges := [rt_call ''1'' [(''observed'', GoBool True), (''observed_trace_ids'', GoStrings [''T''])], rt_call ''2'' []]\<rparr>"

theorem diff_accounting_witness:
  "rd_producer_observed_call_edges (build_diff rt_env rt_observed) +
     rd_undemonstrated_call_edges (build_diff rt_env rt_observed) = 2 \<and>
   rd_producer_call_observation_ratio (build_diff rt_env rt_observed) \<noteq> 1"
proof -
  have edges: "length (bu_edges rt_observed) \<le> 2 ^ 53"
    by (simp add: rt_observed_def)
  have counts: "rd_resolved_call_edges (build_diff rt_env rt_observed) = 2"
    "rd_undemonstrated_call_edges (build_diff rt_env rt_observed) = 1"
    by code_simp+
  show ?thesis
    using diff_accounting [OF edges, of rt_env] by (auto simp: Let_def counts)
qed

theorem capture_registry_witness:
  "capture_integrity (mark_integrity (rt_trace\<lparr>tc_id := ''other''\<rparr>) (mark_integrity rt_trace empty_registry)) rt_trace"
  using capture_registry(2) [of empty_registry "[]" rt_trace "[rt_trace\<lparr>tc_id := ''other''\<rparr>]"]
  by (simp add: empty_registry_def rt_trace_def hex64_def maximum_integrities_def)

section \<open>Coverage profiles\<close>

definition rt_record :: "string \<Rightarrow> nat \<Rightarrow> nat \<Rightarrow> coverage_record" where
  "rt_record path l executed = \<lparr>cr_path = path, cr_start = (l, 2), cr_end = (l + 1, 3), cr_statements = 2, cr_executed = executed\<rparr>"

definition rt_records :: "coverage_record list" where
  "rt_records = [rt_record ''m/a.go'' 5 1, rt_record ''m/b.go'' 7 0, rt_record ''m/a.go'' 9 0]"

lemma rt_records_printable: "\<forall>r \<in> set rt_records. printable_record r"
proof -
  have lengths: "map (\<lambda>r. length (record_line r)) rt_records = [18, 18, 19]"
    by code_simp
  have "length (record_line r) \<le> 19" if "r \<in> set rt_records" for r
  proof -
    have "length (record_line r) \<in> set [18, 18, 19]"
      unfolding lengths [symmetric] using that by simp
    then show ?thesis by auto
  qed
  then have "\<forall>r \<in> set rt_records. length (record_line r) < coverage_line_limit"
    by (force simp: coverage_line_limit_def)
  then show ?thesis
    by (simp add: rt_records_def rt_record_def printable_record_def plain_def)
qed


definition rt_bound :: "runtime_error + trace_artifact list" where
  "rt_bound = bind_trace_artifacts [\<lparr>mb_module = ''m'', mb_directory = []\<rparr>] (map record_claims rt_records)
     [zero_artifact\<lparr>a_path := ''b.go'', a_sha256 := ''2''\<rparr>, zero_artifact\<lparr>a_path := ''a.go'', a_sha256 := ''1''\<rparr>]"

theorem bound_coverage_witness:
  "map ta_path (projr rt_bound) = [''a.go'', ''b.go''] \<and> all_ranges (projr rt_bound) = all_ranges (map record_claims rt_records)"
proof
  show "map ta_path (projr rt_bound) = [''a.go'', ''b.go'']"
    by code_simp
  have "\<not> isl rt_bound"
    by code_simp
  then have "bind_trace_artifacts [\<lparr>mb_module = ''m'', mb_directory = []\<rparr>] (map record_claims rt_records)
     [zero_artifact\<lparr>a_path := ''b.go'', a_sha256 := ''2''\<rparr>, zero_artifact\<lparr>a_path := ''a.go'', a_sha256 := ''1''\<rparr>] = Inr (projr rt_bound)"
    by (cases rt_bound) (simp_all add: rt_bound_def)
  from bound_coverage [OF this] show "all_ranges (projr rt_bound) = all_ranges (map record_claims rt_records)"
    by blast
qed

end
