(* ===== verification/Components.thy ===== *)
theory Components
  imports Graph
begin

text \<open>
  \<open>StronglyConnectedComponents\<close> of \<open>internal/graph/index.go\<close>: Tarjan's search with its four maps, the stack kept
  with its top first. The recursion of the closure \<open>visit\<close> is bounded by the number of identifiers without an index;
  the model passes a bound as fuel, and running out of it is \<^const>\<open>None\<close>, which \<open>ComponentsTheorems\<close> rules out.
\<close>

section \<open>The search\<close>

record 'k scc_state =
  sc_sequence :: nat
  sc_index :: "'k \<Rightarrow> nat option"
  sc_low :: "'k \<Rightarrow> nat"
  sc_stack :: "'k list"
  sc_on :: "'k \<Rightarrow> bool"
  sc_components :: "'k list list"

definition empty_scc_state :: "'k scc_state" where
  "empty_scc_state = \<lparr>sc_sequence = 0, sc_index = (\<lambda>_. None), sc_low = (\<lambda>_. 0), sc_stack = [], sc_on = (\<lambda>_. False), sc_components = []\<rparr>"

definition num :: "'k scc_state \<Rightarrow> 'k \<Rightarrow> nat" where
  "num st x = (case sc_index st x of None \<Rightarrow> 0 | Some n \<Rightarrow> n)"

definition scc_enter :: "'k \<Rightarrow> 'k scc_state \<Rightarrow> 'k scc_state" where
  "scc_enter x st = st\<lparr>sc_sequence := Suc (sc_sequence st), sc_index := (sc_index st)(x := Some (sc_sequence st)),
     sc_low := (sc_low st)(x := sc_sequence st), sc_stack := x # sc_stack st, sc_on := (sc_on st)(x := True)\<rparr>"

definition lower :: "'k \<Rightarrow> nat \<Rightarrow> 'k scc_state \<Rightarrow> 'k scc_state" where
  "lower x n st = (if n < sc_low st x then st\<lparr>sc_low := (sc_low st)(x := n)\<rparr> else st)"

text \<open>The loop that pops the stack down to \<open>x\<close>: what it removes, top first, and what it leaves.\<close>

fun pop_to :: "'k \<Rightarrow> 'k list \<Rightarrow> 'k list \<times> 'k list" where
  "pop_to x [] = ([], [])"
| "pop_to x (y # ys) = (if y = x then ([y], ys) else let (popped, rest) = pop_to x ys in (y # popped, rest))"

definition emit_component :: "'k \<Rightarrow> 'k scc_state \<Rightarrow> 'k scc_state" where
  "emit_component x st =
     (let (popped, rest) = pop_to x (sc_stack st)
      in st\<lparr>sc_stack := rest, sc_on := (\<lambda>y. y \<notin> set popped \<and> sc_on st y), sc_components := sc_components st @ [popped]\<rparr>)"

definition finish_visit :: "'k \<Rightarrow> 'k scc_state \<Rightarrow> 'k scc_state" where
  "finish_visit x st = (if sc_low st x = num st x then emit_component x st else st)"

fun scc_visit :: "nat \<Rightarrow> ('k \<Rightarrow> 'k list) \<Rightarrow> 'k \<Rightarrow> 'k scc_state \<Rightarrow> 'k scc_state option"
  and scc_edges :: "nat \<Rightarrow> ('k \<Rightarrow> 'k list) \<Rightarrow> 'k \<Rightarrow> 'k list \<Rightarrow> 'k scc_state \<Rightarrow> 'k scc_state option"
where
  "scc_visit 0 succ x st = None"
| "scc_visit (Suc n) succ x st = map_option (finish_visit x) (scc_edges n succ x (succ x) (scc_enter x st))"
| "scc_edges n succ x [] st = Some st"
| "scc_edges n succ x (y # ys) st =
     (if sc_index st y = None then
        (case scc_visit n succ y st of
           None \<Rightarrow> None
         | Some st' \<Rightarrow> scc_edges n succ x ys (lower x (sc_low st' y) st'))
      else scc_edges n succ x ys (if sc_on st y then lower x (num st y) st else st))"

fun scc_roots :: "nat \<Rightarrow> ('k \<Rightarrow> 'k list) \<Rightarrow> 'k list \<Rightarrow> 'k scc_state \<Rightarrow> 'k scc_state option" where
  "scc_roots n succ [] st = Some st"
| "scc_roots n succ (x # xs) st =
     (if sc_index st x = None
      then (case scc_visit n succ x st of None \<Rightarrow> None | Some st' \<Rightarrow> scc_roots n succ xs st')
      else scc_roots n succ xs st)"

section \<open>The components of an index\<close>

record component =
  co_id :: nat
  co_node_ids :: "string list"
  co_cyclic :: bool

definition kind_admitted :: "string list \<Rightarrow> 'v edge \<Rightarrow> bool" where
  "kind_admitted kinds e \<longleftrightarrow> kinds = [] \<or> e_kind e \<in> set kinds"

definition kind_targets :: "'v graph_index \<Rightarrow> string list \<Rightarrow> string \<Rightarrow> string list" where
  "kind_targets ix kinds k = map e_to (filter (kind_admitted kinds) (adjacent (ix_outgoing ix) k))"

definition has_self_loop :: "'v graph_index \<Rightarrow> string list \<Rightarrow> string \<Rightarrow> bool" where
  "has_self_loop ix kinds k = list_ex (\<lambda>e. e_to e = k \<and> kind_admitted kinds e) (adjacent (ix_outgoing ix) k)"

definition scc_fuel :: "'v graph_index \<Rightarrow> nat" where
  "scc_fuel ix = length (ix_nodes ix) + length (concat (map snd (ix_outgoing ix)))"

definition component_of :: "'v graph_index \<Rightarrow> string list \<Rightarrow> string list \<Rightarrow> component" where
  "component_of ix kinds popped =
     (let ids = sort popped
      in \<lparr>co_id = 0, co_node_ids = ids, co_cyclic = (1 < length ids \<or> has_self_loop ix kinds (hd ids))\<rparr>)"

definition number_components :: "component list \<Rightarrow> component list" where
  "number_components cs = map2 (\<lambda>i c. c\<lparr>co_id := i\<rparr>) [0..<length cs] cs"

definition strongly_connected_components :: "'v graph_index \<Rightarrow> string list \<Rightarrow> component list option" where
  "strongly_connected_components ix kinds =
     map_option (\<lambda>st. number_components (sort_key (\<lambda>c. hd (co_node_ids c)) (map (component_of ix kinds) (sc_components st))))
       (scc_roots (scc_fuel ix) (kind_targets ix kinds) (sort (keys (ix_nodes ix))) empty_scc_state)"

end
