(* ===== verification/ComponentsSearch.thy ===== *)
theory ComponentsSearch
  imports Components
begin

text \<open>
  Correctness of the search for strongly connected components. The invariant names the active identifiers (those whose
  call of \<open>visit\<close> has not returned): they reach everything above them on the stack, and everything on the stack reaches
  one of them; whatever has left the stack is closed under edges and split into components.
\<close>

section \<open>Strongly connected components\<close>

definition edge_rel :: "('k \<Rightarrow> 'k list) \<Rightarrow> ('k \<times> 'k) set" where
  "edge_rel succ = {(x, y). y \<in> set (succ x)}"

definition is_component :: "('k \<Rightarrow> 'k list) \<Rightarrow> 'k set \<Rightarrow> bool" where
  "is_component succ C \<longleftrightarrow> C \<noteq> {} \<and>
     (\<forall>x \<in> C. \<forall>y. y \<in> C \<longleftrightarrow> (x, y) \<in> (edge_rel succ)\<^sup>* \<and> (y, x) \<in> (edge_rel succ)\<^sup>*)"

text \<open>A set whose elements reach one another and whose edges leave it only into a closed set that it is disjoint from.\<close>

lemma closed_path: "\<lbrakk>(x, y) \<in> (edge_rel succ)\<^sup>*; x \<in> D; \<And>z. z \<in> D \<Longrightarrow> set (succ z) \<subseteq> D\<rbrakk> \<Longrightarrow> y \<in> D"
  by (induction rule: rtrancl_induct) (auto simp: edge_rel_def)

lemma componentI:
  assumes "x \<in> C" and from_x: "\<And>y. y \<in> C \<Longrightarrow> (x, y) \<in> (edge_rel succ)\<^sup>*" and to_x: "\<And>y. y \<in> C \<Longrightarrow> (y, x) \<in> (edge_rel succ)\<^sup>*"
    and leaves: "\<And>y. y \<in> C \<Longrightarrow> set (succ y) \<subseteq> C \<union> D" and closed: "\<And>y. y \<in> D \<Longrightarrow> set (succ y) \<subseteq> D"
    and disjoint: "C \<inter> D = {}"
  shows "is_component succ C"
  unfolding is_component_def
proof (intro conjI ballI allI)
  fix a b
  assume a: "a \<in> C"
  show "b \<in> C \<longleftrightarrow> (a, b) \<in> (edge_rel succ)\<^sup>* \<and> (b, a) \<in> (edge_rel succ)\<^sup>*"
  proof
    assume "b \<in> C"
    then show "(a, b) \<in> (edge_rel succ)\<^sup>* \<and> (b, a) \<in> (edge_rel succ)\<^sup>*"
      using a from_x to_x by (meson rtrancl_trans)
  next
    assume ab: "(a, b) \<in> (edge_rel succ)\<^sup>* \<and> (b, a) \<in> (edge_rel succ)\<^sup>*"
    have "b \<in> C \<union> D"
      using ab a leaves closed by (intro closed_path [of a b succ "C \<union> D"]) auto
    moreover have "b \<notin> D"
      using ab a closed disjoint closed_path [of b a succ D] by blast
    ultimately show "b \<in> C" by simp
  qed
qed (use assms(1) in blast)

section \<open>The state\<close>

lemma scc_state_simps [simp]:
  "num (lower x n st) y = num st y" "sc_index (lower x n st) = sc_index st" "sc_stack (lower x n st) = sc_stack st"
  "sc_on (lower x n st) = sc_on st" "sc_components (lower x n st) = sc_components st"
  "sc_sequence (lower x n st) = sc_sequence st"
  "sc_low (lower x n st) z = (if z = x then min n (sc_low st x) else sc_low st z)"
  by (auto simp: lower_def num_def)

definition finished :: "'k scc_state \<Rightarrow> 'k set" where
  "finished st = \<Union> (set ` set (sc_components st))"

definition scc_inv :: "('k \<Rightarrow> 'k list) \<Rightarrow> 'k set \<Rightarrow> 'k scc_state \<Rightarrow> bool" where
  "scc_inv succ G st \<longleftrightarrow>
     (\<forall>y. sc_on st y \<longleftrightarrow> y \<in> set (sc_stack st)) \<and>
     dom (sc_index st) = set (sc_stack st) \<union> finished st \<and> set (sc_stack st) \<inter> finished st = {} \<and>
     (\<forall>y \<in> dom (sc_index st). num st y < sc_sequence st) \<and>
     sorted_wrt (\<lambda>a b. num st b < num st a) (sc_stack st) \<and>
     G \<subseteq> set (sc_stack st) \<and>
     (\<forall>y \<in> finished st. set (succ y) \<subseteq> finished st) \<and>
     (\<forall>c \<in> set (sc_components st). is_component succ (set c)) \<and> distinct (concat (sc_components st)) \<and>
     (\<forall>y \<in> dom (sc_index st) - G. set (succ y) \<subseteq> dom (sc_index st)) \<and>
     (\<forall>g \<in> G. \<forall>y \<in> set (sc_stack st). num st g \<le> num st y \<longrightarrow> (g, y) \<in> (edge_rel succ)\<^sup>*) \<and>
     (\<forall>y \<in> set (sc_stack st). \<exists>g \<in> G. num st g \<le> num st y \<and> (y, g) \<in> (edge_rel succ)\<^sup>*)"

lemma scc_invD:
  assumes "scc_inv succ G st"
  shows "sc_on st y \<longleftrightarrow> y \<in> set (sc_stack st)"
    and "dom (sc_index st) = set (sc_stack st) \<union> finished st" and "set (sc_stack st) \<inter> finished st = {}"
    and "y \<in> dom (sc_index st) \<Longrightarrow> num st y < sc_sequence st"
    and "sorted_wrt (\<lambda>a b. num st b < num st a) (sc_stack st)" and "G \<subseteq> set (sc_stack st)"
    and "y \<in> finished st \<Longrightarrow> set (succ y) \<subseteq> finished st"
    and "c \<in> set (sc_components st) \<Longrightarrow> is_component succ (set c)" and "distinct (concat (sc_components st))"
    and "\<lbrakk>y \<in> dom (sc_index st); y \<notin> G\<rbrakk> \<Longrightarrow> set (succ y) \<subseteq> dom (sc_index st)"
    and "\<lbrakk>g \<in> G; y \<in> set (sc_stack st); num st g \<le> num st y\<rbrakk> \<Longrightarrow> (g, y) \<in> (edge_rel succ)\<^sup>*"
    and "y \<in> set (sc_stack st) \<Longrightarrow> \<exists>g \<in> G. num st g \<le> num st y \<and> (y, g) \<in> (edge_rel succ)\<^sup>*"
  using assms unfolding scc_inv_def by (blast+)

lemma scc_inv_lower [simp]: "scc_inv succ G (lower x n st) = scc_inv succ G st"
  by (simp add: scc_inv_def finished_def)

lemma scc_inv_empty: "scc_inv succ {} empty_scc_state"
  by (simp add: scc_inv_def empty_scc_state_def finished_def)

text \<open>Entering an identifier that every active one reaches makes it active.\<close>

lemma scc_inv_enter:
  assumes inv: "scc_inv succ G st" and new: "sc_index st x = None" and reach: "\<And>g. g \<in> G \<Longrightarrow> (g, x) \<in> (edge_rel succ)\<^sup>*"
  shows "scc_inv succ (insert x G) (scc_enter x st)"
proof -
  note D = scc_invD [OF inv]
  have fresh: "x \<notin> set (sc_stack st)" "x \<notin> finished st"
    using D(2) new by auto
  have old: "num (scc_enter x st) y = num st y" if "y \<noteq> x" for y
    using that by (simp add: num_def scc_enter_def)
  have top: "num (scc_enter x st) x = sc_sequence st"
    by (simp add: num_def scc_enter_def)
  have stack: "sc_stack (scc_enter x st) = x # sc_stack st" "dom (sc_index (scc_enter x st)) = insert x (dom (sc_index st))"
    "finished (scc_enter x st) = finished st" "sc_components (scc_enter x st) = sc_components st"
    "sc_sequence (scc_enter x st) = Suc (sc_sequence st)" "sc_on (scc_enter x st) = (sc_on st)(x := True)"
    by (simp_all add: scc_enter_def finished_def)
  have below: "num st y < sc_sequence st" if "y \<in> set (sc_stack st)" for y
    using D(2,4) that by blast
  have sorted: "sorted_wrt (\<lambda>a b. num (scc_enter x st) b < num (scc_enter x st) a) (sc_stack st)"
    by (rule sorted_wrt_mono_rel [OF _ D(5)]) (metis fresh(1) old)
  show ?thesis
    unfolding scc_inv_def stack
  proof (intro conjI ballI allI impI)
    fix g y
    assume g: "g \<in> insert x G" and y: "y \<in> set (x # sc_stack st)" and le: "num (scc_enter x st) g \<le> num (scc_enter x st) y"
    show "(g, y) \<in> (edge_rel succ)\<^sup>*"
    proof (cases "y = x")
      case True
      then show ?thesis using g reach by auto
    next
      case False
      then have "y \<in> set (sc_stack st)" using y by simp
      moreover have "g \<noteq> x"
        using le top old [OF False] below [OF \<open>y \<in> set (sc_stack st)\<close>] by auto
      ultimately show ?thesis
        using D(11) g le old False by auto
    qed
  next
    fix y
    assume "y \<in> set (x # sc_stack st)"
    then show "\<exists>g \<in> insert x G. num (scc_enter x st) g \<le> num (scc_enter x st) y \<and> (y, g) \<in> (edge_rel succ)\<^sup>*"
    proof (cases "y = x")
      case False
      then obtain g where "g \<in> G" "num st g \<le> num st y" "(y, g) \<in> (edge_rel succ)\<^sup>*"
        using D(12) [of y] \<open>y \<in> set (x # sc_stack st)\<close> by auto
      moreover from this have "g \<noteq> x"
        using D(6) fresh(1) by auto
      ultimately show ?thesis
        using old False by auto
    qed auto
  next
    fix y
    assume "y \<in> insert x (dom (sc_index st)) - insert x G"
    then show "set (succ y) \<subseteq> insert x (dom (sc_index st))"
      using D(10) [of y] by blast
  next
    fix y
    assume "y \<in> insert x (dom (sc_index st))"
    then show "num (scc_enter x st) y < Suc (sc_sequence st)"
      using D(4) [of y] old [of y] top by (cases "y = x") auto
  next
    fix y
    assume "y \<in> finished st"
    then show "set (succ y) \<subseteq> finished st"
      by (rule D(7))
  next
    show "sorted_wrt (\<lambda>a b. num (scc_enter x st) b < num (scc_enter x st) a) (x # sc_stack st)"
      using sorted top below old fresh(1) by (auto, metis)
  qed (use D(1,2,3,6,8,9) fresh in auto)
qed


section \<open>Leaving an identifier\<close>

text \<open>
  The state when all edges of \<open>x\<close> have been handled: \<open>s\<close> is what lies above \<open>x\<close> on the stack and \<open>b\<close> what lies below.
  The low link is the number of a stack element that \<open>x\<close> reaches, and no edge from \<open>x\<close> or above leads below it.
\<close>

definition low_ok :: "('k \<Rightarrow> 'k list) \<Rightarrow> 'k \<Rightarrow> 'k set \<Rightarrow> 'k list \<Rightarrow> 'k list \<Rightarrow> 'k scc_state \<Rightarrow> bool" where
  "low_ok succ x handled s b st \<longleftrightarrow> sc_stack st = s @ x # b \<and> sc_low st x \<le> num st x \<and>
     (\<exists>y \<in> set (x # b). num st y = sc_low st x \<and> (x, y) \<in> (edge_rel succ)\<^sup>*) \<and>
     (\<forall>z \<in> set s. \<forall>w \<in> set (succ z) \<inter> set b. sc_low st x \<le> num st w) \<and>
     (\<forall>w \<in> handled \<inter> set b. sc_low st x \<le> num st w)"

lemma pop_to_append: "x \<notin> set s \<Longrightarrow> pop_to x (s @ x # b) = (s @ [x], b)"
  by (induction s) (auto simp: Let_def)

lemma distinct_by_num: "sorted_wrt (\<lambda>a b. num st b < num st a) xs \<Longrightarrow> distinct xs"
  by (induction xs) auto

lemma stack_order:
  assumes "scc_inv succ G st" and "sc_stack st = s @ x # b"
  shows "x \<notin> set s" "x \<notin> set b" "set s \<inter> set b = {}" "y \<in> set s \<Longrightarrow> num st x < num st y" "y \<in> set b \<Longrightarrow> num st y < num st x"
    "\<lbrakk>y \<in> set s; z \<in> set b\<rbrakk> \<Longrightarrow> num st z < num st y"
  using scc_invD(5) [OF assms(1)] unfolding assms(2) sorted_wrt_append by auto

lemma finish_root:
  assumes inv: "scc_inv succ (insert x G) st" and low: "low_ok succ x (set (succ x)) s b st"
    and G: "G \<subseteq> set b" and handled: "set (succ x) \<subseteq> dom (sc_index st)" and root: "sc_low st x = num st x"
  shows "scc_inv succ G (finish_visit x st)" and "sc_stack (finish_visit x st) = b"
    and "sc_components (finish_visit x st) = sc_components st @ [s @ [x]]"
proof -
  note D = scc_invD [OF inv]
  have stack: "sc_stack st = s @ x # b"
    using low by (simp add: low_ok_def)
  note order = stack_order [OF inv stack]
  have emitted: "finish_visit x st = st\<lparr>sc_stack := b, sc_on := (\<lambda>y. y \<notin> set (s @ [x]) \<and> sc_on st y),
      sc_components := sc_components st @ [s @ [x]]\<rparr>"
    using root order(1) by (simp add: finish_visit_def emit_component_def stack pop_to_append)
  then show "sc_stack (finish_visit x st) = b" "sc_components (finish_visit x st) = sc_components st @ [s @ [x]]"
    by simp_all
  have leaves: "set (succ z) \<subseteq> set (s @ [x]) \<union> finished st" if z: "z \<in> set (s @ [x])" for z
  proof
    fix w
    assume w: "w \<in> set (succ z)"
    have "set (succ z) \<subseteq> dom (sc_index st)"
    proof (cases "z = x")
      case False
      then have "z \<notin> insert x G"
        using z G order(3) by auto
      then show ?thesis
        using D(2,10) z by (simp add: stack)
    qed (simp add: handled)
    then have "w \<in> set s \<union> {x} \<union> set b \<union> finished st"
      using w D(2) by (auto simp: stack)
    moreover have "w \<notin> set b"
    proof
      assume b: "w \<in> set b"
      have "sc_low st x \<le> num st w"
        using low z w b by (cases "z = x") (auto simp: low_ok_def)
      then show False
        using order(5) [OF b] root by simp
    qed
    ultimately show "w \<in> set (s @ [x]) \<union> finished st" by auto
  qed
  have reach: "(x, y) \<in> (edge_rel succ)\<^sup>*" if "y \<in> set (s @ [x])" for y
    using D(11) [of x y] that order(4) by (auto simp: stack less_imp_le)
  have return: "(y, x) \<in> (edge_rel succ)\<^sup>*" if y: "y \<in> set (s @ [x])" for y
  proof -
    obtain g where g: "g \<in> insert x G" "(y, g) \<in> (edge_rel succ)\<^sup>*"
      using D(12) [of y] y by (auto simp: stack)
    have "g \<in> set (s @ [x]) \<union> finished st"
      using g(2) y leaves D(7) by (intro closed_path [of y g succ]) auto
    moreover have "set b \<inter> finished st = {}"
      using D(3) by (auto simp: stack)
    ultimately have "g = x"
      using g(1) G order(3) by auto
    then show ?thesis using g(2) by simp
  qed
  have apart: "set (s @ [x]) \<inter> finished st = {}"
    using D(3) by (auto simp: stack)
  have component: "is_component succ (set (s @ [x]))"
    by (rule componentI [of x _ succ "finished st"]) (use reach return leaves D(7) apart in auto)
  have finished: "finished (finish_visit x st) = finished st \<union> set (s @ [x])"
    by (auto simp: emitted finished_def)
  have same: "num (finish_visit x st) = num st" "sc_index (finish_visit x st) = sc_index st" "sc_sequence (finish_visit x st) = sc_sequence st"
    by (auto simp: emitted num_def)
  have bG: "\<exists>g \<in> G. num st g \<le> num st y \<and> (y, g) \<in> (edge_rel succ)\<^sup>*" if "y \<in> set b" for y
    using D(12) [of y] that order(5) [OF that] by (auto simp: stack)
  have distinct: "distinct (concat (sc_components st @ [s @ [x]]))"
    using D(9) apart order(1) distinct_by_num [of st s] D(5)
    by (auto simp: finished_def stack sorted_wrt_append)
  show "scc_inv succ G (finish_visit x st)"
    unfolding scc_inv_def same finished
  proof (intro conjI ballI allI)
    show "dom (sc_index st) = set (sc_stack (finish_visit x st)) \<union> (finished st \<union> set (s @ [x]))"
      using D(2) by (auto simp: emitted stack)
    show "set (sc_stack (finish_visit x st)) \<inter> (finished st \<union> set (s @ [x])) = {}"
      using D(3) order(2,3) by (auto simp: emitted stack)
    show "sorted_wrt (\<lambda>a b. num st b < num st a) (sc_stack (finish_visit x st))"
      using D(5) by (simp add: emitted stack sorted_wrt_append)
    fix y assume "y \<in> finished st \<union> set (s @ [x])"
    then show "set (succ y) \<subseteq> finished st \<union> set (s @ [x])"
      using D(7) leaves by blast
  next
    fix y assume "y \<in> dom (sc_index st) - G"
    then show "set (succ y) \<subseteq> dom (sc_index st)"
      using D(10) [of y] handled by (cases "y = x") auto
  next
    fix y assume "y \<in> set (sc_stack (finish_visit x st))"
    then show "\<exists>g \<in> G. num st g \<le> num st y \<and> (y, g) \<in> (edge_rel succ)\<^sup>*"
      using bG by (simp add: emitted)
  next
    fix c assume "c \<in> set (sc_components (finish_visit x st))"
    then show "is_component succ (set c)"
      using D(8) component by (auto simp: emitted)
  qed (use D(1,4,11) G distinct order(2,3) in \<open>auto simp: emitted stack\<close>)
qed

end
