(* ===== verification/ComponentsTheorems.thy ===== *)
theory ComponentsTheorems
  imports ComponentsSearch
begin

text \<open>
  The search returns with enough fuel, and what it returns: by induction on the fuel, a call of \<open>visit\<close> keeps the
  invariant, extends the stack and leaves a low link that is right about the stack below.
\<close>

section \<open>Leaving an identifier that is no root\<close>

lemma finish_inner:
  assumes inv: "scc_inv succ (insert x G) st" and low: "low_ok succ x (set (succ x)) s b st"
    and G: "G \<subseteq> set b" and handled: "set (succ x) \<subseteq> dom (sc_index st)" and inner: "sc_low st x \<noteq> num st x"
  shows "finish_visit x st = st" and "scc_inv succ G st"
    and "\<exists>y \<in> set b. num st y = sc_low st x \<and> (x, y) \<in> (edge_rel succ)\<^sup>*"
proof -
  note D = scc_invD [OF inv]
  have stack: "sc_stack st = s @ x # b"
    using low by (simp add: low_ok_def)
  note order = stack_order [OF inv stack]
  show "finish_visit x st = st"
    using inner by (simp add: finish_visit_def)
  obtain y0 where "y0 \<in> set (x # b)" "num st y0 = sc_low st x" "(x, y0) \<in> (edge_rel succ)\<^sup>*"
    using low by (auto simp: low_ok_def)
  then have y0: "y0 \<in> set b" "num st y0 = sc_low st x" "(x, y0) \<in> (edge_rel succ)\<^sup>*"
    using inner by auto
  then show "\<exists>y \<in> set b. num st y = sc_low st x \<and> (x, y) \<in> (edge_rel succ)\<^sup>*" by blast
  obtain g0 where g0: "g0 \<in> insert x G" "num st g0 \<le> num st y0" "(y0, g0) \<in> (edge_rel succ)\<^sup>*"
    using D(12) [of y0] y0(1) by (auto simp: stack)
  have "g0 \<noteq> x"
    using g0(2) order(5) [OF y0(1)] by auto
  have "\<exists>g \<in> G. num st g \<le> num st y \<and> (y, g) \<in> (edge_rel succ)\<^sup>*" if y: "y \<in> set (sc_stack st)" for y
  proof -
    obtain g where g: "g \<in> insert x G" "num st g \<le> num st y" "(y, g) \<in> (edge_rel succ)\<^sup>*"
      using D(12) [OF y] by blast
    show ?thesis
    proof (cases "g = x")
      case True
      have "(y, g0) \<in> (edge_rel succ)\<^sup>*"
        using g(3) True y0(3) g0(3) by (meson rtrancl_trans)
      moreover have "num st g0 \<le> num st y"
        using g0(2) order(5) [OF y0(1)] g(2) True by simp
      ultimately show ?thesis
        using g0(1) \<open>g0 \<noteq> x\<close> by blast
    next
      case False
      then show ?thesis using g by blast
    qed
  qed
  note reaches = this
  have visited: "set (succ y) \<subseteq> dom (sc_index st)" if "y \<in> dom (sc_index st) - G" for y
    using D(10) [of y] handled that by (cases "y = x") auto
  show "scc_inv succ G st"
    unfolding scc_inv_def
  proof (intro conjI ballI allI impI)
    show "dom (sc_index st) = set (sc_stack st) \<union> finished st" "set (sc_stack st) \<inter> finished st = {}"
      "sorted_wrt (\<lambda>a b. num st b < num st a) (sc_stack st)" "G \<subseteq> set (sc_stack st)" "distinct (concat (sc_components st))"
      using D(2,3,5,6,9) by simp_all
    show "sc_on st y \<longleftrightarrow> y \<in> set (sc_stack st)" for y
      by (rule D(1))
    show "num st y < sc_sequence st" if "y \<in> dom (sc_index st)" for y
      using that by (rule D(4))
    show "set (succ y) \<subseteq> finished st" if "y \<in> finished st" for y
      using that by (rule D(7))
    show "is_component succ (set c)" if "c \<in> set (sc_components st)" for c
      using that by (rule D(8))
    show "(g, y) \<in> (edge_rel succ)\<^sup>*" if "g \<in> G" "y \<in> set (sc_stack st)" "num st g \<le> num st y" for g y
      using that by (intro D(11)) simp_all
  qed (fact visited reaches)+
qed

section \<open>A call of \<open>visit\<close>\<close>

text \<open>Indices are kept and new ones are larger; low links of old identifiers are kept outside \<open>X\<close>.\<close>

definition extends :: "'k set \<Rightarrow> 'k scc_state \<Rightarrow> 'k scc_state \<Rightarrow> bool" where
  "extends X st st' \<longleftrightarrow> (\<forall>y \<in> dom (sc_index st). sc_index st' y = sc_index st y) \<and>
     (\<forall>y \<in> dom (sc_index st) - X. sc_low st' y = sc_low st y) \<and>
     (\<forall>y \<in> dom (sc_index st') - dom (sc_index st). sc_sequence st \<le> num st' y) \<and>
     sc_sequence st \<le> sc_sequence st' \<and> finished st \<subseteq> finished st'"

text \<open>What a call leaves for its caller, whose stack was \<open>sc_stack st\<close>.\<close>

definition visited :: "('k \<Rightarrow> 'k list) \<Rightarrow> 'k set \<Rightarrow> 'k \<Rightarrow> 'k scc_state \<Rightarrow> 'k scc_state \<Rightarrow> bool" where
  "visited succ G x st st' \<longleftrightarrow> scc_inv succ G st' \<and> extends {} st st' \<and> x \<in> dom (sc_index st') \<and>
     (\<exists>s. sc_stack st' = s @ sc_stack st \<and>
        (\<forall>z \<in> set s. \<forall>w \<in> set (succ z) \<inter> set (sc_stack st). sc_low st' x \<le> num st w) \<and>
        (if x \<in> set s then \<exists>y \<in> set (sc_stack st). num st y = sc_low st' x \<and> (x, y) \<in> (edge_rel succ)\<^sup>*
         else s = [] \<and> sc_low st' x = num st' x))"

lemma extendsD:
  assumes "extends X st st'"
  shows "y \<in> dom (sc_index st) \<Longrightarrow> num st' y = num st y"
    and "dom (sc_index st) \<subseteq> dom (sc_index st')"
    and "\<lbrakk>y \<in> dom (sc_index st); y \<notin> X\<rbrakk> \<Longrightarrow> sc_low st' y = sc_low st y"
    and "\<lbrakk>y \<in> dom (sc_index st'); y \<notin> dom (sc_index st)\<rbrakk> \<Longrightarrow> sc_sequence st \<le> num st' y"
    and "sc_sequence st \<le> sc_sequence st'" and "finished st \<subseteq> finished st'"
proof -
  have same: "\<forall>y \<in> dom (sc_index st). sc_index st' y = sc_index st y"
    using assms by (simp add: extends_def)
  show "y \<in> dom (sc_index st) \<Longrightarrow> num st' y = num st y"
    using same by (simp only: num_def)
  show "dom (sc_index st) \<subseteq> dom (sc_index st')"
    using same by (metis domIff subsetI)
  show "\<lbrakk>y \<in> dom (sc_index st); y \<notin> X\<rbrakk> \<Longrightarrow> sc_low st' y = sc_low st y"
    "\<lbrakk>y \<in> dom (sc_index st'); y \<notin> dom (sc_index st)\<rbrakk> \<Longrightarrow> sc_sequence st \<le> num st' y"
    "sc_sequence st \<le> sc_sequence st'" "finished st \<subseteq> finished st'"
    using assms unfolding extends_def by blast+
qed

lemma extends_refl [simp]: "extends X st st"
  by (simp add: extends_def)

lemma finished_lower [simp]: "finished (lower x n st) = finished st"
  by (simp add: finished_def)

lemma extends_lower:
  assumes "extends X st st'" and "x \<in> X"
  shows "extends X st (lower x n st')"
proof -
  have "sc_low (lower x n st') y = sc_low st y" if "y \<in> dom (sc_index st) - X" for y
    using assms that by (auto simp: extends_def)
  then show ?thesis
    using assms(1) by (simp add: extends_def)
qed

lemma extends_trans:
  assumes "extends X st st1" and "extends X st1 st2"
  shows "extends X st st2"
  unfolding extends_def
proof (intro conjI ballI)
  fix y
  assume y: "y \<in> dom (sc_index st)"
  then show "sc_index st2 y = sc_index st y"
    using assms extendsD(2) [OF assms(1)] unfolding extends_def by (metis subsetD)
next
  fix y
  assume "y \<in> dom (sc_index st) - X"
  then show "sc_low st2 y = sc_low st y"
    using extendsD(2,3) [OF assms(1)] extendsD(3) [OF assms(2)] by (metis DiffD1 DiffD2 subsetD)
next
  fix y
  assume y: "y \<in> dom (sc_index st2) - dom (sc_index st)"
  show "sc_sequence st \<le> num st2 y"
  proof (cases "y \<in> dom (sc_index st1)")
    case True
    then show ?thesis
      using y extendsD(4) [OF assms(1), of y] extendsD(1) [OF assms(2), of y] by simp
  next
    case False
    then show ?thesis
      using y extendsD(4) [OF assms(2), of y] extendsD(5) [OF assms(1)] by simp
  qed
qed (use extendsD(5,6) [OF assms(1)] extendsD(5,6) [OF assms(2)] in auto)

lemma extends_weaken: "extends {} st st' \<Longrightarrow> extends X st st'"
  by (auto simp: extends_def)


section \<open>The loop over the edges\<close>

lemma low_ok_new:
  assumes inv: "scc_inv succ (insert x G) st" and low: "low_ok succ x handled s b st"
    and y: "y \<in> set (succ x)" "sc_index st y = None" and after: "visited succ (insert x G) y st st1"
  shows "\<exists>s1. low_ok succ x (insert y handled) (s1 @ s) b (lower x (sc_low st1 y) st1)"
proof -
  note D = scc_invD [OF inv]
  have stack: "sc_stack st = s @ x # b" and le: "sc_low st x \<le> num st x"
    using low by (simp_all add: low_ok_def)
  note order = stack_order [OF inv stack]
  obtain s1 where s1: "sc_stack st1 = s1 @ sc_stack st"
    and edges: "\<And>z w. \<lbrakk>z \<in> set s1; w \<in> set (succ z); w \<in> set (sc_stack st)\<rbrakk> \<Longrightarrow> sc_low st1 y \<le> num st w"
    and target: "if y \<in> set s1 then \<exists>w \<in> set (sc_stack st). num st w = sc_low st1 y \<and> (y, w) \<in> (edge_rel succ)\<^sup>*
      else s1 = [] \<and> sc_low st1 y = num st1 y"
    using after unfolding visited_def by blast
  have ext: "extends {} st st1" and new: "y \<in> dom (sc_index st1)"
    using after by (simp_all add: visited_def)
  have known: "w \<in> dom (sc_index st)" if "w \<in> set (sc_stack st)" for w
    using D(2) that by blast
  have num: "num st1 w = num st w" if "w \<in> set (sc_stack st)" for w
    using extendsD(1) [OF ext known [OF that]] .
  have x: "x \<in> set (sc_stack st)"
    by (simp add: stack)
  have low_x: "sc_low st1 x = sc_low st x"
    using extendsD(3) [OF ext known [OF x]] by simp
  have xy: "(x, y) \<in> (edge_rel succ)\<^sup>*"
    using y(1) by (auto simp: edge_rel_def)
  have witness: "\<exists>w \<in> set (x # b). num st w = min (sc_low st1 y) (sc_low st x) \<and> (x, w) \<in> (edge_rel succ)\<^sup>*"
  proof (cases "sc_low st1 y < sc_low st x")
    case True
    have "y \<in> set s1"
    proof (rule ccontr)
      assume "y \<notin> set s1"
      then have "sc_sequence st \<le> sc_low st1 y"
        using target extendsD(4) [OF ext new] y(2) by auto
      then show False
        using True le D(4) [OF known [OF x]] by simp
    qed
    then obtain w where w: "w \<in> set (sc_stack st)" "num st w = sc_low st1 y" "(y, w) \<in> (edge_rel succ)\<^sup>*"
      using target by auto
    have "w \<in> set b"
      using w(1,2) True le order(4) [of w] by (auto simp: stack)
    then show ?thesis
      using w(2,3) True xy by (intro bexI [of _ w]) (auto intro: rtrancl_trans)
  next
    case False
    then show ?thesis
      using low by (auto simp: low_ok_def min_def)
  qed
  have "y \<notin> set b"
    using known y(2) by (auto simp: stack)
  then have "low_ok succ x (insert y handled) (s1 @ s) b (lower x (sc_low st1 y) st1)"
    unfolding low_ok_def scc_state_simps low_x
  proof (intro conjI ballI)
    show "\<exists>w \<in> set (x # b). num st1 w = (if x = x then min (sc_low st1 y) (sc_low st x) else sc_low st x) \<and>
        (x, w) \<in> (edge_rel succ)\<^sup>*"
      using witness num by (auto simp: stack)
  next
    fix z w
    assume z: "z \<in> set (s1 @ s)" and w: "w \<in> set (succ z) \<inter> set b"
    have "min (sc_low st1 y) (sc_low st x) \<le> num st w"
      using z w edges [of z w] low by (auto simp: stack low_ok_def min_le_iff_disj)
    then show "(if x = x then min (sc_low st1 y) (sc_low st x) else sc_low st x) \<le> num st1 w"
      using num [of w] w by (simp add: stack)
  next
    fix w
    assume w: "w \<in> insert y handled \<inter> set b"
    then have "sc_low st x \<le> num st w"
      using low \<open>y \<notin> set b\<close> by (auto simp: low_ok_def)
    then show "(if x = x then min (sc_low st1 y) (sc_low st x) else sc_low st x) \<le> num st1 w"
      using num [of w] w by (simp add: stack)
  qed (use s1 stack le num [OF x] in auto)
  then show ?thesis ..
qed

lemma low_ok_known:
  assumes inv: "scc_inv succ (insert x G) st" and low: "low_ok succ x handled s b st" and y: "y \<in> set (succ x)"
  shows "low_ok succ x (insert y handled) s b (if sc_on st y then lower x (num st y) st else st)"
proof -
  have stack: "sc_stack st = s @ x # b"
    using low by (simp add: low_ok_def)
  note order = stack_order [OF inv stack] and on = scc_invD(1) [OF inv, of y]
  have xy: "(x, y) \<in> (edge_rel succ)\<^sup>*"
    using y by (auto simp: edge_rel_def)
  show ?thesis
  proof (cases "sc_on st y \<and> num st y < sc_low st x")
    case True
    then have "y \<in> set b"
      using low on order(4) [of y] by (auto simp: low_ok_def stack)
    moreover have lt: "num st y < sc_low st x"
      using True by simp
    ultimately show ?thesis
      using True low xy by (auto simp: low_ok_def intro: order_trans [OF less_imp_le [OF lt]])
  next
    case False
    then have "sc_low st x \<le> num st y" if "y \<in> set b"
      using that on by (auto simp: stack)
    moreover have "min (num st y) (sc_low st x) = sc_low st x" if "sc_on st y"
      using False that by simp
    ultimately show ?thesis
      using low by (auto simp: low_ok_def)
  qed
qed


section \<open>The search returns and is right\<close>

text \<open>A finite set of identifiers that no edge leaves bounds the recursion.\<close>

locale bounded_graph =
  fixes succ :: "'k \<Rightarrow> 'k list" and V :: "'k set"
  assumes finite_V: "finite V" and closed_V: "x \<in> V \<Longrightarrow> set (succ x) \<subseteq> V"
begin

definition unseen :: "'k scc_state \<Rightarrow> nat" where
  "unseen st = card (V - dom (sc_index st))"

lemma unseen_mono: "dom (sc_index st) \<subseteq> dom (sc_index st') \<Longrightarrow> unseen st' \<le> unseen st"
  unfolding unseen_def using finite_V by (intro card_mono) auto

definition visit_ok :: "nat \<Rightarrow> bool" where
  "visit_ok n \<longleftrightarrow> (\<forall>G x st. scc_inv succ G st \<longrightarrow> sc_index st x = None \<longrightarrow> x \<in> V \<longrightarrow>
     (\<forall>g \<in> G. (g, x) \<in> (edge_rel succ)\<^sup>*) \<longrightarrow> unseen st \<le> n \<longrightarrow>
     (\<exists>st'. scc_visit n succ x st = Some st' \<and> visited succ G x st st'))"

lemma edges_ok:
  assumes visit: "visit_ok n" and x: "x \<in> V"
  shows "\<lbrakk>scc_inv succ (insert x G) st; G \<subseteq> set b; low_ok succ x handled s b st; handled \<union> set ys = set (succ x);
      handled \<subseteq> dom (sc_index st); unseen st \<le> n\<rbrakk> \<Longrightarrow>
    \<exists>st' s'. scc_edges n succ x ys st = Some st' \<and> scc_inv succ (insert x G) st' \<and>
      low_ok succ x (set (succ x)) s' b st' \<and> extends {x} st st' \<and> set (succ x) \<subseteq> dom (sc_index st')"
proof (induction ys arbitrary: st handled s)
  case Nil
  then show ?case by (auto intro!: exI)
next
  case (Cons y ys)
  have y: "y \<in> set (succ x)"
    using Cons.prems(4) by auto
  have stack: "sc_stack st = s @ x # b"
    using Cons.prems(3) by (simp add: low_ok_def)
  show ?case
  proof (cases "sc_index st y = None")
    case True
    have "(g, y) \<in> (edge_rel succ)\<^sup>*" if g: "g \<in> insert x G" for g
    proof -
      have "num st g \<le> num st x"
        using g Cons.prems(2) stack_order(5) [OF Cons.prems(1) stack, of g] by auto
      then have "(g, x) \<in> (edge_rel succ)\<^sup>*"
        using scc_invD(11) [OF Cons.prems(1) g, of x] by (simp add: stack)
      moreover have "(x, y) \<in> edge_rel succ"
        using y by (simp add: edge_rel_def)
      ultimately show ?thesis
        by (rule rtrancl_into_rtrancl)
    qed
    moreover have "y \<in> V"
      using closed_V x y by blast
    ultimately obtain st1 where st1: "scc_visit n succ y st = Some st1" "visited succ (insert x G) y st st1"
      using visit Cons.prems(1,6) True unfolding visit_ok_def by blast
    define st2 where "st2 = lower x (sc_low st1 y) st1"
    obtain s1 where low: "low_ok succ x (insert y handled) (s1 @ s) b st2"
      using low_ok_new [OF Cons.prems(1,3) y True st1(2)] by (auto simp: st2_def)
    have ext: "extends {x} st st2"
      using st1(2) unfolding visited_def st2_def by (auto intro: extends_lower extends_weaken)
    have dom: "insert y handled \<subseteq> dom (sc_index st2)"
      using st1(2) Cons.prems(5) extendsD(2) [OF ext] by (auto simp: visited_def st2_def)
    have "scc_inv succ (insert x G) st2" "unseen st2 \<le> n"
      using st1(2) unseen_mono [OF extendsD(2) [OF ext]] Cons.prems(6) by (simp_all add: visited_def st2_def)
    then obtain st' s' where "scc_edges n succ x ys st2 = Some st'" "scc_inv succ (insert x G) st'"
      "low_ok succ x (set (succ x)) s' b st'" "extends {x} st2 st'" "set (succ x) \<subseteq> dom (sc_index st')"
      using Cons.IH [OF _ Cons.prems(2) low _ dom] Cons.prems(4) by auto
    then show ?thesis
      using st1(1) True extends_trans [OF ext] by (auto simp: st2_def)
  next
    case False
    define st2 where "st2 = (if sc_on st y then lower x (num st y) st else st)"
    have low: "low_ok succ x (insert y handled) s b st2"
      unfolding st2_def by (rule low_ok_known [OF Cons.prems(1,3) y])
    have ext: "extends {x} st st2"
      by (simp add: st2_def extends_lower)
    have "scc_inv succ (insert x G) st2" "insert y handled \<subseteq> dom (sc_index st2)" "unseen st2 \<le> n"
      using Cons.prems(1,5,6) False by (auto simp: st2_def unseen_def)
    then obtain st' s' where "scc_edges n succ x ys st2 = Some st'" "scc_inv succ (insert x G) st'"
      "low_ok succ x (set (succ x)) s' b st'" "extends {x} st2 st'" "set (succ x) \<subseteq> dom (sc_index st')"
      using Cons.IH [OF _ Cons.prems(2) low] Cons.prems(4) by auto
    then show ?thesis
      using False extends_trans [OF ext] by (auto simp: st2_def)
  qed
qed

lemma visit_step:
  assumes ok: "visit_ok n"
  shows "visit_ok (Suc n)"
  unfolding visit_ok_def
proof (intro allI impI)
  fix G x st
  assume inv: "scc_inv succ G st" and new: "sc_index st x = None" and x: "x \<in> V"
    and reach: "\<forall>g \<in> G. (g, x) \<in> (edge_rel succ)\<^sup>*" and fuel: "unseen st \<le> Suc n"
  define st1 where "st1 = scc_enter x st"
  note D = scc_invD [OF inv]
  have enter: "scc_inv succ (insert x G) st1"
    unfolding st1_def using inv new reach by (intro scc_inv_enter) auto
  have fields: "sc_stack st1 = x # sc_stack st" "sc_low st1 x = num st1 x" "dom (sc_index st1) = insert x (dom (sc_index st))"
    by (simp_all add: st1_def scc_enter_def num_def)
  have low: "low_ok succ x {} [] (sc_stack st) st1"
    by (simp add: low_ok_def fields)
  have split: "V - dom (sc_index st) = insert x (V - dom (sc_index st1))"
    using x new by (auto simp: fields(3))
  have "card (insert x (V - dom (sc_index st1))) = Suc (card (V - dom (sc_index st1)))"
    using finite_V by (intro card_insert_disjoint) (auto simp: fields(3))
  then have "unseen st1 \<le> n"
    using fuel unfolding unseen_def split by simp
  then obtain st2 s where edges: "scc_edges n succ x (succ x) st1 = Some st2" and inv2: "scc_inv succ (insert x G) st2"
    and low2: "low_ok succ x (set (succ x)) s (sc_stack st) st2" and ext1: "extends {x} st1 st2"
    and handled: "set (succ x) \<subseteq> dom (sc_index st2)"
    using edges_ok [OF ok x enter D(6) low, of "succ x"] by auto
  have ext0: "extends {x} st st1"
    unfolding extends_def fields
  proof (intro conjI ballI)
    fix y assume "y \<in> dom (sc_index st)"
    then show "sc_index st1 y = sc_index st y"
      using new by (auto simp: st1_def scc_enter_def)
  next
    fix y assume "y \<in> dom (sc_index st) - {x}"
    then show "sc_low st1 y = sc_low st y"
      by (simp add: st1_def scc_enter_def)
  next
    fix y assume "y \<in> insert x (dom (sc_index st)) - dom (sc_index st)"
    then have "y = x" by auto
    then show "sc_sequence st \<le> num st1 y"
      by (simp add: st1_def scc_enter_def num_def)
  qed (simp_all add: st1_def scc_enter_def finished_def)
  have ext2: "extends {} st st2"
    using extends_trans [OF ext0 ext1] new by (auto simp: extends_def)
  have x2: "x \<in> dom (sc_index st2)"
    using extendsD(2) [OF ext1] by (auto simp: fields)
  have stack2: "sc_stack st2 = s @ x # sc_stack st"
    using low2 by (simp add: low_ok_def)
  have "visited succ G x st (finish_visit x st2)"
  proof (cases "sc_low st2 x = num st2 x")
    case True
    note root = finish_root [OF inv2 low2 D(6) handled True]
    have same: "sc_index (finish_visit x st2) = sc_index st2" "sc_low (finish_visit x st2) = sc_low st2"
      "sc_sequence (finish_visit x st2) = sc_sequence st2" "num (finish_visit x st2) = num st2"
      by (auto simp: finish_visit_def emit_component_def num_def split: prod.split)
    have "finished st2 \<subseteq> finished (finish_visit x st2)"
      by (auto simp: finished_def root(3))
    then have "extends {} st (finish_visit x st2)"
      using ext2 by (auto simp: extends_def same)
    then show ?thesis
      using root(1,2) x2 True by (simp add: visited_def same)
  next
    case False
    note inner = finish_inner [OF inv2 low2 D(6) handled False]
    have old: "num st2 w = num st w" if "w \<in> set (sc_stack st)" for w
      using extendsD(1) [OF ext2] that D(2) by blast
    have edges: "sc_low st2 x \<le> num st w" if "z \<in> set (s @ [x])" "w \<in> set (succ z)" "w \<in> set (sc_stack st)" for z w
    proof -
      have "sc_low st2 x \<le> num st2 w"
        using low2 that by (cases "z = x") (auto simp: low_ok_def)
      then show ?thesis
        using old that(3) by simp
    qed
    have "\<exists>w \<in> set (sc_stack st). num st w = sc_low st2 x \<and> (x, w) \<in> (edge_rel succ)\<^sup>*"
      using inner(3) old by metis
    then show ?thesis
      unfolding visited_def inner(1) using inner(2) ext2 x2 edges
      by (intro conjI exI [of _ "s @ [x]"]) (simp_all add: stack2)
  qed
  then show "\<exists>st'. scc_visit (Suc n) succ x st = Some st' \<and> visited succ G x st st'"
    using edges by (simp add: st1_def)
qed

lemma visit_correct: "visit_ok n"
proof (induction n)
  case 0
  have "unseen st \<noteq> 0" if "sc_index st x = None" "x \<in> V" for st x
    using that finite_V by (auto simp: unseen_def)
  then show ?case
    by (auto simp: visit_ok_def)
qed (rule visit_step)

end


text \<open>The loop over all identifiers, with nothing active between the calls.\<close>

context bounded_graph
begin

lemma roots_ok:
  "\<lbrakk>scc_inv succ {} st; set xs \<subseteq> V; card V \<le> n\<rbrakk> \<Longrightarrow>
     \<exists>st'. scc_roots n succ xs st = Some st' \<and> scc_inv succ {} st' \<and> set xs \<union> dom (sc_index st) \<subseteq> dom (sc_index st')"
proof (induction xs arbitrary: st)
  case (Cons x xs)
  show ?case
  proof (cases "sc_index st x = None")
    case True
    have "unseen st \<le> n"
      using Cons.prems(3) card_mono [OF finite_V, of "V - dom (sc_index st)"] by (auto simp: unseen_def)
    moreover have "x \<in> V"
      using Cons.prems(2) by simp
    ultimately obtain st1 where st1: "scc_visit n succ x st = Some st1" "visited succ {} x st st1"
      using visit_correct [of n, unfolded visit_ok_def, rule_format, OF Cons.prems(1) True] by blast
    then have "scc_inv succ {} st1" "x \<in> dom (sc_index st1)" "dom (sc_index st) \<subseteq> dom (sc_index st1)"
      using extendsD(2) [of "{}" st st1] by (simp_all add: visited_def)
    moreover have "scc_roots n succ (x # xs) st = scc_roots n succ xs st1"
      using st1(1) True by simp
    moreover have "set xs \<subseteq> V"
      using Cons.prems(2) by simp
    ultimately obtain st' where "scc_roots n succ (x # xs) st = Some st'" "scc_inv succ {} st'"
      "set xs \<union> dom (sc_index st1) \<subseteq> dom (sc_index st')" "x \<in> dom (sc_index st1)" "dom (sc_index st) \<subseteq> dom (sc_index st1)"
      using Cons.IH [of st1] Cons.prems(3) by metis
    then show ?thesis
      unfolding list.simps(15) by blast
  next
    case False
    then have "scc_roots n succ (x # xs) st = scc_roots n succ xs st" "x \<in> dom (sc_index st)"
      by auto
    moreover have "set xs \<subseteq> V"
      using Cons.prems(2) by simp
    ultimately show ?thesis
      using Cons.IH [of st] Cons.prems(1,3) unfolding list.simps(15) by (metis Un_insert_left insert_absorb subsetD sup.boundedE insert_subset)
  qed
qed auto

end

section \<open>Only what is reachable is numbered\<close>

lemma search_reaches:
  "scc_visit n succ x st = Some st' \<Longrightarrow> dom (sc_index st') \<subseteq> dom (sc_index st) \<union> (edge_rel succ)\<^sup>* `` {x}"
  "scc_edges n succ x ys st = Some st' \<Longrightarrow> dom (sc_index st') \<subseteq> dom (sc_index st) \<union> (edge_rel succ)\<^sup>* `` set ys"
proof (induction n succ x st and n succ x ys st arbitrary: st' and st' rule: scc_visit_scc_edges.induct)
  case (2 n succ x st)
  obtain st1 where st1: "scc_edges n succ x (succ x) (scc_enter x st) = Some st1" and st': "st' = finish_visit x st1"
    using "2.prems" by auto
  have same: "sc_index st' = sc_index st1"
    by (simp add: st' finish_visit_def emit_component_def split: prod.split)
  have entered: "dom (sc_index (scc_enter x st)) = insert x (dom (sc_index st))"
    by (simp add: scc_enter_def)
  have "(edge_rel succ)\<^sup>* `` set (succ x) \<subseteq> (edge_rel succ)\<^sup>* `` {x}"
    by (auto simp: edge_rel_def intro: converse_rtrancl_into_rtrancl)
  moreover have "x \<in> (edge_rel succ)\<^sup>* `` {x}"
    by simp
  ultimately show ?case
    using "2.IH" [OF st1] unfolding same entered by blast
next
  case (4 n succ x y ys st)
  show ?case
  proof (cases "sc_index st y = None")
    case True
    then obtain st1 where st1: "scc_visit n succ y st = Some st1" "scc_edges n succ x ys (lower x (sc_low st1 y) st1) = Some st'"
      using "4.prems" by (auto split: option.splits)
    show ?thesis
      using "4.IH"(1) [OF True st1(1)] "4.IH"(2) [OF True st1] unfolding list.simps(15) scc_state_simps by blast
  next
    case False
    have "scc_edges n succ x ys (if sc_on st y then lower x (num st y) st else st) = Some st'"
      using "4.prems" False by (simp del: scc_state_simps split del: if_split)
    moreover have "sc_index (if sc_on st y then lower x (num st y) st else st) = sc_index st"
      by simp
    ultimately show ?thesis
      using "4.IH"(3) [OF False] unfolding list.simps(15) by (metis (no_types, lifting) Image_mono Un_mono order_refl order_trans subset_insertI)
  qed
qed auto

lemma roots_reach: "scc_roots n succ xs st = Some st' \<Longrightarrow> dom (sc_index st') \<subseteq> dom (sc_index st) \<union> (edge_rel succ)\<^sup>* `` set xs"
proof (induction xs arbitrary: st)
  case (Cons x xs)
  show ?case
  proof (cases "sc_index st x = None")
    case True
    then obtain st1 where "scc_visit n succ x st = Some st1" "scc_roots n succ xs st1 = Some st'"
      using Cons.prems by (auto split: option.splits)
    then have "dom (sc_index st') \<subseteq> dom (sc_index st1) \<union> (edge_rel succ)\<^sup>* `` set xs"
      "dom (sc_index st1) \<subseteq> dom (sc_index st) \<union> (edge_rel succ)\<^sup>* `` {x}"
      using Cons.IH [of st1] search_reaches(1) [of n succ x st st1] by simp_all
    then show ?thesis
      unfolding list.simps(15) by blast
  next
    case False
    then have "scc_roots n succ (x # xs) st = scc_roots n succ xs st"
      by auto
    then have "dom (sc_index st') \<subseteq> dom (sc_index st) \<union> (edge_rel succ)\<^sup>* `` set xs"
      using Cons.IH [of st] Cons.prems by metis
    then show ?thesis
      unfolding list.simps(15) by blast
  qed
qed simp

section \<open>The components of an index\<close>

definition index_vertices :: "'v graph_index \<Rightarrow> string set" where
  "index_vertices ix = set (keys (ix_nodes ix)) \<union> e_to ` set (concat (map snd (ix_outgoing ix)))"

lemma kind_targets_vertices: "set (kind_targets ix kinds k) \<subseteq> index_vertices ix"
proof
  fix y
  assume "y \<in> set (kind_targets ix kinds k)"
  then obtain e es where "map_of (ix_outgoing ix) k = Some es" "e \<in> set es" "y = e_to e"
    unfolding kind_targets_def adjacent_def by (cases "map_of (ix_outgoing ix) k") auto
  then have "e \<in> set (concat (map snd (ix_outgoing ix)))"
    by (force dest: map_of_SomeD)
  then show "y \<in> index_vertices ix"
    unfolding index_vertices_def \<open>y = e_to e\<close> by blast
qed

lemma card_index_vertices: "card (index_vertices ix) \<le> scc_fuel ix"
proof -
  have "card (index_vertices ix) \<le> card (set (keys (ix_nodes ix))) + card (e_to ` set (concat (map snd (ix_outgoing ix))))"
    unfolding index_vertices_def by (rule card_Un_le)
  also have "\<dots> \<le> length (keys (ix_nodes ix)) + length (concat (map snd (ix_outgoing ix)))"
    by (intro add_mono card_length order_trans [OF card_image_le]) simp_all
  finally show ?thesis
    by (simp add: scc_fuel_def keys_def)
qed

interpretation scc: bounded_graph "kind_targets ix kinds" "index_vertices ix" for ix :: "'v graph_index" and kinds
  by unfold_locales (auto simp: index_vertices_def dest: subsetD [OF kind_targets_vertices])

lemma component_unique: "\<lbrakk>is_component succ C; is_component succ D; x \<in> C; x \<in> D\<rbrakk> \<Longrightarrow> C = D"
  unfolding is_component_def by blast

lemma has_self_loop_iff: "has_self_loop ix kinds k \<longleftrightarrow> (k, k) \<in> edge_rel (kind_targets ix kinds)"
  by (auto simp: has_self_loop_def edge_rel_def kind_targets_def list_ex_iff)

lemma cyclic_iff:
  assumes "is_component succ (set ids)" and "distinct ids"
  shows "1 < length ids \<or> (hd ids, hd ids) \<in> edge_rel succ \<longleftrightarrow> (\<exists>v \<in> set ids. (v, v) \<in> (edge_rel succ)\<^sup>+)"
proof
  assume left: "1 < length ids \<or> (hd ids, hd ids) \<in> edge_rel succ"
  show "\<exists>v \<in> set ids. (v, v) \<in> (edge_rel succ)\<^sup>+"
  proof (cases "1 < length ids")
    case True
    then obtain a b cs where ids: "ids = a # b # cs"
      by (cases ids rule: remdups_adj.cases) auto
    then have "a \<noteq> b" "(a, b) \<in> (edge_rel succ)\<^sup>*" "(b, a) \<in> (edge_rel succ)\<^sup>*"
      using assms by (auto simp: is_component_def)
    then have "(a, a) \<in> (edge_rel succ)\<^sup>+"
      by (metis rtranclD rtrancl_trancl_trancl trancl_rtrancl_trancl)
    then show ?thesis using ids by auto
  next
    case False
    then show ?thesis
      using left assms(1) by (intro bexI [of _ "hd ids"]) (auto simp: is_component_def)
  qed
next
  assume "\<exists>v \<in> set ids. (v, v) \<in> (edge_rel succ)\<^sup>+"
  then obtain v w where v: "v \<in> set ids" "(v, w) \<in> edge_rel succ" "(w, v) \<in> (edge_rel succ)\<^sup>*"
    by (meson tranclD)
  then have "w \<in> set ids"
    using assms(1) unfolding is_component_def by (meson r_into_rtrancl)
  then show "1 < length ids \<or> (hd ids, hd ids) \<in> edge_rel succ"
    using v(1,2) by (cases ids; cases "tl ids") auto
qed

lemma number_components_simps [simp]:
  "map co_node_ids (number_components cs) = map co_node_ids cs" "map co_cyclic (number_components cs) = map co_cyclic cs"
  "map co_id (number_components cs) = [0..<length cs]" "length (number_components cs) = length cs"
  by (auto simp: number_components_def intro!: nth_equalityI)


lemma number_components_nth: "i < length cs \<Longrightarrow> number_components cs ! i = (cs ! i)\<lparr>co_id := i\<rparr>"
  by (simp add: number_components_def)

lemma mset_concat_image: "mset (concat (map f xs)) = (\<Sum>x \<in># mset xs. mset (f x))"
  by (induction xs) simp_all

text \<open>What the search over all identifiers of an index leaves.\<close>

lemma search_components:
  obtains st where "scc_roots (scc_fuel ix) (kind_targets ix kinds) (sort (keys (ix_nodes ix))) empty_scc_state = Some st"
    and "\<And>c. c \<in> set (sc_components st) \<Longrightarrow> is_component (kind_targets ix kinds) (set c)"
    and "distinct (concat (sc_components st))"
    and "\<Union> (set ` set (sc_components st)) = (edge_rel (kind_targets ix kinds))\<^sup>* `` set (keys (ix_nodes ix))"
proof -
  let ?R = "(edge_rel (kind_targets ix kinds))\<^sup>* `` set (keys (ix_nodes ix))"
  have "set (sort (keys (ix_nodes ix))) \<subseteq> index_vertices ix"
    by (simp add: index_vertices_def)
  from scc.roots_ok [OF scc_inv_empty this card_index_vertices, of kinds]
  obtain st where st: "scc_roots (scc_fuel ix) (kind_targets ix kinds) (sort (keys (ix_nodes ix))) empty_scc_state = Some st"
    and inv: "scc_inv (kind_targets ix kinds) {} st" and roots: "set (keys (ix_nodes ix)) \<subseteq> dom (sc_index st)"
    by (elim exE conjE) (rule that, assumption, assumption, simp only: set_sort le_sup_iff)
  note D = scc_invD [OF inv]
  have "sc_stack st = []"
    using D(12) by (cases "sc_stack st") auto
  then have finished: "dom (sc_index st) = finished st"
    using D(2) by simp
  have "finished st \<subseteq> ?R"
    using roots_reach [OF st] finished by (simp add: empty_scc_state_def)
  moreover have "?R \<subseteq> finished st"
  proof
    fix y
    assume "y \<in> ?R"
    then obtain x where "x \<in> finished st" "(x, y) \<in> (edge_rel (kind_targets ix kinds))\<^sup>*"
      using roots finished by auto
    then show "y \<in> finished st"
      using closed_path [of x y "kind_targets ix kinds" "finished st"] D(7) by simp
  qed
  ultimately have "\<Union> (set ` set (sc_components st)) = ?R"
    by (simp add: finished_def)
  with st D(8,9) show thesis
    by (rule that)
qed

text \<open>
  C16. The search for strongly connected components always returns and is exact. Over the edges of the admitted kinds,
  its components are the strongly connected components that can be reached from a node of the index, no identifier is
  in two of them, identifiers and components are sorted and the components numbered in order. A component is marked
  cyclic exactly if one of its identifiers reaches itself by at least one edge.
\<close>
theorem components_exact:
  "\<exists>cs. strongly_connected_components ix kinds = Some cs \<and>
     (set \<circ> co_node_ids) ` set cs = {C. is_component (kind_targets ix kinds) C \<and>
        C \<inter> (edge_rel (kind_targets ix kinds))\<^sup>* `` set (keys (ix_nodes ix)) \<noteq> {}} \<and>
     distinct (concat (map co_node_ids cs)) \<and>
     (\<forall>c \<in> set cs. sorted (co_node_ids c) \<and>
        (co_cyclic c \<longleftrightarrow> (\<exists>v \<in> set (co_node_ids c). (v, v) \<in> (edge_rel (kind_targets ix kinds))\<^sup>+))) \<and>
     sorted (map (hd \<circ> co_node_ids) cs) \<and> map co_id cs = [0..<length cs]"
proof -
  obtain st where st: "scc_roots (scc_fuel ix) (kind_targets ix kinds) (sort (keys (ix_nodes ix))) empty_scc_state = Some st"
    and comps: "\<And>c. c \<in> set (sc_components st) \<Longrightarrow> is_component (kind_targets ix kinds) (set c)"
    and dist: "distinct (concat (sc_components st))"
    and all: "\<Union> (set ` set (sc_components st)) = (edge_rel (kind_targets ix kinds))\<^sup>* `` set (keys (ix_nodes ix))"
    by (rule search_components [of ix kinds]) (rule that)
  define ds where "ds = sort_key (\<lambda>c. hd (co_node_ids c)) (map (component_of ix kinds) (sc_components st))"
  define cs where "cs = number_components ds"
  have result: "strongly_connected_components ix kinds = Some cs"
    by (simp add: strongly_connected_components_def st cs_def ds_def)
  have ids: "map co_node_ids cs = map co_node_ids ds" "map co_cyclic cs = map co_cyclic ds" "map co_id cs = [0..<length cs]"
    by (simp_all add: cs_def)
  have parts: "(set \<circ> co_node_ids) ` set cs = set ` set (sc_components st)"
  proof -
    have "(set \<circ> co_node_ids) ` set cs = set ` set (map co_node_ids cs)"
      by (simp add: image_comp)
    also have "\<dots> = set ` set (sc_components st)"
      unfolding ids ds_def by (simp add: image_image component_of_def Let_def)
    finally show ?thesis .
  qed
  have "set ` set (sc_components st) = {C. is_component (kind_targets ix kinds) C \<and> C \<inter> \<Union> (set ` set (sc_components st)) \<noteq> {}}"
  proof (intro set_eqI iffI)
    fix C
    assume C: "C \<in> set ` set (sc_components st)"
    then have "is_component (kind_targets ix kinds) C"
      using comps by blast
    moreover from this have "C \<noteq> {}"
      by (simp add: is_component_def)
    moreover have "C \<subseteq> \<Union> (set ` set (sc_components st))"
      using C by (rule Union_upper)
    ultimately show "C \<in> {C. is_component (kind_targets ix kinds) C \<and> C \<inter> \<Union> (set ` set (sc_components st)) \<noteq> {}}"
      by blast
  next
    fix C
    assume "C \<in> {C. is_component (kind_targets ix kinds) C \<and> C \<inter> \<Union> (set ` set (sc_components st)) \<noteq> {}}"
    then obtain x c where "is_component (kind_targets ix kinds) C" "x \<in> C" "c \<in> set (sc_components st)" "x \<in> set c"
      by auto
    then have "C = set c"
      using component_unique [of "kind_targets ix kinds" C "set c" x] comps [of c] by simp
    then show "C \<in> set ` set (sc_components st)"
      using \<open>c \<in> set (sc_components st)\<close> by blast
  qed
  moreover have "distinct (concat (map co_node_ids cs))"
  proof -
    have "mset (concat (map co_node_ids cs)) = mset (concat (sc_components st))"
      unfolding ids mset_concat_image ds_def
      using mset_concat_image [of id "sc_components st"]
      by (simp add: image_mset.compositionality comp_def component_of_def Let_def)
    then show ?thesis
      using dist by (metis mset_eq_imp_distinct_iff)
  qed
  moreover have "sorted (co_node_ids c) \<and>
      (co_cyclic c \<longleftrightarrow> (\<exists>v \<in> set (co_node_ids c). (v, v) \<in> (edge_rel (kind_targets ix kinds))\<^sup>+))" if "c \<in> set cs" for c
  proof -
    obtain i where i: "i < length cs" "c = cs ! i"
      using \<open>c \<in> set cs\<close> by (auto simp: in_set_conv_nth)
    then have "co_node_ids c = co_node_ids (ds ! i)" "co_cyclic c = co_cyclic (ds ! i)" "ds ! i \<in> set ds"
      by (simp_all add: cs_def number_components_nth)
    then obtain p where p: "p \<in> set (sc_components st)" "co_node_ids c = sort p"
      "co_cyclic c \<longleftrightarrow> 1 < length (sort p) \<or> has_self_loop ix kinds (hd (sort p))"
      by (auto simp: ds_def component_of_def Let_def)
    moreover have "distinct (sort p)"
      using dist p(1) by (auto simp: distinct_concat_iff)
    ultimately show ?thesis
      using cyclic_iff [of "kind_targets ix kinds" "sort p"] comps by (simp add: has_self_loop_iff)
  qed
  moreover have "sorted (map (hd \<circ> co_node_ids) cs)"
  proof -
    have "map (hd \<circ> co_node_ids) cs = map hd (map co_node_ids ds)"
      unfolding ids(1) [symmetric] by simp
    then show ?thesis
      by (simp add: ds_def comp_def)
  qed
  ultimately show ?thesis
    using result parts ids(3) all by (intro exI [of _ cs]) simp
qed

end
