(* ===== verification/ComponentsWitnesses.thy ===== *)
theory ComponentsWitnesses
  imports ComponentsTheorems GraphWitnesses
begin

text \<open>Three nodes, two of them on a cycle, and an edge to an identifier that has no node.\<close>

definition ex_cyclic_index :: "nat graph_index" where
  "ex_cyclic_index = build [ex_node ''c'', ex_node ''b'', ex_node ''a'']
     [ex_edge ''1'' ''a'' ''b'', ex_edge ''2'' ''b'' ''a'', ex_edge ''3'' ''b'' ''c'', ex_edge ''4'' ''c'' ''z'']"

lemma ex_cyclic_components:
  "strongly_connected_components ex_cyclic_index [] =
     Some [\<lparr>co_id = 0, co_node_ids = [''a'', ''b''], co_cyclic = True\<rparr>, \<lparr>co_id = 1, co_node_ids = [''c''], co_cyclic = False\<rparr>,
       \<lparr>co_id = 2, co_node_ids = [''z''], co_cyclic = False\<rparr>]"
  by code_simp

theorem components_exact_witness:
  "is_component (kind_targets ex_cyclic_index []) {''a'', ''b''} \<and>
   (''c'', ''c'') \<notin> (edge_rel (kind_targets ex_cyclic_index []))\<^sup>+"
proof -
  obtain cs where cs: "cs = [\<lparr>co_id = 0, co_node_ids = [''a'', ''b''], co_cyclic = True\<rparr>,
      \<lparr>co_id = 1, co_node_ids = [''c''], co_cyclic = False\<rparr>, \<lparr>co_id = 2, co_node_ids = [''z''], co_cyclic = False\<rparr>]"
    and exact: "(set \<circ> co_node_ids) ` set cs = {C. is_component (kind_targets ex_cyclic_index []) C \<and>
        C \<inter> (edge_rel (kind_targets ex_cyclic_index []))\<^sup>* `` set (keys (ix_nodes ex_cyclic_index)) \<noteq> {}}"
    and cyclic: "\<forall>c \<in> set cs. sorted (co_node_ids c) \<and>
        (co_cyclic c \<longleftrightarrow> (\<exists>v \<in> set (co_node_ids c). (v, v) \<in> (edge_rel (kind_targets ex_cyclic_index []))\<^sup>+))"
    using components_exact [of ex_cyclic_index "[]"] unfolding ex_cyclic_components by (elim exE conjE) (rule that, simp_all)
  have "{''a'', ''b''} \<in> (set \<circ> co_node_ids) ` set cs"
    by (simp add: cs)
  then have "is_component (kind_targets ex_cyclic_index []) {''a'', ''b''}"
    unfolding exact by blast
  moreover have "(''c'', ''c'') \<notin> (edge_rel (kind_targets ex_cyclic_index []))\<^sup>+"
    using cyclic unfolding cs by simp
  ultimately show ?thesis ..
qed

end
