(* ===== verification/Spec2Isabelle.thy ===== *)
theory Spec2Isabelle
  imports SchedulerWitnesses ValidateWitnesses CoverageWitnesses StoreWitnesses PatchWitnesses LinkWitnesses RuntimeWitnesses ComponentsWitnesses
begin

text \<open>
  A model of the core of RKC, the repository knowledge compiler. RKC compiles a repository into an immutable
  snapshot: stages extract records (artifacts, nodes, edges, evidence and so on) under a deterministic scheduler,
  the records form a bundle in a canonical form, the bundle is validated and its coverage counted, a
  transactional store publishes it, and bounded searches answer questions about its graph.

  Theories and what they model, bottom up.

  \<^item> \<open>Prelude\<close>, \<open>GoStrings\<close>, \<open>GoText\<close>, \<open>GoParse\<close>, \<open>Base64\<close>: results as sums with the error on the left, Go maps as association
    lists with distinct keys, sorted key lists, signed 64-bit integers, and what the code uses of the packages
    \<open>strings\<close>, \<open>strconv\<close>, \<open>path\<close>, \<open>bufio\<close>, \<open>unicode\<close>, \<open>encoding/base64\<close> and \<open>encoding/binary\<close>. Strings are byte lists.

  \<^item> The scheduler, \<open>internal/scheduler/dag.go\<close> and \<open>journal.go\<close>. \<open>SchedTypes\<close> has the records, \<open>StageGraph\<close> the
    recursive cycle search (its fuel is one more than the number of stages, shown to be enough), \<open>Dag\<close> every step of
    \<open>Execute\<close>: plan validation, admission under a resource budget in wrapping 64-bit arithmetic, cache consultation, the
    batch loop, events and journal records. Stage callbacks, cache, journal and clock are parameters that act on an
    abstract world. \<open>DagPlan\<close> shows what plan validation accepts, \<open>DagExec\<close> what a run guarantees,
    \<open>Journal\<close> models record validation and the lifecycle automaton, \<open>JournalLifecycle\<close> its safety,
    \<open>JournalFile\<close> appending under any operating-system failure and replay, and \<open>DagRuns\<close> that every
    interleaving of the goroutines of a run yields a journal the automaton accepts. The goroutines of one batch are
    interleaved step by step; a stage is started only once per run.

  \<^item> The canonical model, \<open>pkg/rkcmodel\<close>. \<open>Model\<close> has the records and vocabularies of \<open>model.go\<close> and
    \<open>vocabulary.go\<close>, \<open>Canonical\<close> identifiers and the canonical form of \<open>canonical.go\<close>, \<open>Validate\<close>
    the whole of \<open>ValidateBundle\<close>. \<open>ValidateSpec\<close> states declaratively what a valid bundle is, with one locale for
    record families that \<open>ValidateTheorems\<close> interprets for each of them, and proves that the code reports an error
    exactly on the bundles that are not valid. \<open>Coverage\<close> models \<open>BuildCoverage\<close> with ratios rounded to
    binary64; \<open>CoverageRatio\<close> and \<open>CoverageTheorems\<close> show what the ratios mean and that the order of the records
    does not matter.

  \<^item> The graph, \<open>internal/graph\<close>. \<open>Graph\<close> models the index and the bounded searches of \<open>index.go\<close>,
    \<open>GraphSearch\<close>, \<open>GraphLoops\<close> and \<open>GraphTheorems\<close> show that they find shortest routes, that a miss means what it
    says, and that they return within their limits (the loop terminates by the number of nodes not yet visited; the
    walk back has the number of recorded distances plus one as fuel). \<open>Counterfactual\<close> models \<open>counterfactual.go\<close>.
    \<open>Components\<close> models Tarjan's search for strongly connected components, whose fuel is the number of nodes and edges,
    \<open>ComponentsSearch\<close> has its invariant over the stack, and \<open>ComponentsTheorems\<close>, in the locale
    \<open>bounded_graph\<close> of graphs with finitely many identifiers, shows that the result is exactly the components.

  \<^item> The snapshot store, \<open>pkg/rkcstore\<close>. \<open>StoreTypes\<close> has errors, contexts, codecs and limits (\<open>errors.go\<close>,
    \<open>limits.go\<close>), \<open>Store\<close> the transactional operations of \<open>memory.go\<close>, one function from the store to the store and
    its result per operation, since a mutex makes each one a step. A context is the sequence of the results of its
    \<open>Err\<close> calls; the draws of build identifiers are a list, whose length is the fuel of that loop.
    \<open>StoreInvariant\<close> has the step relation of all operations and the four changes they consist of, and
    the locale \<open>build_family\<close>, interpreted for the nine record families. \<open>StoreHistory\<close> and \<open>StoreLimits\<close> prove
    the invariants of all runs. \<open>Cursor\<close> and \<open>StoreReader\<close> model \<open>cursor.go\<close>, \<open>query.go\<close> and
    \<open>memory_reader.go\<close>, \<open>StoreReading\<close> proves paging complete. \<open>StageBundle\<close> models \<open>bundle.go\<close>, whose
    halving of batches is a client of the locale \<open>batch_writer\<close>; every record family of the store is one by a
    sublocale. \<open>StorePublish\<close> composes beginning, staging, committing and reading into one round trip.

  \<^item> Merging and linking, \<open>internal/pipeline/pipeline.go\<close>. \<open>Merge\<close> models how the fragments of the stages are appended
    and deduplicated; \<open>MergeTheorems\<close> has the locale \<open>merging\<close>, interpreted for the nine record families.
    \<open>Resolve\<close> models the heuristic resolution of unresolved edges with its memoised scope search (a node being visited
    is not entered again, so the number of nodes not visited bounds the depth), and \<open>ResolveTheorems\<close> shows that
    the cache is invisible, that a redirected edge means what it says, and that linking keeps the graph closed.

  \<^item> Consumers of bundles. \<open>SemanticDiff\<close> models \<open>internal/semanticdiff/diff.go\<close>, \<open>SemanticDiffTheorems\<close> has the
    locale \<open>keyed_diff\<close> of a family compared by key. \<open>GraphPatch\<close> models \<open>pkg/graphpatch/graphpatch.go\<close>, and
    \<open>GraphPatchTheorems\<close> shows that applying a patch is a transaction. \<open>RecordIndex\<close> has the maps from keys to
    records that both and the linking use.

  \<^item> Runtime evidence, \<open>internal/runtime\<close>. \<open>RuntimeTrace\<close> models trace records, their validation, the registry of
    captures and content affinity (\<open>trace.go\<close>, \<open>affinity.go\<close>), \<open>RuntimeParse\<close> coverage profiles, test identities and
    the binding of coverage to the repository (\<open>parse.go\<close>, \<open>affinity.go\<close>), \<open>RuntimeImport\<close> and \<open>RuntimeDiff\<close> the import
    into a bundle and the difference report (\<open>import.go\<close>, \<open>diff.go\<close>). \<open>RuntimeSpans\<close> shows that bisection in merged
    intervals finds every executed range, \<open>RuntimeTheorems\<close> brings the loops of the import into closed form,
    \<open>RuntimeAssertions\<close> characterises accepted traces, \<open>RuntimeProperties\<close> and \<open>RuntimeAuthority\<close> prove what an import
    may say, \<open>RuntimeParseTheorems\<close> and \<open>RuntimeBinding\<close> that captured coverage is read and bound without loss. Running
    the command, Git, the JSON of test events and the reader of \<open>go.mod\<close> are outside: their results are arguments.

  The theories \<open>SchedulerWitnesses\<close>, \<open>GraphWitnesses\<close>, \<open>ValidateWitnesses\<close>, \<open>CoverageWitnesses\<close>,
  \<open>StoreWitnesses\<close>, \<open>PatchWitnesses\<close>, \<open>LinkWitnesses\<close>, \<open>RuntimeWitnesses\<close> and \<open>ComponentsWitnesses\<close> apply the properties to concrete plans, bundles and runs.

  Parameters. JSON encoding and decoding (as pairs of functions that may fail), SHA-256 and HMAC, random draws, clocks
  and formatted times, operating-system results, case folding outside ASCII, \<open>strconv.ParseFloat\<close>, and the canonical
  form of a repository origin (package \<open>sourceorigin\<close>). Where a property relies on them, the hypothesis names it:
  that a codec keeps the values at hand, or that case folding is stable.

  Not modelled: code that only moves data in or out (HTTP and MCP servers, the command line, exports, Git and GitHub
  access, files on disk, SQL), code over foreign syntax trees (language extractors, flow analysis, framework
  detection, document parsing), language-model runtimes, and the platform code of resource control. Nil and empty
  containers are identified, so that the checks of \<open>IsCanonicalDecodedBundle\<close> for that difference have no
  counterpart. The texts of wrapped errors of the standard library are opaque.
\<close>

end
